(* ===== verification/MW_Prelude.thy ===== *)
theory MW_Prelude
  imports Main "HOL-Library.Word"
begin

unbundle bit_operations_syntax

text \<open>
  The shared prelude of the development: the names of the machine integer types of the C++
  sources, the theorem collections the component proofs draw on, and generic facts on lists and
  words that several components need.  Nothing in this theory models a particular source file.
\<close>

section \<open>Types and collections\<close>

type_synonym u8 = "8 word"
type_synonym u16 = "16 word"
type_synonym u32 = "32 word"
type_synonym u64 = "64 word"

text \<open>The sources target 64-bit Linux: \<open>std::size_t\<close> is a 64-bit unsigned integer.\<close>

type_synonym size_t = "64 word"
type_synonym bytes = "8 word list"

text \<open>
  \<open>codec_simps\<close> collects the layout constants and the read-after-write facts that evaluate a
  decoder on an encoder's output; \<open>inv_intros\<close> and \<open>inv_dests\<close> collect introduction and
  destruction rules for the component invariants; \<open>frame_simps\<close> collects the facts saying which
  parts of a state an operation leaves alone.
\<close>

named_theorems codec_simps
named_theorems frame_simps
named_theorems inv_intros
named_theorems inv_dests

section \<open>Byte buffers: reading and writing at an offset\<close>

text \<open>
  The encoders of the sources fill a fixed-size array through pointers \<open>data() + offset\<close>, and
  the decoders read from such pointers.  \<open>write_at\<close> overwrites a run of bytes in place,
  \<open>read_at\<close> selects one.
\<close>

definition write_at :: "nat \<Rightarrow> bytes \<Rightarrow> bytes \<Rightarrow> bytes" where
  "write_at off bs buf = take off buf @ take (length buf - off) bs @ drop (off + length bs) buf"

definition read_at :: "nat \<Rightarrow> nat \<Rightarrow> bytes \<Rightarrow> bytes" where
  "read_at off n buf = take n (drop off buf)"

lemma length_write_at [simp, codec_simps]: "length (write_at off bs buf) = length buf"
  by (simp add: write_at_def)

lemma length_read_at [simp, codec_simps]:
  "off + n \<le> length buf \<Longrightarrow> length (read_at off n buf) = n"
  by (simp add: read_at_def)

lemma read_write_same [codec_simps]:
  "off + length bs \<le> length buf \<Longrightarrow> n = length bs \<Longrightarrow> read_at off n (write_at off bs buf) = bs"
  by (simp add: read_at_def write_at_def)

lemma take_write_at:
  "k \<le> off \<Longrightarrow> take k (write_at off bs buf) = take k buf"
  by (simp add: write_at_def min_def)

lemma drop_write_at [codec_simps]:
  "off + length bs \<le> k \<Longrightarrow> drop k (write_at off bs buf) = drop k buf"
  by (auto simp add: write_at_def min_def add.commute)

lemma read_write_below [codec_simps]:
  assumes "off + n \<le> off'"
  shows "read_at off n (write_at off' bs buf) = read_at off n buf"
proof -
  have "take (n + off) (write_at off' bs buf) = take (n + off) buf"
    using assms by (simp add: take_write_at)
  then show ?thesis by (simp add: read_at_def take_drop del: drop_take)
qed

lemma read_write_above [codec_simps]:
  "off' + length bs \<le> off \<Longrightarrow> read_at off n (write_at off' bs buf) = read_at off n buf"
  by (simp add: read_at_def drop_write_at)

lemma write_read_same:
  "off + n \<le> length buf \<Longrightarrow> write_at off (read_at off n buf) buf = buf"
  by (simp add: write_at_def read_at_def min_def)
    (metis append_take_drop_id drop_drop add.commute)

section \<open>Lists as vectors\<close>

lemma list_all_replicate [simp, codec_simps]:
  "list_all P (replicate n x) \<longleftrightarrow> n = 0 \<or> P x"
  by (induction n) auto

lemma distinct_last_butlast:
  "xs \<noteq> [] \<Longrightarrow> distinct xs \<Longrightarrow> set (butlast xs) = set xs - {last xs}"
  by (cases xs rule: rev_cases) auto

lemma last_notin_butlast: "xs \<noteq> [] \<Longrightarrow> distinct xs \<Longrightarrow> last xs \<notin> set (butlast xs)"
  by (simp add: distinct_last_butlast)

section \<open>Words\<close>

lemma unat_add_no_wrap:
  "unat (a :: 'a::len word) + unat b < 2 ^ LENGTH('a) \<Longrightarrow> unat (a + b) = unat a + unat b"
  by (simp add: unat_word_ariths)

lemma unat_Suc_no_wrap:
  "(a :: 'a::len word) \<noteq> - 1 \<Longrightarrow> unat (a + 1) = Suc (unat a)"
proof -
  assume "a \<noteq> - 1"
  then have "1 + a \<noteq> 0" by (metis add_eq_0_iff)
  then have "unat (1 + a) = Suc (unat a)" by (rule unatSuc)
  then show ?thesis by (simp add: add.commute)
qed

lemma unat_ucast_up [simp]:
  "LENGTH('a::len) \<le> LENGTH('b::len) \<Longrightarrow> unat (ucast (x :: 'a word) :: 'b word) = unat x"
proof -
  assume "LENGTH('a) \<le> LENGTH('b)"
  then have "unat x < 2 ^ LENGTH('b)"
    using unsigned_less [of x] by (meson less_le_trans one_le_numeral power_increasing)
  then show ?thesis by (simp add: unsigned_ucast_eq take_bit_nat_eq_self)
qed

lemma unat_u64: "unat (x :: u64) < 18446744073709551616"
  by (rule order_less_le_trans [OF unsigned_less]) simp

lemma unat_u32: "unat (x :: u32) < 4294967296"
  by (rule order_less_le_trans [OF unsigned_less]) simp

lemma unat_of_nat_u64 [simp]: "n < 18446744073709551616 \<Longrightarrow> unat (word_of_nat n :: u64) = n"
  by (simp add: unsigned_of_nat take_bit_nat_eq_self)

lemma unat_of_nat_u32 [simp]: "n < 4294967296 \<Longrightarrow> unat (word_of_nat n :: u32) = n"
  by (simp add: unsigned_of_nat take_bit_nat_eq_self)

lemma unat_ucast_u64_u32: "unat (x :: u64) < 4294967296 \<Longrightarrow> unat (ucast x :: u32) = unat x"
  by (simp add: unsigned_ucast_eq take_bit_nat_eq_self)

end

