(* ===== verification/MW_Bytes.thy ===== *)
theory MW_Bytes
  imports MW_Prelude
begin

unbundle bit_operations_syntax

text \<open>
  Big-endian integer fields.  Every protocol source under \<open>src/middleware/src/detail/\<close> carries
  its own copy of the two function templates \<open>encodeBigEndian\<close> and \<open>decodeBigEndian\<close>
  (\<open>frame_protocol.cpp\<close>, \<open>shm_protocol.cpp\<close>, \<open>pool_protocol.cpp\<close>,
  \<open>queue_protocol.cpp\<close>, \<open>memory_pool.cpp\<close>); the copies are identical, and one definition,
  polymorphic in the width of the integer, models them all.  The theory proves that the two
  functions are mutually inverse, packages that as the interface \<open>field_codec\<close>, and derives
  what a read at one offset of a buffer sees after a write at another.
\<close>

section \<open>The two templates\<close>

definition encodeBigEndian :: "'a::len word \<Rightarrow> bytes" where
  "encodeBigEndian value =
     map (\<lambda>index. ucast (drop_bit ((LENGTH('a) div 8 - index - 1) * 8) value))
       [0..<LENGTH('a) div 8]"

definition decodeBigEndian :: "bytes \<Rightarrow> 'a::len word" where
  "decodeBigEndian input = foldl (\<lambda>value byte. push_bit 8 value OR ucast byte) 0 input"

text \<open>The same templates applied at \<open>data + offset\<close> of a buffer.\<close>

definition put_be :: "nat \<Rightarrow> 'a::len word \<Rightarrow> bytes \<Rightarrow> bytes" where
  "put_be off value buf = write_at off (encodeBigEndian value) buf"

definition get_be :: "nat \<Rightarrow> bytes \<Rightarrow> 'a::len word" where
  "get_be off data = decodeBigEndian (read_at off (LENGTH('a) div 8) data)"

section \<open>The templates are mutually inverse\<close>

lemma bit_decode_step:
  "bit (push_bit 8 (v :: 'a::len word) OR ucast (b :: u8)) n \<longleftrightarrow>
     n < LENGTH('a) \<and> (if n < 8 then bit b n else bit v (n - 8))"
  by (auto simp: bit_simps dest: bit_imp_le_length)

lemma bit_decodeBigEndian:
  "bit (decodeBigEndian bs :: 'a::len word) n \<longleftrightarrow>
     n < LENGTH('a) \<and> n < 8 * length bs \<and> bit (bs ! (length bs - 1 - n div 8)) (n mod 8)"
proof (induction bs arbitrary: n rule: rev_induct)
  case Nil
  then show ?case by (simp add: decodeBigEndian_def)
next
  case (snoc b bs)
  have dec: "(decodeBigEndian (bs @ [b]) :: 'a word) = push_bit 8 (decodeBigEndian bs) OR ucast b"
    by (simp add: decodeBigEndian_def)
  show ?case
  proof (cases "n < 8")
    case True
    then show ?thesis by (simp add: dec bit_decode_step nth_append)
  next
    case False
    define m where "m = n - 8"
    have n: "n = m + 8" using False m_def by simp
    have "(bs @ [b]) ! (length bs - n div 8) = bs ! (length bs - 1 - m div 8)"
      if "m < 8 * length bs"
    proof -
      have "m div 8 < length bs" using that by (simp add: less_mult_imp_div_less mult.commute)
      moreover have "n div 8 = Suc (m div 8)" by (simp add: n)
      ultimately show ?thesis by (auto simp: nth_append)
    qed
    then show ?thesis
      by (auto simp add: dec bit_decode_step snoc.IH n)
  qed
qed

lemma length_encodeBigEndian [simp, codec_simps]:
  "length (encodeBigEndian (v :: 'a::len word)) = LENGTH('a) div 8"
  by (simp add: encodeBigEndian_def)

lemma decode_encodeBigEndian:
  assumes "8 dvd LENGTH('a::len)"
  shows "decodeBigEndian (encodeBigEndian (v :: 'a word)) = v"
proof (rule bit_word_eqI)
  fix n assume n: "n < LENGTH('a)"
  obtain k where k: "LENGTH('a) = 8 * k" using assms by (auto elim: dvdE)
  then have lt: "n div 8 < k" using n by (simp add: less_mult_imp_div_less mult.commute)
  then have "encodeBigEndian v ! (k - 1 - n div 8) = ucast (drop_bit (n div 8 * 8) v)"
    by (simp add: encodeBigEndian_def k)
  then show "bit (decodeBigEndian (encodeBigEndian v) :: 'a word) n = bit v n"
    using n lt by (simp add: bit_decodeBigEndian k bit_simps)
qed

lemma encode_decodeBigEndian:
  assumes len: "LENGTH('a::len) = 8 * length bs"
  shows "encodeBigEndian (decodeBigEndian bs :: 'a word) = bs"
proof (rule nth_equalityI)
  show "length (encodeBigEndian (decodeBigEndian bs :: 'a word)) = length bs" using len by simp
  fix i assume "i < length (encodeBigEndian (decodeBigEndian bs :: 'a word))"
  then have i: "i < length bs" using len by simp
  show "encodeBigEndian (decodeBigEndian bs :: 'a word) ! i = bs ! i"
  proof (rule bit_word_eqI)
    fix n assume n: "n < LENGTH(8)"
    define j where "j = length bs - i - 1"
    have j: "j < length bs" "length bs - 1 - j = i" "length bs - Suc i = j"
      using i by (auto simp: j_def)
    have "(j * 8 + n) div 8 = j" "(j * 8 + n) mod 8 = n" "j * 8 + n < 8 * length bs"
      using n j by auto
    then show "bit (encodeBigEndian (decodeBigEndian bs :: 'a word) ! i) n = bit (bs ! i) n"
      using i n j by (simp add: encodeBigEndian_def len bit_simps bit_decodeBigEndian)
  qed
qed

section \<open>The field interface\<close>

text \<open>
  What the message codecs rely on: a field has a fixed width, decoding returns the encoded value,
  and every byte string of that width is the encoding of what it decodes to.
\<close>

locale field_codec =
  fixes enc :: "'v \<Rightarrow> bytes" and dec :: "bytes \<Rightarrow> 'v" and width :: nat
  assumes enc_length: "length (enc v) = width"
    and dec_enc: "dec (enc v) = v"
    and enc_dec: "length bs = width \<Longrightarrow> enc (dec bs) = bs"
begin

lemma enc_inj: "enc v = enc w \<longleftrightarrow> v = w"
  by (metis dec_enc)

lemma enc_append_inj: "enc v @ xs = enc w @ ys \<longleftrightarrow> v = w \<and> xs = ys"
  by (metis append_eq_append_conv enc_inj enc_length)

lemma read_after_write:
  "off + width \<le> length buf \<Longrightarrow> dec (read_at off width (write_at off (enc v) buf)) = v"
  by (simp add: read_write_same enc_length dec_enc)

lemma write_after_read:
  "off + width \<le> length buf \<Longrightarrow> write_at off (enc (dec (read_at off width buf))) buf = buf"
  by (simp add: enc_dec write_read_same)

end

interpretation be16: field_codec "encodeBigEndian :: u16 \<Rightarrow> bytes" decodeBigEndian 2
  by unfold_locales (simp_all add: decode_encodeBigEndian encode_decodeBigEndian)

interpretation be32: field_codec "encodeBigEndian :: u32 \<Rightarrow> bytes" decodeBigEndian 4
  by unfold_locales (simp_all add: decode_encodeBigEndian encode_decodeBigEndian)

interpretation be64: field_codec "encodeBigEndian :: u64 \<Rightarrow> bytes" decodeBigEndian 8
  by unfold_locales (simp_all add: decode_encodeBigEndian encode_decodeBigEndian)

section \<open>Fields of a buffer\<close>

lemma length_put_be [simp, codec_simps]: "length (put_be off v buf) = length buf"
  by (simp add: put_be_def)

lemma get_put_same [codec_simps]:
  "8 dvd LENGTH('a::len) \<Longrightarrow> off + LENGTH('a) div 8 \<le> length buf \<Longrightarrow>
     get_be off (put_be off (v :: 'a word) buf) = v"
  by (simp add: get_be_def put_be_def read_write_same decode_encodeBigEndian)

lemma get_put_below [codec_simps]:
  "off + LENGTH('b::len) div 8 \<le> off' \<Longrightarrow>
     (get_be off (put_be off' v buf) :: 'b word) = get_be off buf"
  by (simp add: get_be_def put_be_def read_write_below)

lemma get_put_above [codec_simps]:
  "off' + LENGTH('a::len) div 8 \<le> off \<Longrightarrow>
     get_be off (put_be off' (v :: 'a word) buf) = get_be off buf"
  by (simp add: get_be_def put_be_def read_write_above)

lemma get_write_below [codec_simps]:
  "off + LENGTH('b::len) div 8 \<le> off' \<Longrightarrow>
     (get_be off (write_at off' bs buf) :: 'b word) = get_be off buf"
  by (simp add: get_be_def read_write_below)

lemma get_write_above [codec_simps]:
  "off' + length bs \<le> off \<Longrightarrow> get_be off (write_at off' bs buf) = get_be off buf"
  by (simp add: get_be_def read_write_above)

lemma read_put_below [codec_simps]:
  "off + n \<le> off' \<Longrightarrow> read_at off n (put_be off' v buf) = read_at off n buf"
  by (simp add: put_be_def read_write_below)

lemma read_put_above [codec_simps]:
  "off' + LENGTH('a::len) div 8 \<le> off \<Longrightarrow>
     read_at off n (put_be off' (v :: 'a word) buf) = read_at off n buf"
  by (simp add: put_be_def read_write_above)

lemma drop_put_be [codec_simps]:
  "off + LENGTH('a::len) div 8 \<le> k \<Longrightarrow> drop k (put_be off (v :: 'a word) buf) = drop k buf"
  by (simp add: put_be_def drop_write_at)

section \<open>Characters and bytes\<close>

text \<open>
  \<open>std::string\<close> is a sequence of 8-bit characters: the codecs copy characters to bytes and back
  with \<open>std::copy\<close> and \<open>reinterpret_cast<const char*>\<close>.
\<close>

definition byte_of_char :: "char \<Rightarrow> u8" where
  "byte_of_char c = word_of_nat (of_char c)"

definition char_of_byte :: "u8 \<Rightarrow> char" where
  "char_of_byte b = char_of (unat b)"

definition bytes_of_string :: "string \<Rightarrow> bytes" where
  "bytes_of_string s = map byte_of_char s"

definition string_of_bytes :: "bytes \<Rightarrow> string" where
  "string_of_bytes bs = map char_of_byte bs"

lemma char_of_byte_of_char [simp]: "char_of_byte (byte_of_char c) = c"
proof -
  have "unat (word_of_nat (of_char c) :: u8) = of_char c mod 256"
    by (simp add: unsigned_of_nat take_bit_eq_mod)
  then show ?thesis by (simp add: char_of_byte_def byte_of_char_def)
qed

lemma byte_of_char_of_byte [simp]: "byte_of_char (char_of_byte b) = b"
proof -
  have "unat b < 256" using unsigned_less [of b] by simp
  then show ?thesis by (simp add: char_of_byte_def byte_of_char_def)
qed

lemma length_bytes_of_string [simp, codec_simps]: "length (bytes_of_string s) = length s"
  by (simp add: bytes_of_string_def)

lemma length_string_of_bytes [simp, codec_simps]: "length (string_of_bytes bs) = length bs"
  by (simp add: string_of_bytes_def)

lemma string_of_bytes_of_string [simp, codec_simps]: "string_of_bytes (bytes_of_string s) = s"
  by (simp add: string_of_bytes_def bytes_of_string_def comp_def)

lemma bytes_of_string_of_bytes [simp, codec_simps]: "bytes_of_string (string_of_bytes bs) = bs"
  by (simp add: string_of_bytes_def bytes_of_string_def comp_def)

section \<open>Fixed-size messages\<close>

text \<open>
  A stream socket delivers the fixed-size messages of a peer back to back; \<open>frames\<close> cuts a byte
  string into the pieces of the message size the receivers collect.
\<close>

function frames :: "nat \<Rightarrow> bytes \<Rightarrow> bytes list" where
  "frames n bs = (if n = 0 \<or> length bs < n then [] else take n bs # frames n (drop n bs))"
  by pat_completeness auto
termination by (relation "measure (\<lambda>(n, bs). length bs)") auto

declare frames.simps [simp del]

lemma frames_append:
  "0 < n \<Longrightarrow> length b = n \<Longrightarrow> frames n (b @ bs) = b # frames n bs"
  by (subst frames.simps) simp

lemma frames_concat:
  "0 < n \<Longrightarrow> \<forall>b \<in> set bss. length b = n \<Longrightarrow> frames n (concat bss) = bss"
proof (induction bss)
  case Nil
  then show ?case by (simp add: frames.simps)
next
  case (Cons b bss)
  then show ?case by (simp add: frames_append)
qed

text \<open>
  The interface of a message codec: an encoder that may refuse a message, a decoder that accepts
  only byte strings of the message size, and the law that an accepted message comes back.
\<close>

locale message_codec =
  fixes enc :: "'m \<Rightarrow> bytes option" and dec :: "bytes \<Rightarrow> 'm option" and size :: nat
    and good :: "'m \<Rightarrow> bool"
  assumes enc_size: "enc m = Some bs \<Longrightarrow> length bs = size"
    and dec_size: "dec bs = Some m \<Longrightarrow> length bs = size"
    and enc_good: "good m \<Longrightarrow> \<exists>bs. enc m = Some bs"
    and dec_enc: "good m \<Longrightarrow> enc m = Some bs \<Longrightarrow> dec bs = Some m"
    and size_pos: "0 < size"
begin

lemma enc_inj: "good m \<Longrightarrow> good m' \<Longrightarrow> enc m = enc m' \<longleftrightarrow> m = m'"
  using enc_good dec_enc by (metis option.inject)

lemma round_trip: "good m \<Longrightarrow> Option.bind (enc m) dec = Some m"
  using enc_good dec_enc by fastforce

lemma stream_round_trip:
  assumes "\<forall>m \<in> set ms. good m"
  shows "map dec (frames size (concat (map (the \<circ> enc) ms))) = map Some ms"
proof -
  have enc: "\<exists>bs. enc m = Some bs \<and> length bs = size \<and> dec bs = Some m" if "m \<in> set ms" for m
    using assms that enc_good enc_size dec_enc by blast
  then have "frames size (concat (map (the \<circ> enc) ms)) = map (the \<circ> enc) ms"
    using size_pos by (intro frames_concat) fastforce+
  moreover have "dec (the (enc m)) = Some m" if "m \<in> set ms" for m
    using enc [OF that] by auto
  ultimately show ?thesis by simp
qed

lemma decoded_message_size: "dec bs = Some m \<Longrightarrow> enc m = Some bs' \<Longrightarrow> length bs' = length bs"
  using enc_size dec_size by metis

end

end
