(* ===== verification/MW_Config.thy ===== *)
theory MW_Config
  imports MW_Bytes
begin

text \<open>
  The public vocabulary of the middleware: \<open>ErrorCode\<close> and \<open>PublishResult\<close> of
  \<open>include/mw/result.hpp\<close>, and the enumerations and configuration records of
  \<open>include/mw/config.hpp\<close>, with the name functions of \<open>publisher.cpp\<close>.  The
  enumerations have the underlying type \<open>std::uint16_t\<close>: a \<open>static_cast\<close> of any 16-bit
  value read from a peer is a value of the enumeration, listed or not.  Each of them therefore has
  one constructor per enumerator and one constructor \<open>...Cast\<close> for the unlisted values.
\<close>

section \<open>Enumerations with a wire representation\<close>

text \<open>
  The interface of a wire enumeration: the cast to \<open>std::uint16_t\<close>, the cast back, and the
  listed enumerators.  Casting back and forth loses nothing.
\<close>

locale wire_enum =
  fixes value_of :: "'e \<Rightarrow> u16" and cast_of :: "u16 \<Rightarrow> 'e" and listed :: "'e \<Rightarrow> bool"
  assumes value_cast: "value_of (cast_of x) = x"
    and cast_value: "listed e \<Longrightarrow> cast_of (value_of e) = e"
begin

lemma value_inj: "listed e \<Longrightarrow> listed e' \<Longrightarrow> value_of e = value_of e' \<Longrightarrow> e = e'"
  by (metis cast_value)

lemma cast_inj: "cast_of x = cast_of y \<longleftrightarrow> x = y"
  by (metis value_cast)

lemma cast_eq_iff: "listed e \<Longrightarrow> cast_of x = e \<longleftrightarrow> x = value_of e"
  by (metis cast_value value_cast)

lemma field_round_trip:
  "listed e \<Longrightarrow> cast_of (decodeBigEndian (encodeBigEndian (value_of e))) = e"
  by (simp add: be16.dec_enc cast_value)

end

subsection \<open>Error codes\<close>

datatype ErrorCode =
    Ok | InvalidArgument | InvalidState | MessageTooLarge
  | ConnectionLost | IoError | Timeout | InvalidFrame
  | RegistryUnavailable | DuplicateNode | DuplicatePublisher | TypeMismatch
  | TopicNotFound | InvalidControlMessage | UnsupportedProtocolVersion | UnknownOpcode
  | InvalidRequestId | NotRegistered | EndpointNotFound | TransportMismatch
  | SharedMemoryError | SharedMemoryNotFound | InvalidSharedMemory | CleanupFailed
  | PoolExhausted | InvalidChunkHandle | DuplicateRelease | QueueFull
  | QueueTimeout | QueueClosed | UnsupportedTransport
  | ErrorCodeCast u16

fun errorCodeValue :: "ErrorCode \<Rightarrow> u16" where
  "errorCodeValue Ok = 0"
| "errorCodeValue InvalidArgument = 1"
| "errorCodeValue InvalidState = 2"
| "errorCodeValue MessageTooLarge = 3"
| "errorCodeValue ConnectionLost = 4"
| "errorCodeValue IoError = 5"
| "errorCodeValue Timeout = 6"
| "errorCodeValue InvalidFrame = 7"
| "errorCodeValue RegistryUnavailable = 8"
| "errorCodeValue DuplicateNode = 9"
| "errorCodeValue DuplicatePublisher = 10"
| "errorCodeValue TypeMismatch = 11"
| "errorCodeValue TopicNotFound = 12"
| "errorCodeValue InvalidControlMessage = 13"
| "errorCodeValue UnsupportedProtocolVersion = 14"
| "errorCodeValue UnknownOpcode = 15"
| "errorCodeValue InvalidRequestId = 16"
| "errorCodeValue NotRegistered = 17"
| "errorCodeValue EndpointNotFound = 18"
| "errorCodeValue TransportMismatch = 19"
| "errorCodeValue SharedMemoryError = 20"
| "errorCodeValue SharedMemoryNotFound = 21"
| "errorCodeValue InvalidSharedMemory = 22"
| "errorCodeValue CleanupFailed = 23"
| "errorCodeValue PoolExhausted = 24"
| "errorCodeValue InvalidChunkHandle = 25"
| "errorCodeValue DuplicateRelease = 26"
| "errorCodeValue QueueFull = 27"
| "errorCodeValue QueueTimeout = 28"
| "errorCodeValue QueueClosed = 29"
| "errorCodeValue UnsupportedTransport = 30"
| "errorCodeValue (ErrorCodeCast x) = x"

definition errorCodeCastOf :: "u16 \<Rightarrow> ErrorCode" where
  "errorCodeCastOf x =
    (if x = 0 then Ok
     else if x = 1 then InvalidArgument
     else if x = 2 then InvalidState
     else if x = 3 then MessageTooLarge
     else if x = 4 then ConnectionLost
     else if x = 5 then IoError
     else if x = 6 then Timeout
     else if x = 7 then InvalidFrame
     else if x = 8 then RegistryUnavailable
     else if x = 9 then DuplicateNode
     else if x = 10 then DuplicatePublisher
     else if x = 11 then TypeMismatch
     else if x = 12 then TopicNotFound
     else if x = 13 then InvalidControlMessage
     else if x = 14 then UnsupportedProtocolVersion
     else if x = 15 then UnknownOpcode
     else if x = 16 then InvalidRequestId
     else if x = 17 then NotRegistered
     else if x = 18 then EndpointNotFound
     else if x = 19 then TransportMismatch
     else if x = 20 then SharedMemoryError
     else if x = 21 then SharedMemoryNotFound
     else if x = 22 then InvalidSharedMemory
     else if x = 23 then CleanupFailed
     else if x = 24 then PoolExhausted
     else if x = 25 then InvalidChunkHandle
     else if x = 26 then DuplicateRelease
     else if x = 27 then QueueFull
     else if x = 28 then QueueTimeout
     else if x = 29 then QueueClosed
     else if x = 30 then UnsupportedTransport
     else ErrorCodeCast x)"

fun errorCodeListed :: "ErrorCode \<Rightarrow> bool" where
  "errorCodeListed (ErrorCodeCast _) = False"
| "errorCodeListed _ = True"

interpretation error_code: wire_enum errorCodeValue errorCodeCastOf errorCodeListed
proof unfold_locales
  show "errorCodeValue (errorCodeCastOf x) = x" for x by (simp add: errorCodeCastOf_def)
  show "errorCodeCastOf (errorCodeValue e) = e" if "errorCodeListed e" for e
    using that by (cases e) (simp_all add: errorCodeCastOf_def)
qed

text \<open>\<open>errorMessage\<close> of \<open>publisher.cpp\<close>.\<close>

fun errorMessage :: "ErrorCode \<Rightarrow> string" where
  "errorMessage Ok = ''ok''"
| "errorMessage InvalidArgument = ''invalid argument''"
| "errorMessage InvalidState = ''invalid state''"
| "errorMessage MessageTooLarge = ''message too large''"
| "errorMessage ConnectionLost = ''connection lost''"
| "errorMessage IoError = ''I/O error''"
| "errorMessage Timeout = ''timeout''"
| "errorMessage InvalidFrame = ''invalid frame''"
| "errorMessage RegistryUnavailable = ''registry unavailable''"
| "errorMessage DuplicateNode = ''duplicate node''"
| "errorMessage DuplicatePublisher = ''duplicate publisher''"
| "errorMessage TypeMismatch = ''type mismatch''"
| "errorMessage TopicNotFound = ''topic not found''"
| "errorMessage InvalidControlMessage = ''invalid control message''"
| "errorMessage UnsupportedProtocolVersion = ''unsupported protocol version''"
| "errorMessage UnknownOpcode = ''unknown opcode''"
| "errorMessage InvalidRequestId = ''invalid request ID''"
| "errorMessage NotRegistered = ''not registered''"
| "errorMessage EndpointNotFound = ''endpoint not found''"
| "errorMessage TransportMismatch = ''transport mismatch''"
| "errorMessage SharedMemoryError = ''shared memory error''"
| "errorMessage SharedMemoryNotFound = ''shared memory object not found''"
| "errorMessage InvalidSharedMemory = ''invalid shared memory object''"
| "errorMessage CleanupFailed = ''resource cleanup failed''"
| "errorMessage PoolExhausted = ''memory pool exhausted''"
| "errorMessage InvalidChunkHandle = ''invalid chunk handle''"
| "errorMessage DuplicateRelease = ''duplicate chunk release''"
| "errorMessage QueueFull = ''subscriber queue full''"
| "errorMessage QueueTimeout = ''subscriber queue wait timed out''"
| "errorMessage QueueClosed = ''subscriber queue closed''"
| "errorMessage UnsupportedTransport = ''operation is unsupported by this transport''"
| "errorMessage (ErrorCodeCast _) = ''unknown error''"

subsection \<open>Transports, overflow policies, liveness states\<close>

datatype TransportType =
    UnixDomainSocket | SharedMemory
  | TransportCast u16

fun transportValue :: "TransportType \<Rightarrow> u16" where
  "transportValue UnixDomainSocket = 1"
| "transportValue SharedMemory = 2"
| "transportValue (TransportCast x) = x"

definition transportCastOf :: "u16 \<Rightarrow> TransportType" where
  "transportCastOf x =
    (if x = 1 then UnixDomainSocket
     else if x = 2 then SharedMemory
     else TransportCast x)"

fun transportListed :: "TransportType \<Rightarrow> bool" where
  "transportListed (TransportCast _) = False"
| "transportListed _ = True"

interpretation transport_type: wire_enum transportValue transportCastOf transportListed
proof unfold_locales
  show "transportValue (transportCastOf x) = x" for x by (simp add: transportCastOf_def)
  show "transportCastOf (transportValue e) = e" if "transportListed e" for e
    using that by (cases e) (simp_all add: transportCastOf_def)
qed


datatype OverflowPolicy =
    DropNewest | DropOldest | BlockWithTimeout
  | OverflowCast u16

fun overflowPolicyValue :: "OverflowPolicy \<Rightarrow> u16" where
  "overflowPolicyValue DropNewest = 1"
| "overflowPolicyValue DropOldest = 2"
| "overflowPolicyValue BlockWithTimeout = 3"
| "overflowPolicyValue (OverflowCast x) = x"

definition overflowPolicyCastOf :: "u16 \<Rightarrow> OverflowPolicy" where
  "overflowPolicyCastOf x =
    (if x = 1 then DropNewest
     else if x = 2 then DropOldest
     else if x = 3 then BlockWithTimeout
     else OverflowCast x)"

fun overflowPolicyListed :: "OverflowPolicy \<Rightarrow> bool" where
  "overflowPolicyListed (OverflowCast _) = False"
| "overflowPolicyListed _ = True"

interpretation overflow_policy: wire_enum overflowPolicyValue overflowPolicyCastOf overflowPolicyListed
proof unfold_locales
  show "overflowPolicyValue (overflowPolicyCastOf x) = x" for x by (simp add: overflowPolicyCastOf_def)
  show "overflowPolicyCastOf (overflowPolicyValue e) = e" if "overflowPolicyListed e" for e
    using that by (cases e) (simp_all add: overflowPolicyCastOf_def)
qed


datatype LivenessState =
    Alive | Suspected | Dead
  | LivenessCast u16

fun livenessValue :: "LivenessState \<Rightarrow> u16" where
  "livenessValue Alive = 1"
| "livenessValue Suspected = 2"
| "livenessValue Dead = 3"
| "livenessValue (LivenessCast x) = x"

definition livenessCastOf :: "u16 \<Rightarrow> LivenessState" where
  "livenessCastOf x =
    (if x = 1 then Alive
     else if x = 2 then Suspected
     else if x = 3 then Dead
     else LivenessCast x)"

fun livenessListed :: "LivenessState \<Rightarrow> bool" where
  "livenessListed (LivenessCast _) = False"
| "livenessListed _ = True"

interpretation liveness_state: wire_enum livenessValue livenessCastOf livenessListed
proof unfold_locales
  show "livenessValue (livenessCastOf x) = x" for x by (simp add: livenessCastOf_def)
  show "livenessCastOf (livenessValue e) = e" if "livenessListed e" for e
    using that by (cases e) (simp_all add: livenessCastOf_def)
qed

fun transportTypeName :: "TransportType \<Rightarrow> string" where
  "transportTypeName UnixDomainSocket = ''uds''"
| "transportTypeName SharedMemory = ''shm''"
| "transportTypeName (TransportCast _) = ''unknown''"

fun overflowPolicyName :: "OverflowPolicy \<Rightarrow> string" where
  "overflowPolicyName DropNewest = ''drop_newest''"
| "overflowPolicyName DropOldest = ''drop_oldest''"
| "overflowPolicyName BlockWithTimeout = ''block_with_timeout''"
| "overflowPolicyName (OverflowCast _) = ''unknown''"

fun livenessStateName :: "LivenessState \<Rightarrow> string" where
  "livenessStateName Alive = ''ALIVE''"
| "livenessStateName Suspected = ''SUSPECTED''"
| "livenessStateName Dead = ''DEAD''"
| "livenessStateName (LivenessCast _) = ''UNKNOWN''"

section \<open>Configuration records\<close>

text \<open>
  \<open>std::chrono::milliseconds\<close> counts are signed; they are modelled by \<open>int\<close>.  The default
  member initialisers are the \<open>default...\<close> records.
\<close>

definition kDefaultMaxMessageSize :: size_t where
  "kDefaultMaxMessageSize = 4 * 1024 * 1024"

record LivenessConfig =
  heartbeat_interval :: int
  suspect_timeout :: int
  dead_timeout :: int

definition defaultLivenessConfig :: LivenessConfig where
  "defaultLivenessConfig =
     \<lparr>heartbeat_interval = 250, suspect_timeout = 750, dead_timeout = 1500\<rparr>"

definition validLivenessConfig :: "LivenessConfig \<Rightarrow> bool" where
  "validLivenessConfig config \<longleftrightarrow>
     0 < heartbeat_interval config \<and>
     heartbeat_interval config < suspect_timeout config \<and>
     suspect_timeout config < dead_timeout config"

record MemoryPoolClassConfig =
  cc_chunk_size :: size_t
  cc_chunk_count :: u32

type_synonym MemoryPoolConfig = "MemoryPoolClassConfig list"

definition defaultMemoryPoolConfig :: MemoryPoolConfig where
  "defaultMemoryPoolConfig =
     [\<lparr>cc_chunk_size = 256, cc_chunk_count = 32\<rparr>,
      \<lparr>cc_chunk_size = 4 * 1024, cc_chunk_count = 16\<rparr>,
      \<lparr>cc_chunk_size = 64 * 1024, cc_chunk_count = 8\<rparr>,
      \<lparr>cc_chunk_size = 1024 * 1024, cc_chunk_count = 4\<rparr>,
      \<lparr>cc_chunk_size = 4 * 1024 * 1024, cc_chunk_count = 2\<rparr>]"

record PublisherConfig =
  pc_socket_path :: string
  pc_max_message_size :: size_t
  pc_type_name :: string
  pc_type_hash :: string
  pc_transport :: TransportType
  pc_shm_ack_timeout :: int
  pc_memory_pool :: MemoryPoolConfig

definition defaultPublisherConfig :: PublisherConfig where
  "defaultPublisherConfig =
     \<lparr>pc_socket_path = [], pc_max_message_size = kDefaultMaxMessageSize,
      pc_type_name = ''mw.raw'', pc_type_hash = ''mw.raw.v1'',
      pc_transport = UnixDomainSocket, pc_shm_ack_timeout = 5000,
      pc_memory_pool = defaultMemoryPoolConfig\<rparr>"

record SubscriberConfig =
  sc_socket_path :: string
  sc_max_message_size :: size_t
  sc_type_name :: string
  sc_type_hash :: string
  sc_transport :: TransportType
  sc_queue_depth :: u32
  sc_overflow_policy :: OverflowPolicy
  sc_block_timeout :: int

definition defaultSubscriberConfig :: SubscriberConfig where
  "defaultSubscriberConfig =
     \<lparr>sc_socket_path = [], sc_max_message_size = kDefaultMaxMessageSize,
      sc_type_name = ''mw.raw'', sc_type_hash = ''mw.raw.v1'',
      sc_transport = UnixDomainSocket, sc_queue_depth = 8,
      sc_overflow_policy = DropOldest, sc_block_timeout = 100\<rparr>"

record RegistryConfig =
  rc_socket_path :: string
  rc_request_timeout :: int
  rc_liveness :: LivenessConfig

definition defaultRegistryConfig :: RegistryConfig where
  "defaultRegistryConfig =
     \<lparr>rc_socket_path = ''/tmp/mw_registry.sock'', rc_request_timeout = 2000,
      rc_liveness = defaultLivenessConfig\<rparr>"

section \<open>Publish results\<close>

record PublishResult =
  pr_error :: ErrorCode
  pr_sequence :: u64
  pr_payload_size :: size_t
  pr_enqueued :: u32
  pr_dropped_newest :: u32
  pr_dropped_oldest :: u32
  pr_block_timeouts :: u32
  pr_blocked_count :: u32
  pr_blocked_time_ns :: u64

definition publishResult :: "ErrorCode \<Rightarrow> u64 \<Rightarrow> size_t \<Rightarrow> PublishResult" where
  "publishResult error sequence payload_size =
     \<lparr>pr_error = error, pr_sequence = sequence, pr_payload_size = payload_size,
      pr_enqueued = 0, pr_dropped_newest = 0, pr_dropped_oldest = 0, pr_block_timeouts = 0,
      pr_blocked_count = 0, pr_blocked_time_ns = 0\<rparr>"

section \<open>Facts\<close>

lemma default_liveness_valid: "validLivenessConfig defaultLivenessConfig"
  by (simp add: validLivenessConfig_def defaultLivenessConfig_def)

lemma error_code_value_bound: "errorCodeListed e \<Longrightarrow> errorCodeValue e \<le> 30"
  by (cases e) simp_all

end
