(* ===== verification/MW_Shared_Memory.thy ===== *)
theory MW_Shared_Memory
  imports MW_Config
begin

text \<open>
  POSIX shared memory objects: \<open>src/middleware/src/detail/shared_memory.cpp\<close>.  The kernel side
  is the record \<open>ShmOs\<close> (which names exist and with what size, which descriptors are open, which
  mappings exist); every system call takes the failure it may report from the environment record
  \<open>ShmEnv\<close>, so each error path of the source is a branch of the model.
\<close>

section \<open>Names\<close>

definition isValidSharedMemoryName :: "string \<Rightarrow> bool" where
  "isValidSharedMemoryName name \<longleftrightarrow>
     2 \<le> length name \<and> length name \<le> 192 \<and> hd name = CHR ''/'' \<and>
     CHR ''/'' \<notin> set (tl name) \<and> CHR 0x00 \<notin> set name"

lemma valid_name_length [inv_dests]:
  "isValidSharedMemoryName name \<Longrightarrow> 2 \<le> length name \<and> length name \<le> 192"
  by (simp add: isValidSharedMemoryName_def)

lemma valid_name_not_Nil [inv_dests]: "isValidSharedMemoryName name \<Longrightarrow> name \<noteq> []"
  by (auto simp: isValidSharedMemoryName_def)

section \<open>The operating system and the region object\<close>

datatype ShmError = ShmInvalidArgument string | ShmSystemError int

record ShmOs =
  os_objects :: "string \<rightharpoonup> size_t"
  os_fds :: "int set"
  os_maps :: "int set"

text \<open>
  What the calls of one operation report: the descriptor or \<open>errno\<close> of \<open>shm_open\<close>, the
  \<open>errno\<close> of \<open>ftruncate\<close>, \<open>fstat\<close> and \<open>shm_unlink\<close> when they fail, the address or
  \<open>errno\<close> of \<open>mmap\<close>.
\<close>

record ShmEnv =
  env_open :: "int + int"
  env_ftruncate :: "int option"
  env_fstat :: "int option"
  env_mmap :: "int + int"
  env_unlink :: "int option"

definition EEXIST :: int where "EEXIST = 17"
definition ENOENT :: int where "ENOENT = 2"
definition EINVAL :: int where "EINVAL = 22"

definition shm_open_excl :: "string \<Rightarrow> ShmEnv \<Rightarrow> ShmOs \<Rightarrow> (int + int) \<times> ShmOs" where
  "shm_open_excl name env os =
     (if os_objects os name \<noteq> None then (Inl EEXIST, os)
      else case env_open env of
        Inl err \<Rightarrow> (Inl err, os)
      | Inr fd \<Rightarrow> (Inr fd, os\<lparr>os_objects := (os_objects os)(name \<mapsto> 0),
                              os_fds := insert fd (os_fds os)\<rparr>))"

definition shm_open_existing :: "string \<Rightarrow> ShmEnv \<Rightarrow> ShmOs \<Rightarrow> (int + int) \<times> ShmOs" where
  "shm_open_existing name env os =
     (if os_objects os name = None then (Inl ENOENT, os)
      else case env_open env of
        Inl err \<Rightarrow> (Inl err, os)
      | Inr fd \<Rightarrow> (Inr fd, os\<lparr>os_fds := insert fd (os_fds os)\<rparr>))"

definition close_fd :: "int \<Rightarrow> ShmOs \<Rightarrow> ShmOs" where
  "close_fd fd os = os\<lparr>os_fds := os_fds os - {fd}\<rparr>"

definition shm_unlink :: "string \<Rightarrow> ShmEnv \<Rightarrow> ShmOs \<Rightarrow> int option \<times> ShmOs" where
  "shm_unlink name env os =
     (if os_objects os name = None then (Some ENOENT, os)
      else case env_unlink env of
        Some err \<Rightarrow> (Some err, os)
      | None \<Rightarrow> (None, os\<lparr>os_objects := (os_objects os)(name := None)\<rparr>))"

record SharedMemoryRegion =
  r_fd :: "int option"
  r_address :: "int option"
  r_size :: size_t
  r_name :: string
  r_owns_name :: bool

section \<open>Operations\<close>

text \<open>\<open>std::numeric_limits<off_t>::max()\<close> is \<open>2 ^ 63 - 1\<close>.\<close>

definition validateArguments :: "string \<Rightarrow> size_t \<Rightarrow> ShmError option" where
  "validateArguments name object_size =
     (if \<not> isValidSharedMemoryName name
      then Some (ShmInvalidArgument ''invalid POSIX shared memory name'')
      else if object_size = 0 \<or> object_size > 0x7FFFFFFFFFFFFFFF
      then Some (ShmInvalidArgument ''invalid shared memory size'')
      else None)"

definition unlinkSharedMemoryName :: "string \<Rightarrow> ShmEnv \<Rightarrow> ShmOs \<Rightarrow> bool \<times> ShmOs" where
  "unlinkSharedMemoryName name env os =
     (if \<not> isValidSharedMemoryName name then (False, os)
      else case shm_unlink name env os of
        (None, os') \<Rightarrow> (True, os')
      | (Some err, os') \<Rightarrow> (err = ENOENT, os'))"

definition SharedMemoryRegion_create ::
  "string \<Rightarrow> size_t \<Rightarrow> ShmEnv \<Rightarrow> ShmOs \<Rightarrow> (ShmError + SharedMemoryRegion) \<times> ShmOs" where
  "SharedMemoryRegion_create name object_size env os =
     (case validateArguments name object_size of
        Some err \<Rightarrow> (Inl err, os)
      | None \<Rightarrow>
        (case shm_open_excl name env os of
           (Inl errno, os) \<Rightarrow> (Inl (ShmSystemError errno), os)
         | (Inr fd, os) \<Rightarrow>
           (case env_ftruncate env of
              Some errno \<Rightarrow>
                (Inl (ShmSystemError errno), close_fd fd (snd (shm_unlink name env os)))
            | None \<Rightarrow>
              let os = os\<lparr>os_objects := (os_objects os)(name \<mapsto> object_size)\<rparr> in
              (case env_mmap env of
                 Inl errno \<Rightarrow>
                   (Inl (ShmSystemError errno), close_fd fd (snd (shm_unlink name env os)))
               | Inr address \<Rightarrow>
                   (Inr \<lparr>r_fd = Some fd, r_address = Some address, r_size = object_size,
                         r_name = name, r_owns_name = True\<rparr>,
                    os\<lparr>os_maps := insert address (os_maps os)\<rparr>)))))"

text \<open>
  \<open>openReadOnly\<close> and \<open>openReadWrite\<close> differ only in the protection flags they pass to
  \<open>shm_open\<close> and \<open>mmap\<close>.
\<close>

definition SharedMemoryRegion_openReadOnly ::
  "string \<Rightarrow> size_t \<Rightarrow> ShmEnv \<Rightarrow> ShmOs \<Rightarrow> (ShmError + SharedMemoryRegion) \<times> ShmOs" where
  "SharedMemoryRegion_openReadOnly name expected_size env os =
     (case validateArguments name expected_size of
        Some err \<Rightarrow> (Inl err, os)
      | None \<Rightarrow>
        (case shm_open_existing name env os of
           (Inl errno, os) \<Rightarrow> (Inl (ShmSystemError errno), os)
         | (Inr fd, os) \<Rightarrow>
           (case env_fstat env of
              Some errno \<Rightarrow> (Inl (ShmSystemError errno), close_fd fd os)
            | None \<Rightarrow>
              if os_objects os name \<noteq> Some expected_size
              then (Inl (ShmSystemError EINVAL), close_fd fd os)
              else (case env_mmap env of
                 Inl errno \<Rightarrow> (Inl (ShmSystemError errno), close_fd fd os)
               | Inr address \<Rightarrow>
                   (Inr \<lparr>r_fd = Some fd, r_address = Some address, r_size = expected_size,
                         r_name = name, r_owns_name = False\<rparr>,
                    os\<lparr>os_maps := insert address (os_maps os)\<rparr>)))))"

definition SharedMemoryRegion_openReadWrite ::
  "string \<Rightarrow> size_t \<Rightarrow> ShmEnv \<Rightarrow> ShmOs \<Rightarrow> (ShmError + SharedMemoryRegion) \<times> ShmOs" where
  "SharedMemoryRegion_openReadWrite name expected_size env os =
     SharedMemoryRegion_openReadOnly name expected_size env os"

text \<open>The move constructor returns the new object and what is left in the old one.\<close>

definition SharedMemoryRegion_move ::
  "SharedMemoryRegion \<Rightarrow> SharedMemoryRegion \<times> SharedMemoryRegion" where
  "SharedMemoryRegion_move other =
     (other, \<lparr>r_fd = None, r_address = None, r_size = 0, r_name = [], r_owns_name = False\<rparr>)"

definition SharedMemoryRegion_unlinkName ::
  "SharedMemoryRegion \<Rightarrow> ShmEnv \<Rightarrow> ShmOs \<Rightarrow> bool \<times> SharedMemoryRegion \<times> ShmOs" where
  "SharedMemoryRegion_unlinkName r env os =
     (if \<not> r_owns_name r then (True, r, os)
      else case unlinkSharedMemoryName (r_name r) env os of
        (False, os) \<Rightarrow> (False, r, os)
      | (True, os) \<Rightarrow> (True, r\<lparr>r_owns_name := False\<rparr>, os))"

definition SharedMemoryRegion_cleanup ::
  "SharedMemoryRegion \<Rightarrow> ShmEnv \<Rightarrow> ShmOs \<Rightarrow> SharedMemoryRegion \<times> ShmOs" where
  "SharedMemoryRegion_cleanup r env os =
     (let (r, os) = (case r_address r of
             Some address \<Rightarrow> (r\<lparr>r_address := None, r_size := 0\<rparr>,
                               os\<lparr>os_maps := os_maps os - {address}\<rparr>)
           | None \<Rightarrow> (r, os));
          (r, os) = (case r_fd r of
             Some fd \<Rightarrow> (r\<lparr>r_fd := None\<rparr>, close_fd fd os)
           | None \<Rightarrow> (r, os));
          (_, r, os) = SharedMemoryRegion_unlinkName r env os
      in (r, os))"

text \<open>Move assignment first cleans the target up, then takes the source over.\<close>

definition SharedMemoryRegion_moveAssign ::
  "SharedMemoryRegion \<Rightarrow> SharedMemoryRegion \<Rightarrow> ShmEnv \<Rightarrow> ShmOs
     \<Rightarrow> SharedMemoryRegion \<times> SharedMemoryRegion \<times> ShmOs" where
  "SharedMemoryRegion_moveAssign this other env os =
     (let (_, os) = SharedMemoryRegion_cleanup this env os;
          (this, other) = SharedMemoryRegion_move other
      in (this, other, os))"

section \<open>Lemmas\<close>

lemmas shm_region_defs =
  SharedMemoryRegion_create_def SharedMemoryRegion_openReadOnly_def
  SharedMemoryRegion_openReadWrite_def SharedMemoryRegion_cleanup_def
  SharedMemoryRegion_unlinkName_def SharedMemoryRegion_move_def unlinkSharedMemoryName_def
  shm_open_excl_def shm_open_existing_def shm_unlink_def close_fd_def validateArguments_def

lemma create_ok_form:
  assumes "SharedMemoryRegion_create name object_size env os = (Inr r, os')"
  obtains fd address where
    "env_open env = Inr fd" "env_mmap env = Inr address"
    "isValidSharedMemoryName name" "0 < object_size" "object_size \<le> 0x7FFFFFFFFFFFFFFF"
    "os_objects os name = None"
    "r = \<lparr>r_fd = Some fd, r_address = Some address, r_size = object_size, r_name = name,
          r_owns_name = True\<rparr>"
    "os' = os\<lparr>os_objects := (os_objects os)(name \<mapsto> object_size),
             os_fds := insert fd (os_fds os), os_maps := insert address (os_maps os)\<rparr>"
  using assms
  by (auto simp: SharedMemoryRegion_create_def shm_open_excl_def validateArguments_def Let_def
      word_neq_0_conv not_less split: if_splits option.splits sum.splits prod.splits)

lemma open_ok_form:
  assumes "SharedMemoryRegion_openReadOnly name object_size env os = (Inr r, os')"
  obtains fd address where
    "env_open env = Inr fd" "env_mmap env = Inr address"
    "isValidSharedMemoryName name" "os_objects os name = Some object_size"
    "r = \<lparr>r_fd = Some fd, r_address = Some address, r_size = object_size, r_name = name,
          r_owns_name = False\<rparr>"
    "os' = os\<lparr>os_fds := insert fd (os_fds os), os_maps := insert address (os_maps os)\<rparr>"
  using assms
  by (auto simp: SharedMemoryRegion_openReadOnly_def shm_open_existing_def validateArguments_def
      split: if_splits option.splits sum.splits prod.splits)

lemma create_fail_no_leak:
  assumes "SharedMemoryRegion_create name object_size env os = (Inl e, os')"
    and "env_unlink env = None" and "\<forall>fd. env_open env = Inr fd \<longrightarrow> fd \<notin> os_fds os"
  shows "os' = os"
  using assms
  by (auto simp: shm_region_defs Let_def fun_upd_idem
      split: if_splits option.splits sum.splits prod.splits)

lemma cleanup_create:
  assumes "SharedMemoryRegion_create name object_size env os = (Inr r, os')"
    and "env_unlink env' = None" and "\<forall>fd. env_open env = Inr fd \<longrightarrow> fd \<notin> os_fds os"
    and "\<forall>a. env_mmap env = Inr a \<longrightarrow> a \<notin> os_maps os"
  shows "snd (SharedMemoryRegion_cleanup r env' os') = os"
  using assms(1)
proof (cases rule: create_ok_form)
  case (1 fd address)
  moreover have "insert fd (os_fds os) - {fd} = os_fds os"
    "insert address (os_maps os) - {address} = os_maps os"
    using 1 assms(3,4) by auto
  moreover have "(os_objects os)(name := None) = os_objects os"
    using 1 by (simp add: fun_upd_idem)
  ultimately show ?thesis using assms(2)
    by (simp add: SharedMemoryRegion_cleanup_def SharedMemoryRegion_unlinkName_def
        unlinkSharedMemoryName_def shm_unlink_def close_fd_def)
qed

lemma cleanup_open:
  assumes "SharedMemoryRegion_openReadOnly name object_size env os = (Inr r, os')"
    and "\<forall>fd. env_open env = Inr fd \<longrightarrow> fd \<notin> os_fds os"
    and "\<forall>a. env_mmap env = Inr a \<longrightarrow> a \<notin> os_maps os"
  shows "snd (SharedMemoryRegion_cleanup r env' os') = os"
  using assms(1)
proof (cases rule: open_ok_form)
  case (1 fd address)
  moreover have "insert fd (os_fds os) - {fd} = os_fds os"
    "insert address (os_maps os) - {address} = os_maps os"
    using 1 assms(2,3) by auto
  ultimately show ?thesis
    by (simp add: SharedMemoryRegion_cleanup_def SharedMemoryRegion_unlinkName_def close_fd_def)
qed

lemma cleanup_moved_from:
  "SharedMemoryRegion_cleanup (snd (SharedMemoryRegion_move r)) env os =
     (snd (SharedMemoryRegion_move r), os)"
  by (simp add: shm_region_defs)

end
