(* ===== verification/MW_Frame_Protocol.thy ===== *)
theory MW_Frame_Protocol
  imports MW_Shared_Memory
begin

text \<open>
  The data frames of the Unix domain socket transport
  (\<open>src/middleware/src/detail/frame_protocol.cpp\<close>) and the copying shared memory protocol with
  its segment header, notification and acknowledgement (\<open>shm_protocol.cpp\<close>).  A decoder takes
  the pair of pointer and size as \<open>bytes option\<close>, with \<open>None\<close> the null pointer.
\<close>

section \<open>Frame headers\<close>

definition kFrameMagic :: u32 where "kFrameMagic = 0x4D573031"
definition kFrameHeaderSize :: nat where "kFrameHeaderSize = 24"

record FrameHeader =
  fh_magic :: u32
  fh_payload_size :: u32
  fh_sequence :: u64
  fh_timestamp_ns :: u64

datatype FrameValidation = FrameValid | FrameBadMagic | FramePayloadTooLarge

definition encodeFrameHeader :: "FrameHeader \<Rightarrow> bytes" where
  "encodeFrameHeader header =
     (let encoded = replicate kFrameHeaderSize 0;
          encoded = put_be 0 (fh_magic header) encoded;
          encoded = put_be 4 (fh_payload_size header) encoded;
          encoded = put_be 8 (fh_sequence header) encoded;
          encoded = put_be 16 (fh_timestamp_ns header) encoded
      in encoded)"

definition decodeFrameHeader :: "bytes option \<Rightarrow> FrameHeader option" where
  "decodeFrameHeader input =
     (case input of
        None \<Rightarrow> None
      | Some data \<Rightarrow>
          if length data \<noteq> kFrameHeaderSize then None
          else Some \<lparr>fh_magic = get_be 0 data, fh_payload_size = get_be 4 data,
                     fh_sequence = get_be 8 data, fh_timestamp_ns = get_be 16 data\<rparr>)"

definition validateFrameHeader :: "FrameHeader \<Rightarrow> size_t \<Rightarrow> FrameValidation" where
  "validateFrameHeader header max_message_size =
     (if fh_magic header \<noteq> kFrameMagic then FrameBadMagic
      else if (ucast (fh_payload_size header) :: u64) > max_message_size
      then FramePayloadTooLarge
      else FrameValid)"

lemma length_encodeFrameHeader [simp]: "length (encodeFrameHeader header) = 24"
  by (simp add: encodeFrameHeader_def kFrameHeaderSize_def)

lemma decode_encodeFrameHeader:
  "decodeFrameHeader (Some (encodeFrameHeader header)) = Some header"
  by (simp add: decodeFrameHeader_def encodeFrameHeader_def kFrameHeaderSize_def codec_simps)

lemma decodeFrameHeader_size:
  "decodeFrameHeader (Some data) = Some header \<Longrightarrow> length data = 24"
  by (simp add: decodeFrameHeader_def kFrameHeaderSize_def split: if_splits)

interpretation frame_header:
  message_codec "\<lambda>h. Some (encodeFrameHeader h)" "\<lambda>bs. decodeFrameHeader (Some bs)" 24 "\<lambda>_. True"
  by unfold_locales (auto simp: decode_encodeFrameHeader decodeFrameHeader_size)

lemma validateFrameHeader_iff:
  "validateFrameHeader header m = FrameValid \<longleftrightarrow>
     fh_magic header = kFrameMagic \<and> unat (fh_payload_size header) \<le> unat m"
  by (auto simp: validateFrameHeader_def word_less_nat_alt)

section \<open>The copying shared memory protocol\<close>

definition kSharedMemoryMagic :: u32 where "kSharedMemoryMagic = 0x4D575333"
definition kSharedMemoryVersion :: u16 where "kSharedMemoryVersion = 1"
definition kSharedMemoryHeaderSize :: nat where "kSharedMemoryHeaderSize = 48"
definition kShmNotificationMagic :: u32 where "kShmNotificationMagic = 0x4D574E33"
definition kShmNotificationVersion :: u16 where "kShmNotificationVersion = 1"
definition kMaxShmNameSize :: nat where "kMaxShmNameSize = 192"
definition kShmNotificationHeaderSize :: nat where "kShmNotificationHeaderSize = 56"
definition kShmNotificationSize :: nat where
  "kShmNotificationSize = kShmNotificationHeaderSize + kMaxShmNameSize"
definition kShmAckSize :: nat where "kShmAckSize = 16"

lemmas shm_constants =
  kSharedMemoryMagic_def kSharedMemoryVersion_def kSharedMemoryHeaderSize_def
  kShmNotificationMagic_def kShmNotificationVersion_def kMaxShmNameSize_def
  kShmNotificationHeaderSize_def kShmNotificationSize_def kShmAckSize_def

datatype ShmFrameKind = ShmKindNotification | ShmKindAck | ShmKindCast u16

fun shmKindValue :: "ShmFrameKind \<Rightarrow> u16" where
  "shmKindValue ShmKindNotification = 1"
| "shmKindValue ShmKindAck = 2"
| "shmKindValue (ShmKindCast x) = x"

definition shmKindCastOf :: "u16 \<Rightarrow> ShmFrameKind" where
  "shmKindCastOf x =
     (if x = 1 then ShmKindNotification else if x = 2 then ShmKindAck else ShmKindCast x)"

fun shmKindListed :: "ShmFrameKind \<Rightarrow> bool" where
  "shmKindListed (ShmKindCast _) = False"
| "shmKindListed _ = True"

interpretation shm_kind: wire_enum shmKindValue shmKindCastOf shmKindListed
proof unfold_locales
  show "shmKindValue (shmKindCastOf x) = x" for x by (simp add: shmKindCastOf_def)
  show "shmKindCastOf (shmKindValue e) = e" if "shmKindListed e" for e
    using that by (cases e) (simp_all add: shmKindCastOf_def)
qed

record SharedMemoryHeader =
  smh_magic :: u32
  smh_version :: u16
  smh_header_size :: u16
  smh_segment_size :: u64
  smh_payload_size :: u64
  smh_sequence :: u64
  smh_publish_timestamp_ns :: u64
  smh_topic_id :: u64

record ShmMessageHandle =
  mh_shm_name :: string
  mh_segment_size :: u64
  mh_payload_size :: u64
  mh_sequence :: u64
  mh_publish_timestamp_ns :: u64
  mh_topic_id :: u64

record ShmNotification =
  sn_magic :: u32
  sn_version :: u16
  sn_kind :: ShmFrameKind
  sn_handle :: ShmMessageHandle

record ShmAck =
  sa_magic :: u32
  sa_version :: u16
  sa_kind :: ShmFrameKind
  sa_sequence :: u64

datatype ShmValidation =
  ShmValid | ShmBadMagic | ShmUnsupportedVersion | ShmBadKind | ShmInvalidName
| ShmInvalidSegmentSize | ShmPayloadTooLarge | ShmMetadataMismatch

definition checkedSegmentSize :: "u64 \<Rightarrow> u64 option" where
  "checkedSegmentSize payload_size =
     (if payload_size > 0xFFFFFFFFFFFFFFFF - 48 then None else Some (payload_size + 48))"

definition encodeSharedMemoryHeader :: "SharedMemoryHeader \<Rightarrow> bytes" where
  "encodeSharedMemoryHeader header =
     (let encoded = replicate kSharedMemoryHeaderSize 0;
          encoded = put_be 0 (smh_magic header) encoded;
          encoded = put_be 4 (smh_version header) encoded;
          encoded = put_be 6 (smh_header_size header) encoded;
          encoded = put_be 8 (smh_segment_size header) encoded;
          encoded = put_be 16 (smh_payload_size header) encoded;
          encoded = put_be 24 (smh_sequence header) encoded;
          encoded = put_be 32 (smh_publish_timestamp_ns header) encoded;
          encoded = put_be 40 (smh_topic_id header) encoded
      in encoded)"

definition decodeSharedMemoryHeader :: "bytes option \<Rightarrow> SharedMemoryHeader option" where
  "decodeSharedMemoryHeader input =
     (case input of
        None \<Rightarrow> None
      | Some data \<Rightarrow>
          if length data \<noteq> kSharedMemoryHeaderSize then None
          else Some \<lparr>smh_magic = get_be 0 data, smh_version = get_be 4 data,
                     smh_header_size = get_be 6 data, smh_segment_size = get_be 8 data,
                     smh_payload_size = get_be 16 data, smh_sequence = get_be 24 data,
                     smh_publish_timestamp_ns = get_be 32 data, smh_topic_id = get_be 40 data\<rparr>)"

definition validateSharedMemoryHeader ::
  "SharedMemoryHeader \<Rightarrow> size_t \<Rightarrow> size_t \<Rightarrow> ShmValidation" where
  "validateSharedMemoryHeader header mapped_size max_message_size =
     (if smh_magic header \<noteq> kSharedMemoryMagic then ShmBadMagic
      else if smh_version header \<noteq> kSharedMemoryVersion then ShmUnsupportedVersion
      else if smh_header_size header \<noteq> 48 \<or> smh_segment_size header \<noteq> mapped_size \<or>
        smh_segment_size header < ucast (smh_header_size header) then ShmInvalidSegmentSize
      else (case checkedSegmentSize (smh_payload_size header) of
          None \<Rightarrow> ShmInvalidSegmentSize
        | Some expected_segment_size \<Rightarrow>
            if expected_segment_size \<noteq> smh_segment_size header then ShmInvalidSegmentSize
            else if smh_payload_size header > max_message_size then ShmPayloadTooLarge
            else ShmValid))"

definition encodeShmNotification :: "ShmNotification \<Rightarrow> bytes option" where
  "encodeShmNotification notification =
     (let handle = sn_handle notification; name = mh_shm_name handle in
      if \<not> isValidSharedMemoryName name \<or> length name > kMaxShmNameSize then None
      else
        let encoded = replicate kShmNotificationSize 0;
            encoded = put_be 0 (sn_magic notification) encoded;
            encoded = put_be 4 (sn_version notification) encoded;
            encoded = put_be 6 (shmKindValue (sn_kind notification)) encoded;
            encoded = put_be 8 (word_of_nat (length name) :: u16) encoded;
            encoded = put_be 10 (0 :: u16) encoded;
            encoded = put_be 12 (word_of_nat kShmNotificationSize :: u32) encoded;
            encoded = put_be 16 (mh_segment_size handle) encoded;
            encoded = put_be 24 (mh_payload_size handle) encoded;
            encoded = put_be 32 (mh_sequence handle) encoded;
            encoded = put_be 40 (mh_publish_timestamp_ns handle) encoded;
            encoded = put_be 48 (mh_topic_id handle) encoded;
            encoded = write_at kShmNotificationHeaderSize (bytes_of_string name) encoded
        in Some encoded)"

definition decodeShmNotification :: "bytes option \<Rightarrow> ShmNotification option" where
  "decodeShmNotification input =
     (case input of
        None \<Rightarrow> None
      | Some data \<Rightarrow>
          if length data \<noteq> kShmNotificationSize then None
          else
            let name_size = (get_be 8 data :: u16); reserved = (get_be 10 data :: u16);
                frame_size = (get_be 12 data :: u32) in
            if name_size = 0 \<or> unat name_size > kMaxShmNameSize \<or> reserved \<noteq> 0 \<or>
              unat frame_size \<noteq> kShmNotificationSize then None
            else if \<not> list_all (\<lambda>b. b = 0)
                (drop (kShmNotificationHeaderSize + unat name_size) data) then None
            else Some
              \<lparr>sn_magic = get_be 0 data, sn_version = get_be 4 data,
               sn_kind = shmKindCastOf (get_be 6 data),
               sn_handle =
                 \<lparr>mh_shm_name =
                    string_of_bytes (read_at kShmNotificationHeaderSize (unat name_size) data),
                  mh_segment_size = get_be 16 data, mh_payload_size = get_be 24 data,
                  mh_sequence = get_be 32 data, mh_publish_timestamp_ns = get_be 40 data,
                  mh_topic_id = get_be 48 data\<rparr>\<rparr>)"

definition validateShmNotification ::
  "ShmNotification \<Rightarrow> size_t \<Rightarrow> u64 \<Rightarrow> ShmValidation" where
  "validateShmNotification notification max_message_size expected_topic_id =
     (let handle = sn_handle notification in
      if sn_magic notification \<noteq> kShmNotificationMagic then ShmBadMagic
      else if sn_version notification \<noteq> kShmNotificationVersion then ShmUnsupportedVersion
      else if sn_kind notification \<noteq> ShmKindNotification then ShmBadKind
      else if \<not> isValidSharedMemoryName (mh_shm_name handle) then ShmInvalidName
      else (case checkedSegmentSize (mh_payload_size handle) of
          None \<Rightarrow> ShmInvalidSegmentSize
        | Some expected_segment_size \<Rightarrow>
            if expected_segment_size \<noteq> mh_segment_size handle \<or>
              mh_segment_size handle > 0xFFFFFFFFFFFFFFFF then ShmInvalidSegmentSize
            else if mh_payload_size handle > max_message_size then ShmPayloadTooLarge
            else if mh_sequence handle = 0 \<or> mh_topic_id handle \<noteq> expected_topic_id
            then ShmMetadataMismatch
            else ShmValid))"

definition encodeShmAck :: "ShmAck \<Rightarrow> bytes" where
  "encodeShmAck ack =
     (let encoded = replicate kShmAckSize 0;
          encoded = put_be 0 (sa_magic ack) encoded;
          encoded = put_be 4 (sa_version ack) encoded;
          encoded = put_be 6 (shmKindValue (sa_kind ack)) encoded;
          encoded = put_be 8 (sa_sequence ack) encoded
      in encoded)"

definition decodeShmAck :: "bytes option \<Rightarrow> ShmAck option" where
  "decodeShmAck input =
     (case input of
        None \<Rightarrow> None
      | Some data \<Rightarrow>
          if length data \<noteq> kShmAckSize then None
          else Some \<lparr>sa_magic = get_be 0 data, sa_version = get_be 4 data,
                     sa_kind = shmKindCastOf (get_be 6 data), sa_sequence = get_be 8 data\<rparr>)"

definition validateShmAck :: "ShmAck \<Rightarrow> u64 \<Rightarrow> ShmValidation" where
  "validateShmAck ack expected_sequence =
     (if sa_magic ack \<noteq> kShmNotificationMagic then ShmBadMagic
      else if sa_version ack \<noteq> kShmNotificationVersion then ShmUnsupportedVersion
      else if sa_kind ack \<noteq> ShmKindAck then ShmBadKind
      else if sa_sequence ack \<noteq> expected_sequence then ShmMetadataMismatch
      else ShmValid)"

definition sharedMemoryMetadataMatches :: "SharedMemoryHeader \<Rightarrow> ShmMessageHandle \<Rightarrow> bool" where
  "sharedMemoryMetadataMatches header handle \<longleftrightarrow>
     smh_segment_size header = mh_segment_size handle \<and>
     smh_payload_size header = mh_payload_size handle \<and>
     smh_sequence header = mh_sequence handle \<and>
     smh_publish_timestamp_ns header = mh_publish_timestamp_ns handle \<and>
     smh_topic_id header = mh_topic_id handle"

section \<open>Round trips\<close>

lemma decode_encodeSharedMemoryHeader:
  "decodeSharedMemoryHeader (Some (encodeSharedMemoryHeader header)) = Some header"
  by (simp add: decodeSharedMemoryHeader_def encodeSharedMemoryHeader_def
      kSharedMemoryHeaderSize_def codec_simps)

interpretation shm_header:
  message_codec "\<lambda>h. Some (encodeSharedMemoryHeader h)" "\<lambda>bs. decodeSharedMemoryHeader (Some bs)"
    48 "\<lambda>_. True"
proof unfold_locales
  show "length bs = 48" if "Some (encodeSharedMemoryHeader m) = Some bs" for m bs
    using that by (auto simp: encodeSharedMemoryHeader_def kSharedMemoryHeaderSize_def)
  show "length bs = 48" if "decodeSharedMemoryHeader (Some bs) = Some m" for m bs
    using that by (simp add: decodeSharedMemoryHeader_def kSharedMemoryHeaderSize_def
        split: if_splits)
qed (auto simp: decode_encodeSharedMemoryHeader)

lemma decode_encodeShmAck:
  "shmKindListed (sa_kind ack) \<Longrightarrow> decodeShmAck (Some (encodeShmAck ack)) = Some ack"
  by (simp add: decodeShmAck_def encodeShmAck_def kShmAckSize_def codec_simps
      shm_kind.cast_value)

interpretation shm_ack:
  message_codec "\<lambda>a. Some (encodeShmAck a)" "\<lambda>bs. decodeShmAck (Some bs)" 16
    "\<lambda>a. shmKindListed (sa_kind a)"
proof unfold_locales
  show "length bs = 16" if "Some (encodeShmAck m) = Some bs" for m bs
    using that by (auto simp: encodeShmAck_def kShmAckSize_def)
  show "length bs = 16" if "decodeShmAck (Some bs) = Some m" for m bs
    using that by (simp add: decodeShmAck_def kShmAckSize_def split: if_splits)
qed (auto simp: decode_encodeShmAck)

text \<open>A name of at most 192 characters survives the 16-bit length field.\<close>

lemma name_size_field:
  "isValidSharedMemoryName name \<Longrightarrow> unat (word_of_nat (length name) :: u16) = length name"
  by (auto dest!: valid_name_length simp: unsigned_of_nat take_bit_nat_eq_self)

lemma name_size_field_nonzero:
  "isValidSharedMemoryName name \<Longrightarrow> (word_of_nat (length name) :: u16) \<noteq> 0"
  using name_size_field [of name] valid_name_length [of name] by auto

lemmas name_field_simps = name_size_field name_size_field_nonzero

lemma decode_encodeShmNotification:
  assumes "isValidSharedMemoryName (mh_shm_name (sn_handle n))" "shmKindListed (sn_kind n)"
  shows "\<exists>bs. encodeShmNotification n = Some bs \<and> length bs = 248 \<and>
    decodeShmNotification (Some bs) = Some n"
  using assms valid_name_length [OF assms(1)]
  by (simp add: encodeShmNotification_def decodeShmNotification_def shm_constants Let_def
      codec_simps name_field_simps shm_kind.cast_value)

interpretation shm_notification:
  message_codec encodeShmNotification "\<lambda>bs. decodeShmNotification (Some bs)" 248
    "\<lambda>n. isValidSharedMemoryName (mh_shm_name (sn_handle n)) \<and> shmKindListed (sn_kind n)"
proof unfold_locales
  show "length bs = 248" if "encodeShmNotification m = Some bs" for m bs
    using that by (auto simp: encodeShmNotification_def shm_constants Let_def split: if_splits)
  show "length bs = 248" if "decodeShmNotification (Some bs) = Some m" for m bs
    using that by (simp add: decodeShmNotification_def shm_constants Let_def split: if_splits)
qed (use decode_encodeShmNotification in force)+

lemma validateShmNotification_valid:
  assumes "validateShmNotification n m topic = ShmValid"
  shows "unat (mh_segment_size (sn_handle n)) = unat (mh_payload_size (sn_handle n)) + 48"
    "mh_payload_size (sn_handle n) \<le> m" "mh_topic_id (sn_handle n) = topic"
    "mh_sequence (sn_handle n) \<noteq> 0" "isValidSharedMemoryName (mh_shm_name (sn_handle n))"
proof -
  note defs = validateShmNotification_def checkedSegmentSize_def Let_def
  show "mh_payload_size (sn_handle n) \<le> m" "mh_topic_id (sn_handle n) = topic"
    "mh_sequence (sn_handle n) \<noteq> 0" "isValidSharedMemoryName (mh_shm_name (sn_handle n))"
    using assms by (auto simp: defs split: if_splits)
  have "mh_segment_size (sn_handle n) = mh_payload_size (sn_handle n) + 48"
    "mh_payload_size (sn_handle n) \<le> 0xFFFFFFFFFFFFFFFF - 48"
    using assms by (auto simp: defs split: if_splits)
  then show "unat (mh_segment_size (sn_handle n)) = unat (mh_payload_size (sn_handle n)) + 48"
    by (simp add: unat_add_no_wrap word_le_nat_alt)
qed

end
