(* ===== verification/MW_Pool_Protocol.thy ===== *)
theory MW_Pool_Protocol
  imports MW_Frame_Protocol
begin

text \<open>
  The messages of the pooled shared memory transport: chunk handles, the pool notification and
  release frames (\<open>src/middleware/src/detail/pool_protocol.cpp\<close>), and the wake and release
  frames of the subscriber queue (\<open>queue_protocol.cpp\<close>).
\<close>

section \<open>Pool frames\<close>

definition kPoolNotificationMagic :: u32 where "kPoolNotificationMagic = 0x4D575034"
definition kPoolNotificationVersion :: u16 where "kPoolNotificationVersion = 1"
definition kPoolLayoutVersion :: u16 where "kPoolLayoutVersion = 1"
definition kMaxPoolNameSize :: nat where "kMaxPoolNameSize = 192"
definition kPoolNotificationHeaderSize :: nat where "kPoolNotificationHeaderSize = 80"
definition kPoolNotificationSize :: nat where
  "kPoolNotificationSize = kPoolNotificationHeaderSize + kMaxPoolNameSize"
definition kPoolReleaseSize :: nat where "kPoolReleaseSize = 40"

lemmas pool_constants =
  kPoolNotificationMagic_def kPoolNotificationVersion_def kPoolLayoutVersion_def
  kMaxPoolNameSize_def kPoolNotificationHeaderSize_def kPoolNotificationSize_def
  kPoolReleaseSize_def

text \<open>The pool frame kinds are only ever compared as 16-bit values.\<close>

datatype PoolFrameKind = PoolKindNotification | PoolKindRelease

fun poolKindValue :: "PoolFrameKind \<Rightarrow> u16" where
  "poolKindValue PoolKindNotification = 1"
| "poolKindValue PoolKindRelease = 2"

record PoolDescriptor =
  pd_shm_name :: string
  pd_pool_id :: u64
  pd_segment_size :: u64
  pd_topic_id :: u64
  pd_layout_version :: u16

record ChunkHandle =
  ch_pool_id :: u64
  ch_chunk_index :: u32
  ch_generation :: u32
  ch_payload_offset :: u64

record PoolNotification =
  pn_pool :: PoolDescriptor
  pn_handle :: ChunkHandle
  pn_payload_size :: u64
  pn_sequence :: u64
  pn_publish_timestamp_ns :: u64

record PoolRelease =
  prl_handle :: ChunkHandle
  prl_sequence :: u64

definition chunkHandleEq :: "ChunkHandle \<Rightarrow> ChunkHandle \<Rightarrow> bool" where
  "chunkHandleEq left right \<longleftrightarrow>
     ch_pool_id left = ch_pool_id right \<and> ch_chunk_index left = ch_chunk_index right \<and>
     ch_generation left = ch_generation right \<and> ch_payload_offset left = ch_payload_offset right"

lemma chunkHandleEq_iff [simp]: "chunkHandleEq left right \<longleftrightarrow> left = right"
  by (cases left; cases right) (auto simp: chunkHandleEq_def)

definition encodePoolNotification :: "PoolNotification \<Rightarrow> bytes option" where
  "encodePoolNotification notification =
     (let pool = pn_pool notification; handle = pn_handle notification; name = pd_shm_name pool in
      if \<not> isValidSharedMemoryName name \<or> length name > kMaxPoolNameSize then None
      else
        let encoded = replicate kPoolNotificationSize 0;
            encoded = put_be 0 kPoolNotificationMagic encoded;
            encoded = put_be 4 kPoolNotificationVersion encoded;
            encoded = put_be 6 (poolKindValue PoolKindNotification) encoded;
            encoded = put_be 8 (word_of_nat kPoolNotificationSize :: u32) encoded;
            encoded = put_be 12 (word_of_nat (length name) :: u16) encoded;
            encoded = put_be 14 (pd_layout_version pool) encoded;
            encoded = put_be 16 (pd_segment_size pool) encoded;
            encoded = put_be 24 (pd_pool_id pool) encoded;
            encoded = put_be 32 (pd_topic_id pool) encoded;
            encoded = put_be 40 (ch_chunk_index handle) encoded;
            encoded = put_be 44 (ch_generation handle) encoded;
            encoded = put_be 48 (ch_payload_offset handle) encoded;
            encoded = put_be 56 (pn_payload_size notification) encoded;
            encoded = put_be 64 (pn_sequence notification) encoded;
            encoded = put_be 72 (pn_publish_timestamp_ns notification) encoded;
            encoded = write_at kPoolNotificationHeaderSize (bytes_of_string name) encoded
        in Some encoded)"

definition decodePoolNotification :: "bytes option \<Rightarrow> PoolNotification option" where
  "decodePoolNotification input =
     (case input of
        None \<Rightarrow> None
      | Some data \<Rightarrow>
          if length data \<noteq> kPoolNotificationSize then None
          else
            let frame_size = (get_be 8 data :: u32); name_size = (get_be 12 data :: u16) in
            if unat frame_size \<noteq> kPoolNotificationSize \<or> name_size = 0 \<or>
              unat name_size > kMaxPoolNameSize then None
            else if \<not> list_all (\<lambda>b. b = 0)
                (drop (kPoolNotificationHeaderSize + unat name_size) data) then None
            else if get_be 0 data \<noteq> kPoolNotificationMagic \<or>
              get_be 4 data \<noteq> kPoolNotificationVersion \<or>
              get_be 6 data \<noteq> poolKindValue PoolKindNotification then None
            else Some
              \<lparr>pn_pool =
                 \<lparr>pd_shm_name =
                    string_of_bytes (read_at kPoolNotificationHeaderSize (unat name_size) data),
                  pd_pool_id = get_be 24 data, pd_segment_size = get_be 16 data,
                  pd_topic_id = get_be 32 data, pd_layout_version = get_be 14 data\<rparr>,
               pn_handle =
                 \<lparr>ch_pool_id = get_be 24 data, ch_chunk_index = get_be 40 data,
                  ch_generation = get_be 44 data, ch_payload_offset = get_be 48 data\<rparr>,
               pn_payload_size = get_be 56 data, pn_sequence = get_be 64 data,
               pn_publish_timestamp_ns = get_be 72 data\<rparr>)"

definition validatePoolNotification ::
  "PoolNotification \<Rightarrow> size_t \<Rightarrow> u64 \<Rightarrow> ErrorCode" where
  "validatePoolNotification notification max_message_size expected_topic_id =
     (let pool = pn_pool notification; handle = pn_handle notification in
      if \<not> isValidSharedMemoryName (pd_shm_name pool) \<or>
        pd_layout_version pool \<noteq> kPoolLayoutVersion \<or> pd_segment_size pool = 0 \<or>
        pd_segment_size pool > 0xFFFFFFFFFFFFFFFF \<or> pd_pool_id pool = 0 \<or>
        ch_pool_id handle \<noteq> pd_pool_id pool \<or> ch_generation handle = 0 \<or>
        pn_sequence notification = 0 \<or> pd_topic_id pool \<noteq> expected_topic_id
      then InvalidFrame
      else if pn_payload_size notification > max_message_size then MessageTooLarge
      else Ok)"

definition encodePoolRelease :: "PoolRelease \<Rightarrow> bytes" where
  "encodePoolRelease release =
     (let handle = prl_handle release;
          encoded = replicate kPoolReleaseSize 0;
          encoded = put_be 0 kPoolNotificationMagic encoded;
          encoded = put_be 4 kPoolNotificationVersion encoded;
          encoded = put_be 6 (poolKindValue PoolKindRelease) encoded;
          encoded = put_be 8 (ch_pool_id handle) encoded;
          encoded = put_be 16 (ch_chunk_index handle) encoded;
          encoded = put_be 20 (ch_generation handle) encoded;
          encoded = put_be 24 (ch_payload_offset handle) encoded;
          encoded = put_be 32 (prl_sequence release) encoded
      in encoded)"

definition decodePoolRelease :: "bytes option \<Rightarrow> PoolRelease option" where
  "decodePoolRelease input =
     (case input of
        None \<Rightarrow> None
      | Some data \<Rightarrow>
          if length data \<noteq> kPoolReleaseSize \<or> get_be 0 data \<noteq> kPoolNotificationMagic \<or>
            get_be 4 data \<noteq> kPoolNotificationVersion \<or>
            get_be 6 data \<noteq> poolKindValue PoolKindRelease then None
          else Some
            \<lparr>prl_handle = \<lparr>ch_pool_id = get_be 8 data, ch_chunk_index = get_be 16 data,
               ch_generation = get_be 20 data, ch_payload_offset = get_be 24 data\<rparr>,
             prl_sequence = get_be 32 data\<rparr>)"

definition validatePoolRelease :: "PoolRelease \<Rightarrow> ChunkHandle \<Rightarrow> u64 \<Rightarrow> ErrorCode" where
  "validatePoolRelease release expected_handle expected_sequence =
     (if \<not> chunkHandleEq (prl_handle release) expected_handle \<or>
        prl_sequence release \<noteq> expected_sequence then InvalidChunkHandle
      else Ok)"

section \<open>Queue frames\<close>

definition kQueueProtocolMagic :: u32 where "kQueueProtocolMagic = 0x4D575135"
definition kQueueProtocolVersion :: u16 where "kQueueProtocolVersion = 1"
definition kQueueLayoutVersion :: u16 where "kQueueLayoutVersion = 3"
definition kMaxQueueNameSize :: nat where "kMaxQueueNameSize = 192"
definition kQueueWakeHeaderSize :: nat where "kQueueWakeHeaderSize = 80"
definition kQueueWakeSize :: nat where "kQueueWakeSize = kQueueWakeHeaderSize + kMaxPoolNameSize"
definition kQueueReleaseSize :: nat where "kQueueReleaseSize = 32"

lemmas queue_constants =
  kQueueProtocolMagic_def kQueueProtocolVersion_def kQueueLayoutVersion_def kMaxQueueNameSize_def
  kQueueWakeHeaderSize_def kQueueWakeSize_def kQueueReleaseSize_def kMaxPoolNameSize_def

datatype QueueFrameKind = QueueKindWake | QueueKindRelease

fun queueKindValue :: "QueueFrameKind \<Rightarrow> u16" where
  "queueKindValue QueueKindWake = 1"
| "queueKindValue QueueKindRelease = 2"

record QueueDescriptor =
  qd_shm_name :: string
  qd_queue_id :: u64
  qd_segment_size :: u64
  qd_capacity :: u32
  qd_layout_version :: u16
  qd_overflow_policy :: OverflowPolicy
  qd_block_timeout_ms :: u64

record QueueWake =
  qw_pool :: PoolDescriptor
  qw_queue_id :: u64

definition queueDescriptorEq :: "QueueDescriptor \<Rightarrow> QueueDescriptor \<Rightarrow> bool" where
  "queueDescriptorEq left right \<longleftrightarrow>
     qd_shm_name left = qd_shm_name right \<and> qd_queue_id left = qd_queue_id right \<and>
     qd_segment_size left = qd_segment_size right \<and> qd_capacity left = qd_capacity right \<and>
     qd_layout_version left = qd_layout_version right \<and>
     qd_overflow_policy left = qd_overflow_policy right \<and>
     qd_block_timeout_ms left = qd_block_timeout_ms right"

lemma queueDescriptorEq_iff [simp]: "queueDescriptorEq left right \<longleftrightarrow> left = right"
  by (cases left; cases right) (auto simp: queueDescriptorEq_def)

definition validOverflowPolicy :: "OverflowPolicy \<Rightarrow> bool" where
  "validOverflowPolicy policy \<longleftrightarrow>
     policy = DropNewest \<or> policy = DropOldest \<or> policy = BlockWithTimeout"

lemma validOverflowPolicy_listed: "validOverflowPolicy policy = overflowPolicyListed policy"
  by (cases policy) (simp_all add: validOverflowPolicy_def)

definition encodeQueueWake :: "QueueWake \<Rightarrow> bytes option" where
  "encodeQueueWake wake =
     (let pool = qw_pool wake; name = pd_shm_name pool in
      if \<not> isValidSharedMemoryName name \<or> length name > kMaxPoolNameSize \<or> qw_queue_id wake = 0
      then None
      else
        let encoded = replicate kQueueWakeSize 0;
            encoded = put_be 0 kQueueProtocolMagic encoded;
            encoded = put_be 4 kQueueProtocolVersion encoded;
            encoded = put_be 6 (queueKindValue QueueKindWake) encoded;
            encoded = put_be 8 (word_of_nat kQueueWakeSize :: u32) encoded;
            encoded = put_be 12 (word_of_nat (length name) :: u16) encoded;
            encoded = put_be 14 (pd_layout_version pool) encoded;
            encoded = put_be 16 (pd_segment_size pool) encoded;
            encoded = put_be 24 (pd_pool_id pool) encoded;
            encoded = put_be 32 (pd_topic_id pool) encoded;
            encoded = put_be 40 (qw_queue_id wake) encoded;
            encoded = write_at kQueueWakeHeaderSize (bytes_of_string name) encoded
        in Some encoded)"

definition decodeQueueWake :: "bytes option \<Rightarrow> QueueWake option" where
  "decodeQueueWake input =
     (case input of
        None \<Rightarrow> None
      | Some data \<Rightarrow>
          if length data \<noteq> kQueueWakeSize \<or> get_be 0 data \<noteq> kQueueProtocolMagic \<or>
            get_be 4 data \<noteq> kQueueProtocolVersion \<or>
            get_be 6 data \<noteq> queueKindValue QueueKindWake \<or>
            unat (get_be 8 data :: u32) \<noteq> kQueueWakeSize then None
          else
            let name_size = (get_be 12 data :: u16) in
            if name_size = 0 \<or> unat name_size > kMaxPoolNameSize then None
            else if \<not> list_all (\<lambda>b. b = 0) (drop (kQueueWakeHeaderSize + unat name_size) data)
            then None
            else Some
              \<lparr>qw_pool =
                 \<lparr>pd_shm_name =
                    string_of_bytes (read_at kQueueWakeHeaderSize (unat name_size) data),
                  pd_pool_id = get_be 24 data, pd_segment_size = get_be 16 data,
                  pd_topic_id = get_be 32 data, pd_layout_version = get_be 14 data\<rparr>,
               qw_queue_id = get_be 40 data\<rparr>)"

definition validateQueueWake :: "QueueWake \<Rightarrow> u64 \<Rightarrow> u64 \<Rightarrow> ErrorCode" where
  "validateQueueWake wake expected_queue_id expected_topic_id =
     (let pool = qw_pool wake in
      if \<not> isValidSharedMemoryName (pd_shm_name pool) \<or>
        pd_layout_version pool \<noteq> kPoolLayoutVersion \<or> pd_segment_size pool = 0 \<or>
        pd_segment_size pool > 0xFFFFFFFFFFFFFFFF \<or> pd_pool_id pool = 0 \<or>
        pd_topic_id pool \<noteq> expected_topic_id \<or> qw_queue_id wake = 0 \<or>
        qw_queue_id wake \<noteq> expected_queue_id
      then InvalidFrame else Ok)"

definition encodeQueueRelease :: "ChunkHandle \<Rightarrow> bytes" where
  "encodeQueueRelease handle =
     (let encoded = replicate kQueueReleaseSize 0;
          encoded = put_be 0 kQueueProtocolMagic encoded;
          encoded = put_be 4 kQueueProtocolVersion encoded;
          encoded = put_be 6 (queueKindValue QueueKindRelease) encoded;
          encoded = put_be 8 (ch_pool_id handle) encoded;
          encoded = put_be 16 (ch_chunk_index handle) encoded;
          encoded = put_be 20 (ch_generation handle) encoded;
          encoded = put_be 24 (ch_payload_offset handle) encoded
      in encoded)"

definition decodeQueueRelease :: "bytes option \<Rightarrow> ChunkHandle option" where
  "decodeQueueRelease input =
     (case input of
        None \<Rightarrow> None
      | Some data \<Rightarrow>
          if length data \<noteq> kQueueReleaseSize \<or> get_be 0 data \<noteq> kQueueProtocolMagic \<or>
            get_be 4 data \<noteq> kQueueProtocolVersion \<or>
            get_be 6 data \<noteq> queueKindValue QueueKindRelease then None
          else
            let handle = \<lparr>ch_pool_id = get_be 8 data, ch_chunk_index = get_be 16 data,
                  ch_generation = get_be 20 data, ch_payload_offset = get_be 24 data\<rparr> in
            if ch_pool_id handle = 0 \<or> ch_generation handle = 0 then None else Some handle)"

section \<open>Round trips\<close>

lemma decode_encodePoolNotification:
  assumes "isValidSharedMemoryName (pd_shm_name (pn_pool n))"
    "ch_pool_id (pn_handle n) = pd_pool_id (pn_pool n)"
  shows "\<exists>bs. encodePoolNotification n = Some bs \<and> length bs = 272 \<and>
    decodePoolNotification (Some bs) = Some n"
  using assms valid_name_length [OF assms(1)]
  by (simp add: encodePoolNotification_def decodePoolNotification_def pool_constants Let_def
      codec_simps name_field_simps flip: assms(2))

interpretation pool_notification:
  message_codec encodePoolNotification "\<lambda>bs. decodePoolNotification (Some bs)" 272
    "\<lambda>n. isValidSharedMemoryName (pd_shm_name (pn_pool n)) \<and>
         ch_pool_id (pn_handle n) = pd_pool_id (pn_pool n)"
proof unfold_locales
  show "length bs = 272" if "encodePoolNotification m = Some bs" for m bs
    using that by (auto simp: encodePoolNotification_def pool_constants Let_def split: if_splits)
  show "length bs = 272" if "decodePoolNotification (Some bs) = Some m" for m bs
    using that by (simp add: decodePoolNotification_def pool_constants Let_def split: if_splits)
qed (use decode_encodePoolNotification in force)+

lemma decode_encodePoolRelease: "decodePoolRelease (Some (encodePoolRelease r)) = Some r"
  by (simp add: decodePoolRelease_def encodePoolRelease_def pool_constants Let_def codec_simps)

interpretation pool_release:
  message_codec "\<lambda>r. Some (encodePoolRelease r)" "\<lambda>bs. decodePoolRelease (Some bs)" 40 "\<lambda>_. True"
proof unfold_locales
  show "length bs = 40" if "Some (encodePoolRelease m) = Some bs" for m bs
    using that by (auto simp: encodePoolRelease_def pool_constants Let_def)
  show "length bs = 40" if "decodePoolRelease (Some bs) = Some m" for m bs
    using that by (simp add: decodePoolRelease_def pool_constants split: if_splits)
qed (auto simp: decode_encodePoolRelease)

lemma decode_encodeQueueWake:
  assumes "isValidSharedMemoryName (pd_shm_name (qw_pool w))" "qw_queue_id w \<noteq> 0"
  shows "\<exists>bs. encodeQueueWake w = Some bs \<and> length bs = 272 \<and>
    decodeQueueWake (Some bs) = Some w"
  using assms valid_name_length [OF assms(1)]
  by (simp add: encodeQueueWake_def decodeQueueWake_def queue_constants Let_def
      codec_simps name_field_simps)

interpretation queue_wake:
  message_codec encodeQueueWake "\<lambda>bs. decodeQueueWake (Some bs)" 272
    "\<lambda>w. isValidSharedMemoryName (pd_shm_name (qw_pool w)) \<and> qw_queue_id w \<noteq> 0"
proof unfold_locales
  show "length bs = 272" if "encodeQueueWake m = Some bs" for m bs
    using that by (auto simp: encodeQueueWake_def queue_constants Let_def split: if_splits)
  show "length bs = 272" if "decodeQueueWake (Some bs) = Some m" for m bs
    using that by (simp add: decodeQueueWake_def queue_constants Let_def split: if_splits)
qed (use decode_encodeQueueWake in force)+

lemma decode_encodeQueueRelease:
  "ch_pool_id h \<noteq> 0 \<Longrightarrow> ch_generation h \<noteq> 0 \<Longrightarrow>
     decodeQueueRelease (Some (encodeQueueRelease h)) = Some h"
  by (simp add: decodeQueueRelease_def encodeQueueRelease_def queue_constants Let_def codec_simps)

interpretation queue_release:
  message_codec "\<lambda>h. Some (encodeQueueRelease h)" "\<lambda>bs. decodeQueueRelease (Some bs)" 32
    "\<lambda>h. ch_pool_id h \<noteq> 0 \<and> ch_generation h \<noteq> 0"
proof unfold_locales
  show "length bs = 32" if "Some (encodeQueueRelease m) = Some bs" for m bs
    using that by (auto simp: encodeQueueRelease_def queue_constants Let_def)
  show "length bs = 32" if "decodeQueueRelease (Some bs) = Some m" for m bs
    using that by (simp add: decodeQueueRelease_def queue_constants Let_def split: if_splits)
qed (auto simp: decode_encodeQueueRelease)

text \<open>A wake frame and a release frame are never mistaken for each other or for a pool frame.\<close>

lemma queue_frames_disjoint_pool_frames:
  "decodeQueueWake (Some bs) = Some w \<Longrightarrow> decodePoolNotification (Some bs) = None"
  by (auto simp: decodeQueueWake_def decodePoolNotification_def queue_constants pool_constants
      Let_def split: if_splits)

end
