(* ===== verification/MW_Pool_Layout.thy ===== *)
theory MW_Pool_Layout
  imports MW_Pool_Protocol
begin

text \<open>
  The layout of a pool segment (\<open>src/middleware/src/detail/memory_pool.cpp\<close>, lines 14 to 191):
  overflow-checked arithmetic on \<open>std::size_t\<close>, the size class table and the chunk directory
  \<open>makeLayout\<close> computes, and their byte encodings.  The lemmas show that a computed layout never
  wraps around, and that its chunks are aligned, disjoint and inside the segment.
\<close>

section \<open>Checked arithmetic\<close>

definition SIZE_MAX :: size_t where "SIZE_MAX = 0xFFFFFFFFFFFFFFFF"

definition checkedAdd :: "size_t \<Rightarrow> size_t \<Rightarrow> size_t option" where
  "checkedAdd left right = (if left > SIZE_MAX - right then None else Some (left + right))"

definition checkedMultiply :: "size_t \<Rightarrow> size_t \<Rightarrow> size_t option" where
  "checkedMultiply left right =
     (if left \<noteq> 0 \<and> right > SIZE_MAX div left then None else Some (left * right))"

definition checkedAlign :: "size_t \<Rightarrow> size_t \<Rightarrow> size_t option" where
  "checkedAlign val alignment =
     (let remainder = val mod alignment in
      if remainder = 0 then Some val else checkedAdd val (alignment - remainder))"

lemma unat_SIZE_MAX [simp]: "unat SIZE_MAX = 2 ^ 64 - 1"
  by (simp add: SIZE_MAX_def)

lemma le_SIZE_MAX [simp]: "x \<le> SIZE_MAX"
  using unat_u64 [of x] by (simp add: word_le_nat_alt)

lemma checkedAdd_eq:
  "checkedAdd left right =
     (if unat left + unat right < 2 ^ 64 then Some (left + right) else None)"
proof -
  have "unat (SIZE_MAX - right) = 2 ^ 64 - 1 - unat right"
    using unat_sub [OF le_SIZE_MAX [of right]] by simp
  then have "left > SIZE_MAX - right \<longleftrightarrow> \<not> unat left + unat right < 2 ^ 64"
    using unat_u64 [of right] by (auto simp: word_less_nat_alt)
  then show ?thesis by (simp add: checkedAdd_def)
qed

lemma checkedAdd_Some [inv_dests]:
  "checkedAdd left right = Some r \<Longrightarrow> r = left + right \<and> unat r = unat left + unat right"
  by (auto simp: checkedAdd_eq unat_add_no_wrap split: if_splits)

lemma checkedMultiply_eq:
  "checkedMultiply left right =
     (if unat left * unat right < 2 ^ 64 then Some (left * right) else None)"
proof (cases "left = 0")
  case True
  then show ?thesis by (simp add: checkedMultiply_def)
next
  case False
  then have pos: "0 < unat left" by (simp add: unat_gt_0)
  have "right > SIZE_MAX div left \<longleftrightarrow> (2 ^ 64 - 1) div unat left < unat right"
    by (simp add: word_less_nat_alt unat_div)
  also have "\<dots> \<longleftrightarrow> 2 ^ 64 - 1 < unat right * unat left"
    using pos by (simp add: div_less_iff_less_mult)
  also have "\<dots> \<longleftrightarrow> \<not> unat left * unat right < 2 ^ 64"
    by (auto simp: mult.commute)
  finally show ?thesis using False by (simp add: checkedMultiply_def)
qed

lemma checkedMultiply_Some [inv_dests]:
  assumes "checkedMultiply left right = Some r"
  shows "r = left * right \<and> unat r = unat left * unat right"
proof -
  have "unat left * unat right < 2 ^ 64" "r = left * right"
    using assms by (auto simp: checkedMultiply_eq split: if_splits)
  then show ?thesis by (simp add: unat_word_ariths)
qed

lemma align_up_nat: "(v :: nat) + (64 - v mod 64) = (v div 64 + 1) * 64"
proof -
  have "a = q * 64 + r \<Longrightarrow> r < 64 \<Longrightarrow> a + (64 - r) = (q + 1) * 64" for a q r :: nat
    by simp
  then show ?thesis by (metis div_mult_mod_eq mod_less_divisor zero_less_numeral)
qed

lemma checkedAlign_Some [inv_dests]:
  assumes "checkedAlign val 64 = Some r"
  shows "unat val \<le> unat r" "64 dvd unat r" "unat r < unat val + 64"
proof -
  have m: "unat (val mod 64) = unat val mod 64" by (simp add: unat_mod)
  consider (aligned) "val mod 64 = 0" "r = val"
    | (up) "val mod 64 \<noteq> 0" "checkedAdd val (64 - val mod 64) = Some r"
    using assms by (auto simp: checkedAlign_def Let_def split: if_splits)
  then have "unat val \<le> unat r \<and> 64 dvd unat r \<and> unat r < unat val + 64"
  proof cases
    case aligned
    then have "unat val mod 64 = 0" using m by simp
    then show ?thesis using aligned by auto
  next
    case up
    have "unat (64 - val mod 64) = 64 - unat val mod 64"
      using unat_sub [of "val mod 64" 64] m by (simp add: word_le_nat_alt)
    then have r: "unat r = unat val + (64 - unat val mod 64)"
      using conjunct2 [OF checkedAdd_Some [OF up(2)]] by simp
    have "unat val mod 64 \<noteq> 0" using up(1) m by (metis unat_eq_zero)
    moreover have "64 dvd unat r" using r align_up_nat [of "unat val"] by simp
    ultimately show ?thesis using r mod_less_divisor [of 64 "unat val"] by linarith
  qed
  then show "unat val \<le> unat r" "64 dvd unat r" "unat r < unat val + 64" by auto
qed

section \<open>Layout records\<close>

definition kMemoryPoolMagic :: u32 where "kMemoryPoolMagic = 0x4D57504C"
definition kPoolHeaderSize :: nat where "kPoolHeaderSize = 80"
definition kSizeClassMetadataSize :: nat where "kSizeClassMetadataSize = 24"
definition kChunkDirectoryEntrySize :: nat where "kChunkDirectoryEntrySize = 32"
definition kChunkAlignment :: size_t where "kChunkAlignment = 64"

text \<open>\<open>sizeof(ChunkHeader)\<close>, asserted by the source to be \<open>kChunkAlignment\<close>.\<close>

definition sizeofChunkHeader :: size_t where "sizeofChunkHeader = 64"

record PoolHeader =
  ph_magic :: u32
  ph_version :: u16
  ph_header_size :: u16
  ph_segment_size :: u64
  ph_pool_id :: u64
  ph_topic_id :: u64
  ph_owner_pid :: u64
  ph_size_class_count :: u32
  ph_chunk_count :: u32
  ph_size_class_offset :: u64
  ph_chunk_directory_offset :: u64
  ph_chunk_storage_offset :: u64

record SizeClassMetadata =
  scm_capacity :: u64
  scm_first_chunk_index :: u32
  scm_chunk_count :: u32

record ChunkDirectoryEntry =
  de_header_offset :: u64
  de_payload_offset :: u64
  de_capacity :: u64
  de_size_class_index :: u32

record PoolLayout =
  pl_header :: PoolHeader
  pl_size_classes :: "SizeClassMetadata list"
  pl_directory :: "ChunkDirectoryEntry list"

datatype PoolError =
  PoolInvalidArgument string | PoolOverflow string | PoolMiddlewareError ErrorCode string
| PoolShmError ShmError

section \<open>Computing a layout\<close>

text \<open>The first loop of \<open>makeLayout\<close>: check the classes and number their chunks.\<close>

fun layoutClasses ::
  "MemoryPoolClassConfig list \<Rightarrow> u64 \<Rightarrow> u64 \<Rightarrow> SizeClassMetadata list
     \<Rightarrow> (SizeClassMetadata list \<times> u64) option" where
  "layoutClasses [] previous_capacity total_chunks classes = Some (classes, total_chunks)"
| "layoutClasses (item # items) previous_capacity total_chunks classes =
     (if cc_chunk_size item = 0 \<or> cc_chunk_size item > 0xFFFFFFFF \<or> cc_chunk_count item = 0 \<or>
        cc_chunk_size item \<le> previous_capacity \<or>
        total_chunks > ucast (0xFFFFFFFF - cc_chunk_count item)
      then None
      else layoutClasses items (cc_chunk_size item) (total_chunks + ucast (cc_chunk_count item))
        (classes @ [\<lparr>scm_capacity = cc_chunk_size item,
                     scm_first_chunk_index = ucast total_chunks,
                     scm_chunk_count = cc_chunk_count item\<rparr>]))"

text \<open>The inner loop over the chunks of one class, and the loop over the classes.\<close>

fun layoutChunks ::
  "nat \<Rightarrow> u64 \<Rightarrow> u32 \<Rightarrow> size_t \<Rightarrow> ChunkDirectoryEntry list
     \<Rightarrow> (ChunkDirectoryEntry list \<times> size_t) option" where
  "layoutChunks 0 capacity class_index next_offset directory = Some (directory, next_offset)"
| "layoutChunks (Suc count) capacity class_index next_offset directory =
     (case checkedAlign next_offset kChunkAlignment of
        None \<Rightarrow> None
      | Some header_offset \<Rightarrow>
        (case checkedAdd header_offset sizeofChunkHeader of
           None \<Rightarrow> None
         | Some payload_offset \<Rightarrow>
           (case checkedAdd payload_offset capacity of
              None \<Rightarrow> None
            | Some chunk_end \<Rightarrow>
              (case checkedAlign chunk_end kChunkAlignment of
                 None \<Rightarrow> None
               | Some next_offset \<Rightarrow>
                   layoutChunks count capacity class_index next_offset
                     (directory @ [\<lparr>de_header_offset = header_offset,
                        de_payload_offset = payload_offset, de_capacity = capacity,
                        de_size_class_index = class_index\<rparr>])))))"

fun layoutDirectory ::
  "SizeClassMetadata list \<Rightarrow> nat \<Rightarrow> size_t \<Rightarrow> ChunkDirectoryEntry list
     \<Rightarrow> (ChunkDirectoryEntry list \<times> size_t) option" where
  "layoutDirectory [] class_index next_offset directory = Some (directory, next_offset)"
| "layoutDirectory (m # ms) class_index next_offset directory =
     (case layoutChunks (unat (scm_chunk_count m)) (scm_capacity m) (word_of_nat class_index)
         next_offset directory of
        None \<Rightarrow> None
      | Some (directory, next_offset) \<Rightarrow>
          layoutDirectory ms (Suc class_index) next_offset directory)"

definition layoutOffsets :: "nat \<Rightarrow> u64 \<Rightarrow> (size_t \<times> size_t) option" where
  "layoutOffsets class_count total_chunks =
     (case checkedMultiply (word_of_nat class_count) (word_of_nat kSizeClassMetadataSize) of
        None \<Rightarrow> None
      | Some class_bytes \<Rightarrow>
        (case checkedMultiply total_chunks (word_of_nat kChunkDirectoryEntrySize) of
           None \<Rightarrow> None
         | Some directory_bytes \<Rightarrow>
           (case checkedAdd (word_of_nat kPoolHeaderSize) class_bytes of
              None \<Rightarrow> None
            | Some directory_offset \<Rightarrow>
              (case checkedAdd directory_offset directory_bytes of
                 None \<Rightarrow> None
               | Some storage_offset \<Rightarrow>
                 (case checkedAlign storage_offset kChunkAlignment of
                    None \<Rightarrow> None
                  | Some storage_offset \<Rightarrow> Some (directory_offset, storage_offset))))))"

definition makeLayout ::
  "MemoryPoolConfig \<Rightarrow> u64 \<Rightarrow> u64 \<Rightarrow> u64 \<Rightarrow> PoolError + PoolLayout" where
  "makeLayout config pool_id topic_id pid =
     (if config = [] \<or> length config > 0xFFFFFFFF
      then Inl (PoolInvalidArgument ''memory pool must contain size classes'')
      else case layoutClasses config 0 0 [] of
        None \<Rightarrow> Inl (PoolInvalidArgument ''invalid memory pool size class configuration'')
      | Some (size_classes, total_chunks) \<Rightarrow>
        (case layoutOffsets (length size_classes) total_chunks of
           None \<Rightarrow> Inl (PoolOverflow ''memory pool metadata size overflow'')
         | Some (directory_offset, storage_offset) \<Rightarrow>
           (case layoutDirectory size_classes 0 storage_offset [] of
              None \<Rightarrow> Inl (PoolOverflow ''memory pool chunk layout overflow'')
            | Some (directory, next_offset) \<Rightarrow>
                Inr \<lparr>pl_header =
                       \<lparr>ph_magic = kMemoryPoolMagic, ph_version = kPoolLayoutVersion,
                        ph_header_size = word_of_nat kPoolHeaderSize,
                        ph_segment_size = next_offset, ph_pool_id = pool_id,
                        ph_topic_id = topic_id, ph_owner_pid = pid,
                        ph_size_class_count = word_of_nat (length size_classes),
                        ph_chunk_count = word_of_nat (length directory),
                        ph_size_class_offset = word_of_nat kPoolHeaderSize,
                        ph_chunk_directory_offset = directory_offset,
                        ph_chunk_storage_offset = storage_offset\<rparr>,
                     pl_size_classes = size_classes, pl_directory = directory\<rparr>)))"

definition requiredSegmentSize :: "MemoryPoolConfig \<Rightarrow> u64 \<Rightarrow> PoolError + size_t" where
  "requiredSegmentSize config pid =
     (case makeLayout config 1 1 pid of
        Inl err \<Rightarrow> Inl err
      | Inr layout \<Rightarrow> Inr (ph_segment_size (pl_header layout)))"

definition rangeInside :: "size_t \<Rightarrow> size_t \<Rightarrow> size_t \<Rightarrow> bool" where
  "rangeInside off len limit \<longleftrightarrow> off \<le> limit \<and> len \<le> limit - off"

lemma rangeInside_iff: "rangeInside off len limit \<longleftrightarrow> unat off + unat len \<le> unat limit"
proof (cases "off \<le> limit")
  case True
  then show ?thesis
    by (auto simp: rangeInside_def word_le_nat_alt unat_sub)
next
  case False
  then show ?thesis by (auto simp: rangeInside_def word_le_nat_alt)
qed

section \<open>Chunks in a row\<close>

text \<open>
  \<open>chunk_chain lo es hi\<close>: the chunks \<open>es\<close> lie one after the other between the offsets
  \<open>lo\<close> and \<open>hi\<close>, each header aligned to a cache line and followed by its payload.
\<close>

fun chunk_chain :: "nat \<Rightarrow> ChunkDirectoryEntry list \<Rightarrow> nat \<Rightarrow> bool" where
  "chunk_chain lo [] hi \<longleftrightarrow> lo \<le> hi"
| "chunk_chain lo (e # es) hi \<longleftrightarrow>
     lo \<le> unat (de_header_offset e) \<and> 64 dvd unat (de_header_offset e) \<and>
     unat (de_payload_offset e) = unat (de_header_offset e) + 64 \<and>
     chunk_chain (unat (de_payload_offset e) + unat (de_capacity e)) es hi"

lemma chunk_chain_bounds: "chunk_chain lo es hi \<Longrightarrow> lo \<le> hi"
  by (induction lo es hi rule: chunk_chain.induct) auto

lemma chunk_chain_append:
  "chunk_chain lo es mid \<Longrightarrow> chunk_chain mid fs hi \<Longrightarrow> chunk_chain lo (es @ fs) hi"
proof (induction lo es mid rule: chunk_chain.induct)
  case (1 lo mid)
  then show ?case by (cases fs) auto
qed auto

lemma chunk_chain_mono: "chunk_chain lo es hi \<Longrightarrow> lo' \<le> lo \<Longrightarrow> hi \<le> hi' \<Longrightarrow> chunk_chain lo' es hi'"
proof (induction lo es hi arbitrary: lo' rule: chunk_chain.induct)
  case (2 lo e es hi)
  have "chunk_chain (unat (de_payload_offset e) + unat (de_capacity e)) es hi'"
    using 2 by (intro "2.IH") auto
  then show ?case using 2 by auto
qed auto

lemma chunk_chain_nth:
  assumes "chunk_chain lo es hi" "i < length es"
  shows "lo \<le> unat (de_header_offset (es ! i))" "64 dvd unat (de_header_offset (es ! i))"
    "unat (de_payload_offset (es ! i)) = unat (de_header_offset (es ! i)) + 64"
    "unat (de_payload_offset (es ! i)) + unat (de_capacity (es ! i)) \<le> hi"
proof -
  have "lo \<le> unat (de_header_offset (es ! i)) \<and> 64 dvd unat (de_header_offset (es ! i)) \<and>
    unat (de_payload_offset (es ! i)) = unat (de_header_offset (es ! i)) + 64 \<and>
    unat (de_payload_offset (es ! i)) + unat (de_capacity (es ! i)) \<le> hi"
    using assms
  proof (induction lo es hi arbitrary: i rule: chunk_chain.induct)
    case (2 lo e es hi)
    show ?case
    proof (cases i)
      case 0
      then show ?thesis using 2 chunk_chain_bounds by auto
    next
      case (Suc j)
      then show ?thesis using 2 by (fastforce dest: order_trans)
    qed
  qed simp
  then show "lo \<le> unat (de_header_offset (es ! i))" "64 dvd unat (de_header_offset (es ! i))"
    "unat (de_payload_offset (es ! i)) = unat (de_header_offset (es ! i)) + 64"
    "unat (de_payload_offset (es ! i)) + unat (de_capacity (es ! i)) \<le> hi"
    by auto
qed

lemma chunk_chain_ordered:
  "chunk_chain lo es hi \<Longrightarrow> i < j \<Longrightarrow> j < length es \<Longrightarrow>
     unat (de_payload_offset (es ! i)) + unat (de_capacity (es ! i)) \<le> unat (de_header_offset (es ! j))"
proof (induction lo es hi arbitrary: i j rule: chunk_chain.induct)
  case (2 lo e es hi)
  obtain k where j: "j = Suc k" using 2 by (cases j) auto
  then show ?case
    using 2 by (cases i) (auto dest: chunk_chain_nth(1))
qed simp

lemma layoutChunks_spec:
  assumes "layoutChunks n capacity c next dir = Some (dir', next')"
  shows "\<exists>es. dir' = dir @ es \<and> length es = n \<and> chunk_chain (unat next) es (unat next') \<and>
    (\<forall>e \<in> set es. de_capacity e = capacity \<and> de_size_class_index e = c)"
  using assms
proof (induction n arbitrary: "next" dir)
  case (Suc n)
  obtain h p q m where steps: "checkedAlign next kChunkAlignment = Some h"
    "checkedAdd h sizeofChunkHeader = Some p" "checkedAdd p capacity = Some q"
    "checkedAlign q kChunkAlignment = Some m"
    "layoutChunks n capacity c m (dir @ [\<lparr>de_header_offset = h, de_payload_offset = p,
       de_capacity = capacity, de_size_class_index = c\<rparr>]) = Some (dir', next')"
    using Suc.prems by (auto split: option.splits)
  note h = checkedAlign_Some [OF steps(1) [unfolded kChunkAlignment_def]]
  note m = checkedAlign_Some [OF steps(4) [unfolded kChunkAlignment_def]]
  have p: "unat p = unat h + 64" using conjunct2 [OF checkedAdd_Some [OF steps(2)]]
    by (simp add: sizeofChunkHeader_def)
  have q: "unat q = unat p + unat capacity" using conjunct2 [OF checkedAdd_Some [OF steps(3)]] .
  obtain es where es: "dir' = dir @ \<lparr>de_header_offset = h, de_payload_offset = p,
       de_capacity = capacity, de_size_class_index = c\<rparr> # es" "length es = n"
    "chunk_chain (unat m) es (unat next')"
    "\<forall>e \<in> set es. de_capacity e = capacity \<and> de_size_class_index e = c"
    using Suc.IH [OF steps(5)] by auto
  have "chunk_chain (unat q) es (unat next')"
    using es(3) m(1) by (rule chunk_chain_mono) simp
  then show ?case
    using es h p q
    by (intro exI [of _ "\<lparr>de_header_offset = h, de_payload_offset = p, de_capacity = capacity,
          de_size_class_index = c\<rparr> # es"]) auto
qed simp

text \<open>
  \<open>class_chain prev first ms\<close>: the capacities increase beyond \<open>prev\<close>, no class is empty,
  and the chunks of the classes are numbered consecutively from \<open>first\<close> on.
\<close>

fun class_chain :: "nat \<Rightarrow> nat \<Rightarrow> SizeClassMetadata list \<Rightarrow> nat \<Rightarrow> bool" where
  "class_chain prev first [] total_chunks \<longleftrightarrow> first = total_chunks"
| "class_chain prev first (m # ms) total_chunks \<longleftrightarrow>
     prev < unat (scm_capacity m) \<and> unat (scm_capacity m) < 2 ^ 32 \<and>
     unat (scm_first_chunk_index m) = first \<and> scm_chunk_count m \<noteq> 0 \<and>
     class_chain (unat (scm_capacity m)) (first + unat (scm_chunk_count m)) ms total_chunks"

lemma class_chain_append:
  "class_chain prev first (ms @ [m]) total_chunks \<longleftrightarrow>
     (\<exists>mid. class_chain prev first ms mid \<and>
        class_chain (if ms = [] then prev else unat (scm_capacity (last ms))) mid [m] total_chunks)"
  by (induction ms arbitrary: prev first) auto

lemma layoutClasses_spec:
  assumes "layoutClasses items prev tot ms = Some (ms', tot')"
    and "class_chain 0 0 ms (unat tot)" "unat tot < 2 ^ 32"
    and "unat prev = (if ms = [] then 0 else unat (scm_capacity (last ms)))"
  shows "class_chain 0 0 ms' (unat tot') \<and> unat tot' < 2 ^ 32 \<and>
    length ms' = length ms + length items \<and>
    map scm_capacity ms' = map scm_capacity ms @ map cc_chunk_size items \<and>
    map scm_chunk_count ms' = map scm_chunk_count ms @ map cc_chunk_count items"
  using assms
proof (induction items arbitrary: prev tot ms)
  case (Cons item items)
  define m where "m = \<lparr>scm_capacity = cc_chunk_size item, scm_first_chunk_index = ucast tot,
    scm_chunk_count = cc_chunk_count item\<rparr>"
  define tot1 where "tot1 = tot + ucast (cc_chunk_count item)"
  have guards: "cc_chunk_size item \<le> 0xFFFFFFFF" "cc_chunk_count item \<noteq> 0"
    "prev < cc_chunk_size item" "tot \<le> ucast (0xFFFFFFFF - cc_chunk_count item)"
    and rest: "layoutClasses items (cc_chunk_size item) tot1 (ms @ [m]) = Some (ms', tot')"
    using Cons.prems(1) by (auto simp: m_def tot1_def not_less not_le split: if_splits)
  have "unat (0xFFFFFFFF - cc_chunk_count item :: u32) = 0xFFFFFFFF - unat (cc_chunk_count item)"
    using unat_sub [of "cc_chunk_count item" "0xFFFFFFFF"] unat_u32 [of "cc_chunk_count item"]
    by (simp add: word_le_nat_alt)
  then have le: "unat tot + unat (cc_chunk_count item) \<le> 0xFFFFFFFF"
    using guards(4) unat_u32 [of "cc_chunk_count item"] by (simp add: word_le_nat_alt)
  have tot1: "unat tot1 = unat tot + unat (cc_chunk_count item)"
    using le by (simp add: tot1_def unat_add_no_wrap)
  have first: "unat (ucast tot :: u32) = unat tot"
    using Cons.prems(3) by (simp add: unat_ucast_u64_u32)
  have "class_chain 0 0 (ms @ [m]) (unat tot1)"
    using Cons.prems(2,4) guards first
    by (auto simp: class_chain_append m_def tot1 word_less_nat_alt word_le_nat_alt
        intro!: exI [of _ "unat tot"])
  then show ?case
    using Cons.IH [OF rest] le tot1 by (simp add: m_def)
qed simp

lemma layoutDirectory_spec:
  assumes "layoutDirectory ms c next dir = Some (dir', next')" "c + length ms < 2 ^ 32"
  shows "\<exists>es. dir' = dir @ es \<and> length es = (\<Sum>m\<leftarrow>ms. unat (scm_chunk_count m)) \<and>
    chunk_chain (unat next) es (unat next') \<and>
    (\<forall>e \<in> set es. c \<le> unat (de_size_class_index e) \<and> unat (de_size_class_index e) < c + length ms \<and>
       de_capacity e = scm_capacity (ms ! (unat (de_size_class_index e) - c)))"
  using assms
proof (induction ms arbitrary: c "next" dir)
  case (Cons m ms)
  obtain dir1 next1 where s: "layoutChunks (unat (scm_chunk_count m)) (scm_capacity m)
      (word_of_nat c) next dir = Some (dir1, next1)"
    "layoutDirectory ms (Suc c) next1 dir1 = Some (dir', next')"
    using Cons.prems by (auto split: option.splits)
  obtain es where es: "dir1 = dir @ es" "length es = unat (scm_chunk_count m)"
    "chunk_chain (unat next) es (unat next1)"
    "\<forall>e \<in> set es. de_capacity e = scm_capacity m \<and> de_size_class_index e = word_of_nat c"
    using layoutChunks_spec [OF s(1)] by blast
  obtain fs where fs: "dir' = dir1 @ fs" "length fs = (\<Sum>m\<leftarrow>ms. unat (scm_chunk_count m))"
    "chunk_chain (unat next1) fs (unat next')"
    "\<forall>e \<in> set fs. Suc c \<le> unat (de_size_class_index e) \<and>
       unat (de_size_class_index e) < Suc c + length ms \<and>
       de_capacity e = scm_capacity (ms ! (unat (de_size_class_index e) - Suc c))"
    using Cons.IH [OF s(2)] Cons.prems(2) by auto
  have c: "unat (word_of_nat c :: u32) = c" using Cons.prems(2) by simp
  have in_es: "c \<le> unat (de_size_class_index e) \<and>
      unat (de_size_class_index e) < c + length (m # ms) \<and>
      de_capacity e = scm_capacity ((m # ms) ! (unat (de_size_class_index e) - c))"
    if "e \<in> set es" for e using es(4) that c by simp
  have in_fs: "c \<le> unat (de_size_class_index e) \<and>
      unat (de_size_class_index e) < c + length (m # ms) \<and>
      de_capacity e = scm_capacity ((m # ms) ! (unat (de_size_class_index e) - c))"
    if "e \<in> set fs" for e
  proof -
    have "unat (de_size_class_index e) - c = Suc (unat (de_size_class_index e) - Suc c)"
      using fs(4) that by fastforce
    then show ?thesis using fs(4) that by fastforce
  qed
  show ?case
    using es(1,2) fs(1,2) chunk_chain_append [OF es(3) fs(3)] in_es in_fs
    by (intro exI [of _ "es @ fs"]) auto
qed simp

section \<open>The segment size in closed form\<close>

definition align64 :: "nat \<Rightarrow> nat" where
  "align64 n = (n + 63) div 64 * 64"

lemma align64_ge: "n \<le> align64 n" and align64_dvd [simp]: "64 dvd align64 n"
  by (simp_all add: align64_def)

lemma align64_of_dvd: "64 dvd n \<Longrightarrow> align64 n = n"
  by (auto simp: align64_def elim!: dvdE)

lemma align64_add: "64 dvd a \<Longrightarrow> align64 (a + b) = a + align64 b"
proof (elim dvdE)
  fix k assume "a = 64 * k"
  then have "a + b + 63 = (b + 63) + 64 * k" by simp
  then show ?thesis
    unfolding align64_def using \<open>a = 64 * k\<close> by (simp only: div_mult_self2) simp
qed

lemma align64_mod: "n mod 64 \<noteq> 0 \<Longrightarrow> align64 n = n + (64 - n mod 64)"
proof -
  assume "n mod 64 \<noteq> 0"
  then have "n + 63 = (n div 64 * 64 + 64) + (n mod 64 - 1)"
    using div_mult_mod_eq [of n 64] by linarith
  also have "\<dots> div 64 = n div 64 + 1"
    using mod_less_divisor [of 64 n] by (simp add: div_add1_eq)
  finally show ?thesis using align_up_nat [of n] by (simp add: align64_def)
qed

lemma checkedAlign_eq:
  "checkedAlign v 64 =
     (if align64 (unat v) < 2 ^ 64 then Some (word_of_nat (align64 (unat v))) else None)"
proof (cases "unat v mod 64 = 0")
  case True
  then have "v mod 64 = 0" by (simp add: unat_mod unat_eq_zero flip: unat_eq_zero)
  moreover have "align64 (unat v) = unat v" using True by (simp add: align64_of_dvd dvd_eq_mod_eq_0)
  ultimately show ?thesis using unat_u64 [of v] by (simp add: checkedAlign_def)
next
  case False
  have m: "unat (v mod 64) = unat v mod 64" by (simp add: unat_mod)
  then have "v mod 64 \<noteq> 0" using False by (metis unat_0)
  moreover have s: "unat (64 - v mod 64) = 64 - unat v mod 64"
    using unat_sub [of "v mod 64" 64] m by (simp add: word_le_nat_alt)
  moreover have "v + (64 - v mod 64) = word_of_nat (align64 (unat v))"
    using False by (simp add: align64_mod flip: s)
  ultimately show ?thesis
    using False by (simp add: checkedAlign_def checkedAdd_eq align64_mod)
qed

text \<open>One chunk takes a header and its capacity rounded up to the next cache line.\<close>

definition chunkBytes :: "nat \<Rightarrow> nat" where
  "chunkBytes capacity = 64 + align64 capacity"

lemma layoutChunks_offset:
  "64 dvd unat next \<Longrightarrow>
     map_option (unat \<circ> snd) (layoutChunks n capacity c next dir) =
       (if unat next + n * chunkBytes (unat capacity) < 2 ^ 64
        then Some (unat next + n * chunkBytes (unat capacity)) else None)"
proof (induction n arbitrary: "next" dir)
  case 0
  then show ?case using unat_u64 [of "next"] by simp
next
  case (Suc n)
  define m where "m = unat next + chunkBytes (unat capacity)"
  have al: "checkedAlign next kChunkAlignment = Some next"
    using Suc.prems unat_u64 [of "next"]
    by (simp add: kChunkAlignment_def checkedAlign_eq align64_of_dvd)
  have le: "unat capacity \<le> align64 (unat capacity)" by (rule align64_ge)
  have m_dvd: "64 dvd m" using Suc.prems by (simp add: m_def chunkBytes_def)
  show ?case
  proof (cases "m < 2 ^ 64")
    case False
    have "layoutChunks (Suc n) capacity c next dir = None"
    proof (cases "unat next + 64 + unat capacity < 2 ^ 64")
      case True
      have "checkedAdd next sizeofChunkHeader = Some (next + 64)"
        "unat (next + 64 :: u64) = unat next + 64"
        using True by (simp_all add: sizeofChunkHeader_def checkedAdd_eq unat_add_no_wrap)
      moreover from this have "checkedAdd (next + 64) capacity = Some (next + 64 + capacity)"
        "unat (next + 64 + capacity) = unat next + 64 + unat capacity"
        using True by (simp_all add: checkedAdd_eq unat_add_no_wrap)
      moreover have "align64 (unat next + 64 + unat capacity) = m"
        using align64_add [of "unat next + 64" "unat capacity"] Suc.prems
        by (simp add: m_def chunkBytes_def)
      ultimately show ?thesis
        using al False by (simp add: kChunkAlignment_def checkedAlign_eq)
    next
      case False
      then show ?thesis
        using al by (auto simp: sizeofChunkHeader_def checkedAdd_eq unat_add_no_wrap
            split: option.splits if_splits)
    qed
    moreover have "m \<le> unat next + Suc n * chunkBytes (unat capacity)" by (simp add: m_def)
    ultimately show ?thesis using False by (simp del: layoutChunks.simps)
  next
    case True
    have b: "unat next + 64 + unat capacity \<le> m" using le by (simp add: m_def chunkBytes_def)
    have "checkedAdd next sizeofChunkHeader = Some (next + 64)"
      "unat (next + 64 :: u64) = unat next + 64"
      using True b by (simp_all add: sizeofChunkHeader_def checkedAdd_eq unat_add_no_wrap)
    moreover from this have "checkedAdd (next + 64) capacity = Some (next + 64 + capacity)"
      "unat (next + 64 + capacity) = unat next + 64 + unat capacity"
      using True b by (simp_all add: checkedAdd_eq unat_add_no_wrap)
    moreover have "align64 (unat next + 64 + unat capacity) = m"
      using align64_add [of "unat next + 64" "unat capacity"] Suc.prems
      by (simp add: m_def chunkBytes_def)
    moreover have "unat (word_of_nat m :: u64) = m" using True by simp
    moreover have "m + n * chunkBytes (unat capacity) = unat next + Suc n * chunkBytes (unat capacity)"
      by (simp add: m_def)
    ultimately show ?thesis
      using al True m_dvd Suc.IH [of "word_of_nat m"]
      by (simp add: kChunkAlignment_def checkedAlign_eq)
  qed
qed

lemma layoutDirectory_offset:
  "64 dvd unat next \<Longrightarrow>
     map_option (unat \<circ> snd) (layoutDirectory ms c next dir) =
       (let e = unat next + (\<Sum>m\<leftarrow>ms. unat (scm_chunk_count m) * chunkBytes (unat (scm_capacity m)))
        in if e < 2 ^ 64 then Some e else None)"
proof (induction ms arbitrary: c "next" dir)
  case Nil
  then show ?case using unat_u64 [of "next"] by simp
next
  case (Cons m ms)
  define k where "k = unat (scm_chunk_count m) * chunkBytes (unat (scm_capacity m))"
  note off = layoutChunks_offset [OF Cons.prems, of "unat (scm_chunk_count m)" "scm_capacity m"
      "word_of_nat c" dir, folded k_def]
  show ?case
  proof (cases "layoutChunks (unat (scm_chunk_count m)) (scm_capacity m) (word_of_nat c) next dir")
    case None
    then have "\<not> unat next + k < 2 ^ 64" using off by (auto split: if_splits)
    then show ?thesis using None by (simp add: Let_def k_def)
  next
    case (Some p)
    obtain dir1 next1 where p: "p = (dir1, next1)" by (cases p)
    have next1: "unat next1 = unat next + k" using off Some p by (auto split: if_splits)
    have "64 dvd unat next1" using Cons.prems by (simp add: next1 k_def chunkBytes_def)
    then show ?thesis
      using Cons.IH [of next1 "Suc c" dir1] Some p next1 by (simp add: Let_def k_def add.assoc)
  qed
qed

lemma checkedAdd_of_nat:
  "a + b < 2 ^ 64 \<Longrightarrow> checkedAdd (word_of_nat a) (word_of_nat b) = Some (word_of_nat (a + b))"
  by (simp add: checkedAdd_eq)

lemma checkedMultiply_of_nat:
  "a * b < 2 ^ 64 \<Longrightarrow> a < 2 ^ 64 \<Longrightarrow> b < 2 ^ 64 \<Longrightarrow>
     checkedMultiply (word_of_nat a) (word_of_nat b) = Some (word_of_nat (a * b))"
  by (simp add: checkedMultiply_eq)

text \<open>With 32-bit counts the metadata area cannot overflow.\<close>

lemma layoutOffsets_eq:
  assumes "c < 2 ^ 32" "unat tot < 2 ^ 32"
  shows "layoutOffsets c tot = Some (word_of_nat (80 + 24 * c),
    word_of_nat (align64 (80 + 24 * c + 32 * unat tot)))"
proof -
  have cb: "checkedMultiply (word_of_nat c) (word_of_nat kSizeClassMetadataSize) =
      Some (word_of_nat (24 * c))"
    using checkedMultiply_of_nat [of c 24] assms(1)
    by (simp add: kSizeClassMetadataSize_def mult.commute)
  have db: "checkedMultiply tot (word_of_nat kChunkDirectoryEntrySize) =
      Some (word_of_nat (32 * unat tot))"
    using checkedMultiply_of_nat [of "unat tot" 32] assms(2)
    by (simp add: kChunkDirectoryEntrySize_def mult.commute)
  have d: "checkedAdd (word_of_nat kPoolHeaderSize) (word_of_nat (24 * c)) =
      Some (word_of_nat (80 + 24 * c))"
    unfolding kPoolHeaderSize_def by (rule checkedAdd_of_nat) (use assms(1) in simp)
  have s: "checkedAdd (word_of_nat (80 + 24 * c)) (word_of_nat (32 * unat tot)) =
      Some (word_of_nat (80 + 24 * c + 32 * unat tot))"
    by (rule checkedAdd_of_nat) (use assms in simp)
  have "align64 (80 + 24 * c + 32 * unat tot) \<le> 80 + 24 * c + 32 * unat tot + 63"
    by (simp add: align64_def)
  moreover have "unat (word_of_nat (80 + 24 * c + 32 * unat tot) :: u64) = 80 + 24 * c + 32 * unat tot"
    by (rule unat_of_nat_u64) (use assms in simp)
  ultimately have "checkedAlign (word_of_nat (80 + 24 * c + 32 * unat tot)) kChunkAlignment =
      Some (word_of_nat (align64 (80 + 24 * c + 32 * unat tot)))"
    using assms unfolding kChunkAlignment_def checkedAlign_eq by simp
  then show ?thesis
    unfolding layoutOffsets_def cb db option.case d s by simp
qed

text \<open>The configurations \<open>makeLayout\<close> accepts, and the size of the segment it asks for.\<close>

definition config_valid :: "MemoryPoolConfig \<Rightarrow> bool" where
  "config_valid config \<longleftrightarrow>
     config \<noteq> [] \<and> sorted_wrt (<) (map (unat \<circ> cc_chunk_size) config) \<and>
     (\<forall>item \<in> set config. cc_chunk_size item \<noteq> 0 \<and> unat (cc_chunk_size item) < 2 ^ 32 \<and>
        cc_chunk_count item \<noteq> 0) \<and>
     (\<Sum>item\<leftarrow>config. unat (cc_chunk_count item)) < 2 ^ 32"

definition segmentBytes :: "MemoryPoolConfig \<Rightarrow> nat" where
  "segmentBytes config =
     align64 (80 + 24 * length config + 32 * (\<Sum>item\<leftarrow>config. unat (cc_chunk_count item))) +
     (\<Sum>item\<leftarrow>config. unat (cc_chunk_count item) * chunkBytes (unat (cc_chunk_size item)))"

lemma layoutClasses_ok_iff:
  assumes "unat tot < 2 ^ 32"
  shows "layoutClasses items prev tot ms \<noteq> None \<longleftrightarrow>
    sorted_wrt (<) (unat prev # map (unat \<circ> cc_chunk_size) items) \<and>
    (\<forall>item \<in> set items. unat (cc_chunk_size item) < 2 ^ 32 \<and> cc_chunk_count item \<noteq> 0) \<and>
    unat tot + (\<Sum>item\<leftarrow>items. unat (cc_chunk_count item)) < 2 ^ 32"
  using assms
proof (induction items arbitrary: prev tot ms)
  case (Cons item items)
  have sub: "unat (0xFFFFFFFF - cc_chunk_count item :: u32) = 0xFFFFFFFF - unat (cc_chunk_count item)"
    using unat_sub [of "cc_chunk_count item" "0xFFFFFFFF"] unat_u32 [of "cc_chunk_count item"]
    by (simp add: word_le_nat_alt)
  have guard: "tot > ucast (0xFFFFFFFF - cc_chunk_count item) \<longleftrightarrow>
      \<not> unat tot + unat (cc_chunk_count item) < 2 ^ 32"
    using unat_u32 [of "cc_chunk_count item"] by (auto simp: word_less_nat_alt sub)
  show ?case
  proof (cases "unat tot + unat (cc_chunk_count item) < 2 ^ 32")
    case True
    then have tot1: "unat (tot + ucast (cc_chunk_count item)) =
        unat tot + unat (cc_chunk_count item)"
      by (simp add: unat_add_no_wrap)
    have IH: "layoutClasses items (cc_chunk_size item) (tot + ucast (cc_chunk_count item)) ms' \<noteq> None \<longleftrightarrow>
        sorted_wrt (<) (unat (cc_chunk_size item) # map (unat \<circ> cc_chunk_size) items) \<and>
        (\<forall>item \<in> set items. unat (cc_chunk_size item) < 2 ^ 32 \<and> cc_chunk_count item \<noteq> 0) \<and>
        unat tot + unat (cc_chunk_count item) + (\<Sum>item\<leftarrow>items. unat (cc_chunk_count item)) < 2 ^ 32"
      for ms' using Cons.IH [of "tot + ucast (cc_chunk_count item)"] True tot1 by (simp add: comp_def)
    have "cc_chunk_size item > 0xFFFFFFFF \<longleftrightarrow> \<not> unat (cc_chunk_size item) < 2 ^ 32"
      "cc_chunk_size item \<le> prev \<longleftrightarrow> unat (cc_chunk_size item) \<le> unat prev"
      by (auto simp: word_less_nat_alt word_le_nat_alt)
    moreover have "cc_chunk_size item = 0 \<Longrightarrow> cc_chunk_size item \<le> prev" by simp
    ultimately show ?thesis
      using guard True IH by (auto simp: not_le add.assoc comp_def)
  next
    case False
    then show ?thesis using guard by auto
  qed
qed simp

section \<open>Well-formed layouts\<close>

definition layout_ok ::
  "SizeClassMetadata list \<Rightarrow> ChunkDirectoryEntry list \<Rightarrow> nat \<Rightarrow> nat \<Rightarrow> bool" where
  "layout_ok classes dir lo hi \<longleftrightarrow>
     classes \<noteq> [] \<and> class_chain 0 0 classes (length dir) \<and> length dir < 2 ^ 32 \<and>
     chunk_chain lo dir hi \<and>
     (\<forall>e \<in> set dir. unat (de_size_class_index e) < length classes \<and>
        de_capacity e = scm_capacity (classes ! unat (de_size_class_index e)))"

lemma class_chain_sum:
  "class_chain prev first ms tot \<Longrightarrow> first + (\<Sum>m\<leftarrow>ms. unat (scm_chunk_count m)) = tot"
  by (induction prev first ms tot rule: class_chain.induct) auto

lemma class_chain_length: "class_chain prev first ms tot \<Longrightarrow> first + length ms \<le> tot"
proof (induction prev first ms tot rule: class_chain.induct)
  case (2 prev first m ms tot)
  have "0 < unat (scm_chunk_count m)" using 2 by (simp add: unat_gt_0)
  then show ?case using 2 by simp
qed simp

lemma layoutClasses_init:
  assumes "layoutClasses config 0 0 [] = Some (classes, tot)"
  shows "class_chain 0 0 classes (unat tot)" "unat tot < 2 ^ 32" "length classes = length config"
    "map scm_capacity classes = map cc_chunk_size config"
    "map scm_chunk_count classes = map cc_chunk_count config" "length classes < 2 ^ 32"
proof -
  note spec = layoutClasses_spec [OF assms]
  show chain: "class_chain 0 0 classes (unat tot)" and lt: "unat tot < 2 ^ 32"
    and "length classes = length config"
    and "map scm_capacity classes = map cc_chunk_size config"
    and "map scm_chunk_count classes = map cc_chunk_count config"
    using spec by auto
  show "length classes < 2 ^ 32" using class_chain_length [OF chain] lt by simp
qed

lemma sum_list_map_zip:
  assumes "map f xs = map f' ys" "map g xs = map g' ys"
  shows "(\<Sum>x\<leftarrow>xs. h (f x) (g x)) = (\<Sum>y\<leftarrow>ys. h (f' y) (g' y))"
proof -
  have "length xs = length ys" using assms(1) by (metis length_map)
  then show ?thesis using assms by (induction xs ys rule: list_induct2) auto
qed

lemma layoutClasses_sums:
  assumes "layoutClasses config 0 0 [] = Some (classes, tot)"
  shows "(\<Sum>m\<leftarrow>classes. unat (scm_chunk_count m)) = (\<Sum>item\<leftarrow>config. unat (cc_chunk_count item))"
    "(\<Sum>m\<leftarrow>classes. unat (scm_chunk_count m) * chunkBytes (unat (scm_capacity m))) =
     (\<Sum>item\<leftarrow>config. unat (cc_chunk_count item) * chunkBytes (unat (cc_chunk_size item)))"
proof -
  note init = layoutClasses_init [OF assms]
  show "(\<Sum>m\<leftarrow>classes. unat (scm_chunk_count m)) = (\<Sum>item\<leftarrow>config. unat (cc_chunk_count item))"
    using sum_list_map_zip [OF init(5) init(4), of "\<lambda>n _. unat n"] by simp
  show "(\<Sum>m\<leftarrow>classes. unat (scm_chunk_count m) * chunkBytes (unat (scm_capacity m))) =
     (\<Sum>item\<leftarrow>config. unat (cc_chunk_count item) * chunkBytes (unat (cc_chunk_size item)))"
    using sum_list_map_zip [OF init(5) init(4), of "\<lambda>n c. unat n * chunkBytes (unat c)"] by simp
qed

lemma makeLayout_cases:
  assumes "makeLayout config pool_id topic_id pid = Inr L"
  obtains classes tot dir seg where
    "config \<noteq> []" "layoutClasses config 0 0 [] = Some (classes, tot)"
    "layoutDirectory classes 0
       (word_of_nat (align64 (80 + 24 * length classes + 32 * unat tot))) [] = Some (dir, seg)"
    "L = \<lparr>pl_header =
            \<lparr>ph_magic = kMemoryPoolMagic, ph_version = kPoolLayoutVersion,
             ph_header_size = word_of_nat kPoolHeaderSize, ph_segment_size = seg,
             ph_pool_id = pool_id, ph_topic_id = topic_id, ph_owner_pid = pid,
             ph_size_class_count = word_of_nat (length classes),
             ph_chunk_count = word_of_nat (length dir),
             ph_size_class_offset = word_of_nat kPoolHeaderSize,
             ph_chunk_directory_offset = word_of_nat (80 + 24 * length classes),
             ph_chunk_storage_offset =
               word_of_nat (align64 (80 + 24 * length classes + 32 * unat tot))\<rparr>,
          pl_size_classes = classes, pl_directory = dir\<rparr>"
proof -
  obtain classes tot where ne: "config \<noteq> []"
    and cl: "layoutClasses config 0 0 [] = Some (classes, tot)"
    using assms by (auto simp: makeLayout_def split: if_splits option.splits)
  note off = layoutOffsets_eq [OF layoutClasses_init(6) [OF cl] layoutClasses_init(2) [OF cl]]
  obtain dir seg where "layoutDirectory classes 0
      (word_of_nat (align64 (80 + 24 * length classes + 32 * unat tot))) [] = Some (dir, seg)"
    using assms ne cl by (auto simp: makeLayout_def off split: if_splits option.splits)
  then show ?thesis
    using assms ne cl by (intro that) (auto simp: makeLayout_def off split: if_splits)
qed

lemma storage_offset_unat:
  assumes "layoutClasses config 0 0 [] = Some (classes, tot)"
  shows "unat (word_of_nat (align64 (80 + 24 * length classes + 32 * unat tot)) :: u64) =
    align64 (80 + 24 * length classes + 32 * unat tot)"
proof -
  have "align64 (80 + 24 * length classes + 32 * unat tot) \<le>
      80 + 24 * length classes + 32 * unat tot + 63"
    by (simp add: align64_def)
  then show ?thesis
    using layoutClasses_init(2,6) [OF assms] by (intro unat_of_nat_u64) simp
qed

lemma makeLayout_spec:
  assumes "makeLayout config pool_id topic_id pid = Inr L"
  defines "h \<equiv> pl_header L" and "classes \<equiv> pl_size_classes L" and "dir \<equiv> pl_directory L"
  shows "layout_ok classes dir (unat (ph_chunk_storage_offset h)) (unat (ph_segment_size h))"
    "unat (ph_chunk_directory_offset h) = 80 + 24 * length classes"
    "unat (ph_chunk_directory_offset h) + 32 * length dir \<le> unat (ph_chunk_storage_offset h)"
    "64 dvd unat (ph_chunk_storage_offset h)" "length classes < 2 ^ 32"
    "unat (ph_segment_size h) = segmentBytes config"
    "map scm_capacity classes = map cc_chunk_size config"
    "map scm_chunk_count classes = map cc_chunk_count config"
    "h = \<lparr>ph_magic = kMemoryPoolMagic, ph_version = kPoolLayoutVersion, ph_header_size = 80,
          ph_segment_size = ph_segment_size h, ph_pool_id = pool_id, ph_topic_id = topic_id,
          ph_owner_pid = pid, ph_size_class_count = word_of_nat (length classes),
          ph_chunk_count = word_of_nat (length dir), ph_size_class_offset = 80,
          ph_chunk_directory_offset = ph_chunk_directory_offset h,
          ph_chunk_storage_offset = ph_chunk_storage_offset h\<rparr>"
proof -
  obtain cs tot d seg where 1: "config \<noteq> []" "layoutClasses config 0 0 [] = Some (cs, tot)"
    "layoutDirectory cs 0
       (word_of_nat (align64 (80 + 24 * length cs + 32 * unat tot))) [] = Some (d, seg)"
    "L = \<lparr>pl_header =
            \<lparr>ph_magic = kMemoryPoolMagic, ph_version = kPoolLayoutVersion,
             ph_header_size = word_of_nat kPoolHeaderSize, ph_segment_size = seg,
             ph_pool_id = pool_id, ph_topic_id = topic_id, ph_owner_pid = pid,
             ph_size_class_count = word_of_nat (length cs),
             ph_chunk_count = word_of_nat (length d),
             ph_size_class_offset = word_of_nat kPoolHeaderSize,
             ph_chunk_directory_offset = word_of_nat (80 + 24 * length cs),
             ph_chunk_storage_offset =
               word_of_nat (align64 (80 + 24 * length cs + 32 * unat tot))\<rparr>,
          pl_size_classes = cs, pl_directory = d\<rparr>"
    using makeLayout_cases [OF assms(1)] .
  note init = layoutClasses_init [OF 1(2)]
  note st = storage_offset_unat [OF 1(2)]
  obtain len: "length d = unat tot"
    and chain: "chunk_chain (align64 (80 + 24 * length cs + 32 * unat tot)) d (unat seg)"
    and idx: "\<forall>e \<in> set d. unat (de_size_class_index e) < length cs \<and>
      de_capacity e = scm_capacity (cs ! unat (de_size_class_index e))"
    using layoutDirectory_spec [OF 1(3)] init(6) class_chain_sum [OF init(1)] st by auto
  have L: "classes = cs" "dir = d" "ph_segment_size h = seg"
    "unat (ph_chunk_storage_offset h) = align64 (80 + 24 * length cs + 32 * unat tot)"
    using 1(4) st by (simp_all add: h_def classes_def dir_def)
  show "layout_ok classes dir (unat (ph_chunk_storage_offset h)) (unat (ph_segment_size h))"
    using init 1(1) len chain idx by (auto simp: layout_ok_def L)
  show dd: "unat (ph_chunk_directory_offset h) = 80 + 24 * length classes"
    using 1(4) init(6) unat_of_nat_u64 [of "80 + 24 * length cs"] by (simp add: h_def L(1))
  show "unat (ph_chunk_directory_offset h) + 32 * length dir \<le> unat (ph_chunk_storage_offset h)"
    using align64_ge by (simp add: dd L len)
  show "64 dvd unat (ph_chunk_storage_offset h)" "length classes < 2 ^ 32"
    "map scm_capacity classes = map cc_chunk_size config"
    "map scm_chunk_count classes = map cc_chunk_count config"
    using init by (simp_all add: L)
  note sums = layoutClasses_sums [OF 1(2)]
  have "unat seg = align64 (80 + 24 * length cs + 32 * unat tot) +
      (\<Sum>m\<leftarrow>cs. unat (scm_chunk_count m) * chunkBytes (unat (scm_capacity m)))"
    using layoutDirectory_offset [of "word_of_nat (align64 (80 + 24 * length cs + 32 * unat tot))"
        cs 0 "[]"] 1(3) st by (simp add: Let_def split: if_splits)
  then show "unat (ph_segment_size h) = segmentBytes config"
    using sums init(3) class_chain_sum [OF init(1)] by (simp add: L segmentBytes_def)
  show "h = \<lparr>ph_magic = kMemoryPoolMagic, ph_version = kPoolLayoutVersion, ph_header_size = 80,
          ph_segment_size = ph_segment_size h, ph_pool_id = pool_id, ph_topic_id = topic_id,
          ph_owner_pid = pid, ph_size_class_count = word_of_nat (length classes),
          ph_chunk_count = word_of_nat (length dir), ph_size_class_offset = 80,
          ph_chunk_directory_offset = ph_chunk_directory_offset h,
          ph_chunk_storage_offset = ph_chunk_storage_offset h\<rparr>"
    using 1(4) by (simp add: h_def classes_def dir_def kPoolHeaderSize_def)
qed

text \<open>\<open>makeLayout\<close> succeeds exactly on the valid configurations whose segment size fits.\<close>

lemma makeLayout_succeeds_iff:
  "(\<exists>L. makeLayout config pool_id topic_id pid = Inr L) \<longleftrightarrow>
     config_valid config \<and> segmentBytes config < 2 ^ 64"
  (is "?lhs \<longleftrightarrow> ?rhs")
proof
  assume ?lhs
  then obtain L where L: "makeLayout config pool_id topic_id pid = Inr L" by blast
  then obtain classes tot where "config \<noteq> []" "layoutClasses config 0 0 [] = Some (classes, tot)"
    by (rule makeLayout_cases)
  then have "config_valid config"
    using layoutClasses_ok_iff [of 0 config 0 "[]"] by (auto simp: config_valid_def unat_gt_0)
  then show ?rhs
    using makeLayout_spec(6) [OF L] unat_u64 [of "ph_segment_size (pl_header L)"] by simp
next
  assume rhs: ?rhs
  then obtain classes tot where cl: "layoutClasses config 0 0 [] = Some (classes, tot)"
    using layoutClasses_ok_iff [of 0 config 0 "[]"]
    by (auto simp: config_valid_def unat_gt_0 word_neq_0_conv)
  note init = layoutClasses_init [OF cl]
  note st = storage_offset_unat [OF cl]
  have sums: "(\<Sum>m\<leftarrow>classes. unat (scm_chunk_count m)) = (\<Sum>item\<leftarrow>config. unat (cc_chunk_count item))"
    "(\<Sum>m\<leftarrow>classes. unat (scm_chunk_count m) * chunkBytes (unat (scm_capacity m))) =
     (\<Sum>item\<leftarrow>config. unat (cc_chunk_count item) * chunkBytes (unat (cc_chunk_size item)))"
    by (rule layoutClasses_sums [OF cl])+
  obtain dir seg where "layoutDirectory classes 0
      (word_of_nat (align64 (80 + 24 * length classes + 32 * unat tot))) [] = Some (dir, seg)"
    using layoutDirectory_offset [of "word_of_nat (align64 (80 + 24 * length classes + 32 * unat tot))"
        classes 0 "[]"] st rhs sums class_chain_sum [OF init(1)] init(3)
    by (auto simp: Let_def segmentBytes_def split: if_splits)
  then show ?lhs
    using rhs cl init by (simp add: makeLayout_def config_valid_def layoutOffsets_eq)
qed

end
