(* ===== verification/MW_Memory_Pool.thy ===== *)
theory MW_Memory_Pool
  imports MW_Pool_Layout
begin

text \<open>
  The publisher's side of a pool segment: \<open>MemoryPool\<close> of
  \<open>src/middleware/src/detail/memory_pool.cpp\<close>.  The mapped segment is modelled as a byte memory,
  which holds the big-endian metadata and the payloads, and a store of \<open>ChunkHeader\<close> objects by
  their offset; the layout lemmas show that the two never overlap.  Every public operation holds
  the pool's mutex for its whole body, so an operation is one step.  Subscribers map the segment
  read-only, so nobody else changes it.
\<close>

section \<open>Memory\<close>

type_synonym memory = "nat \<Rightarrow> u8"

definition mem_write :: "nat \<Rightarrow> bytes \<Rightarrow> memory \<Rightarrow> memory" where
  "mem_write off bs mem = (\<lambda>a. if off \<le> a \<and> a < off + length bs then bs ! (a - off) else mem a)"

definition mem_read :: "nat \<Rightarrow> nat \<Rightarrow> memory \<Rightarrow> bytes" where
  "mem_read off n mem = map (\<lambda>i. mem (off + i)) [0..<n]"

lemma length_mem_read [simp]: "length (mem_read off n mem) = n"
  by (simp add: mem_read_def)

lemma mem_read_write_same [simp]: "n = length bs \<Longrightarrow> mem_read off n (mem_write off bs mem) = bs"
  by (rule nth_equalityI) (auto simp: mem_read_def mem_write_def)

lemma mem_read_write_prefix:
  "n \<le> length bs \<Longrightarrow> mem_read off n (mem_write off bs mem) = take n bs"
  by (rule nth_equalityI) (auto simp: mem_read_def mem_write_def)

lemma mem_read_write_other:
  "off + n \<le> off' \<or> off' + length bs \<le> off \<Longrightarrow>
     mem_read off n (mem_write off' bs mem) = mem_read off n mem"
  by (rule nth_equalityI) (auto simp: mem_read_def mem_write_def)

section \<open>Metadata encodings\<close>

definition encodePoolHeader :: "PoolHeader \<Rightarrow> bytes" where
  "encodePoolHeader header =
     (let output = replicate kPoolHeaderSize 0;
          output = put_be 0 (ph_magic header) output;
          output = put_be 4 (ph_version header) output;
          output = put_be 6 (ph_header_size header) output;
          output = put_be 8 (ph_segment_size header) output;
          output = put_be 16 (ph_pool_id header) output;
          output = put_be 24 (ph_topic_id header) output;
          output = put_be 32 (ph_owner_pid header) output;
          output = put_be 40 (ph_size_class_count header) output;
          output = put_be 44 (ph_chunk_count header) output;
          output = put_be 48 (ph_size_class_offset header) output;
          output = put_be 56 (ph_chunk_directory_offset header) output;
          output = put_be 64 (ph_chunk_storage_offset header) output
      in output)"

definition decodePoolHeader :: "bytes \<Rightarrow> PoolHeader" where
  "decodePoolHeader input =
     \<lparr>ph_magic = get_be 0 input, ph_version = get_be 4 input, ph_header_size = get_be 6 input,
      ph_segment_size = get_be 8 input, ph_pool_id = get_be 16 input,
      ph_topic_id = get_be 24 input, ph_owner_pid = get_be 32 input,
      ph_size_class_count = get_be 40 input, ph_chunk_count = get_be 44 input,
      ph_size_class_offset = get_be 48 input, ph_chunk_directory_offset = get_be 56 input,
      ph_chunk_storage_offset = get_be 64 input\<rparr>"

definition encodeSizeClass :: "SizeClassMetadata \<Rightarrow> bytes" where
  "encodeSizeClass metadata =
     (let output = replicate kSizeClassMetadataSize 0;
          output = put_be 0 (scm_capacity metadata) output;
          output = put_be 8 (scm_first_chunk_index metadata) output;
          output = put_be 12 (scm_chunk_count metadata) output
      in output)"

definition decodeSizeClass :: "bytes \<Rightarrow> SizeClassMetadata" where
  "decodeSizeClass input =
     \<lparr>scm_capacity = get_be 0 input, scm_first_chunk_index = get_be 8 input,
      scm_chunk_count = get_be 12 input\<rparr>"

definition encodeDirectoryEntry :: "ChunkDirectoryEntry \<Rightarrow> bytes" where
  "encodeDirectoryEntry entry =
     (let output = replicate kChunkDirectoryEntrySize 0;
          output = put_be 0 (de_header_offset entry) output;
          output = put_be 8 (de_payload_offset entry) output;
          output = put_be 16 (de_capacity entry) output;
          output = put_be 24 (de_size_class_index entry) output
      in output)"

definition decodeDirectoryEntry :: "bytes \<Rightarrow> ChunkDirectoryEntry" where
  "decodeDirectoryEntry input =
     \<lparr>de_header_offset = get_be 0 input, de_payload_offset = get_be 8 input,
      de_capacity = get_be 16 input, de_size_class_index = get_be 24 input\<rparr>"

lemma decode_encodePoolHeader: "decodePoolHeader (encodePoolHeader header) = header"
  by (simp add: decodePoolHeader_def encodePoolHeader_def kPoolHeaderSize_def Let_def codec_simps)

lemma decode_encodeSizeClass: "decodeSizeClass (encodeSizeClass m) = m"
  by (simp add: decodeSizeClass_def encodeSizeClass_def kSizeClassMetadataSize_def Let_def
      codec_simps)

lemma decode_encodeDirectoryEntry: "decodeDirectoryEntry (encodeDirectoryEntry e) = e"
  by (simp add: decodeDirectoryEntry_def encodeDirectoryEntry_def kChunkDirectoryEntrySize_def
      Let_def codec_simps)

lemma length_encodePoolHeader [simp]: "length (encodePoolHeader header) = 80"
  by (simp add: encodePoolHeader_def kPoolHeaderSize_def Let_def)

lemma length_encodeSizeClass [simp]: "length (encodeSizeClass m) = 24"
  by (simp add: encodeSizeClass_def kSizeClassMetadataSize_def Let_def)

lemma length_encodeDirectoryEntry [simp]: "length (encodeDirectoryEntry e) = 32"
  by (simp add: encodeDirectoryEntry_def kChunkDirectoryEntrySize_def Let_def)

section \<open>Chunk headers and the pool object\<close>

datatype ChunkState = Free | Loaned | Published | Released

record ChunkHeader =
  ck_ref_count :: u32
  ck_state :: ChunkState
  ck_payload_size :: u32
  ck_capacity :: u32
  ck_size_class_index :: u32
  ck_generation :: u32
  ck_sequence :: u64
  ck_publish_timestamp_ns :: u64
  ck_topic_id :: u64
  ck_pool_id :: u64
  ck_reserved :: u64

definition newChunkHeader :: ChunkHeader where
  "newChunkHeader =
     \<lparr>ck_ref_count = 0, ck_state = Free, ck_payload_size = 0, ck_capacity = 0,
      ck_size_class_index = 0, ck_generation = 0, ck_sequence = 0, ck_publish_timestamp_ns = 0,
      ck_topic_id = 0, ck_pool_id = 0, ck_reserved = 0\<rparr>"

record PoolMemory =
  pm_bytes :: memory
  pm_chunks :: "u64 \<Rightarrow> ChunkHeader"

record PoolInstrumentation =
  pi_shm_create_calls :: u64
  pi_truncate_calls :: u64
  pi_writable_map_calls :: u64
  pi_allocations :: u64
  pi_payload_copies :: u64
  pi_releases :: u64
  pi_reclaims :: u64
  pi_allocation_failures :: u64

record MemoryPool =
  mp_descriptor :: PoolDescriptor
  mp_region :: SharedMemoryRegion
  mp_memory :: PoolMemory
  mp_size_classes :: "SizeClassMetadata list"
  mp_directory :: "ChunkDirectoryEntry list"
  mp_free_lists :: "u32 list list"
  mp_instrumentation :: PoolInstrumentation

record AllocationResult =
  ar_error :: ErrorCode
  ar_handle :: ChunkHandle
  ar_capacity :: u32

record ReleaseResult =
  rr_error :: ErrorCode
  rr_remaining_references :: u32
  rr_became_released :: bool

text \<open>The payload pointer of a writable chunk is its offset in the segment.\<close>

record WritableChunkResult =
  wr_error :: ErrorCode
  wr_payload :: "u64 option"

record ChunkSnapshot =
  cs_state :: ChunkState
  cs_ref_count :: u32
  cs_payload_size :: u32
  cs_capacity :: u32
  cs_size_class_index :: u32
  cs_generation :: u32
  cs_sequence :: u64

definition nullHandle :: ChunkHandle where
  "nullHandle = \<lparr>ch_pool_id = 0, ch_chunk_index = 0, ch_generation = 0, ch_payload_offset = 0\<rparr>"

section \<open>Creating a pool\<close>

fun writeSizeClasses :: "SizeClassMetadata list \<Rightarrow> nat \<Rightarrow> memory \<Rightarrow> memory" where
  "writeSizeClasses [] index mem = mem"
| "writeSizeClasses (m # ms) index mem =
     writeSizeClasses ms (Suc index)
       (mem_write (kPoolHeaderSize + index * kSizeClassMetadataSize) (encodeSizeClass m) mem)"

fun writeDirectory ::
  "PoolDescriptor \<Rightarrow> nat \<Rightarrow> ChunkDirectoryEntry list \<Rightarrow> nat \<Rightarrow> PoolMemory \<Rightarrow> PoolMemory" where
  "writeDirectory descriptor directory_offset [] index pm = pm"
| "writeDirectory descriptor directory_offset (e # es) index pm =
     writeDirectory descriptor directory_offset es (Suc index)
       (pm\<lparr>pm_bytes := mem_write (directory_offset + index * kChunkDirectoryEntrySize)
              (encodeDirectoryEntry e) (pm_bytes pm),
           pm_chunks := (pm_chunks pm)(de_header_offset e :=
              newChunkHeader\<lparr>ck_capacity := ucast (de_capacity e),
                ck_size_class_index := de_size_class_index e,
                ck_topic_id := pd_topic_id descriptor, ck_pool_id := pd_pool_id descriptor\<rparr>)\<rparr>)"

text \<open>The constructor pushes the chunk indices from the highest down to 0.\<close>

fun fillFreeLists ::
  "nat \<Rightarrow> ChunkDirectoryEntry list \<Rightarrow> u32 list list \<Rightarrow> u32 list list" where
  "fillFreeLists 0 directory free_lists = free_lists"
| "fillFreeLists (Suc n) directory free_lists =
     (let c = unat (de_size_class_index (directory ! n)) in
      fillFreeLists n directory (free_lists[c := free_lists ! c @ [word_of_nat n]]))"

definition newMemoryPool ::
  "PoolDescriptor \<Rightarrow> SharedMemoryRegion \<Rightarrow> PoolMemory \<Rightarrow> SizeClassMetadata list
     \<Rightarrow> ChunkDirectoryEntry list \<Rightarrow> MemoryPool" where
  "newMemoryPool descriptor region pm size_classes directory =
     \<lparr>mp_descriptor = descriptor, mp_region = region, mp_memory = pm,
      mp_size_classes = size_classes, mp_directory = directory,
      mp_free_lists = fillFreeLists (length directory) directory
        (replicate (length size_classes) []),
      mp_instrumentation =
        \<lparr>pi_shm_create_calls = 1, pi_truncate_calls = 1, pi_writable_map_calls = 1,
         pi_allocations = 0, pi_payload_copies = 0, pi_releases = 0, pi_reclaims = 0,
         pi_allocation_failures = 0\<rparr>\<rparr>"

text \<open>A new mapping is zero-filled; \<open>initialMemory\<close> is what \<open>create\<close> writes into it.\<close>

definition initialMemory :: "PoolDescriptor \<Rightarrow> PoolLayout \<Rightarrow> PoolMemory" where
  "initialMemory descriptor layout =
     (let mem = mem_write 0 (encodePoolHeader (pl_header layout)) (\<lambda>_. 0);
          mem = writeSizeClasses (pl_size_classes layout) 0 mem
      in writeDirectory descriptor (unat (ph_chunk_directory_offset (pl_header layout)))
           (pl_directory layout) 0 \<lparr>pm_bytes = mem, pm_chunks = (\<lambda>_. newChunkHeader)\<rparr>)"

definition MemoryPool_create ::
  "PoolDescriptor \<Rightarrow> MemoryPoolConfig \<Rightarrow> u64 \<Rightarrow> ShmEnv \<Rightarrow> ShmOs
     \<Rightarrow> (PoolError + MemoryPool) \<times> ShmOs" where
  "MemoryPool_create descriptor config pid env os =
     (if pd_pool_id descriptor = 0 \<or> pd_topic_id descriptor = 0 \<or>
        pd_layout_version descriptor \<noteq> kPoolLayoutVersion
      then (Inl (PoolInvalidArgument ''invalid memory pool descriptor''), os)
      else case makeLayout config (pd_pool_id descriptor) (pd_topic_id descriptor) pid of
        Inl err \<Rightarrow> (Inl err, os)
      | Inr layout \<Rightarrow>
          if pd_segment_size descriptor \<noteq> ph_segment_size (pl_header layout)
          then (Inl (PoolInvalidArgument
                  ''memory pool descriptor size does not match configuration''), os)
          else
            (case SharedMemoryRegion_create (pd_shm_name descriptor)
                    (ph_segment_size (pl_header layout)) env os of
               (Inl err, os) \<Rightarrow> (Inl (PoolShmError err), os)
             | (Inr region, os) \<Rightarrow>
                 (Inr (newMemoryPool descriptor region (initialMemory descriptor layout)
                         (pl_size_classes layout) (pl_directory layout)), os)))"

section \<open>Operations\<close>

definition chunkHeader :: "MemoryPool \<Rightarrow> u32 \<Rightarrow> ChunkHeader" where
  "chunkHeader p chunk_index =
     pm_chunks (mp_memory p) (de_header_offset (mp_directory p ! unat chunk_index))"

definition setChunkHeader :: "MemoryPool \<Rightarrow> u32 \<Rightarrow> ChunkHeader \<Rightarrow> MemoryPool" where
  "setChunkHeader p chunk_index header =
     p\<lparr>mp_memory := (mp_memory p)\<lparr>pm_chunks := (pm_chunks (mp_memory p))
         (de_header_offset (mp_directory p ! unat chunk_index) := header)\<rparr>\<rparr>"

definition handleMatches :: "MemoryPool \<Rightarrow> ChunkHandle \<Rightarrow> ChunkHeader \<Rightarrow> bool" where
  "handleMatches p handle header \<longleftrightarrow>
     ch_pool_id handle = pd_pool_id (mp_descriptor p) \<and>
     ch_generation handle = ck_generation header \<and>
     ch_payload_offset handle =
       de_payload_offset (mp_directory p ! unat (ch_chunk_index handle))"

text \<open>\<open>std::find_if\<close> over the size classes: the first that is large enough.\<close>

fun findSizeClass :: "SizeClassMetadata list \<Rightarrow> size_t \<Rightarrow> nat option" where
  "findSizeClass [] payload_size = None"
| "findSizeClass (m # ms) payload_size =
     (if scm_capacity m \<ge> payload_size then Some 0
      else map_option Suc (findSizeClass ms payload_size))"

definition nextGeneration :: "u32 \<Rightarrow> u32" where
  "nextGeneration generation =
     (let generation = generation + 1 in if generation = 0 then generation + 1 else generation)"

definition pushFree :: "MemoryPool \<Rightarrow> nat \<Rightarrow> u32 \<Rightarrow> MemoryPool" where
  "pushFree p c chunk_index =
     p\<lparr>mp_free_lists := (mp_free_lists p)[c := mp_free_lists p ! c @ [chunk_index]]\<rparr>"

definition countAllocation :: "MemoryPool \<Rightarrow> MemoryPool" where
  "countAllocation p = p\<lparr>mp_instrumentation := (mp_instrumentation p)
     \<lparr>pi_allocations := pi_allocations (mp_instrumentation p) + 1\<rparr>\<rparr>"

definition countAllocationFailure :: "MemoryPool \<Rightarrow> MemoryPool" where
  "countAllocationFailure p = p\<lparr>mp_instrumentation := (mp_instrumentation p)
     \<lparr>pi_allocation_failures := pi_allocation_failures (mp_instrumentation p) + 1\<rparr>\<rparr>"

definition countCopy :: "MemoryPool \<Rightarrow> MemoryPool" where
  "countCopy p = p\<lparr>mp_instrumentation := (mp_instrumentation p)
     \<lparr>pi_payload_copies := pi_payload_copies (mp_instrumentation p) + 1\<rparr>\<rparr>"

definition countRelease :: "MemoryPool \<Rightarrow> MemoryPool" where
  "countRelease p = p\<lparr>mp_instrumentation := (mp_instrumentation p)
     \<lparr>pi_releases := pi_releases (mp_instrumentation p) + 1\<rparr>\<rparr>"

definition countReclaim :: "MemoryPool \<Rightarrow> MemoryPool" where
  "countReclaim p = p\<lparr>mp_instrumentation := (mp_instrumentation p)
     \<lparr>pi_reclaims := pi_reclaims (mp_instrumentation p) + 1\<rparr>\<rparr>"

definition pool_allocate :: "size_t \<Rightarrow> MemoryPool \<Rightarrow> AllocationResult \<times> MemoryPool" where
  "pool_allocate payload_size p =
     (case findSizeClass (mp_size_classes p) payload_size of
        None \<Rightarrow> (\<lparr>ar_error = MessageTooLarge, ar_handle = nullHandle, ar_capacity = 0\<rparr>, p)
      | Some class_index \<Rightarrow>
          let free = mp_free_lists p ! class_index in
          if free = []
          then (\<lparr>ar_error = PoolExhausted, ar_handle = nullHandle, ar_capacity = 0\<rparr>,
                countAllocationFailure p)
          else
            let chunk_index = last free;
                p = p\<lparr>mp_free_lists := (mp_free_lists p)[class_index := butlast free]\<rparr>;
                header = chunkHeader p chunk_index in
            if ck_state header \<noteq> Free \<or> ck_ref_count header \<noteq> 0
            then (\<lparr>ar_error = InvalidState, ar_handle = nullHandle, ar_capacity = 0\<rparr>,
                  pushFree p class_index chunk_index)
            else
              let header = header\<lparr>ck_generation := nextGeneration (ck_generation header),
                    ck_payload_size := ucast payload_size, ck_sequence := 0,
                    ck_publish_timestamp_ns := 0, ck_state := Loaned\<rparr>;
                  p = countAllocation (setChunkHeader p chunk_index header) in
              (\<lparr>ar_error = Ok,
                ar_handle = \<lparr>ch_pool_id = pd_pool_id (mp_descriptor p),
                  ch_chunk_index = chunk_index, ch_generation = ck_generation header,
                  ch_payload_offset =
                    de_payload_offset (mp_directory p ! unat chunk_index)\<rparr>,
                ar_capacity = ck_capacity header\<rparr>, p))"

definition writablePayload :: "ChunkHandle \<Rightarrow> MemoryPool \<Rightarrow> WritableChunkResult" where
  "writablePayload handle p =
     (if unat (ch_chunk_index handle) \<ge> length (mp_directory p)
      then \<lparr>wr_error = InvalidChunkHandle, wr_payload = None\<rparr>
      else
        let header = chunkHeader p (ch_chunk_index handle) in
        if \<not> handleMatches p handle header
        then \<lparr>wr_error = InvalidChunkHandle, wr_payload = None\<rparr>
        else if ck_state header \<noteq> Loaned
        then \<lparr>wr_error = InvalidState, wr_payload = None\<rparr>
        else \<lparr>wr_error = Ok, wr_payload = Some (ch_payload_offset handle)\<rparr>)"

definition publishLocked :: "ChunkHandle \<Rightarrow> size_t \<Rightarrow> u64 \<Rightarrow> u32 \<Rightarrow> MemoryPool \<Rightarrow> ErrorCode" where
  "publishLocked handle payload_size sequence initial_references p =
     (if unat (ch_chunk_index handle) \<ge> length (mp_directory p) then InvalidChunkHandle
      else
        let header = chunkHeader p (ch_chunk_index handle) in
        if \<not> handleMatches p handle header then InvalidChunkHandle
        else if ck_state header \<noteq> Loaned then InvalidState
        else if payload_size \<noteq> ucast (ck_payload_size header) \<or>
          payload_size > ucast (ck_capacity header) \<or> sequence = 0 \<or> initial_references = 0
        then InvalidArgument
        else Ok)"

definition markPublished ::
  "ChunkHandle \<Rightarrow> u64 \<Rightarrow> u64 \<Rightarrow> u32 \<Rightarrow> MemoryPool \<Rightarrow> MemoryPool" where
  "markPublished handle sequence publish_timestamp_ns references p =
     setChunkHeader p (ch_chunk_index handle)
       ((chunkHeader p (ch_chunk_index handle))\<lparr>ck_sequence := sequence,
          ck_publish_timestamp_ns := publish_timestamp_ns, ck_ref_count := references,
          ck_state := Published\<rparr>)"

definition pool_writeAndPublish ::
  "ChunkHandle \<Rightarrow> bytes option \<Rightarrow> size_t \<Rightarrow> u64 \<Rightarrow> u64 \<Rightarrow> u32 \<Rightarrow> MemoryPool
     \<Rightarrow> ErrorCode \<times> MemoryPool" where
  "pool_writeAndPublish handle data payload_size sequence publish_timestamp_ns
       subscriber_references p =
     (if payload_size \<noteq> 0 \<and> data = None then (InvalidArgument, p)
      else
        let validation = publishLocked handle payload_size sequence subscriber_references p in
        if validation \<noteq> Ok then (validation, p)
        else
          let p = (if payload_size \<noteq> 0
                then p\<lparr>mp_memory := (mp_memory p)\<lparr>pm_bytes :=
                       mem_write (unat (ch_payload_offset handle))
                         (take (unat payload_size) (the data)) (pm_bytes (mp_memory p))\<rparr>\<rparr>
                else p);
              p = markPublished handle sequence publish_timestamp_ns subscriber_references p
          in (Ok, countCopy p))"

definition pool_publishLoaned ::
  "ChunkHandle \<Rightarrow> size_t \<Rightarrow> u64 \<Rightarrow> u64 \<Rightarrow> u32 \<Rightarrow> MemoryPool \<Rightarrow> ErrorCode \<times> MemoryPool" where
  "pool_publishLoaned handle payload_size sequence publish_timestamp_ns initial_references p =
     (let validation = publishLocked handle payload_size sequence initial_references p in
      if validation \<noteq> Ok then (validation, p)
      else (Ok, markPublished handle sequence publish_timestamp_ns initial_references p))"

definition pool_addReference :: "ChunkHandle \<Rightarrow> MemoryPool \<Rightarrow> ErrorCode \<times> MemoryPool" where
  "pool_addReference handle p =
     (if unat (ch_chunk_index handle) \<ge> length (mp_directory p) then (InvalidChunkHandle, p)
      else
        let header = chunkHeader p (ch_chunk_index handle) in
        if \<not> handleMatches p handle header then (InvalidChunkHandle, p)
        else if ck_state header \<noteq> Published then (InvalidState, p)
        else
          let references = ck_ref_count header in
          if references = 0 \<or> references = 0xFFFFFFFF then (InvalidState, p)
          else (Ok, setChunkHeader p (ch_chunk_index handle)
                  (header\<lparr>ck_ref_count := references + 1\<rparr>)))"

definition pool_release :: "ChunkHandle \<Rightarrow> MemoryPool \<Rightarrow> ReleaseResult \<times> MemoryPool" where
  "pool_release handle p =
     (if unat (ch_chunk_index handle) \<ge> length (mp_directory p)
      then (\<lparr>rr_error = InvalidChunkHandle, rr_remaining_references = 0,
             rr_became_released = False\<rparr>, p)
      else
        let header = chunkHeader p (ch_chunk_index handle) in
        if \<not> handleMatches p handle header
        then (\<lparr>rr_error = InvalidChunkHandle, rr_remaining_references = 0,
               rr_became_released = False\<rparr>, p)
        else if ck_state header \<noteq> Published
        then (\<lparr>rr_error = DuplicateRelease, rr_remaining_references = ck_ref_count header,
               rr_became_released = False\<rparr>, p)
        else
          let references = ck_ref_count header in
          if references = 0
          then (\<lparr>rr_error = DuplicateRelease, rr_remaining_references = 0,
                 rr_became_released = False\<rparr>, p)
          else
            let remaining = references - 1;
                released = (remaining = 0);
                header = header\<lparr>ck_ref_count := remaining\<rparr>;
                header = (if released then header\<lparr>ck_state := Released\<rparr> else header);
                p = countRelease (setChunkHeader p (ch_chunk_index handle) header) in
            (\<lparr>rr_error = Ok, rr_remaining_references = remaining,
              rr_became_released = released\<rparr>, p))"

definition pool_reclaim :: "ChunkHandle \<Rightarrow> MemoryPool \<Rightarrow> ErrorCode \<times> MemoryPool" where
  "pool_reclaim handle p =
     (if unat (ch_chunk_index handle) \<ge> length (mp_directory p) then (InvalidChunkHandle, p)
      else
        let header = chunkHeader p (ch_chunk_index handle) in
        if \<not> handleMatches p handle header then (InvalidChunkHandle, p)
        else if ck_state header \<noteq> Released \<or> ck_ref_count header \<noteq> 0 then (InvalidState, p)
        else
          let header = header\<lparr>ck_payload_size := 0, ck_sequence := 0,
                ck_publish_timestamp_ns := 0, ck_state := Free\<rparr>;
              p = setChunkHeader p (ch_chunk_index handle) header;
              p = pushFree p (unat (ck_size_class_index header)) (ch_chunk_index handle) in
          (Ok, countReclaim p))"

definition pool_cancel :: "ChunkHandle \<Rightarrow> MemoryPool \<Rightarrow> ErrorCode \<times> MemoryPool" where
  "pool_cancel handle p =
     (if unat (ch_chunk_index handle) \<ge> length (mp_directory p) then (InvalidChunkHandle, p)
      else
        let header = chunkHeader p (ch_chunk_index handle) in
        if \<not> handleMatches p handle header then (InvalidChunkHandle, p)
        else if ck_state header \<noteq> Loaned then (InvalidState, p)
        else
          let header = header\<lparr>ck_payload_size := 0, ck_state := Free\<rparr>;
              p = setChunkHeader p (ch_chunk_index handle) header;
              p = pushFree p (unat (ck_size_class_index header)) (ch_chunk_index handle) in
          (Ok, countReclaim p))"

text \<open>\<open>None\<close> is the \<open>std::out_of_range\<close> exception.\<close>

definition pool_snapshot :: "u32 \<Rightarrow> MemoryPool \<Rightarrow> ChunkSnapshot option" where
  "pool_snapshot chunk_index p =
     (if unat chunk_index \<ge> length (mp_directory p) then None
      else
        let header = chunkHeader p chunk_index in
        Some \<lparr>cs_state = ck_state header, cs_ref_count = ck_ref_count header,
              cs_payload_size = ck_payload_size header, cs_capacity = ck_capacity header,
              cs_size_class_index = ck_size_class_index header,
              cs_generation = ck_generation header, cs_sequence = ck_sequence header\<rparr>)"

end
