(* ===== verification/MW_Pool_Invariant.thy ===== *)
theory MW_Pool_Invariant
  imports MW_Memory_Pool
begin

text \<open>
  The invariant of a memory pool and its preservation by every operation: the layout is well
  formed, each chunk header agrees with the directory and with its life-cycle state, and the free
  lists hold exactly the free chunks, once each.
\<close>

section \<open>The invariant\<close>

definition pool_wf :: "MemoryPool \<Rightarrow> bool" where
  "pool_wf p \<longleftrightarrow>
     layout_ok (mp_size_classes p) (mp_directory p)
       (80 + 24 * length (mp_size_classes p) + 32 * length (mp_directory p))
       (unat (pd_segment_size (mp_descriptor p))) \<and>
     length (mp_free_lists p) = length (mp_size_classes p) \<and> pd_pool_id (mp_descriptor p) \<noteq> 0"

definition chunk_state_ok :: "ChunkHeader \<Rightarrow> bool" where
  "chunk_state_ok h \<longleftrightarrow>
     (case ck_state h of
        Free \<Rightarrow> ck_ref_count h = 0
      | Loaned \<Rightarrow> ck_ref_count h = 0 \<and> ck_generation h \<noteq> 0 \<and> ck_payload_size h \<le> ck_capacity h
      | Published \<Rightarrow> ck_ref_count h \<noteq> 0 \<and> ck_generation h \<noteq> 0 \<and> ck_sequence h \<noteq> 0 \<and>
          ck_payload_size h \<le> ck_capacity h
      | Released \<Rightarrow> ck_ref_count h = 0 \<and> ck_generation h \<noteq> 0)"

definition chunk_static_ok :: "MemoryPool \<Rightarrow> u32 \<Rightarrow> ChunkHeader \<Rightarrow> bool" where
  "chunk_static_ok p i h \<longleftrightarrow>
     ck_capacity h = ucast (de_capacity (mp_directory p ! unat i)) \<and>
     ck_size_class_index h = de_size_class_index (mp_directory p ! unat i) \<and>
     ck_pool_id h = pd_pool_id (mp_descriptor p) \<and> ck_topic_id h = pd_topic_id (mp_descriptor p)"

definition headers_ok :: "MemoryPool \<Rightarrow> bool" where
  "headers_ok p \<longleftrightarrow>
     (\<forall>i. unat i < length (mp_directory p) \<longrightarrow>
        chunk_static_ok p i (chunkHeader p i) \<and> chunk_state_ok (chunkHeader p i))"

definition free_ok :: "MemoryPool \<Rightarrow> bool" where
  "free_ok p \<longleftrightarrow>
     (\<forall>c < length (mp_size_classes p). distinct (mp_free_lists p ! c) \<and>
        (\<forall>i. i \<in> set (mp_free_lists p ! c) \<longleftrightarrow>
           unat i < length (mp_directory p) \<and>
           unat (de_size_class_index (mp_directory p ! unat i)) = c \<and>
           ck_state (chunkHeader p i) = Free))"

definition pool_inv :: "MemoryPool \<Rightarrow> bool" where
  "pool_inv p \<longleftrightarrow> pool_wf p \<and> headers_ok p \<and> free_ok p"

lemma pool_inv_headers [inv_dests]:
  assumes "pool_inv p" "unat i < length (mp_directory p)"
  shows "chunk_static_ok p i (chunkHeader p i)" "chunk_state_ok (chunkHeader p i)"
  using assms by (auto simp: pool_inv_def headers_ok_def)

lemma pool_inv_wf [inv_dests]: "pool_inv p \<Longrightarrow> pool_wf p"
  by (simp add: pool_inv_def)

section \<open>Layout facts of a well-formed pool\<close>

lemma pool_wf_chain:
  "pool_wf p \<Longrightarrow> chunk_chain (80 + 24 * length (mp_size_classes p) + 32 * length (mp_directory p))
     (mp_directory p) (unat (pd_segment_size (mp_descriptor p)))"
  by (simp add: pool_wf_def layout_ok_def)

lemma pool_wf_class:
  assumes "pool_wf p" "i < length (mp_directory p)"
  shows "unat (de_size_class_index (mp_directory p ! i)) < length (mp_size_classes p)"
    "de_capacity (mp_directory p ! i) =
       scm_capacity (mp_size_classes p ! unat (de_size_class_index (mp_directory p ! i)))"
  using assms by (auto simp: pool_wf_def layout_ok_def)

lemma class_chain_nth:
  "class_chain prev first ms tot \<Longrightarrow> c < length ms \<Longrightarrow> unat (scm_capacity (ms ! c)) < 2 ^ 32"
proof (induction prev first ms tot arbitrary: c rule: class_chain.induct)
  case (2 prev first m ms tot)
  then show ?case by (cases c) auto
qed simp

lemma pool_wf_capacity:
  assumes "pool_wf p" "i < length (mp_directory p)"
  shows "unat (de_capacity (mp_directory p ! i)) < 2 ^ 32"
proof -
  have "class_chain 0 0 (mp_size_classes p) (length (mp_directory p))"
    using assms(1) by (simp add: pool_wf_def layout_ok_def)
  then show ?thesis using class_chain_nth pool_wf_class [OF assms] by metis
qed

lemma header_offset_inj:
  assumes "pool_wf p" "i < length (mp_directory p)" "j < length (mp_directory p)"
    "de_header_offset (mp_directory p ! i) = de_header_offset (mp_directory p ! j)"
  shows "i = j"
proof -
  have "\<not> a < b" if "a < length (mp_directory p)" "b < length (mp_directory p)"
    "de_header_offset (mp_directory p ! a) = de_header_offset (mp_directory p ! b)" for a b
    using chunk_chain_ordered [OF pool_wf_chain [OF assms(1)], of a b]
      chunk_chain_nth(3) [OF pool_wf_chain [OF assms(1)], of a] that by auto
  then show ?thesis using assms by (metis linorder_neqE_nat)
qed

section \<open>Fields and headers after an update\<close>

lemma chunkHeader_set [frame_simps]:
  assumes "pool_wf p" "unat i < length (mp_directory p)" "unat j < length (mp_directory p)"
  shows "chunkHeader (setChunkHeader p i h) j = (if i = j then h else chunkHeader p j)"
  using header_offset_inj [OF assms]
  by (auto simp: chunkHeader_def setChunkHeader_def word_unat_eq_iff)

lemma setChunkHeader_fields [simp]:
  "mp_descriptor (setChunkHeader p i h) = mp_descriptor p"
  "mp_size_classes (setChunkHeader p i h) = mp_size_classes p"
  "mp_directory (setChunkHeader p i h) = mp_directory p"
  "mp_free_lists (setChunkHeader p i h) = mp_free_lists p"
  "mp_region (setChunkHeader p i h) = mp_region p"
  "pm_bytes (mp_memory (setChunkHeader p i h)) = pm_bytes (mp_memory p)"
  by (simp_all add: setChunkHeader_def)

lemmas count_defs =
  countAllocation_def countAllocationFailure_def countCopy_def countRelease_def countReclaim_def

lemma chunkHeader_instr [simp]:
  "chunkHeader (p\<lparr>mp_instrumentation := x\<rparr>) i = chunkHeader p i"
  "chunkHeader (p\<lparr>mp_free_lists := fl\<rparr>) i = chunkHeader p i"
  "chunkHeader (pushFree p c k) i = chunkHeader p i"
  by (simp_all add: chunkHeader_def pushFree_def)

text \<open>The invariant looks only at the layout, the headers and the free lists.\<close>

lemma pool_inv_cong:
  assumes "mp_descriptor p' = mp_descriptor p" "mp_size_classes p' = mp_size_classes p"
    "mp_directory p' = mp_directory p" "mp_free_lists p' = mp_free_lists p"
    "pm_chunks (mp_memory p') = pm_chunks (mp_memory p)"
  shows "pool_inv p' = pool_inv p"
  using assms
  by (simp add: pool_inv_def pool_wf_def headers_ok_def free_ok_def chunk_static_ok_def
      chunkHeader_def)

lemma pool_inv_count [simp]: "pool_inv (p\<lparr>mp_instrumentation := x\<rparr>) = pool_inv p"
  by (rule pool_inv_cong) simp_all

text \<open>
  One chunk changes its header and possibly its membership in the free list of its class: the
  single update all operations are built from.
\<close>

lemma pool_inv_update:
  assumes inv: "pool_inv p" and i: "unat i < length (mp_directory p)"
    and static: "chunk_static_ok p i h" and state: "chunk_state_ok h"
    and c: "c = unat (de_size_class_index (mp_directory p ! unat i))"
    and dist: "distinct fl" and mem: "\<And>j. j \<in> set fl \<longleftrightarrow>
      (if j = i then ck_state h = Free else j \<in> set (mp_free_lists p ! c))"
  shows "pool_inv ((setChunkHeader p i h)\<lparr>mp_free_lists := (mp_free_lists p)[c := fl]\<rparr>)"
    (is "pool_inv ?p'")
proof -
  have wf: "pool_wf p" using inv by (simp add: pool_inv_def)
  then have wf': "pool_wf ?p'" by (simp add: pool_wf_def)
  have len: "length (mp_free_lists p) = length (mp_size_classes p)"
    using wf by (simp add: pool_wf_def)
  have c_lt: "c < length (mp_size_classes p)" using pool_wf_class(1) [OF wf i] c by simp
  have hdr: "chunkHeader (setChunkHeader p i h) j = (if i = j then h else chunkHeader p j)"
    if "unat j < length (mp_directory p)" for j
    by (rule chunkHeader_set [OF wf i that])
  have "headers_ok ?p'"
    using inv static state by (auto simp: headers_ok_def hdr pool_inv_def chunk_static_ok_def)
  moreover have "free_ok ?p'"
    unfolding free_ok_def
  proof (intro allI impI conjI)
    fix c' assume c': "c' < length (mp_size_classes ?p')"
    have old: "distinct (mp_free_lists p ! c')"
      "j \<in> set (mp_free_lists p ! c') \<longleftrightarrow> unat j < length (mp_directory p) \<and>
         unat (de_size_class_index (mp_directory p ! unat j)) = c' \<and>
         ck_state (chunkHeader p j) = Free" for j
      using inv c' by (auto simp: pool_inv_def free_ok_def)
    show "distinct (mp_free_lists ?p' ! c')"
      using old(1) dist len c' by (cases "c' = c") simp_all
    fix j
    show "j \<in> set (mp_free_lists ?p' ! c') \<longleftrightarrow> unat j < length (mp_directory ?p') \<and>
      unat (de_size_class_index (mp_directory ?p' ! unat j)) = c' \<and>
      ck_state (chunkHeader ?p' j) = Free"
    proof (cases "c' = c")
      case True
      then show ?thesis using mem [of j] old(2) [of j] len c_lt i c hdr [of j] by auto
    next
      case False
      then show ?thesis using old(2) [of j] len c' c hdr [of j] by (auto split: if_splits)
    qed
  qed
  ultimately show ?thesis using wf' by (simp add: pool_inv_def)
qed

text \<open>The special case of a chunk that stays out of the free lists.\<close>

lemma pool_inv_set_header:
  assumes "pool_inv p" "unat i < length (mp_directory p)" "chunk_static_ok p i h"
    "chunk_state_ok h" "ck_state h \<noteq> Free" "ck_state (chunkHeader p i) \<noteq> Free"
  shows "pool_inv (setChunkHeader p i h)"
proof -
  define c where "c = unat (de_size_class_index (mp_directory p ! unat i))"
  have wf: "pool_wf p" using assms(1) by (simp add: pool_inv_def)
  have c: "c < length (mp_size_classes p)" using pool_wf_class(1) [OF wf assms(2)] by (simp add: c_def)
  have old: "distinct (mp_free_lists p ! c)" "i \<notin> set (mp_free_lists p ! c)"
    using assms(1,6) c by (auto simp: pool_inv_def free_ok_def)
  have "pool_inv ((setChunkHeader p i h)\<lparr>mp_free_lists :=
      (mp_free_lists p)[c := mp_free_lists p ! c]\<rparr>)"
    using assms old by (intro pool_inv_update) (auto simp: c_def)
  then show ?thesis
    by (subst (asm) pool_inv_cong [of _ "setChunkHeader p i h"]) simp_all
qed

section \<open>Allocation\<close>

lemma findSizeClass_Some:
  "findSizeClass ms n = Some c \<Longrightarrow>
     c < length ms \<and> n \<le> scm_capacity (ms ! c) \<and> (\<forall>d < c. scm_capacity (ms ! d) < n)"
proof (induction ms arbitrary: c)
  case (Cons m ms)
  show ?case
  proof (cases "n \<le> scm_capacity m")
    case True
    then show ?thesis using Cons.prems by simp
  next
    case False
    then obtain d where d: "findSizeClass ms n = Some d" "c = Suc d" using Cons.prems by auto
    then show ?thesis using Cons.IH [OF d(1)] False by (auto simp: less_Suc_eq_0_disj)
  qed
qed simp

lemma findSizeClass_None: "findSizeClass ms n = None \<longleftrightarrow> (\<forall>m \<in> set ms. scm_capacity m < n)"
  by (induction ms) auto

lemma nextGeneration_eq: "nextGeneration g = (if g = - 1 then 1 else g + 1)"
  by (simp add: nextGeneration_def Let_def flip: eq_neg_iff_add_eq_0)

lemma nextGeneration_nonzero [simp]: "nextGeneration g \<noteq> 0"
  by (simp add: nextGeneration_eq flip: eq_neg_iff_add_eq_0)

lemma nextGeneration_changes: "nextGeneration g \<noteq> g"
  by (auto simp: nextGeneration_eq)

lemma nextGeneration_unat: "g \<noteq> - 1 \<Longrightarrow> unat (nextGeneration g) = Suc (unat g)"
  by (simp add: nextGeneration_eq unat_Suc_no_wrap)

text \<open>
  The header an allocation leaves in the chunk, and the three outcomes of \<open>allocate\<close> on a pool
  that satisfies the invariant.  The guard on the chunk's state (\<open>InvalidState\<close>) never fires.
\<close>

definition loanedHeader :: "size_t \<Rightarrow> ChunkHeader \<Rightarrow> ChunkHeader" where
  "loanedHeader n h = h\<lparr>ck_generation := nextGeneration (ck_generation h),
     ck_payload_size := ucast n, ck_sequence := 0, ck_publish_timestamp_ns := 0,
     ck_state := Loaned\<rparr>"

lemma last_free:
  assumes "pool_inv p" "c < length (mp_size_classes p)" "mp_free_lists p ! c \<noteq> []"
  defines "i \<equiv> last (mp_free_lists p ! c)"
  shows "unat i < length (mp_directory p)"
    "unat (de_size_class_index (mp_directory p ! unat i)) = c"
    "ck_state (chunkHeader p i) = Free" "ck_ref_count (chunkHeader p i) = 0"
proof -
  have "i \<in> set (mp_free_lists p ! c)" using assms(3) by (simp add: i_def)
  then show i: "unat i < length (mp_directory p)"
    "unat (de_size_class_index (mp_directory p ! unat i)) = c"
    "ck_state (chunkHeader p i) = Free"
    using assms(1,2) by (auto simp: pool_inv_def free_ok_def)
  show "ck_ref_count (chunkHeader p i) = 0"
    using pool_inv_headers(2) [OF assms(1) i(1)] i(3) by (simp add: chunk_state_ok_def)
qed

lemma pool_allocate_cases:
  assumes inv: "pool_inv p"
  obtains
    (too_large) "findSizeClass (mp_size_classes p) n = None"
      "pool_allocate n p =
         (\<lparr>ar_error = MessageTooLarge, ar_handle = nullHandle, ar_capacity = 0\<rparr>, p)"
  | (exhausted) c where "findSizeClass (mp_size_classes p) n = Some c" "mp_free_lists p ! c = []"
      "pool_allocate n p =
         (\<lparr>ar_error = PoolExhausted, ar_handle = nullHandle, ar_capacity = 0\<rparr>,
          countAllocationFailure p)"
  | (loaned) c i where "findSizeClass (mp_size_classes p) n = Some c" "mp_free_lists p ! c \<noteq> []"
      "i = last (mp_free_lists p ! c)"
      "pool_allocate n p =
         (\<lparr>ar_error = Ok,
           ar_handle = \<lparr>ch_pool_id = pd_pool_id (mp_descriptor p), ch_chunk_index = i,
             ch_generation = nextGeneration (ck_generation (chunkHeader p i)),
             ch_payload_offset = de_payload_offset (mp_directory p ! unat i)\<rparr>,
           ar_capacity = ck_capacity (chunkHeader p i)\<rparr>,
          countAllocation ((setChunkHeader p i (loanedHeader n (chunkHeader p i)))
            \<lparr>mp_free_lists := (mp_free_lists p)[c := butlast (mp_free_lists p ! c)]\<rparr>))"
proof (cases "findSizeClass (mp_size_classes p) n")
  case None
  then show ?thesis by (intro too_large) (simp_all add: pool_allocate_def)
next
  case (Some c)
  have c: "c < length (mp_size_classes p)" using findSizeClass_Some [OF Some] by simp
  show ?thesis
  proof (cases "mp_free_lists p ! c = []")
    case True
    then show ?thesis using Some by (intro exhausted) (simp_all add: pool_allocate_def Let_def)
  next
    case False
    have set_swap: "setChunkHeader (p\<lparr>mp_free_lists := fl\<rparr>) i h =
        (setChunkHeader p i h)\<lparr>mp_free_lists := fl\<rparr>" for fl i h
      by (simp add: setChunkHeader_def)
    show ?thesis
      using Some False last_free [OF inv c False]
      by (intro loaned)
        (simp_all add: pool_allocate_def Let_def set_swap loanedHeader_def countAllocation_def)
  qed
qed

lemma loanedHeader_ok:
  assumes "pool_inv p" "findSizeClass (mp_size_classes p) n = Some c" "mp_free_lists p ! c \<noteq> []"
  defines "i \<equiv> last (mp_free_lists p ! c)"
  shows "chunk_static_ok p i (loanedHeader n (chunkHeader p i))"
    "chunk_state_ok (loanedHeader n (chunkHeader p i))"
    "unat (ck_payload_size (loanedHeader n (chunkHeader p i))) = unat n"
proof -
  have c: "c < length (mp_size_classes p)" "n \<le> scm_capacity (mp_size_classes p ! c)"
    using findSizeClass_Some [OF assms(2)] by simp_all
  note i = last_free [OF assms(1) c(1) assms(3), folded i_def]
  have wf: "pool_wf p" using assms(1) by (rule pool_inv_wf)
  show static: "chunk_static_ok p i (loanedHeader n (chunkHeader p i))"
    using pool_inv_headers(1) [OF assms(1) i(1)] by (simp add: chunk_static_ok_def loanedHeader_def)
  have cap: "unat (de_capacity (mp_directory p ! unat i)) < 2 ^ 32"
    "unat n \<le> unat (de_capacity (mp_directory p ! unat i))"
    using pool_wf_capacity [OF wf i(1)] pool_wf_class(2) [OF wf i(1)] i(2) c(2)
    by (simp_all add: word_le_nat_alt)
  then show n: "unat (ck_payload_size (loanedHeader n (chunkHeader p i))) = unat n"
    by (simp add: loanedHeader_def unat_ucast_u64_u32)
  have "unat (ck_capacity (chunkHeader p i)) = unat (de_capacity (mp_directory p ! unat i))"
    using pool_inv_headers(1) [OF assms(1) i(1)] cap(1)
    by (simp add: chunk_static_ok_def unat_ucast_u64_u32)
  then show "chunk_state_ok (loanedHeader n (chunkHeader p i))"
    using i(4) n cap(2) by (simp add: chunk_state_ok_def loanedHeader_def word_le_nat_alt)
qed

lemma pool_inv_allocate [inv_intros]:
  assumes "pool_inv p"
  shows "pool_inv (snd (pool_allocate n p))"
  using assms
proof (cases rule: pool_allocate_cases [of p n])
  case (loaned c i)
  have c: "c < length (mp_size_classes p)" using findSizeClass_Some [OF loaned(1)] by simp
  note i = last_free [OF assms c loaned(2), folded loaned(3)]
  have d: "distinct (mp_free_lists p ! c)" using assms c by (simp add: pool_inv_def free_ok_def)
  have "pool_inv ((setChunkHeader p i (loanedHeader n (chunkHeader p i)))
      \<lparr>mp_free_lists := (mp_free_lists p)[c := butlast (mp_free_lists p ! c)]\<rparr>)"
    using loanedHeader_ok [OF assms loaned(1,2), folded loaned(3)] i d loaned(2,3)
    by (intro pool_inv_update [OF assms i(1)])
      (auto simp: distinct_butlast distinct_last_butlast loanedHeader_def dest: in_set_butlastD)
  then show ?thesis using loaned(4) by (simp add: countAllocation_def)
qed (use assms in \<open>simp_all add: countAllocationFailure_def\<close>)

section \<open>Operations on a handle\<close>

definition handle_valid :: "MemoryPool \<Rightarrow> ChunkHandle \<Rightarrow> bool" where
  "handle_valid p h \<longleftrightarrow>
     unat (ch_chunk_index h) < length (mp_directory p) \<and>
     handleMatches p h (chunkHeader p (ch_chunk_index h))"

abbreviation handle_state :: "MemoryPool \<Rightarrow> ChunkHandle \<Rightarrow> ChunkState" where
  "handle_state p h \<equiv> ck_state (chunkHeader p (ch_chunk_index h))"

abbreviation handle_refs :: "MemoryPool \<Rightarrow> ChunkHandle \<Rightarrow> u32" where
  "handle_refs p h \<equiv> ck_ref_count (chunkHeader p (ch_chunk_index h))"

lemma handle_valid_lt [inv_dests]:
  "handle_valid p h \<Longrightarrow> unat (ch_chunk_index h) < length (mp_directory p)"
  by (simp add: handle_valid_def)

lemma not_handle_valid:
  "\<not> handle_valid p h \<longleftrightarrow> length (mp_directory p) \<le> unat (ch_chunk_index h) \<or>
     \<not> handleMatches p h (chunkHeader p (ch_chunk_index h))"
  by (auto simp: handle_valid_def)

lemma publishLocked_eq:
  "publishLocked h n sequence refs p =
     (if \<not> handle_valid p h then InvalidChunkHandle
      else if handle_state p h \<noteq> Loaned then InvalidState
      else if unat n \<noteq> unat (ck_payload_size (chunkHeader p (ch_chunk_index h))) \<or>
        unat n > unat (ck_capacity (chunkHeader p (ch_chunk_index h))) \<or> sequence = 0 \<or> refs = 0
      then InvalidArgument else Ok)"
  by (auto simp: publishLocked_def handle_valid_def Let_def word_less_nat_alt word_unat_eq_iff)

lemma publishLocked_Ok:
  "publishLocked h n sequence refs p = Ok \<longleftrightarrow>
     handle_valid p h \<and> handle_state p h = Loaned \<and>
     unat n = unat (ck_payload_size (chunkHeader p (ch_chunk_index h))) \<and>
     unat n \<le> unat (ck_capacity (chunkHeader p (ch_chunk_index h))) \<and> sequence \<noteq> 0 \<and> refs \<noteq> 0"
  by (auto simp: publishLocked_eq)

lemma pool_addReference_eq:
  assumes "pool_inv p"
  shows "pool_addReference h p =
    (if \<not> handle_valid p h then (InvalidChunkHandle, p)
     else if handle_state p h \<noteq> Published \<or> handle_refs p h = - 1 then (InvalidState, p)
     else (Ok, setChunkHeader p (ch_chunk_index h)
            ((chunkHeader p (ch_chunk_index h))\<lparr>ck_ref_count := handle_refs p h + 1\<rparr>)))"
  using pool_inv_headers(2) [OF assms, of "ch_chunk_index h"]
  by (auto simp: pool_addReference_def handle_valid_def Let_def chunk_state_ok_def)

lemma pool_release_eq:
  assumes "pool_inv p"
  shows "pool_release h p =
    (if \<not> handle_valid p h
     then (\<lparr>rr_error = InvalidChunkHandle, rr_remaining_references = 0,
            rr_became_released = False\<rparr>, p)
     else if handle_state p h \<noteq> Published
     then (\<lparr>rr_error = DuplicateRelease, rr_remaining_references = handle_refs p h,
            rr_became_released = False\<rparr>, p)
     else if handle_refs p h = 1
     then (\<lparr>rr_error = Ok, rr_remaining_references = 0, rr_became_released = True\<rparr>,
           countRelease (setChunkHeader p (ch_chunk_index h)
             ((chunkHeader p (ch_chunk_index h))\<lparr>ck_ref_count := 0, ck_state := Released\<rparr>)))
     else (\<lparr>rr_error = Ok, rr_remaining_references = handle_refs p h - 1,
            rr_became_released = False\<rparr>,
           countRelease (setChunkHeader p (ch_chunk_index h)
             ((chunkHeader p (ch_chunk_index h))\<lparr>ck_ref_count := handle_refs p h - 1\<rparr>))))"
  using pool_inv_headers(2) [OF assms, of "ch_chunk_index h"]
  by (auto simp: pool_release_def handle_valid_def Let_def chunk_state_ok_def)

lemma pool_reclaim_eq:
  assumes "pool_inv p"
  shows "pool_reclaim h p =
    (if \<not> handle_valid p h then (InvalidChunkHandle, p)
     else if handle_state p h \<noteq> Released then (InvalidState, p)
     else (Ok, countReclaim (pushFree (setChunkHeader p (ch_chunk_index h)
            ((chunkHeader p (ch_chunk_index h))\<lparr>ck_payload_size := 0, ck_sequence := 0,
               ck_publish_timestamp_ns := 0, ck_state := Free\<rparr>))
            (unat (de_size_class_index (mp_directory p ! unat (ch_chunk_index h))))
            (ch_chunk_index h))))"
  using pool_inv_headers [OF assms, of "ch_chunk_index h"]
  by (auto simp: pool_reclaim_def handle_valid_def Let_def chunk_state_ok_def chunk_static_ok_def)

lemma pool_cancel_eq:
  assumes "pool_inv p"
  shows "pool_cancel h p =
    (if \<not> handle_valid p h then (InvalidChunkHandle, p)
     else if handle_state p h \<noteq> Loaned then (InvalidState, p)
     else (Ok, countReclaim (pushFree (setChunkHeader p (ch_chunk_index h)
            ((chunkHeader p (ch_chunk_index h))\<lparr>ck_payload_size := 0, ck_state := Free\<rparr>))
            (unat (de_size_class_index (mp_directory p ! unat (ch_chunk_index h))))
            (ch_chunk_index h))))"
  using pool_inv_headers [OF assms, of "ch_chunk_index h"]
  by (auto simp: pool_cancel_def handle_valid_def Let_def chunk_state_ok_def chunk_static_ok_def)

section \<open>The operations keep the invariant\<close>

lemma markPublished_inv:
  assumes "pool_inv p" "publishLocked h n sequence refs p = Ok"
  shows "pool_inv (markPublished h sequence ts refs p)"
proof -
  have ok: "handle_valid p h" "handle_state p h = Loaned" "sequence \<noteq> 0" "refs \<noteq> 0"
    using assms(2) by (auto simp: publishLocked_Ok)
  note i = handle_valid_lt [OF ok(1)]
  show ?thesis
    unfolding markPublished_def
    using ok pool_inv_headers [OF assms(1) i]
    by (intro pool_inv_set_header [OF assms(1) i])
      (auto simp: chunk_static_ok_def chunk_state_ok_def)
qed

lemma pool_inv_bytes [simp]:
  "pool_inv (p\<lparr>mp_memory := (mp_memory p)\<lparr>pm_bytes := x\<rparr>\<rparr>) = pool_inv p"
  by (rule pool_inv_cong) simp_all

lemma chunkHeader_bytes [simp]:
  "chunkHeader (p\<lparr>mp_memory := (mp_memory p)\<lparr>pm_bytes := x\<rparr>\<rparr>) i = chunkHeader p i"
  by (simp add: chunkHeader_def)

lemma publishLocked_bytes [simp]:
  "publishLocked h n sequence refs (p\<lparr>mp_memory := (mp_memory p)\<lparr>pm_bytes := x\<rparr>\<rparr>) =
     publishLocked h n sequence refs p"
  by (simp add: publishLocked_def handleMatches_def)

lemma pool_inv_writeAndPublish [inv_intros]:
  assumes "pool_inv p"
  shows "pool_inv (snd (pool_writeAndPublish h data n sequence ts refs p))"
  using assms markPublished_inv [of _ h n sequence refs ts]
  by (auto simp: pool_writeAndPublish_def Let_def countCopy_def)

lemma pool_inv_publishLoaned [inv_intros]:
  assumes "pool_inv p"
  shows "pool_inv (snd (pool_publishLoaned h n sequence ts refs p))"
  using assms markPublished_inv [of p h n sequence refs ts]
  by (auto simp: pool_publishLoaned_def Let_def)

lemma pool_inv_addReference [inv_intros]:
  assumes "pool_inv p"
  shows "pool_inv (snd (pool_addReference h p))"
proof (cases "handle_valid p h \<and> handle_state p h = Published \<and> handle_refs p h \<noteq> - 1")
  case True
  then have i: "unat (ch_chunk_index h) < length (mp_directory p)" by (simp add: handle_valid_def)
  define r where "r = handle_refs p h + 1"
  have "r \<noteq> 0" using True by (simp add: r_def flip: eq_neg_iff_add_eq_0)
  then have "pool_inv (setChunkHeader p (ch_chunk_index h)
      ((chunkHeader p (ch_chunk_index h))\<lparr>ck_ref_count := r\<rparr>))"
    using True pool_inv_headers [OF assms i]
    by (intro pool_inv_set_header [OF assms i]) (auto simp: chunk_static_ok_def chunk_state_ok_def)
  then show ?thesis using True by (simp add: pool_addReference_eq [OF assms] r_def)
qed (use assms in \<open>auto simp: pool_addReference_eq [OF assms]\<close>)

lemma pool_inv_release [inv_intros]:
  assumes "pool_inv p"
  shows "pool_inv (snd (pool_release h p))"
proof (cases "handle_valid p h \<and> handle_state p h = Published")
  case True
  then have i: "unat (ch_chunk_index h) < length (mp_directory p)" by (simp add: handle_valid_def)
  note ok = pool_inv_headers [OF assms i]
  have last: "pool_inv (setChunkHeader p (ch_chunk_index h)
      ((chunkHeader p (ch_chunk_index h))\<lparr>ck_ref_count := 0, ck_state := Released\<rparr>))"
    using True ok
    by (intro pool_inv_set_header [OF assms i]) (auto simp: chunk_static_ok_def chunk_state_ok_def)
  have "pool_inv (setChunkHeader p (ch_chunk_index h)
      ((chunkHeader p (ch_chunk_index h))\<lparr>ck_ref_count := handle_refs p h - 1\<rparr>))"
    if "handle_refs p h \<noteq> 1"
    using True ok that
    by (intro pool_inv_set_header [OF assms i]) (auto simp: chunk_static_ok_def chunk_state_ok_def)
  then show ?thesis using True last by (simp add: pool_release_eq [OF assms] countRelease_def)
qed (use assms in \<open>auto simp: pool_release_eq [OF assms]\<close>)

text \<open>Giving a chunk back: its header becomes free and its index joins the free list.\<close>

lemma pool_inv_give_back:
  assumes inv: "pool_inv p" and i: "unat i < length (mp_directory p)"
    and "chunk_static_ok p i h" "chunk_state_ok h" "ck_state h = Free"
    and "ck_state (chunkHeader p i) \<noteq> Free"
  shows "pool_inv (pushFree (setChunkHeader p i h)
    (unat (de_size_class_index (mp_directory p ! unat i))) i)"
proof -
  define c where "c = unat (de_size_class_index (mp_directory p ! unat i))"
  have c: "c < length (mp_size_classes p)"
    using pool_wf_class(1) [OF pool_inv_wf [OF inv] i] by (simp add: c_def)
  have old: "distinct (mp_free_lists p ! c)" "i \<notin> set (mp_free_lists p ! c)"
    using inv assms(6) c by (auto simp: pool_inv_def free_ok_def)
  have "pool_inv ((setChunkHeader p i h)
      \<lparr>mp_free_lists := (mp_free_lists p)[c := mp_free_lists p ! c @ [i]]\<rparr>)"
    using assms old by (intro pool_inv_update) (auto simp: c_def)
  then show ?thesis by (simp add: pushFree_def c_def)
qed

lemma pool_inv_reclaim [inv_intros]:
  assumes "pool_inv p"
  shows "pool_inv (snd (pool_reclaim h p))"
proof (cases "handle_valid p h \<and> handle_state p h = Released")
  case True
  then have i: "unat (ch_chunk_index h) < length (mp_directory p)" by (simp add: handle_valid_def)
  have "pool_inv (pushFree (setChunkHeader p (ch_chunk_index h)
      ((chunkHeader p (ch_chunk_index h))\<lparr>ck_payload_size := 0, ck_sequence := 0,
         ck_publish_timestamp_ns := 0, ck_state := Free\<rparr>))
      (unat (de_size_class_index (mp_directory p ! unat (ch_chunk_index h)))) (ch_chunk_index h))"
    using True pool_inv_headers [OF assms i]
    by (intro pool_inv_give_back [OF assms i]) (auto simp: chunk_static_ok_def chunk_state_ok_def)
  then show ?thesis using True by (simp add: pool_reclaim_eq [OF assms] countReclaim_def)
qed (use assms in \<open>auto simp: pool_reclaim_eq [OF assms]\<close>)

lemma pool_inv_cancel [inv_intros]:
  assumes "pool_inv p"
  shows "pool_inv (snd (pool_cancel h p))"
proof (cases "handle_valid p h \<and> handle_state p h = Loaned")
  case True
  then have i: "unat (ch_chunk_index h) < length (mp_directory p)" by (simp add: handle_valid_def)
  have "pool_inv (pushFree (setChunkHeader p (ch_chunk_index h)
      ((chunkHeader p (ch_chunk_index h))\<lparr>ck_payload_size := 0, ck_state := Free\<rparr>))
      (unat (de_size_class_index (mp_directory p ! unat (ch_chunk_index h)))) (ch_chunk_index h))"
    using True pool_inv_headers [OF assms i]
    by (intro pool_inv_give_back [OF assms i]) (auto simp: chunk_static_ok_def chunk_state_ok_def)
  then show ?thesis using True by (simp add: pool_cancel_eq [OF assms] countReclaim_def)
qed (use assms in \<open>auto simp: pool_cancel_eq [OF assms]\<close>)

end
