(* ===== verification/MW_Pool_Lifecycle.thy ===== *)
theory MW_Pool_Lifecycle
  imports MW_Pool_Invariant
begin

text \<open>
  What a memory pool does over its life: a created pool satisfies the invariant, each operation
  moves at most one chunk along its life cycle
  \<open>Free \<rightarrow> Loaned \<rightarrow> Published \<rightarrow> Released \<rightarrow> Free\<close>, payloads of published chunks do not change, and
  handles do not come back.
\<close>

section \<open>A created pool satisfies the invariant\<close>

lemma writeDirectory_chunks_other:
  "o' \<notin> de_header_offset ` set es \<Longrightarrow>
     pm_chunks (writeDirectory d off es k pm) o' = pm_chunks pm o'"
  by (induction es arbitrary: k pm) auto

lemma writeDirectory_chunks:
  "distinct (map de_header_offset es) \<Longrightarrow> i < length es \<Longrightarrow>
     pm_chunks (writeDirectory d off es k pm) (de_header_offset (es ! i)) =
       newChunkHeader\<lparr>ck_capacity := ucast (de_capacity (es ! i)),
         ck_size_class_index := de_size_class_index (es ! i),
         ck_topic_id := pd_topic_id d, ck_pool_id := pd_pool_id d\<rparr>"
proof (induction es arbitrary: i k pm)
  case (Cons e es)
  then show ?case by (cases i) (simp_all add: writeDirectory_chunks_other)
qed simp

lemma chunk_chain_distinct: "chunk_chain lo es hi \<Longrightarrow> distinct (map de_header_offset es)"
proof (induction lo es hi rule: chunk_chain.induct)
  case (2 lo e es hi)
  have "de_header_offset e \<noteq> de_header_offset f" if f: "f \<in> set es" for f
  proof -
    obtain i where "i < length es" "f = es ! i" using f by (metis in_set_conv_nth)
    then have "unat (de_payload_offset e) + unat (de_capacity e) \<le> unat (de_header_offset f)"
      using chunk_chain_nth(1) 2 by auto
    then show ?thesis using 2 by auto
  qed
  then show ?case using 2 by auto
qed simp

lemma fillFreeLists_length [simp]: "length (fillFreeLists n dir fl) = length fl"
  by (induction n arbitrary: fl) (simp_all add: Let_def)

lemma fillFreeLists_nth:
  "c < length fl \<Longrightarrow> \<forall>i < n. unat (de_size_class_index (dir ! i)) < length fl \<Longrightarrow>
     fillFreeLists n dir fl ! c =
       fl ! c @ map word_of_nat (filter (\<lambda>i. unat (de_size_class_index (dir ! i)) = c) (rev [0..<n]))"
proof (induction n arbitrary: fl)
  case (Suc n)
  then show ?case by (auto simp: Let_def nth_list_update)
qed simp

lemma free_list_initial:
  assumes "length dir < 2 ^ 32"
  shows "distinct (map word_of_nat (filter P (rev [0..<length dir])) :: u32 list)"
    "(x :: u32) \<in> set (map word_of_nat (filter P (rev [0..<length dir]))) \<longleftrightarrow>
       unat x < length dir \<and> P (unat x)"
proof -
  have inj: "inj_on (word_of_nat :: nat \<Rightarrow> u32) {..<length dir}"
  proof (rule inj_onI)
    fix a b assume "a \<in> {..<length dir}" "b \<in> {..<length dir}"
      "(word_of_nat a :: u32) = word_of_nat b"
    then show "a = b" using unat_of_nat_u32 [of a] unat_of_nat_u32 [of b] assms by simp
  qed
  then show "distinct (map word_of_nat (filter P (rev [0..<length dir])) :: u32 list)"
    by (auto simp: distinct_map intro: inj_on_subset)
  show "(x :: u32) \<in> set (map word_of_nat (filter P (rev [0..<length dir]))) \<longleftrightarrow>
       unat x < length dir \<and> P (unat x)"
    using assms by (force intro: image_eqI [of _ _ "unat x"])
qed

lemma MemoryPool_create_ok:
  assumes "MemoryPool_create d config pid env os = (Inr p, os')"
  obtains L region where
    "makeLayout config (pd_pool_id d) (pd_topic_id d) pid = Inr L"
    "pd_segment_size d = ph_segment_size (pl_header L)"
    "pd_pool_id d \<noteq> 0" "pd_topic_id d \<noteq> 0" "pd_layout_version d = kPoolLayoutVersion"
    "SharedMemoryRegion_create (pd_shm_name d) (pd_segment_size d) env os = (Inr region, os')"
    "p = newMemoryPool d region (initialMemory d L) (pl_size_classes L) (pl_directory L)"
  using assms by (auto simp: MemoryPool_create_def split: if_splits sum.splits prod.splits)

lemma created_pool:
  assumes "MemoryPool_create d config pid env os = (Inr p, os')"
  shows "pool_wf p \<and> mp_descriptor p = d \<and> mp_free_lists p = fillFreeLists (length (mp_directory p))
      (mp_directory p) (replicate (length (mp_size_classes p)) []) \<and>
    (\<forall>i. unat i < length (mp_directory p) \<longrightarrow> chunkHeader p i =
       newChunkHeader\<lparr>ck_capacity := ucast (de_capacity (mp_directory p ! unat i)),
         ck_size_class_index := de_size_class_index (mp_directory p ! unat i),
         ck_topic_id := pd_topic_id d, ck_pool_id := pd_pool_id d\<rparr>)"
  using assms
proof (rule MemoryPool_create_ok)
  fix L region
  assume L: "makeLayout config (pd_pool_id d) (pd_topic_id d) pid = Inr L"
    and seg: "pd_segment_size d = ph_segment_size (pl_header L)" and id: "pd_pool_id d \<noteq> 0"
    and p: "p = newMemoryPool d region (initialMemory d L) (pl_size_classes L) (pl_directory L)"
  note spec = makeLayout_spec [OF L]
  have lay: "layout_ok (pl_size_classes L) (pl_directory L)
      (80 + 24 * length (pl_size_classes L) + 32 * length (pl_directory L)) (unat (pd_segment_size d))"
    using spec(1-3) chunk_chain_mono seg by (fastforce simp: layout_ok_def)
  have fields: "mp_directory p = pl_directory L" "mp_size_classes p = pl_size_classes L"
    "mp_descriptor p = d" "pool_wf p"
    using lay id by (simp_all add: p newMemoryPool_def pool_wf_def)
  have dist: "distinct (map de_header_offset (pl_directory L))"
    using lay chunk_chain_distinct by (auto simp: layout_ok_def)
  have "chunkHeader p i = newChunkHeader\<lparr>ck_capacity := ucast (de_capacity (pl_directory L ! unat i)),
         ck_size_class_index := de_size_class_index (pl_directory L ! unat i),
         ck_topic_id := pd_topic_id d, ck_pool_id := pd_pool_id d\<rparr>"
    if "unat i < length (pl_directory L)" for i
    using writeDirectory_chunks [OF dist that]
    by (simp add: chunkHeader_def p newMemoryPool_def initialMemory_def Let_def)
  then show ?thesis using fields by (simp add: p newMemoryPool_def)
qed

lemma created_chunk:
  assumes "MemoryPool_create d config pid env os = (Inr p, os')"
    "unat i < length (mp_directory p)"
  shows "ck_state (chunkHeader p i) = Free" "ck_generation (chunkHeader p i) = 0"
    "chunk_static_ok p i (chunkHeader p i)" "chunk_state_ok (chunkHeader p i)"
  using created_pool [OF assms(1)] assms(2)
  by (simp_all add: newChunkHeader_def chunk_static_ok_def chunk_state_ok_def)

lemma pool_inv_create:
  assumes "MemoryPool_create d config pid env os = (Inr p, os')"
  shows "pool_inv p"
proof -
  have wf: "pool_wf p" and fl: "mp_free_lists p = fillFreeLists (length (mp_directory p))
      (mp_directory p) (replicate (length (mp_size_classes p)) [])"
    using created_pool [OF assms] by auto
  have "headers_ok p" using created_chunk [OF assms] by (simp add: headers_ok_def)
  moreover have "free_ok p"
    unfolding free_ok_def
  proof (intro allI impI)
    fix c assume c: "c < length (mp_size_classes p)"
    have "mp_free_lists p ! c = map word_of_nat
        (filter (\<lambda>i. unat (de_size_class_index (mp_directory p ! i)) = c) (rev [0..<length (mp_directory p)]))"
      using c pool_wf_class(1) [OF wf] by (simp add: fl fillFreeLists_nth)
    moreover have "length (mp_directory p) < 2 ^ 32" using wf by (simp add: pool_wf_def layout_ok_def)
    ultimately show "distinct (mp_free_lists p ! c) \<and>
        (\<forall>i. i \<in> set (mp_free_lists p ! c) \<longleftrightarrow> unat i < length (mp_directory p) \<and>
           unat (de_size_class_index (mp_directory p ! unat i)) = c \<and>
           ck_state (chunkHeader p i) = Free)"
      using created_chunk(1) [OF assms] free_list_initial [where dir = "mp_directory p" and
          P = "\<lambda>i. unat (de_size_class_index (mp_directory p ! i)) = c"] by auto
  qed
  ultimately show ?thesis using wf by (simp add: pool_inv_def)
qed

section \<open>The life cycle of a chunk\<close>

text \<open>The documented state machine, on the state of a chunk and its number of references.\<close>

inductive lifecycle :: "ChunkState \<times> nat \<Rightarrow> ChunkState \<times> nat \<Rightarrow> bool" where
  loan: "lifecycle (Free, 0) (Loaned, 0)"
| publish: "0 < n \<Longrightarrow> lifecycle (Loaned, 0) (Published, n)"
| cancel: "lifecycle (Loaned, 0) (Free, 0)"
| add_reference: "0 < n \<Longrightarrow> lifecycle (Published, n) (Published, Suc n)"
| drop_reference: "0 < n \<Longrightarrow> lifecycle (Published, Suc n) (Published, n)"
| last_reference: "lifecycle (Published, 1) (Released, 0)"
| reclaim: "lifecycle (Released, 0) (Free, 0)"

inductive_cases lifecycle_from_Free: "lifecycle (Free, n) y"
inductive_cases lifecycle_from_Published: "lifecycle (Published, n) y"

text \<open>The same steps on the headers, with every field the operations write.\<close>

inductive header_step :: "ChunkHeader \<Rightarrow> ChunkHeader \<Rightarrow> bool" where
  hs_loan: "ck_state h = Free \<Longrightarrow> header_step h (loanedHeader n h)"
| hs_publish: "ck_state h = Loaned \<Longrightarrow> refs \<noteq> 0 \<Longrightarrow>
    header_step h (h\<lparr>ck_sequence := s, ck_publish_timestamp_ns := t, ck_ref_count := refs,
      ck_state := Published\<rparr>)"
| hs_cancel: "ck_state h = Loaned \<Longrightarrow> header_step h (h\<lparr>ck_payload_size := 0, ck_state := Free\<rparr>)"
| hs_add: "ck_state h = Published \<Longrightarrow> ck_ref_count h \<noteq> - 1 \<Longrightarrow>
    header_step h (h\<lparr>ck_ref_count := ck_ref_count h + 1\<rparr>)"
| hs_drop: "ck_state h = Published \<Longrightarrow> ck_ref_count h \<noteq> 1 \<Longrightarrow>
    header_step h (h\<lparr>ck_ref_count := ck_ref_count h - 1\<rparr>)"
| hs_last: "ck_state h = Published \<Longrightarrow> ck_ref_count h = 1 \<Longrightarrow>
    header_step h (h\<lparr>ck_ref_count := 0, ck_state := Released\<rparr>)"
| hs_reclaim: "ck_state h = Released \<Longrightarrow>
    header_step h (h\<lparr>ck_payload_size := 0, ck_sequence := 0, ck_publish_timestamp_ns := 0,
      ck_state := Free\<rparr>)"

text \<open>The headers refine the documented state machine.\<close>

lemma header_step_lifecycle:
  assumes "header_step h h'" "chunk_state_ok h"
  shows "lifecycle (ck_state h, unat (ck_ref_count h)) (ck_state h', unat (ck_ref_count h'))"
  using assms
proof (cases rule: header_step.cases)
  case hs_add
  then show ?thesis
    using assms(2) unat_Suc_no_wrap [of "ck_ref_count h"]
    by (simp add: chunk_state_ok_def lifecycle.add_reference unat_gt_0)
next
  case hs_drop
  then have nz: "ck_ref_count h \<noteq> 0" using assms(2) by (simp add: chunk_state_ok_def)
  then have "unat (ck_ref_count h) \<noteq> 0" "unat (ck_ref_count h) \<noteq> 1"
    using hs_drop by (simp_all add: word_unat_eq_iff)
  then have "unat (ck_ref_count h) = Suc (unat (ck_ref_count h - 1))"
    "0 < unat (ck_ref_count h - 1)"
    using unat_minus_one [OF nz] by linarith+
  then show ?thesis using hs_drop lifecycle.drop_reference by simp
next
  case hs_last
  then show ?thesis using lifecycle.last_reference by simp
qed (auto simp: chunk_state_ok_def loanedHeader_def unat_gt_0 intro: lifecycle.intros)

lemma header_step_published:
  "header_step h h' \<Longrightarrow> ck_state h = Published \<Longrightarrow> ck_state h' = Published \<Longrightarrow>
     h' = h\<lparr>ck_ref_count := ck_ref_count h'\<rparr>"
  by (cases rule: header_step.cases) (auto simp: loanedHeader_def)

definition chunk_abs :: "MemoryPool \<Rightarrow> u32 \<Rightarrow> ChunkState \<times> nat" where
  "chunk_abs p i = (ck_state (chunkHeader p i), unat (ck_ref_count (chunkHeader p i)))"

text \<open>
  The calls a program can make on a pool.  \<open>UserWrite\<close> is the holder of a loan writing through
  the pointer \<open>writablePayload\<close> returned, inside the capacity of the chunk.
\<close>

datatype PoolCall =
  Allocate size_t
| UserWrite ChunkHandle nat bytes
| WriteAndPublish ChunkHandle "bytes option" size_t u64 u64 u32
| PublishLoaned ChunkHandle size_t u64 u64 u32
| AddReference ChunkHandle
| Release ChunkHandle
| Reclaim ChunkHandle
| Cancel ChunkHandle

definition userWrite :: "ChunkHandle \<Rightarrow> nat \<Rightarrow> bytes \<Rightarrow> MemoryPool \<Rightarrow> MemoryPool" where
  "userWrite h off bs p =
     (case wr_payload (writablePayload h p) of
        None \<Rightarrow> p
      | Some payload \<Rightarrow>
          if off + length bs \<le> unat (ck_capacity (chunkHeader p (ch_chunk_index h)))
          then p\<lparr>mp_memory := (mp_memory p)\<lparr>pm_bytes :=
                 mem_write (unat payload + off) bs (pm_bytes (mp_memory p))\<rparr>\<rparr>
          else p)"

fun pool_call :: "PoolCall \<Rightarrow> MemoryPool \<Rightarrow> MemoryPool" where
  "pool_call (Allocate n) p = snd (pool_allocate n p)"
| "pool_call (UserWrite h off bs) p = userWrite h off bs p"
| "pool_call (WriteAndPublish h data n sequence ts refs) p =
     snd (pool_writeAndPublish h data n sequence ts refs p)"
| "pool_call (PublishLoaned h n sequence ts refs) p =
     snd (pool_publishLoaned h n sequence ts refs p)"
| "pool_call (AddReference h) p = snd (pool_addReference h p)"
| "pool_call (Release h) p = snd (pool_release h p)"
| "pool_call (Reclaim h) p = snd (pool_reclaim h p)"
| "pool_call (Cancel h) p = snd (pool_cancel h p)"

definition pool_run :: "PoolCall list \<Rightarrow> MemoryPool \<Rightarrow> MemoryPool" where
  "pool_run calls p = fold pool_call calls p"

lemma pool_inv_userWrite [inv_intros]: "pool_inv p \<Longrightarrow> pool_inv (userWrite h off bs p)"
  by (auto simp: userWrite_def split: option.splits)

lemma pool_inv_call: "pool_inv p \<Longrightarrow> pool_inv (pool_call c p)"
  by (cases c) (simp_all add: inv_intros)

lemma pool_inv_run: "pool_inv p \<Longrightarrow> pool_inv (pool_run calls p)"
  unfolding pool_run_def by (induction calls arbitrary: p) (simp_all add: pool_inv_call)

text \<open>The layout of a pool never changes.\<close>

lemma mp_fields_call [simp]:
  "mp_directory (pool_call c p) = mp_directory p"
  "mp_size_classes (pool_call c p) = mp_size_classes p"
  "mp_descriptor (pool_call c p) = mp_descriptor p"
  by (cases c; simp add: pool_allocate_def userWrite_def pool_writeAndPublish_def
      pool_publishLoaned_def pool_addReference_def pool_release_def pool_reclaim_def
      pool_cancel_def markPublished_def count_defs pushFree_def Let_def split: option.splits)+

lemma mp_directory_ops [simp]:
  "mp_directory (snd (pool_allocate n p)) = mp_directory p"
  "mp_directory (snd (pool_writeAndPublish h data n sequence ts refs p)) = mp_directory p"
  "mp_directory (snd (pool_publishLoaned h n sequence ts refs p)) = mp_directory p"
  "mp_directory (snd (pool_addReference h p)) = mp_directory p"
  "mp_directory (snd (pool_release h p)) = mp_directory p"
  "mp_directory (snd (pool_reclaim h p)) = mp_directory p"
  "mp_directory (snd (pool_cancel h p)) = mp_directory p"
  using mp_fields_call(1) [of "Allocate n"]
    mp_fields_call(1) [of "WriteAndPublish h data n sequence ts refs"]
    mp_fields_call(1) [of "PublishLoaned h n sequence ts refs"]
    mp_fields_call(1) [of "AddReference h"] mp_fields_call(1) [of "Release h"]
    mp_fields_call(1) [of "Reclaim h"] mp_fields_call(1) [of "Cancel h"]
  by simp_all

lemma mp_descriptor_ops [simp]:
  "mp_descriptor (snd (pool_allocate n p)) = mp_descriptor p"
  "mp_descriptor (snd (pool_writeAndPublish h data n sequence ts refs p)) = mp_descriptor p"
  "mp_descriptor (snd (pool_publishLoaned h n sequence ts refs p)) = mp_descriptor p"
  "mp_descriptor (snd (pool_addReference h p)) = mp_descriptor p"
  "mp_descriptor (snd (pool_release h p)) = mp_descriptor p"
  "mp_descriptor (snd (pool_reclaim h p)) = mp_descriptor p"
  "mp_descriptor (snd (pool_cancel h p)) = mp_descriptor p"
  using mp_fields_call(3) [of "Allocate n"]
    mp_fields_call(3) [of "WriteAndPublish h data n sequence ts refs"]
    mp_fields_call(3) [of "PublishLoaned h n sequence ts refs"]
    mp_fields_call(3) [of "AddReference h"] mp_fields_call(3) [of "Release h"]
    mp_fields_call(3) [of "Reclaim h"] mp_fields_call(3) [of "Cancel h"]
  by simp_all

text \<open>
  \<open>life_step p p'\<close>: the headers are as before, or one chunk moved one step along its life
  cycle and all other headers are as before.
\<close>

definition life_step :: "MemoryPool \<Rightarrow> MemoryPool \<Rightarrow> bool" where
  "life_step p p' \<longleftrightarrow>
     pm_chunks (mp_memory p') = pm_chunks (mp_memory p) \<or>
     (\<exists>i h. unat i < length (mp_directory p) \<and>
        pm_chunks (mp_memory p') = pm_chunks (mp_memory (setChunkHeader p i h)) \<and>
        header_step (chunkHeader p i) h)"

lemma life_step_same [simp]: "pm_chunks (mp_memory p') = pm_chunks (mp_memory p) \<Longrightarrow> life_step p p'"
  by (simp add: life_step_def)

lemma life_step_handle:
  "handle_valid p h \<Longrightarrow>
     pm_chunks (mp_memory p') = pm_chunks (mp_memory (setChunkHeader p (ch_chunk_index h) hdr)) \<Longrightarrow>
     header_step (chunkHeader p (ch_chunk_index h)) hdr \<Longrightarrow> life_step p p'"
  by (auto simp: life_step_def handle_valid_def)

lemma pos_refs:
  "pool_inv p \<Longrightarrow> handle_valid p h \<Longrightarrow> handle_state p h = Published \<Longrightarrow> handle_refs p h \<noteq> 0"
  by (auto simp: chunk_state_ok_def dest!: pool_inv_headers(2) handle_valid_lt)

lemma life_step_allocate:
  assumes "pool_inv p"
  shows "life_step p (snd (pool_allocate n p))"
  using assms
proof (cases rule: pool_allocate_cases [of p n])
  case (loaned k i)
  have "k < length (mp_size_classes p)" using findSizeClass_Some [OF loaned(1)] by simp
  note i = last_free [OF assms this loaned(2), folded loaned(3)]
  show ?thesis
    using loaned(4) i(1) header_step.hs_loan [OF i(3)] unfolding life_step_def
    by (intro disjI2 exI [of _ i] exI [of _ "loanedHeader n (chunkHeader p i)"])
      (simp add: count_defs)
qed (simp_all add: count_defs)

lemma life_step_markPublished:
  assumes "publishLocked h n sequence refs p = Ok"
    "pm_chunks (mp_memory p') = pm_chunks (mp_memory (markPublished h sequence ts refs p))"
  shows "life_step p p'"
  using assms unfolding markPublished_def publishLocked_Ok
  by (intro life_step_handle [of p h]) (auto intro: header_step.hs_publish)

lemma life_step_writeAndPublish:
  "life_step p (snd (pool_writeAndPublish h data n sequence ts refs p))"
proof (cases "publishLocked h n sequence refs p = Ok \<and> (n = 0 \<or> data \<noteq> None)")
  case True
  then show ?thesis
    by (intro life_step_markPublished [of h n sequence refs p _ ts])
      (auto simp: pool_writeAndPublish_def Let_def count_defs markPublished_def setChunkHeader_def)
qed (auto simp: pool_writeAndPublish_def Let_def)

lemma life_step_publishLoaned: "life_step p (snd (pool_publishLoaned h n sequence ts refs p))"
  using life_step_markPublished [of h n sequence refs p _ ts]
  by (auto simp: pool_publishLoaned_def Let_def)

lemma life_step_addReference:
  assumes "pool_inv p"
  shows "life_step p (snd (pool_addReference h p))"
proof (cases "handle_valid p h \<and> handle_state p h = Published \<and> handle_refs p h \<noteq> - 1")
  case True
  then show ?thesis
    by (intro life_step_handle [of p h, OF _ _ header_step.hs_add])
      (auto simp: pool_addReference_eq [OF assms])
qed (auto simp: pool_addReference_eq [OF assms])

lemma life_step_release:
  assumes "pool_inv p"
  shows "life_step p (snd (pool_release h p))"
proof -
  consider (last) "handle_valid p h" "handle_state p h = Published" "handle_refs p h = 1"
    | (drop) "handle_valid p h" "handle_state p h = Published" "handle_refs p h \<noteq> 1"
    | (refused) "\<not> (handle_valid p h \<and> handle_state p h = Published)" by blast
  then show ?thesis
  proof cases
    case last
    then show ?thesis
      by (intro life_step_handle [of p h, OF _ _ header_step.hs_last])
        (auto simp: pool_release_eq [OF assms] count_defs)
  next
    case drop
    then show ?thesis
      by (intro life_step_handle [of p h, OF _ _ header_step.hs_drop])
        (auto simp: pool_release_eq [OF assms] count_defs)
  qed (auto simp: pool_release_eq [OF assms])
qed

lemma life_step_reclaim:
  assumes "pool_inv p"
  shows "life_step p (snd (pool_reclaim h p))"
proof (cases "handle_valid p h \<and> handle_state p h = Released")
  case True
  then show ?thesis
    by (intro life_step_handle [of p h, OF _ _ header_step.hs_reclaim])
      (auto simp: pool_reclaim_eq [OF assms] count_defs pushFree_def)
qed (auto simp: pool_reclaim_eq [OF assms])

lemma life_step_cancel:
  assumes "pool_inv p"
  shows "life_step p (snd (pool_cancel h p))"
proof (cases "handle_valid p h \<and> handle_state p h = Loaned")
  case True
  then show ?thesis
    by (intro life_step_handle [of p h, OF _ _ header_step.hs_cancel])
      (auto simp: pool_cancel_eq [OF assms] count_defs pushFree_def)
qed (auto simp: pool_cancel_eq [OF assms])

lemma life_step_call: "pool_inv p \<Longrightarrow> life_step p (pool_call c p)"
  by (cases c)
    (auto simp: life_step_allocate life_step_writeAndPublish life_step_publishLoaned
      life_step_addReference life_step_release life_step_reclaim life_step_cancel userWrite_def
      split: option.splits)

text \<open>The same, chunk by chunk.\<close>

lemma life_step_chunks:
  assumes "pool_inv p" "life_step p p'" "mp_directory p' = mp_directory p"
    "unat i < length (mp_directory p)"
  shows "chunkHeader p' i = chunkHeader p i \<or>
    header_step (chunkHeader p i) (chunkHeader p' i) \<and>
    (\<forall>j. unat j < length (mp_directory p) \<and> j \<noteq> i \<longrightarrow> chunkHeader p' j = chunkHeader p j)"
proof (cases "pm_chunks (mp_memory p') = pm_chunks (mp_memory p)")
  case True
  then show ?thesis using assms(3) by (simp add: chunkHeader_def)
next
  case False
  then obtain k h where k: "unat k < length (mp_directory p)"
    "pm_chunks (mp_memory p') = pm_chunks (mp_memory (setChunkHeader p k h))"
    "header_step (chunkHeader p k) h"
    using assms(2) by (auto simp: life_step_def)
  have hdr: "chunkHeader p' j = (if k = j then h else chunkHeader p j)"
    if "unat j < length (mp_directory p)" for j
    using chunkHeader_set [OF pool_inv_wf [OF assms(1)] k(1) that] k(2) assms(3)
    by (simp add: chunkHeader_def)
  show ?thesis using hdr k assms(4) by auto
qed

section \<open>Payload bytes\<close>

definition payload_range :: "MemoryPool \<Rightarrow> u32 \<Rightarrow> nat set" where
  "payload_range p i =
     (let e = mp_directory p ! unat i in
      {unat (de_payload_offset e) ..< unat (de_payload_offset e) + unat (de_capacity e)})"

lemma payload_range_disjoint:
  assumes "pool_wf p" "unat i < length (mp_directory p)" "unat j < length (mp_directory p)" "i \<noteq> j"
  shows "payload_range p i \<inter> payload_range p j = {}"
proof -
  note chain = pool_wf_chain [OF assms(1)]
  have "payload_range p a \<inter> payload_range p b = {}"
    if "unat a < unat b" "unat b < length (mp_directory p)" for a b
    using chunk_chain_ordered [OF chain that] chunk_chain_nth(3) [OF chain that(2)]
    by (auto simp: payload_range_def Let_def)
  moreover have "unat i < unat j \<or> unat j < unat i"
    using assms(4) by (auto simp: word_unat_eq_iff)
  ultimately show ?thesis using assms(2,3) by blast
qed

lemma payload_range_above_metadata:
  assumes "pool_wf p" "unat i < length (mp_directory p)" "a \<in> payload_range p i"
  shows "80 + 24 * length (mp_size_classes p) + 32 * length (mp_directory p) \<le> a"
    "a < unat (pd_segment_size (mp_descriptor p))"
  using chunk_chain_nth [OF pool_wf_chain [OF assms(1)] assms(2)] assms(3)
  by (auto simp: payload_range_def Let_def)

lemma unat_ck_capacity:
  assumes "pool_inv p" "unat i < length (mp_directory p)"
  shows "unat (ck_capacity (chunkHeader p i)) = unat (de_capacity (mp_directory p ! unat i))"
  using pool_inv_headers(1) [OF assms] pool_wf_capacity [OF pool_inv_wf [OF assms(1)] assms(2)]
  by (simp add: chunk_static_ok_def unat_ucast_u64_u32)

lemma handle_payload_offset:
  "handle_valid p h \<Longrightarrow>
     ch_payload_offset h = de_payload_offset (mp_directory p ! unat (ch_chunk_index h))"
  by (simp add: handle_valid_def handleMatches_def)

text \<open>Only the payload of a loaned chunk is ever written.\<close>

lemma pool_call_bytes:
  assumes inv: "pool_inv p" and diff: "pm_bytes (mp_memory (pool_call c p)) a \<noteq> pm_bytes (mp_memory p) a"
  obtains h where "handle_valid p h" "handle_state p h = Loaned"
    "a \<in> payload_range p (ch_chunk_index h)"
proof (cases c)
  case (UserWrite h off bs)
  then have v: "handle_valid p h" "handle_state p h = Loaned" "wr_payload (writablePayload h p) =
      Some (ch_payload_offset h)" "off + length bs \<le> unat (ck_capacity (chunkHeader p (ch_chunk_index h)))"
    "unat (ch_payload_offset h) + off \<le> a" "a < unat (ch_payload_offset h) + off + length bs"
    using diff by (auto simp: userWrite_def writablePayload_def handle_valid_def Let_def mem_write_def
        split: if_splits)
  then show ?thesis
    using that [OF v(1,2)] unat_ck_capacity [OF inv handle_valid_lt [OF v(1)]]
    by (simp add: payload_range_def Let_def handle_payload_offset)
next
  case (WriteAndPublish h data n sequence ts refs)
  then have ok: "publishLocked h n sequence refs p = Ok"
    "unat (ch_payload_offset h) \<le> a" "a < unat (ch_payload_offset h) + unat n"
    using diff by (auto simp: pool_writeAndPublish_def Let_def count_defs markPublished_def
        mem_write_def split: if_splits)
  then have v: "handle_valid p h" "handle_state p h = Loaned"
    "unat n \<le> unat (ck_capacity (chunkHeader p (ch_chunk_index h)))"
    by (auto simp: publishLocked_Ok)
  then show ?thesis
    using that [OF v(1,2)] ok unat_ck_capacity [OF inv handle_valid_lt [OF v(1)]]
    by (simp add: payload_range_def Let_def handle_payload_offset)
qed (use diff in \<open>simp_all add: pool_allocate_def pool_publishLoaned_def pool_addReference_def
    pool_release_def pool_reclaim_def pool_cancel_def markPublished_def count_defs pushFree_def
    Let_def split: option.splits if_splits\<close>)

lemma pool_call_frame_bytes:
  assumes inv: "pool_inv p" and i: "unat i < length (mp_directory p)"
    "ck_state (chunkHeader p i) \<noteq> Loaned" "a \<in> payload_range p i"
  shows "pm_bytes (mp_memory (pool_call c p)) a = pm_bytes (mp_memory p) a"
proof (rule ccontr)
  assume "pm_bytes (mp_memory (pool_call c p)) a \<noteq> pm_bytes (mp_memory p) a"
  with inv obtain h where h: "handle_valid p h" "handle_state p h = Loaned"
    "a \<in> payload_range p (ch_chunk_index h)"
    by (rule pool_call_bytes)
  then have "i \<noteq> ch_chunk_index h" using i(2) by auto
  then show False
    using payload_range_disjoint [OF pool_inv_wf [OF inv] i(1) handle_valid_lt [OF h(1)]] i(3) h(3)
    by blast
qed

lemma pool_call_metadata_bytes:
  assumes inv: "pool_inv p"
    and a: "a < 80 + 24 * length (mp_size_classes p) + 32 * length (mp_directory p)"
  shows "pm_bytes (mp_memory (pool_call c p)) a = pm_bytes (mp_memory p) a"
proof (rule ccontr)
  assume "pm_bytes (mp_memory (pool_call c p)) a \<noteq> pm_bytes (mp_memory p) a"
  with inv obtain h where "handle_valid p h" "a \<in> payload_range p (ch_chunk_index h)"
    by (rule pool_call_bytes)
  then show False
    using payload_range_above_metadata(1) [OF pool_inv_wf [OF inv] handle_valid_lt] a by fastforce
qed

section \<open>Generations\<close>

text \<open>Only an allocation changes a generation, and only that of the chunk it hands out.\<close>

lemma generation_set:
  "pool_wf p \<Longrightarrow> unat i < length (mp_directory p) \<Longrightarrow> unat j < length (mp_directory p) \<Longrightarrow>
     ck_generation h = ck_generation (chunkHeader p i) \<Longrightarrow>
     ck_generation (chunkHeader (setChunkHeader p i h) j) = ck_generation (chunkHeader p j)"
  by (simp add: chunkHeader_set)

lemma chunkHeader_count [simp]:
  "chunkHeader (countAllocation p) i = chunkHeader p i"
  "chunkHeader (countAllocationFailure p) i = chunkHeader p i"
  "chunkHeader (countCopy p) i = chunkHeader p i"
  "chunkHeader (countRelease p) i = chunkHeader p i"
  "chunkHeader (countReclaim p) i = chunkHeader p i"
  by (simp_all add: count_defs)

lemma generation_markPublished:
  assumes "pool_wf p" "handle_valid p h" "unat i < length (mp_directory p)"
  shows "ck_generation (chunkHeader (markPublished h sequence ts refs p) i) =
    ck_generation (chunkHeader p i)"
  using generation_set [OF assms(1) handle_valid_lt [OF assms(2)] assms(3)]
  by (simp add: markPublished_def)

lemma markPublished_bytes:
  "pm_chunks (mp_memory (markPublished h sequence ts refs
       (p\<lparr>mp_memory := (mp_memory p)\<lparr>pm_bytes := x\<rparr>\<rparr>))) =
     pm_chunks (mp_memory (markPublished h sequence ts refs p))"
  by (simp add: markPublished_def setChunkHeader_def)

lemma pool_call_generation:
  assumes inv: "pool_inv p" and i: "unat i < length (mp_directory p)" and "\<forall>n. c \<noteq> Allocate n"
  shows "ck_generation (chunkHeader (pool_call c p) i) = ck_generation (chunkHeader p i)"
proof -
  note wf = pool_inv_wf [OF inv]
  have pub: "ck_generation (chunkHeader (markPublished h s t r p) i) = ck_generation (chunkHeader p i)"
    if "publishLocked h n s r p = Ok" for h n s t r
    using that generation_markPublished [OF wf _ i] by (auto simp: publishLocked_Ok)
  show ?thesis
  proof (cases c)
    case (UserWrite h off bs)
    then show ?thesis by (auto simp: userWrite_def split: option.splits)
  next
    case (WriteAndPublish h data n s t r)
    have "chunkHeader (markPublished h s t r (p\<lparr>mp_memory := (mp_memory p)\<lparr>pm_bytes := x\<rparr>\<rparr>)) i =
        chunkHeader (markPublished h s t r p) i" for x
      by (simp add: chunkHeader_def markPublished_bytes) (simp add: markPublished_def)
    then show ?thesis using pub [of h n s r t]
      by (auto simp: WriteAndPublish pool_writeAndPublish_def Let_def)
  next
    case (PublishLoaned h n s t r)
    then show ?thesis using pub [of h n s r t] by (auto simp: pool_publishLoaned_def Let_def)
  next
    case (AddReference h)
    then show ?thesis
      using generation_set [OF wf _ i] by (auto simp: pool_addReference_eq [OF inv] handle_valid_def)
  next
    case (Release h)
    then show ?thesis
      using generation_set [OF wf _ i] by (auto simp: pool_release_eq [OF inv] handle_valid_def)
  next
    case (Reclaim h)
    then show ?thesis
      using generation_set [OF wf _ i] by (auto simp: pool_reclaim_eq [OF inv] handle_valid_def)
  next
    case (Cancel h)
    then show ?thesis
      using generation_set [OF wf _ i] by (auto simp: pool_cancel_eq [OF inv] handle_valid_def)
  qed (use assms(3) in simp)
qed

lemma pool_allocate_generation:
  assumes inv: "pool_inv p" and ok: "ar_error (fst (pool_allocate n p)) = Ok"
  defines "h \<equiv> ar_handle (fst (pool_allocate n p))"
  shows "unat (ch_chunk_index h) < length (mp_directory p) \<and>
    ch_generation h = nextGeneration (ck_generation (chunkHeader p (ch_chunk_index h))) \<and>
    (\<forall>i. unat i < length (mp_directory p) \<longrightarrow>
       ck_generation (chunkHeader (snd (pool_allocate n p)) i) =
         (if i = ch_chunk_index h then ch_generation h else ck_generation (chunkHeader p i)))"
  using inv
proof (cases rule: pool_allocate_cases [of p n])
  case (loaned k j)
  have "k < length (mp_size_classes p)" using findSizeClass_Some [OF loaned(1)] by simp
  note j = last_free [OF inv this loaned(2), folded loaned(3)]
  have h: "ch_chunk_index h = j" "ch_generation h = nextGeneration (ck_generation (chunkHeader p j))"
    using loaned(4) by (simp_all add: h_def)
  have "ck_generation (chunkHeader (snd (pool_allocate n p)) i) =
         (if i = ch_chunk_index h then ch_generation h else ck_generation (chunkHeader p i))"
    if "unat i < length (mp_directory p)" for i
    using chunkHeader_set [OF pool_inv_wf [OF inv] j(1) that] loaned(4) h
    by (auto simp: loanedHeader_def)
  then show ?thesis using j(1) h by simp
qed (use ok in auto)

text \<open>The handles a sequence of calls hands out, in order.\<close>

fun run_handles :: "PoolCall list \<Rightarrow> MemoryPool \<Rightarrow> ChunkHandle list" where
  "run_handles [] p = []"
| "run_handles (Allocate n # cs) p =
     (if ar_error (fst (pool_allocate n p)) = Ok then [ar_handle (fst (pool_allocate n p))] else []) @
     run_handles cs (pool_call (Allocate n) p)"
| "run_handles (c # cs) p = run_handles cs (pool_call c p)"

fun is_Allocate :: "PoolCall \<Rightarrow> bool" where
  "is_Allocate (Allocate _) = True"
| "is_Allocate _ = False"

lemma run_handles_other:
  "\<forall>n. c \<noteq> Allocate n \<Longrightarrow> run_handles (c # cs) p = run_handles cs (pool_call c p)"
  by (cases c) auto

definition generations_below :: "MemoryPool \<Rightarrow> nat \<Rightarrow> bool" where
  "generations_below p m \<longleftrightarrow>
     (\<forall>i. unat i < length (mp_directory p) \<longrightarrow> unat (ck_generation (chunkHeader p i)) \<le> m)"

text \<open>Later handles of a chunk carry larger generations, as long as the counter does not wrap.\<close>

lemma run_handles_fresh:
  assumes "pool_inv p" "generations_below p m" "m + length (filter is_Allocate cs) < 2 ^ 32 - 1"
  shows "distinct (run_handles cs p) \<and>
    (\<forall>h \<in> set (run_handles cs p). unat (ch_chunk_index h) < length (mp_directory p) \<and>
       unat (ck_generation (chunkHeader p (ch_chunk_index h))) < unat (ch_generation h))"
  using assms
proof (induction cs arbitrary: p m)
  case (Cons c cs)
  note inv = Cons.prems(1)
  show ?case
  proof (cases "\<exists>n. c = Allocate n \<and> ar_error (fst (pool_allocate n p)) = Ok")
    case False
    have gen: "ck_generation (chunkHeader (pool_call c p) i) = ck_generation (chunkHeader p i)"
      if "unat i < length (mp_directory p)" for i
    proof (cases "\<exists>n. c = Allocate n")
      case True
      then obtain n where c: "c = Allocate n" by blast
      have "ar_error (fst (pool_allocate n p)) \<noteq> Ok" using False c by blast
      note fail = this
      show ?thesis using inv
        by (cases rule: pool_allocate_cases [of p n]) (use fail in \<open>auto simp: c\<close>)
    qed (use pool_call_generation [OF inv that] in blast)
    have run: "run_handles (c # cs) p = run_handles cs (pool_call c p)"
      using False by (cases c) auto
    have below: "generations_below (pool_call c p) m"
      using Cons.prems(2) gen by (simp add: generations_below_def)
    have bound: "m + length (filter is_Allocate cs) < 2 ^ 32 - 1"
      using Cons.prems(3) by (simp split: if_splits)
    show ?thesis
      using Cons.IH [OF pool_inv_call [OF inv] below bound] by (auto simp: run gen)
  next
    case True
    then obtain n where c: "c = Allocate n" and ok: "ar_error (fst (pool_allocate n p)) = Ok" by blast
    define h where "h = ar_handle (fst (pool_allocate n p))"
    have gen: "unat (ch_chunk_index h) < length (mp_directory p)"
      "ch_generation h = nextGeneration (ck_generation (chunkHeader p (ch_chunk_index h)))"
      "unat i < length (mp_directory p) \<Longrightarrow> ck_generation (chunkHeader (snd (pool_allocate n p)) i) =
         (if i = ch_chunk_index h then ch_generation h else ck_generation (chunkHeader p i))" for i
      using pool_allocate_generation [OF inv ok, folded h_def] by auto
    have "unat (ck_generation (chunkHeader p (ch_chunk_index h))) < 2 ^ 32 - 1"
      using Cons.prems(2,3) gen(1) by (auto simp: generations_below_def dest!: spec [of _ "ch_chunk_index h"])
    then have "ck_generation (chunkHeader p (ch_chunk_index h)) \<noteq> - 1"
      by (auto simp: unsigned_minus_1_eq_mask mask_eq_exp_minus_1)
    then have h: "unat (ch_generation h) = Suc (unat (ck_generation (chunkHeader p (ch_chunk_index h))))"
      using gen(2) nextGeneration_unat by simp
    have below: "generations_below (pool_call c p) (Suc m)"
      using Cons.prems(2) gen(1,3) h by (auto simp: generations_below_def c le_SucI)
    have IH: "distinct (run_handles cs (pool_call c p))"
      "\<forall>h' \<in> set (run_handles cs (pool_call c p)). unat (ch_chunk_index h') < length (mp_directory p) \<and>
        unat (ck_generation (chunkHeader (pool_call c p) (ch_chunk_index h'))) < unat (ch_generation h')"
      using Cons.IH [OF pool_inv_call [OF inv] below] Cons.prems(3) by (auto simp: c)
    have later: "h' \<noteq> h \<and> unat (ch_chunk_index h') < length (mp_directory p) \<and>
        unat (ck_generation (chunkHeader p (ch_chunk_index h'))) < unat (ch_generation h')"
      if "h' \<in> set (run_handles cs (pool_call c p))" for h'
      using IH(2) that gen(3) h by (fastforce simp: c split: if_splits)
    show ?thesis
      using IH(1) later gen(1) h ok by (auto simp: c simp flip: h_def)
  qed
qed simp

section \<open>Counting references\<close>

lemma handle_after_set:
  assumes "pool_wf p" "handle_valid p h" "ck_generation hdr = ck_generation (chunkHeader p (ch_chunk_index h))"
    "pm_chunks (mp_memory p') = pm_chunks (mp_memory (setChunkHeader p (ch_chunk_index h) hdr))"
    "mp_directory p' = mp_directory p" "mp_descriptor p' = mp_descriptor p"
  shows "handle_valid p' h" "chunkHeader p' (ch_chunk_index h) = hdr"
proof -
  have "chunkHeader p' (ch_chunk_index h) = chunkHeader (setChunkHeader p (ch_chunk_index h) hdr) (ch_chunk_index h)"
    using assms(4,5) by (simp add: chunkHeader_def)
  then show hdr: "chunkHeader p' (ch_chunk_index h) = hdr"
    using chunkHeader_set [OF assms(1) handle_valid_lt [OF assms(2)] handle_valid_lt [OF assms(2)]]
    by simp
  show "handle_valid p' h"
    using assms(2,3,5,6) hdr by (simp add: handle_valid_def handleMatches_def)
qed

lemma release_published:
  assumes inv: "pool_inv p" and v: "handle_valid p h" "handle_state p h = Published"
  defines "r \<equiv> fst (pool_release h p)" and "p' \<equiv> snd (pool_release h p)"
  shows "rr_error r = Ok" "rr_remaining_references r = handle_refs p h - 1"
    "rr_became_released r \<longleftrightarrow> handle_refs p h = 1" "handle_valid p' h"
    "handle_refs p' h = handle_refs p h - 1"
    "handle_state p' h = (if handle_refs p h = 1 then Released else Published)"
proof -
  define hdr where "hdr = (if handle_refs p h = 1
    then (chunkHeader p (ch_chunk_index h))\<lparr>ck_ref_count := 0, ck_state := Released\<rparr>
    else (chunkHeader p (ch_chunk_index h))\<lparr>ck_ref_count := handle_refs p h - 1\<rparr>)"
  have chunks: "pm_chunks (mp_memory p') = pm_chunks (mp_memory (setChunkHeader p (ch_chunk_index h) hdr))"
    using v by (simp add: p'_def pool_release_eq [OF inv] count_defs hdr_def)
  have dir: "mp_directory p' = mp_directory p" "mp_descriptor p' = mp_descriptor p"
    by (simp_all add: p'_def)
  have gen: "ck_generation hdr = ck_generation (chunkHeader p (ch_chunk_index h))"
    by (simp add: hdr_def)
  note after = handle_after_set [OF pool_inv_wf [OF inv] v(1) gen chunks dir]
  show "rr_error r = Ok" "rr_remaining_references r = handle_refs p h - 1"
    "rr_became_released r \<longleftrightarrow> handle_refs p h = 1"
    using v by (simp_all add: r_def pool_release_eq [OF inv])
  show "handle_valid p' h" by (rule after(1))
  show "handle_refs p' h = handle_refs p h - 1"
    "handle_state p' h = (if handle_refs p h = 1 then Released else Published)"
    unfolding after(2) using v by (simp_all add: hdr_def)
qed

lemma releases_published:
  assumes "pool_inv p" "handle_valid p h" "handle_state p h = Published" "k \<le> unat (handle_refs p h)"
  defines "q \<equiv> pool_run (replicate k (Release h)) p"
  shows "handle_valid q h \<and> unat (handle_refs q h) = unat (handle_refs p h) - k \<and>
    handle_state q h = (if k = unat (handle_refs p h) then Released else Published)"
  unfolding q_def using assms(1-4)
proof (induction k arbitrary: p)
  case 0
  then show ?case using pos_refs [OF 0(1-3)] by (simp add: pool_run_def unat_eq_zero)
next
  case (Suc k)
  define p' where "p' = snd (pool_release h p)"
  note r = release_published [OF Suc.prems(1-3), folded p'_def]
  have nz: "handle_refs p h \<noteq> 0" using pos_refs [OF Suc.prems(1-3)] .
  have dec: "unat (handle_refs p' h) = unat (handle_refs p h) - 1"
    using r(5) unat_minus_one [OF nz] by simp
  have run: "pool_run (replicate (Suc k) (Release h)) p = pool_run (replicate k (Release h)) p'"
    by (simp add: pool_run_def p'_def)
  show ?case
  proof (cases "handle_refs p h = 1")
    case True
    then have "k = 0" using Suc.prems(4) by simp
    then show ?thesis unfolding run using r True by (simp add: pool_run_def)
  next
    case False
    have inv: "pool_inv p'" using pool_inv_release [OF Suc.prems(1)] by (simp add: p'_def)
    have "handle_state p' h = Published" using r(6) False by simp
    then show ?thesis
      using Suc.IH [OF inv r(4)] dec Suc.prems(4) nz unfolding run
      by (auto simp: unat_gt_0)
  qed
qed

end
