(* ===== verification/MW_Pool_View.thy ===== *)
theory MW_Pool_View
  imports MW_Pool_Lifecycle
begin

text \<open>
  The subscriber's side of a pool segment: \<open>MemoryPoolView\<close> of
  \<open>src/middleware/src/detail/memory_pool.cpp\<close>, lines 501 to 624.  \<open>open\<close> validates the
  metadata of a segment it did not write, \<open>read\<close> looks a chunk up by its handle.  The lemmas show
  that a view never trusts a chunk outside the segment, that it accepts every segment \<open>create\<close>
  wrote, and that a reader sees the bytes that were published.
\<close>

section \<open>Opening a segment\<close>

record MemoryPoolView =
  mv_descriptor :: PoolDescriptor
  mv_region :: SharedMemoryRegion
  mv_size_classes :: "SizeClassMetadata list"
  mv_directory :: "ChunkDirectoryEntry list"

record ChunkViewResult =
  cv_error :: ErrorCode
  cv_payload :: "u64 option"
  cv_payload_size :: size_t
  cv_sequence :: u64
  cv_publish_timestamp_ns :: u64

definition viewHeaderOk :: "PoolHeader \<Rightarrow> PoolDescriptor \<Rightarrow> u64 \<Rightarrow> size_t \<Rightarrow> bool" where
  "viewHeaderOk header descriptor expected_topic_id region_size \<longleftrightarrow>
     \<not> (ph_magic header \<noteq> kMemoryPoolMagic \<or> ph_version header \<noteq> kPoolLayoutVersion \<or>
        unat (ph_header_size header) \<noteq> kPoolHeaderSize \<or> ph_segment_size header \<noteq> region_size \<or>
        ph_pool_id header \<noteq> pd_pool_id descriptor \<or> ph_topic_id header \<noteq> expected_topic_id \<or>
        ph_size_class_count header = 0 \<or> ph_chunk_count header = 0 \<or>
        unat (ph_size_class_offset header) \<noteq> kPoolHeaderSize)"

text \<open>
  The comparisons with \<open>std::numeric_limits<std::size_t>::max()\<close> are comparisons of 64-bit
  values with the largest 64-bit value.
\<close>

definition viewBoundsOk :: "PoolHeader \<Rightarrow> size_t \<Rightarrow> bool" where
  "viewBoundsOk header region_size \<longleftrightarrow>
     \<not> (ph_size_class_offset header > SIZE_MAX \<or> ph_chunk_directory_offset header > SIZE_MAX \<or>
        ph_chunk_storage_offset header > SIZE_MAX) \<and>
     (case checkedMultiply (ucast (ph_size_class_count header))
             (word_of_nat kSizeClassMetadataSize) of
        None \<Rightarrow> False
      | Some class_bytes \<Rightarrow>
        (case checkedMultiply (ucast (ph_chunk_count header))
                (word_of_nat kChunkDirectoryEntrySize) of
           None \<Rightarrow> False
         | Some directory_bytes \<Rightarrow>
             rangeInside (ph_size_class_offset header) class_bytes region_size \<and>
             rangeInside (ph_chunk_directory_offset header) directory_bytes region_size \<and>
             \<not> ph_chunk_storage_offset header > region_size \<and>
             ph_chunk_storage_offset header mod kChunkAlignment = 0))"

text \<open>The loop over the size classes; \<open>n\<close> is the number of classes still to read.\<close>

fun viewClasses ::
  "nat \<Rightarrow> nat \<Rightarrow> PoolHeader \<Rightarrow> memory \<Rightarrow> u64 \<Rightarrow> u64 \<Rightarrow> SizeClassMetadata list
     \<Rightarrow> (SizeClassMetadata list \<times> u64) option" where
  "viewClasses 0 index header mem previous_capacity expected_first_index size_classes =
     Some (size_classes, expected_first_index)"
| "viewClasses (Suc n) index header mem previous_capacity expected_first_index size_classes =
     (let metadata = decodeSizeClass (mem_read
            (unat (ph_size_class_offset header) + index * kSizeClassMetadataSize)
            kSizeClassMetadataSize mem) in
      if scm_capacity metadata = 0 \<or> scm_capacity metadata \<le> previous_capacity \<or>
        ucast (scm_first_chunk_index metadata) \<noteq> expected_first_index \<or>
        scm_chunk_count metadata = 0 \<or> scm_chunk_count metadata > ph_chunk_count header \<or>
        expected_first_index > ucast (ph_chunk_count header - scm_chunk_count metadata)
      then None
      else viewClasses n (Suc index) header mem (scm_capacity metadata)
        (expected_first_index + ucast (scm_chunk_count metadata)) (size_classes @ [metadata]))"

definition viewEntryOk ::
  "PoolDescriptor \<Rightarrow> SizeClassMetadata list \<Rightarrow> size_t \<Rightarrow> size_t \<Rightarrow> PoolMemory
     \<Rightarrow> ChunkDirectoryEntry \<Rightarrow> bool" where
  "viewEntryOk descriptor size_classes region_size previous_end pm entry \<longleftrightarrow>
     \<not> (unat (de_size_class_index entry) \<ge> length size_classes \<or>
        de_capacity entry \<noteq> scm_capacity (size_classes ! unat (de_size_class_index entry)) \<or>
        de_header_offset entry > SIZE_MAX - sizeofChunkHeader \<or>
        de_payload_offset entry > SIZE_MAX - de_capacity entry \<or>
        de_header_offset entry mod kChunkAlignment \<noteq> 0 \<or>
        de_payload_offset entry \<noteq> de_header_offset entry + sizeofChunkHeader \<or>
        de_payload_offset entry mod kChunkAlignment \<noteq> 0 \<or>
        de_header_offset entry < previous_end \<or>
        de_header_offset entry > SIZE_MAX \<or> de_payload_offset entry > SIZE_MAX \<or>
        de_capacity entry > SIZE_MAX \<or>
        \<not> rangeInside (de_payload_offset entry) (de_capacity entry) region_size) \<and>
     (let chunk = pm_chunks pm (de_header_offset entry) in
      \<not> (ucast (ck_capacity chunk) \<noteq> de_capacity entry \<or>
         ck_size_class_index chunk \<noteq> de_size_class_index entry \<or>
         ck_topic_id chunk \<noteq> pd_topic_id descriptor \<or>
         ck_pool_id chunk \<noteq> pd_pool_id descriptor))"

fun viewDirectory ::
  "nat \<Rightarrow> nat \<Rightarrow> PoolHeader \<Rightarrow> PoolDescriptor \<Rightarrow> SizeClassMetadata list \<Rightarrow> size_t \<Rightarrow> PoolMemory
     \<Rightarrow> size_t \<Rightarrow> ChunkDirectoryEntry list \<Rightarrow> ChunkDirectoryEntry list option" where
  "viewDirectory 0 index header descriptor size_classes region_size pm previous_end directory =
     Some directory"
| "viewDirectory (Suc n) index header descriptor size_classes region_size pm previous_end
       directory =
     (let entry = decodeDirectoryEntry (mem_read
            (unat (ph_chunk_directory_offset header) + index * kChunkDirectoryEntrySize)
            kChunkDirectoryEntrySize (pm_bytes pm)) in
      if \<not> viewEntryOk descriptor size_classes region_size previous_end pm entry then None
      else viewDirectory n (Suc index) header descriptor size_classes region_size pm
        (de_payload_offset entry + de_capacity entry) (directory @ [entry]))"

definition viewMapped ::
  "PoolDescriptor \<Rightarrow> u64 \<Rightarrow> SharedMemoryRegion \<Rightarrow> PoolMemory \<Rightarrow> PoolError + MemoryPoolView" where
  "viewMapped descriptor expected_topic_id region pm =
     (let header = decodePoolHeader (mem_read 0 kPoolHeaderSize (pm_bytes pm)) in
      if \<not> viewHeaderOk header descriptor expected_topic_id (r_size region)
      then Inl (PoolMiddlewareError InvalidSharedMemory ''invalid memory pool header'')
      else if \<not> viewBoundsOk header (r_size region)
      then Inl (PoolMiddlewareError InvalidSharedMemory ''memory pool metadata is out of bounds'')
      else case viewClasses (unat (ph_size_class_count header)) 0 header (pm_bytes pm) 0 0 [] of
        None \<Rightarrow> Inl (PoolMiddlewareError InvalidSharedMemory
                  ''invalid memory pool size class metadata'')
      | Some (size_classes, expected_first_index) \<Rightarrow>
          if expected_first_index \<noteq> ucast (ph_chunk_count header)
          then Inl (PoolMiddlewareError InvalidSharedMemory ''memory pool chunk count mismatch'')
          else (case viewDirectory (unat (ph_chunk_count header)) 0 header descriptor size_classes
                      (r_size region) pm (ph_chunk_storage_offset header) [] of
            None \<Rightarrow> Inl (PoolMiddlewareError InvalidSharedMemory
                      ''invalid memory pool chunk directory'')
          | Some directory \<Rightarrow>
              Inr \<lparr>mv_descriptor = descriptor, mv_region = region,
                   mv_size_classes = size_classes, mv_directory = directory\<rparr>))"

text \<open>A failed validation destroys the region again before the exception leaves \<open>open\<close>.\<close>

definition MemoryPoolView_open ::
  "PoolDescriptor \<Rightarrow> u64 \<Rightarrow> ShmEnv \<Rightarrow> PoolMemory \<Rightarrow> ShmOs
     \<Rightarrow> (PoolError + MemoryPoolView) \<times> ShmOs" where
  "MemoryPoolView_open descriptor expected_topic_id env pm os =
     (if pd_pool_id descriptor = 0 \<or> unat (pd_segment_size descriptor) < kPoolHeaderSize \<or>
        pd_segment_size descriptor > SIZE_MAX \<or> pd_topic_id descriptor \<noteq> expected_topic_id \<or>
        pd_layout_version descriptor \<noteq> kPoolLayoutVersion
      then (Inl (PoolMiddlewareError InvalidSharedMemory ''invalid pool descriptor''), os)
      else case SharedMemoryRegion_openReadOnly (pd_shm_name descriptor)
                  (pd_segment_size descriptor) env os of
        (Inl err, os) \<Rightarrow> (Inl (PoolShmError err), os)
      | (Inr region, os) \<Rightarrow>
          (case viewMapped descriptor expected_topic_id region pm of
             Inl err \<Rightarrow> (Inl err, snd (SharedMemoryRegion_cleanup region env os))
           | Inr view \<Rightarrow> (Inr view, os)))"

definition view_read :: "ChunkHandle \<Rightarrow> size_t \<Rightarrow> MemoryPoolView \<Rightarrow> PoolMemory \<Rightarrow> ChunkViewResult" where
  "view_read handle max_message_size view pm =
     (let failed = (\<lambda>err. \<lparr>cv_error = err, cv_payload = None, cv_payload_size = 0,
            cv_sequence = 0, cv_publish_timestamp_ns = 0\<rparr>) in
      if ch_pool_id handle \<noteq> pd_pool_id (mv_descriptor view) \<or>
        unat (ch_chunk_index handle) \<ge> length (mv_directory view) \<or> ch_generation handle = 0 \<or>
        ch_payload_offset handle \<noteq>
          de_payload_offset (mv_directory view ! unat (ch_chunk_index handle))
      then failed InvalidChunkHandle
      else
        let entry = mv_directory view ! unat (ch_chunk_index handle);
            header = pm_chunks pm (de_header_offset entry) in
        if ck_state header \<noteq> Published \<or> ck_generation header \<noteq> ch_generation handle \<or>
          ck_pool_id header \<noteq> pd_pool_id (mv_descriptor view) \<or>
          ck_topic_id header \<noteq> pd_topic_id (mv_descriptor view) \<or>
          ucast (ck_capacity header) \<noteq> de_capacity entry \<or>
          ck_size_class_index header \<noteq> de_size_class_index entry \<or>
          ck_payload_size header > ck_capacity header \<or>
          (ucast (ck_payload_size header) :: u64) > max_message_size \<or>
          ck_ref_count header = 0 \<or> ck_sequence header = 0
        then failed InvalidSharedMemory
        else \<lparr>cv_error = Ok, cv_payload = Some (de_payload_offset entry),
              cv_payload_size = ucast (ck_payload_size header), cv_sequence = ck_sequence header,
              cv_publish_timestamp_ns = ck_publish_timestamp_ns header\<rparr>)"

section \<open>Soundness: what an accepted segment guarantees\<close>

text \<open>Whatever bytes the segment holds, the chunks of an accepted directory are in bounds.\<close>

lemma unat_mod_64: "x mod kChunkAlignment = 0 \<longleftrightarrow> 64 dvd unat x"
  by (simp add: kChunkAlignment_def word_unat_eq_iff unat_mod dvd_eq_mod_eq_0)

lemma viewEntryOk_facts:
  assumes "viewEntryOk d classes region_size prev pm e"
  shows "unat prev \<le> unat (de_header_offset e)" "64 dvd unat (de_header_offset e)"
    "unat (de_payload_offset e) = unat (de_header_offset e) + 64"
    "unat (de_payload_offset e) + unat (de_capacity e) \<le> unat region_size"
    "unat (de_payload_offset e + de_capacity e) = unat (de_payload_offset e) + unat (de_capacity e)"
    "unat (de_size_class_index e) < length classes"
proof -
  note ok = assms [unfolded viewEntryOk_def]
  have "prev \<le> de_header_offset e" using ok by (simp add: not_less)
  then show "unat prev \<le> unat (de_header_offset e)" by (simp add: word_le_nat_alt)
  show "unat (de_size_class_index e) < length classes" using ok by (simp add: not_le)
  show "64 dvd unat (de_header_offset e)" using ok by (simp add: unat_mod_64)
  have le: "de_header_offset e \<le> SIZE_MAX - sizeofChunkHeader"
    "de_payload_offset e = de_header_offset e + sizeofChunkHeader"
    using ok by auto
  have "unat (de_header_offset e) + 64 < 2 ^ 64"
    using le(1) by (simp add: word_le_nat_alt SIZE_MAX_def sizeofChunkHeader_def)
  then show "unat (de_payload_offset e) = unat (de_header_offset e) + 64"
    by (simp add: le(2) sizeofChunkHeader_def unat_add_no_wrap)
  show range: "unat (de_payload_offset e) + unat (de_capacity e) \<le> unat region_size"
    using ok by (simp add: rangeInside_iff)
  then show "unat (de_payload_offset e + de_capacity e) =
      unat (de_payload_offset e) + unat (de_capacity e)"
    using unat_u64 [of region_size] by (intro unat_add_no_wrap) simp
qed

lemma viewDirectory_chain:
  assumes "viewDirectory n k header d classes region_size pm prev dir = Some dir'"
    "unat prev \<le> unat region_size"
  shows "\<exists>es. dir' = dir @ es \<and> length es = n \<and> chunk_chain (unat prev) es (unat region_size) \<and>
    (\<forall>e \<in> set es. \<exists>prev. viewEntryOk d classes region_size prev pm e)"
  using assms
proof (induction n arbitrary: k prev dir)
  case (Suc n)
  define e where "e = decodeDirectoryEntry (mem_read
    (unat (ph_chunk_directory_offset header) + k * kChunkDirectoryEntrySize)
    kChunkDirectoryEntrySize (pm_bytes pm))"
  have ok: "viewEntryOk d classes region_size prev pm e"
    and rest: "viewDirectory n (Suc k) header d classes region_size pm
      (de_payload_offset e + de_capacity e) (dir @ [e]) = Some dir'"
    using Suc.prems(1) by (auto simp: e_def Let_def split: if_splits)
  note f = viewEntryOk_facts [OF ok]
  obtain es where es: "dir' = dir @ e # es" "length es = n"
    "chunk_chain (unat (de_payload_offset e) + unat (de_capacity e)) es (unat region_size)"
    "\<forall>e \<in> set es. \<exists>prev. viewEntryOk d classes region_size prev pm e"
    using Suc.IH [OF rest] f(4,5) by auto
  show ?case
    using es f ok by (intro exI [of _ "e # es"]) auto
qed simp

lemma viewMapped_sound:
  assumes "viewMapped d topic region pm = Inr view"
  shows "\<exists>lo. chunk_chain lo (mv_directory view) (unat (r_size region))"
    "\<forall>e \<in> set (mv_directory view). \<exists>prev.
       viewEntryOk d (mv_size_classes view) (r_size region) prev pm e"
    "mv_descriptor view = d" "mv_region view = region"
proof -
  define header where "header = decodePoolHeader (mem_read 0 kPoolHeaderSize (pm_bytes pm))"
  obtain first where v: "viewBoundsOk header (r_size region)"
    "viewDirectory (unat (ph_chunk_count header)) 0 header d (mv_size_classes view)
       (r_size region) pm (ph_chunk_storage_offset header) [] = Some (mv_directory view)"
    "mv_descriptor view = d" "mv_region view = region"
    using assms by (auto simp: viewMapped_def Let_def header_def split: if_splits option.splits)
  have "ph_chunk_storage_offset header \<le> r_size region"
    using v(1) by (auto simp: viewBoundsOk_def not_less split: option.splits)
  then have "unat (ph_chunk_storage_offset header) \<le> unat (r_size region)"
    by (simp add: word_le_nat_alt)
  from viewDirectory_chain [OF v(2) this]
  show "\<exists>lo. chunk_chain lo (mv_directory view) (unat (r_size region))"
    "\<forall>e \<in> set (mv_directory view). \<exists>prev.
       viewEntryOk d (mv_size_classes view) (r_size region) prev pm e"
    "mv_descriptor view = d" "mv_region view = region"
    using v by auto
qed

section \<open>Completeness: a segment written by \<open>create\<close> is accepted\<close>

lemma mem_read_cong: "(\<And>a. off \<le> a \<Longrightarrow> a < off + n \<Longrightarrow> m a = m' a) \<Longrightarrow> mem_read off n m = mem_read off n m'"
  by (simp add: mem_read_def)

lemma writeSizeClasses_other:
  "off + n \<le> 80 + k * 24 \<or> 80 + (k + length ms) * 24 \<le> off \<Longrightarrow>
     mem_read off n (writeSizeClasses ms k mem) = mem_read off n mem"
proof (induction ms arbitrary: k mem)
  case (Cons m ms)
  then have "mem_read off n (writeSizeClasses (m # ms) k mem) =
      mem_read off n (mem_write (80 + k * 24) (encodeSizeClass m) mem)"
    by (auto simp: kPoolHeaderSize_def kSizeClassMetadataSize_def)
  also have "\<dots> = mem_read off n mem" using Cons.prems by (intro mem_read_write_other) auto
  finally show ?case .
qed simp

lemma writeSizeClasses_read:
  "i < length ms \<Longrightarrow>
     mem_read (80 + (k + i) * 24) 24 (writeSizeClasses ms k mem) = encodeSizeClass (ms ! i)"
proof (induction ms arbitrary: i k mem)
  case (Cons m ms)
  show ?case
  proof (cases i)
    case 0
    then show ?thesis
      by (simp add: kPoolHeaderSize_def kSizeClassMetadataSize_def writeSizeClasses_other)
  next
    case (Suc j)
    then show ?thesis using Cons.IH [of j "Suc k"] Cons.prems by simp
  qed
qed simp

lemma writeDirectory_other:
  "off + n \<le> base + k * 32 \<or> base + (k + length es) * 32 \<le> off \<Longrightarrow>
     mem_read off n (pm_bytes (writeDirectory d base es k pm)) = mem_read off n (pm_bytes pm)"
proof (induction es arbitrary: k pm)
  case (Cons e es)
  have "mem_read off n (pm_bytes (writeDirectory d base (e # es) k pm)) =
      mem_read off n (mem_write (base + k * 32) (encodeDirectoryEntry e) (pm_bytes pm))"
    using Cons by (auto simp: kChunkDirectoryEntrySize_def)
  also have "\<dots> = mem_read off n (pm_bytes pm)"
    using Cons.prems by (intro mem_read_write_other) auto
  finally show ?case .
qed simp

lemma writeDirectory_read:
  "i < length es \<Longrightarrow> mem_read (base + (k + i) * 32) 32 (pm_bytes (writeDirectory d base es k pm)) =
     encodeDirectoryEntry (es ! i)"
proof (induction es arbitrary: i k pm)
  case (Cons e es)
  show ?case
  proof (cases i)
    case 0
    then show ?thesis by (simp add: kChunkDirectoryEntrySize_def writeDirectory_other)
  next
    case (Suc j)
    then show ?thesis using Cons.IH [of j "Suc k"] Cons.prems by simp
  qed
qed simp

definition metadata_at ::
  "PoolHeader \<Rightarrow> SizeClassMetadata list \<Rightarrow> ChunkDirectoryEntry list \<Rightarrow> memory \<Rightarrow> bool" where
  "metadata_at h classes dir mem \<longleftrightarrow>
     mem_read 0 80 mem = encodePoolHeader h \<and>
     (\<forall>i < length classes. mem_read (80 + i * 24) 24 mem = encodeSizeClass (classes ! i)) \<and>
     (\<forall>i < length dir. mem_read (80 + 24 * length classes + i * 32) 32 mem =
        encodeDirectoryEntry (dir ! i))"

lemma metadata_at_initial:
  assumes "unat (ph_chunk_directory_offset (pl_header L)) = 80 + 24 * length (pl_size_classes L)"
  shows "metadata_at (pl_header L) (pl_size_classes L) (pl_directory L) (pm_bytes (initialMemory d L))"
  unfolding metadata_at_def
proof (intro conjI allI impI)
  define mem where "mem = writeSizeClasses (pl_size_classes L) 0
    (mem_write 0 (encodePoolHeader (pl_header L)) (\<lambda>_. 0))"
  define pm where "pm = \<lparr>pm_bytes = mem, pm_chunks = (\<lambda>_. newChunkHeader)\<rparr>"
  have im: "initialMemory d L = writeDirectory d (80 + 24 * length (pl_size_classes L))
      (pl_directory L) 0 pm"
    using assms by (simp add: initialMemory_def Let_def mem_def pm_def)
  show "mem_read 0 80 (pm_bytes (initialMemory d L)) = encodePoolHeader (pl_header L)"
    by (simp add: im writeDirectory_other pm_def mem_def writeSizeClasses_other)
  show "mem_read (80 + i * 24) 24 (pm_bytes (initialMemory d L)) = encodeSizeClass (pl_size_classes L ! i)"
    if "i < length (pl_size_classes L)" for i
    using that writeSizeClasses_read [of i "pl_size_classes L" 0]
    by (simp add: im writeDirectory_other pm_def mem_def)
  show "mem_read (80 + 24 * length (pl_size_classes L) + i * 32) 32 (pm_bytes (initialMemory d L)) =
      encodeDirectoryEntry (pl_directory L ! i)"
    if "i < length (pl_directory L)" for i
    using that writeDirectory_read [of i "pl_directory L" _ 0] by (simp add: im)
qed

lemma metadata_at_call:
  assumes "pool_inv p" "metadata_at h (mp_size_classes p) (mp_directory p) (pm_bytes (mp_memory p))"
  shows "metadata_at h (mp_size_classes p) (mp_directory p) (pm_bytes (mp_memory (pool_call c p)))"
proof -
  have "mem_read off n (pm_bytes (mp_memory (pool_call c p))) = mem_read off n (pm_bytes (mp_memory p))"
    if "off + n \<le> 80 + 24 * length (mp_size_classes p) + 32 * length (mp_directory p)" for off n
    using that pool_call_metadata_bytes [OF assms(1)] by (intro mem_read_cong) simp
  then show ?thesis using assms(2) by (simp add: metadata_at_def)
qed

lemma metadata_at_run:
  assumes "pool_inv p" "metadata_at h (mp_size_classes p) (mp_directory p) (pm_bytes (mp_memory p))"
  shows "metadata_at h (mp_size_classes p) (mp_directory p) (pm_bytes (mp_memory (pool_run calls p)))"
  using assms
proof (induction calls arbitrary: p)
  case (Cons c calls)
  then show ?case
    using Cons.IH [of "pool_call c p"] by (simp add: pool_run_def metadata_at_call pool_inv_call)
qed (simp add: pool_run_def)

lemma viewClasses_complete:
  assumes "class_chain (unat prev) (unat first) ms (unat (ph_chunk_count h))"
    "\<forall>i < length ms. mem_read (unat (ph_size_class_offset h) + (k + i) * 24) 24 mem =
       encodeSizeClass (ms ! i)"
  shows "viewClasses (length ms) k h mem prev first acc = Some (acc @ ms, ucast (ph_chunk_count h))"
  using assms
proof (induction ms arbitrary: k prev first acc)
  case Nil
  then show ?case by (simp add: word_unat_eq_iff)
next
  case (Cons m ms)
  have m: "decodeSizeClass (mem_read (unat (ph_size_class_offset h) + k * kSizeClassMetadataSize)
      kSizeClassMetadataSize mem) = m"
    using Cons.prems(2) by (force simp: kSizeClassMetadataSize_def decode_encodeSizeClass)
  have le: "unat first + unat (scm_chunk_count m) \<le> unat (ph_chunk_count h)"
    using Cons.prems(1) class_chain_length [of _ _ ms] by fastforce
  have chain: "class_chain (unat (scm_capacity m)) (unat (first + ucast (scm_chunk_count m))) ms
      (unat (ph_chunk_count h))"
  proof -
    have "unat (first + ucast (scm_chunk_count m)) = unat first + unat (scm_chunk_count m)"
      using le unat_u32 [of "ph_chunk_count h"] by (simp add: unat_add_no_wrap)
    then show ?thesis using Cons.prems(1) by simp
  qed
  have "ucast (scm_first_chunk_index m) = first" "\<not> scm_chunk_count m > ph_chunk_count h"
    "scm_capacity m \<noteq> 0" "\<not> scm_capacity m \<le> prev" "scm_chunk_count m \<noteq> 0"
    using Cons.prems(1) le by (auto simp: word_unat_eq_iff word_less_nat_alt word_le_nat_alt)
  moreover have "\<not> first > ucast (ph_chunk_count h - scm_chunk_count m)"
  proof -
    have "unat (ph_chunk_count h - scm_chunk_count m) =
        unat (ph_chunk_count h) - unat (scm_chunk_count m)"
      using le by (intro unat_sub) (simp add: word_le_nat_alt)
    then show ?thesis using le by (simp add: word_less_nat_alt)
  qed
  moreover have "\<forall>i < length ms. mem_read (unat (ph_size_class_offset h) + (Suc k + i) * 24) 24 mem =
       encodeSizeClass (ms ! i)"
    using Cons.prems(2) by (fastforce simp: algebra_simps)
  ultimately show ?case using Cons.IH [OF chain, of "Suc k" "acc @ [m]"] by (simp add: m Let_def)
qed

lemma viewEntryOk_complete:
  assumes "chunk_chain (unat prev) (e # es) (unat region_size)"
    "unat (de_size_class_index e) < length classes"
    "de_capacity e = scm_capacity (classes ! unat (de_size_class_index e))"
    "unat (de_capacity e) < 2 ^ 32"
    "ck_capacity (pm_chunks pm (de_header_offset e)) = ucast (de_capacity e)"
    "ck_size_class_index (pm_chunks pm (de_header_offset e)) = de_size_class_index e"
    "ck_topic_id (pm_chunks pm (de_header_offset e)) = pd_topic_id d"
    "ck_pool_id (pm_chunks pm (de_header_offset e)) = pd_pool_id d"
  shows "viewEntryOk d classes region_size prev pm e"
    "unat (de_payload_offset e + de_capacity e) = unat (de_payload_offset e) + unat (de_capacity e)"
proof -
  note end_le = chunk_chain_nth(4) [OF assms(1), of 0, simplified]
  have h: "unat prev \<le> unat (de_header_offset e)" "64 dvd unat (de_header_offset e)"
    "unat (de_payload_offset e) = unat (de_header_offset e) + 64"
    using assms(1) by simp_all
  have lt: "unat (de_payload_offset e) + unat (de_capacity e) < 2 ^ 64"
    using end_le unat_u64 [of region_size] by simp
  then show "unat (de_payload_offset e + de_capacity e) =
      unat (de_payload_offset e) + unat (de_capacity e)"
    by (simp add: unat_add_no_wrap)
  have "\<not> de_header_offset e > SIZE_MAX - sizeofChunkHeader"
    "\<not> de_payload_offset e > SIZE_MAX - de_capacity e"
    "de_payload_offset e = de_header_offset e + sizeofChunkHeader"
  proof -
    show "\<not> de_header_offset e > SIZE_MAX - sizeofChunkHeader"
      using lt h(3) by (simp add: word_less_nat_alt SIZE_MAX_def sizeofChunkHeader_def)
    have "unat (SIZE_MAX - de_capacity e) = 2 ^ 64 - 1 - unat (de_capacity e)"
      using unat_sub [OF le_SIZE_MAX [of "de_capacity e"]] by simp
    then show "\<not> de_payload_offset e > SIZE_MAX - de_capacity e"
      using lt by (simp add: word_less_nat_alt)
    show "de_payload_offset e = de_header_offset e + sizeofChunkHeader"
      using lt h(3) by (simp add: word_unat_eq_iff sizeofChunkHeader_def unat_add_no_wrap)
  qed
  moreover have "de_header_offset e mod kChunkAlignment = 0"
    "de_payload_offset e mod kChunkAlignment = 0"
    using h by (simp_all only: unat_mod_64) simp
  moreover have "\<not> de_header_offset e < prev" using h(1) by (simp add: word_less_nat_alt)
  moreover have "rangeInside (de_payload_offset e) (de_capacity e) region_size"
    using end_le by (simp add: rangeInside_iff)
  moreover have "(ucast (ucast (de_capacity e) :: u32) :: u64) = de_capacity e"
    using assms(4) by (simp add: word_unat_eq_iff unat_ucast_u64_u32)
  ultimately show "viewEntryOk d classes region_size prev pm e"
    unfolding viewEntryOk_def using assms(2,3,5-8) by (simp add: Let_def not_less)
qed

lemma viewDirectory_complete:
  assumes "chunk_chain (unat prev) es (unat region_size)"
    "\<forall>i < length es. mem_read (unat (ph_chunk_directory_offset h) + (k + i) * 32) 32 (pm_bytes pm) =
       encodeDirectoryEntry (es ! i)"
    "\<forall>e \<in> set es. unat (de_size_class_index e) < length classes \<and>
       de_capacity e = scm_capacity (classes ! unat (de_size_class_index e)) \<and>
       unat (de_capacity e) < 2 ^ 32 \<and>
       ck_capacity (pm_chunks pm (de_header_offset e)) = ucast (de_capacity e) \<and>
       ck_size_class_index (pm_chunks pm (de_header_offset e)) = de_size_class_index e \<and>
       ck_topic_id (pm_chunks pm (de_header_offset e)) = pd_topic_id d \<and>
       ck_pool_id (pm_chunks pm (de_header_offset e)) = pd_pool_id d"
  shows "viewDirectory (length es) k h d classes region_size pm prev acc = Some (acc @ es)"
  using assms
proof (induction es arbitrary: k prev acc)
  case (Cons e es)
  have e: "decodeDirectoryEntry (mem_read (unat (ph_chunk_directory_offset h) +
      k * kChunkDirectoryEntrySize) kChunkDirectoryEntrySize (pm_bytes pm)) = e"
    using Cons.prems(2) by (force simp: kChunkDirectoryEntrySize_def decode_encodeDirectoryEntry)
  have ok: "viewEntryOk d classes region_size prev pm e"
    "unat (de_payload_offset e + de_capacity e) = unat (de_payload_offset e) + unat (de_capacity e)"
    using viewEntryOk_complete [OF Cons.prems(1), of classes pm d] Cons.prems(3) by auto
  have chain: "chunk_chain (unat (de_payload_offset e + de_capacity e)) es (unat region_size)"
    using Cons.prems(1) unfolding chunk_chain.simps ok(2) by blast
  have "\<forall>i < length es. mem_read (unat (ph_chunk_directory_offset h) + (Suc k + i) * 32) 32
      (pm_bytes pm) = encodeDirectoryEntry (es ! i)"
    using Cons.prems(2) by (fastforce simp: algebra_simps)
  then have "viewDirectory (length es) (Suc k) h d classes region_size pm
      (de_payload_offset e + de_capacity e) (acc @ [e]) = Some ((acc @ [e]) @ es)"
    by (rule Cons.IH [OF chain]) (meson Cons.prems(3) list.set_intros(2))
  then show ?case using ok(1) by (simp add: e Let_def)
qed simp

text \<open>
  The header of a pool: what \<open>makeLayout\<close> puts there, as far as a reader depends on it.
\<close>

definition header_for :: "MemoryPool \<Rightarrow> PoolHeader \<Rightarrow> bool" where
  "header_for p h \<longleftrightarrow>
     ph_magic h = kMemoryPoolMagic \<and> ph_version h = kPoolLayoutVersion \<and> ph_header_size h = 80 \<and>
     ph_segment_size h = pd_segment_size (mp_descriptor p) \<and>
     ph_pool_id h = pd_pool_id (mp_descriptor p) \<and> ph_topic_id h = pd_topic_id (mp_descriptor p) \<and>
     unat (ph_size_class_count h) = length (mp_size_classes p) \<and>
     unat (ph_chunk_count h) = length (mp_directory p) \<and> ph_size_class_offset h = 80 \<and>
     unat (ph_chunk_directory_offset h) = 80 + 24 * length (mp_size_classes p) \<and>
     chunk_chain (unat (ph_chunk_storage_offset h)) (mp_directory p)
       (unat (pd_segment_size (mp_descriptor p))) \<and>
     unat (ph_chunk_directory_offset h) + 32 * length (mp_directory p) \<le>
       unat (ph_chunk_storage_offset h) \<and> 64 dvd unat (ph_chunk_storage_offset h)"

lemma viewBoundsOk_complete:
  assumes "pool_wf p" "header_for p h" "region_size = pd_segment_size (mp_descriptor p)"
  shows "viewBoundsOk h region_size"
proof -
  define c n where "c = ph_size_class_count h" and "n = ph_chunk_count h"
  have le: "unat (ph_chunk_storage_offset h) \<le> unat region_size"
    using assms chunk_chain_bounds by (auto simp: header_for_def)
  have sz: "80 + 24 * unat c + 32 * unat n \<le> unat (ph_chunk_storage_offset h)"
    "unat (ph_size_class_offset h) = 80" "unat (ph_chunk_directory_offset h) = 80 + 24 * unat c"
    using assms(2) by (simp_all add: header_for_def c_def n_def)
  have cb: "checkedMultiply (ucast c) (word_of_nat kSizeClassMetadataSize) = Some (ucast c * 24)"
    "unat (ucast c * 24 :: u64) = unat c * 24"
    using unat_u32 [of c] by (simp_all add: checkedMultiply_eq kSizeClassMetadataSize_def unat_word_ariths)
  have db: "checkedMultiply (ucast n) (word_of_nat kChunkDirectoryEntrySize) = Some (ucast n * 32)"
    "unat (ucast n * 32 :: u64) = unat n * 32"
    using unat_u32 [of n] by (simp_all add: checkedMultiply_eq kChunkDirectoryEntrySize_def unat_word_ariths)
  have "ph_chunk_storage_offset h mod kChunkAlignment = 0"
    using assms(2) by (simp only: unat_mod_64) (simp add: header_for_def)
  then show ?thesis
    unfolding viewBoundsOk_def c_def [symmetric] n_def [symmetric]
    using cb db sz le unat_u32 [of c] unat_u64 [of "ph_chunk_storage_offset h"]
    by (simp add: rangeInside_iff word_less_nat_alt not_less)
qed

lemma viewMapped_complete:
  assumes inv: "pool_inv p" and h: "header_for p h"
    and meta: "metadata_at h (mp_size_classes p) (mp_directory p) (pm_bytes (mp_memory p))"
    and region: "r_size region = pd_segment_size (mp_descriptor p)"
  shows "viewMapped (mp_descriptor p) (pd_topic_id (mp_descriptor p)) region (mp_memory p) =
    Inr \<lparr>mv_descriptor = mp_descriptor p, mv_region = region,
         mv_size_classes = mp_size_classes p, mv_directory = mp_directory p\<rparr>"
proof -
  note wf = pool_inv_wf [OF inv]
  have dec: "decodePoolHeader (mem_read 0 kPoolHeaderSize (pm_bytes (mp_memory p))) = h"
    using meta by (simp add: metadata_at_def kPoolHeaderSize_def decode_encodePoolHeader)
  have lay: "mp_size_classes p \<noteq> []" "class_chain 0 0 (mp_size_classes p) (length (mp_directory p))"
    using wf by (simp_all add: pool_wf_def layout_ok_def)
  have "0 < length (mp_directory p)" using lay class_chain_length by fastforce
  then have hdr: "viewHeaderOk h (mp_descriptor p) (pd_topic_id (mp_descriptor p)) (r_size region)"
    using h lay(1) region by (auto simp: viewHeaderOk_def header_for_def kPoolHeaderSize_def)
  have cls: "viewClasses (unat (ph_size_class_count h)) 0 h (pm_bytes (mp_memory p)) 0 0 [] =
      Some (mp_size_classes p, ucast (ph_chunk_count h))"
    using viewClasses_complete [of 0 0 "mp_size_classes p" h 0 "pm_bytes (mp_memory p)" "[]"]
      lay(2) meta h by (simp add: header_for_def metadata_at_def)
  have entry: "unat (de_size_class_index e) < length (mp_size_classes p) \<and>
       de_capacity e = scm_capacity (mp_size_classes p ! unat (de_size_class_index e)) \<and>
       unat (de_capacity e) < 2 ^ 32 \<and>
       ck_capacity (pm_chunks (mp_memory p) (de_header_offset e)) = ucast (de_capacity e) \<and>
       ck_size_class_index (pm_chunks (mp_memory p) (de_header_offset e)) = de_size_class_index e \<and>
       ck_topic_id (pm_chunks (mp_memory p) (de_header_offset e)) = pd_topic_id (mp_descriptor p) \<and>
       ck_pool_id (pm_chunks (mp_memory p) (de_header_offset e)) = pd_pool_id (mp_descriptor p)"
    if e: "e \<in> set (mp_directory p)" for e
  proof -
    obtain i where i: "i < length (mp_directory p)" "e = mp_directory p ! i"
      using e by (metis in_set_conv_nth)
    have idx: "unat (word_of_nat i :: u32) = i"
      using i(1) wf by (simp add: pool_wf_def layout_ok_def)
    have "chunk_static_ok p (word_of_nat i) (pm_chunks (mp_memory p) (de_header_offset e))"
      using pool_inv_headers(1) [OF inv, of "word_of_nat i"] i idx by (simp add: chunkHeader_def)
    then show ?thesis
      unfolding chunk_static_ok_def idx i(2) [symmetric]
      using pool_wf_class [OF wf i(1), folded i(2)] pool_wf_capacity [OF wf i(1), folded i(2)]
      by blast
  qed
  have "viewDirectory (length (mp_directory p)) 0 h (mp_descriptor p) (mp_size_classes p)
      (r_size region) (mp_memory p) (ph_chunk_storage_offset h) [] = Some ([] @ mp_directory p)"
  proof (rule viewDirectory_complete)
    show "chunk_chain (unat (ph_chunk_storage_offset h)) (mp_directory p) (unat (r_size region))"
      using h region by (simp add: header_for_def)
    show "\<forall>i < length (mp_directory p). mem_read (unat (ph_chunk_directory_offset h) + (0 + i) * 32) 32
        (pm_bytes (mp_memory p)) = encodeDirectoryEntry (mp_directory p ! i)"
      using meta h by (simp add: metadata_at_def header_for_def)
  qed (use entry in blast)
  then have "viewDirectory (unat (ph_chunk_count h)) 0 h (mp_descriptor p) (mp_size_classes p)
      (r_size region) (mp_memory p) (ph_chunk_storage_offset h) [] = Some (mp_directory p)"
    using h by (simp add: header_for_def)
  moreover have "viewBoundsOk h (r_size region)" by (rule viewBoundsOk_complete [OF wf h region])
  ultimately show ?thesis
    unfolding viewMapped_def dec Let_def using hdr cls by simp
qed

lemma created_metadata:
  assumes "MemoryPool_create d config pid env os = (Inr p, os')"
  obtains h where "header_for p h"
    "metadata_at h (mp_size_classes p) (mp_directory p) (pm_bytes (mp_memory p))"
  using assms
proof (rule MemoryPool_create_ok)
  fix L region
  assume L: "makeLayout config (pd_pool_id d) (pd_topic_id d) pid = Inr L"
    and seg: "pd_segment_size d = ph_segment_size (pl_header L)"
    and p: "p = newMemoryPool d region (initialMemory d L) (pl_size_classes L) (pl_directory L)"
  note spec = makeLayout_spec [OF L]
  have f: "mp_directory p = pl_directory L" "mp_size_classes p = pl_size_classes L"
    "mp_descriptor p = d" "mp_memory p = initialMemory d L"
    by (simp_all add: p newMemoryPool_def)
  define h where "h = pl_header L"
  have fields: "ph_magic h = kMemoryPoolMagic" "ph_version h = kPoolLayoutVersion"
    "ph_header_size h = 80" "ph_pool_id h = pd_pool_id d" "ph_topic_id h = pd_topic_id d"
    "ph_size_class_count h = word_of_nat (length (pl_size_classes L))"
    "ph_chunk_count h = word_of_nat (length (pl_directory L))" "ph_size_class_offset h = 80"
    by (subst h_def, subst spec(9), simp)+
  have "header_for p h"
    using spec(1-5) seg unfolding header_for_def fields f
    by (simp add: h_def layout_ok_def)
  then show thesis
    using that metadata_at_initial [OF spec(2), of d] by (simp add: f h_def)
qed

lemma header_for_run: "header_for (pool_run calls p) h = header_for p h"
proof -
  have "mp_descriptor (pool_run calls p) = mp_descriptor p \<and>
      mp_size_classes (pool_run calls p) = mp_size_classes p \<and>
      mp_directory (pool_run calls p) = mp_directory p"
    unfolding pool_run_def by (induction calls arbitrary: p) simp_all
  then show ?thesis by (simp add: header_for_def)
qed

lemma pool_run_fields [simp]:
  "mp_descriptor (pool_run calls p) = mp_descriptor p"
  "mp_size_classes (pool_run calls p) = mp_size_classes p"
  "mp_directory (pool_run calls p) = mp_directory p"
  unfolding pool_run_def by (induction calls arbitrary: p) simp_all

section \<open>Reading a published chunk\<close>

definition view_of :: "SharedMemoryRegion \<Rightarrow> MemoryPool \<Rightarrow> MemoryPoolView" where
  "view_of region p = \<lparr>mv_descriptor = mp_descriptor p, mv_region = region,
     mv_size_classes = mp_size_classes p, mv_directory = mp_directory p\<rparr>"

text \<open>On a pool that satisfies the invariant, a read succeeds exactly on published handles.\<close>

lemma view_read_eq:
  assumes inv: "pool_inv p"
  shows "view_read h m (view_of region p) (mp_memory p) =
    (let i = ch_chunk_index h; hdr = chunkHeader p i;
         failed = (\<lambda>err. \<lparr>cv_error = err, cv_payload = None, cv_payload_size = 0,
            cv_sequence = 0, cv_publish_timestamp_ns = 0\<rparr>) in
     if ch_pool_id h \<noteq> pd_pool_id (mp_descriptor p) \<or> unat i \<ge> length (mp_directory p) \<or>
       ch_generation h = 0 \<or> ch_payload_offset h \<noteq> de_payload_offset (mp_directory p ! unat i)
     then failed InvalidChunkHandle
     else if ck_state hdr \<noteq> Published \<or> ck_generation hdr \<noteq> ch_generation h \<or>
       unat (ck_payload_size hdr) > unat m
     then failed InvalidSharedMemory
     else \<lparr>cv_error = Ok, cv_payload = Some (ch_payload_offset h),
           cv_payload_size = ucast (ck_payload_size hdr), cv_sequence = ck_sequence hdr,
           cv_publish_timestamp_ns = ck_publish_timestamp_ns hdr\<rparr>)"
proof (cases "unat (ch_chunk_index h) < length (mp_directory p)")
  case True
  note st = pool_inv_headers [OF inv True]
  have "(ucast (ck_capacity (chunkHeader p (ch_chunk_index h))) :: u64) =
      de_capacity (mp_directory p ! unat (ch_chunk_index h))"
    using unat_ck_capacity [OF inv True] by (simp add: word_unat_eq_iff)
  then show ?thesis
    using st
    by (auto simp: view_read_def view_of_def Let_def chunk_static_ok_def chunk_state_ok_def
        chunkHeader_def word_less_nat_alt not_less word_le_nat_alt)
next
  case False
  then show ?thesis by (simp add: view_read_def view_of_def Let_def)
qed

text \<open>The bytes a successful read points at.\<close>

definition read_bytes :: "ChunkViewResult \<Rightarrow> PoolMemory \<Rightarrow> bytes" where
  "read_bytes r pm = mem_read (unat (the (cv_payload r))) (unat (cv_payload_size r)) (pm_bytes pm)"

lemma mem_read_0: "mem_read off 0 mem = []"
  by (simp add: mem_read_def)

lemma writeAndPublish_Ok:
  assumes "pool_writeAndPublish h data n sequence ts refs p = (Ok, p')"
  shows "publishLocked h n sequence refs p = Ok" "n = 0 \<or> data \<noteq> None"
    "p' = countCopy (markPublished h sequence ts refs (if n \<noteq> 0
       then p\<lparr>mp_memory := (mp_memory p)\<lparr>pm_bytes := mem_write (unat (ch_payload_offset h))
              (take (unat n) (the data)) (pm_bytes (mp_memory p))\<rparr>\<rparr> else p))"
  using assms by (auto simp: pool_writeAndPublish_def Let_def split: if_splits)

lemma published_read:
  fixes region :: SharedMemoryRegion
  assumes inv: "pool_inv p"
    and pub: "pool_writeAndPublish h (Some data) n sequence ts refs p = (Ok, p')"
    and len: "length data = unat n" and max: "n \<le> m"
  defines "r \<equiv> view_read h m (view_of region p) (mp_memory p')"
  shows "cv_error r = Ok" "read_bytes r (mp_memory p') = data" "cv_sequence r = sequence"
    "cv_publish_timestamp_ns r = ts" "handle_valid p' h" "handle_state p' h = Published"
    "cv_payload_size r = n"
proof -
  note w = writeAndPublish_Ok [OF pub]
  have ok: "handle_valid p h" "handle_state p h = Loaned"
    "unat n = unat (ck_payload_size (chunkHeader p (ch_chunk_index h)))"
    using w(1) by (auto simp: publishLocked_Ok)
  note i = handle_valid_lt [OF ok(1)]
  have inv': "pool_inv p'"
    using pool_inv_writeAndPublish [OF inv, of h "Some data" n sequence ts refs] pub by simp
  have dir: "mp_directory p' = mp_directory p" "mp_descriptor p' = mp_descriptor p"
    using mp_directory_ops(2) [of h "Some data" n sequence ts refs p]
      mp_descriptor_ops(2) [of h "Some data" n sequence ts refs p] pub by simp_all
  have view: "view_of region p = view_of region p'"
    using mp_fields_call [of "WriteAndPublish h (Some data) n sequence ts refs" p] pub
    by (simp add: view_of_def)
  have hdr: "chunkHeader p' (ch_chunk_index h) =
      (chunkHeader p (ch_chunk_index h))\<lparr>ck_sequence := sequence, ck_publish_timestamp_ns := ts,
         ck_ref_count := refs, ck_state := Published\<rparr>"
    unfolding w(3) by (simp add: markPublished_def setChunkHeader_def chunkHeader_def count_defs)
  have valid: "handle_valid p' h"
    using ok(1) by (simp add: handle_valid_def handleMatches_def dir hdr)
  then show "handle_valid p' h" "handle_state p' h = Published" by (simp_all add: hdr)
  have gen: "ch_generation h \<noteq> 0"
    using ok(1,2) pool_inv_headers(2) [OF inv i]
    by (simp add: handle_valid_def handleMatches_def chunk_state_ok_def)
  have r: "r = \<lparr>cv_error = Ok, cv_payload = Some (ch_payload_offset h),
      cv_payload_size = ucast (ck_payload_size (chunkHeader p (ch_chunk_index h))),
      cv_sequence = sequence, cv_publish_timestamp_ns = ts\<rparr>"
    unfolding r_def view view_read_eq [OF inv'] Let_def
    using valid gen max ok(3) by (simp add: handle_valid_def handleMatches_def dir hdr word_le_nat_alt)
  show "cv_error r = Ok" "cv_sequence r = sequence" "cv_publish_timestamp_ns r = ts"
    by (simp_all add: r)
  show "cv_payload_size r = n" using ok(3) by (simp add: r word_unat_eq_iff)
  show "read_bytes r (mp_memory p') = data"
    using ok(3) len unfolding w(3) r read_bytes_def
    by (cases "n = 0") (simp_all add: count_defs markPublished_def mem_read_0)
qed

end
