(* ===== verification/MW_Pool_Properties.thy ===== *)
theory MW_Pool_Properties
  imports MW_Pool_View
begin

text \<open>
  The correctness properties of the shared memory pool, stated over pools that
  \<open>MemoryPool::create\<close> built and any sequence of calls on them, with concrete instances.
\<close>

section \<open>A concrete pool\<close>

text \<open>Two chunks of 16 bytes: the segment has 192 bytes of metadata and two chunks of 128.\<close>

definition demoConfig :: MemoryPoolConfig where
  "demoConfig = [\<lparr>cc_chunk_size = 16, cc_chunk_count = 2\<rparr>]"

definition demoDescriptor :: PoolDescriptor where
  "demoDescriptor = \<lparr>pd_shm_name = ''/mw_pool'', pd_pool_id = 7, pd_segment_size = 448,
     pd_topic_id = 3, pd_layout_version = 1\<rparr>"

definition demoEnv :: ShmEnv where
  "demoEnv = \<lparr>env_open = Inr 3, env_ftruncate = None, env_fstat = None, env_mmap = Inr 4096,
     env_unlink = None\<rparr>"

definition demoOs :: ShmOs where
  "demoOs = \<lparr>os_objects = Map.empty, os_fds = {}, os_maps = {}\<rparr>"

lemma demo_config: "config_valid demoConfig \<and> segmentBytes demoConfig = 448"
  by (simp add: config_valid_def segmentBytes_def demoConfig_def chunkBytes_def align64_def)

lemma demo_create:
  "\<exists>p os'. MemoryPool_create demoDescriptor demoConfig 1 demoEnv demoOs = (Inr p, os') \<and>
     map scm_capacity (mp_size_classes p) = [16] \<and> length (mp_directory p) = 2 \<and>
     os_objects os' (pd_shm_name demoDescriptor) = Some 448"
proof -
  obtain L where L: "makeLayout demoConfig 7 3 1 = Inr L"
    using demo_config makeLayout_succeeds_iff [of demoConfig 7 3 1] by auto
  note spec = makeLayout_spec [OF L]
  have seg: "ph_segment_size (pl_header L) = 448"
    using spec(6) demo_config by (simp add: word_unat_eq_iff)
  have "class_chain 0 0 (pl_size_classes L) (length (pl_directory L))"
    using spec(1) by (simp add: layout_ok_def)
  from class_chain_sum [OF this] have "length (pl_directory L) = 2"
    using arg_cong [OF spec(8), of "\<lambda>xs. sum_list (map unat xs)"]
    by (simp add: demoConfig_def comp_def)
  then show ?thesis
    using L seg spec(7)
    by (simp add: MemoryPool_create_def SharedMemoryRegion_create_def validateArguments_def
        shm_open_excl_def isValidSharedMemoryName_def demoDescriptor_def demoEnv_def demoOs_def
        kPoolLayoutVersion_def newMemoryPool_def demoConfig_def)
qed

lemma demo_loan:
  "\<exists>p os' a p'. MemoryPool_create demoDescriptor demoConfig 1 demoEnv demoOs = (Inr p, os') \<and>
     pool_allocate 10 p = (a, p') \<and> ar_error a = Ok"
proof -
  obtain p os' where p: "MemoryPool_create demoDescriptor demoConfig 1 demoEnv demoOs = (Inr p, os')"
    "map scm_capacity (mp_size_classes p) = [16]" "length (mp_directory p) = 2"
    using demo_create by (elim exE conjE) simp
  note inv = pool_inv_create [OF p(1)]
  obtain m where m: "mp_size_classes p = [m]" "scm_capacity m = 16" using p(2) by auto
  have "unat (de_size_class_index (mp_directory p ! 0)) < 1"
    using pool_wf_class(1) [OF pool_inv_wf [OF inv], of 0] p(3) m(1) by simp
  then have "0 \<in> set (mp_free_lists p ! 0)"
    using inv created_chunk(1) [OF p(1), of 0] p(3) m(1) by (simp add: pool_inv_def free_ok_def)
  then have ne: "mp_free_lists p ! 0 \<noteq> []" by auto
  have "ar_error (fst (pool_allocate 10 p)) = Ok"
    using inv by (cases rule: pool_allocate_cases [of p 10]) (use m ne in auto)
  then show ?thesis using p(1) by (metis prod.collapse)
qed

section \<open>Layout\<close>

text \<open>
  (C1) \<open>MemoryPool::requiredSegmentSize\<close> and \<open>makeLayout\<close> succeed exactly on the configurations
  with at least one size class, strictly increasing 32-bit chunk sizes, non-empty classes and fewer
  than \<open>2 ^ 32\<close> chunks, whose segment size, computed without wrap-around, fits into 64 bits; the
  size they return is that closed form: the aligned metadata area plus, for each chunk, a cache
  line of header and the capacity rounded up to cache lines.
\<close>

theorem requiredSegmentSize_exact:
  "requiredSegmentSize config pid =
     (case makeLayout config 1 1 pid of Inl err \<Rightarrow> Inl err | Inr _ \<Rightarrow>
        Inr (word_of_nat (segmentBytes config))) \<and>
   ((\<exists>n. requiredSegmentSize config pid = Inr n) \<longleftrightarrow>
      config_valid config \<and> segmentBytes config < 2 ^ 64)"
proof (cases "makeLayout config 1 1 pid")
  case (Inl err)
  then show ?thesis
    using makeLayout_succeeds_iff [of config 1 1 pid] by (simp add: requiredSegmentSize_def)
next
  case (Inr L)
  have "ph_segment_size (pl_header L) = word_of_nat (segmentBytes config)"
    using arg_cong [OF makeLayout_spec(6) [OF Inr], of "word_of_nat :: nat \<Rightarrow> u64"] by simp
  then show ?thesis
    using Inr makeLayout_succeeds_iff [of config 1 1 pid] by (simp add: requiredSegmentSize_def)
qed

text \<open>
  (C2) In a computed layout every chunk header lies on a cache line behind the metadata tables, its
  payload follows immediately and ends inside the segment, no offset wraps around, and a chunk with
  a smaller index ends before one with a larger index begins.
\<close>

theorem layout_chunks_disjoint:
  assumes "makeLayout config pool_id topic_id pid = Inr L" "i < length (pl_directory L)"
  defines "e \<equiv> pl_directory L ! i"
  shows "80 + 24 * length (pl_size_classes L) + 32 * length (pl_directory L) \<le>
      unat (de_header_offset e) \<and>
    64 dvd unat (de_header_offset e) \<and>
    unat (de_payload_offset e) = unat (de_header_offset e) + 64 \<and>
    unat (de_payload_offset e) + unat (de_capacity e) \<le> unat (ph_segment_size (pl_header L)) \<and>
    (\<forall>j < i. unat (de_payload_offset (pl_directory L ! j)) + unat (de_capacity (pl_directory L ! j))
       \<le> unat (de_header_offset e))"
proof -
  note spec = makeLayout_spec [OF assms(1)]
  have chain: "chunk_chain (unat (ph_chunk_storage_offset (pl_header L))) (pl_directory L)
      (unat (ph_segment_size (pl_header L)))"
    using spec(1) by (simp add: layout_ok_def)
  show ?thesis
    using chunk_chain_nth [OF chain assms(2)] chunk_chain_ordered [OF chain _ assms(2)] spec(2,3)
    by (simp add: e_def)
qed

theorem layout_chunks_disjoint_witness:
  "\<exists>L. makeLayout demoConfig 7 3 1 = Inr L \<and> 1 < length (pl_directory L) \<and>
     unat (de_payload_offset (pl_directory L ! 0)) + unat (de_capacity (pl_directory L ! 0))
       \<le> unat (de_header_offset (pl_directory L ! 1))"
proof -
  obtain L where L: "makeLayout demoConfig 7 3 1 = Inr L"
    using demo_config makeLayout_succeeds_iff [of demoConfig 7 3 1] by auto
  note spec = makeLayout_spec [OF L]
  have "class_chain 0 0 (pl_size_classes L) (length (pl_directory L))"
    using spec(1) by (simp add: layout_ok_def)
  from class_chain_sum [OF this] have "length (pl_directory L) = 2"
    using arg_cong [OF spec(8), of "\<lambda>xs. sum_list (map unat xs)"]
    by (simp add: demoConfig_def comp_def)
  then show ?thesis using L layout_chunks_disjoint [OF L, of 1] by simp
qed

section \<open>Invariant and life cycle\<close>

text \<open>
  (C3) After any sequence of calls on a created pool, in any order and with any arguments, each
  chunk header agrees with the directory, each chunk satisfies the constraints of its life-cycle
  state (references exactly while published), and the free lists hold exactly the free chunks of
  their size class, without duplicates.
\<close>

theorem pool_invariant_reachable:
  assumes "MemoryPool_create d config pid env os = (Inr p, os')"
  shows "pool_inv (pool_run calls p)"
  by (rule pool_inv_run [OF pool_inv_create [OF assms]])

theorem pool_invariant_reachable_witness:
  "\<exists>p os'. MemoryPool_create demoDescriptor demoConfig 1 demoEnv demoOs = (Inr p, os') \<and>
     pool_inv (pool_run [Allocate 10, Allocate 16, Allocate 1] p)"
  using demo_create pool_invariant_reachable by blast

text \<open>
  (C4) Every call on a pool leaves a chunk's header as it was, or moves that one chunk one step
  along the documented life cycle Free, Loaned, Published, Released, Free and leaves the headers of
  all other chunks as they were.
\<close>

theorem pool_call_lifecycle:
  fixes calls :: "PoolCall list"
  assumes "MemoryPool_create d config pid env os = (Inr p, os')"
    "unat i < length (mp_directory p)"
  defines "q \<equiv> pool_run calls p"
  shows "chunkHeader (pool_call c q) i = chunkHeader q i \<or>
    lifecycle (chunk_abs q i) (chunk_abs (pool_call c q) i) \<and>
    (\<forall>j. unat j < length (mp_directory p) \<and> j \<noteq> i \<longrightarrow>
       chunkHeader (pool_call c q) j = chunkHeader q j)"
proof -
  have inv: "pool_inv q" unfolding q_def by (rule pool_inv_run [OF pool_inv_create [OF assms(1)]])
  have i: "unat i < length (mp_directory q)" using assms(2) by (simp add: q_def)
  show ?thesis
    using life_step_chunks [OF inv life_step_call [OF inv] _ i, of c]
      header_step_lifecycle [OF _ pool_inv_headers(2) [OF inv i]]
    by (auto simp: chunk_abs_def q_def)
qed

theorem pool_call_lifecycle_witness:
  "\<exists>p os'. MemoryPool_create demoDescriptor demoConfig 1 demoEnv demoOs = (Inr p, os') \<and>
     (chunkHeader (pool_call (Allocate 10) p) 1 = chunkHeader p 1 \<or>
      lifecycle (chunk_abs p 1) (chunk_abs (pool_call (Allocate 10) p) 1))"
proof -
  obtain p os' where p: "MemoryPool_create demoDescriptor demoConfig 1 demoEnv demoOs = (Inr p, os')"
    "length (mp_directory p) = 2"
    using demo_create by (elim exE conjE) simp
  then show ?thesis
    using pool_call_lifecycle [OF p(1), of 1 "Allocate 10" "[]"] by (auto simp: pool_run_def)
qed

text \<open>
  (C5) No handle is handed out twice: over any sequence of calls with fewer than \<open>2 ^ 32 - 1\<close>
  allocations, the handles \<open>allocate\<close> returns are pairwise different, however often chunks are
  released, reclaimed, cancelled and reused.
\<close>

theorem handles_unique:
  assumes "MemoryPool_create d config pid env os = (Inr p, os')"
    "length (filter is_Allocate calls) < 2 ^ 32 - 1"
  shows "distinct (run_handles calls p)"
proof -
  have "generations_below p 0"
    using created_chunk(2) [OF assms(1)] by (simp add: generations_below_def)
  then show ?thesis
    using run_handles_fresh [OF pool_inv_create [OF assms(1)]] assms(2) by simp
qed

theorem handles_unique_witness:
  "\<exists>p os'. MemoryPool_create demoDescriptor demoConfig 1 demoEnv demoOs = (Inr p, os') \<and>
     distinct (run_handles [Allocate 10, Allocate 16] p)"
proof -
  obtain p os' where "MemoryPool_create demoDescriptor demoConfig 1 demoEnv demoOs = (Inr p, os')"
    using demo_create by (elim exE conjE) simp
  then show ?thesis using handles_unique [of demoDescriptor demoConfig 1 demoEnv demoOs p os'
      "[Allocate 10, Allocate 16]"] by auto
qed



section \<open>Stale handles\<close>

lemma not_allocate_generation:
  assumes "pool_inv p" "unat i < length (mp_directory p)"
    "\<not> (\<exists>n. c = Allocate n \<and> ar_error (fst (pool_allocate n p)) = Ok)"
  shows "ck_generation (chunkHeader (pool_call c p) i) = ck_generation (chunkHeader p i)"
proof (cases "\<exists>n. c = Allocate n")
  case True
  then obtain n where c: "c = Allocate n" by blast
  have fail: "ar_error (fst (pool_allocate n p)) \<noteq> Ok" using assms(3) c by blast
  show ?thesis using assms(1)
    by (cases rule: pool_allocate_cases [of p n]) (use fail in \<open>auto simp: c\<close>)
qed (use pool_call_generation [OF assms(1,2)] in blast)

lemma generation_no_wrap:
  fixes g :: u32
  assumes "unat g \<le> m" "m < 2 ^ 32 - 1"
  shows "unat (nextGeneration g) = Suc (unat g)"
proof -
  have "g \<noteq> - 1" using assms by (auto simp: unsigned_minus_1_eq_mask mask_eq_exp_minus_1)
  then show ?thesis by (rule nextGeneration_unat)
qed

lemma call_generations:
  assumes inv: "pool_inv p" and below: "generations_below p m"
    and bound: "m + length (filter is_Allocate [c]) < 2 ^ 32 - 1"
  shows "generations_below (pool_call c p) (m + length (filter is_Allocate [c])) \<and>
    (\<forall>i. unat i < length (mp_directory p) \<longrightarrow>
       unat (ck_generation (chunkHeader p i)) \<le> unat (ck_generation (chunkHeader (pool_call c p) i))) \<and>
    (\<forall>h \<in> set (run_handles [c] p). unat (ch_chunk_index h) < length (mp_directory p) \<and>
       unat (ck_generation (chunkHeader p (ch_chunk_index h))) < unat (ch_generation h) \<and>
       ch_generation h = ck_generation (chunkHeader (pool_call c p) (ch_chunk_index h)))"
proof (cases "\<exists>n. c = Allocate n \<and> ar_error (fst (pool_allocate n p)) = Ok")
  case False
  have "run_handles [c] p = []" using False by (cases c) auto
  then show ?thesis
    using not_allocate_generation [OF inv _ False] below by (fastforce simp: generations_below_def)
next
  case True
  then obtain n where c: "c = Allocate n" and ok: "ar_error (fst (pool_allocate n p)) = Ok" by blast
  define h where "h = ar_handle (fst (pool_allocate n p))"
  have gen: "unat (ch_chunk_index h) < length (mp_directory p)"
    "ch_generation h = nextGeneration (ck_generation (chunkHeader p (ch_chunk_index h)))"
    "unat i < length (mp_directory p) \<Longrightarrow> ck_generation (chunkHeader (snd (pool_allocate n p)) i) =
       (if i = ch_chunk_index h then ch_generation h else ck_generation (chunkHeader p i))" for i
    using pool_allocate_generation [OF inv ok, folded h_def] by auto
  have "unat (ck_generation (chunkHeader p (ch_chunk_index h))) \<le> m"
    using below gen(1) by (simp add: generations_below_def)
  then have "unat (ch_generation h) = Suc (unat (ck_generation (chunkHeader p (ch_chunk_index h))))"
    unfolding gen(2) by (rule generation_no_wrap) (use bound in simp)
  moreover have "run_handles [c] p = [h]" using ok by (simp add: c h_def)
  ultimately show ?thesis
    using below gen(1,3) by (fastforce simp: generations_below_def c)
qed

lemma run_handles_Cons: "run_handles (c # cs) p = run_handles [c] p @ run_handles cs (pool_call c p)"
  by (cases c) simp_all

lemma run_generations:
  assumes "pool_inv p" "generations_below p m" "m + length (filter is_Allocate cs) < 2 ^ 32 - 1"
  shows "generations_below (pool_run cs p) (m + length (filter is_Allocate cs)) \<and>
    (\<forall>i. unat i < length (mp_directory p) \<longrightarrow>
       unat (ck_generation (chunkHeader p i)) \<le> unat (ck_generation (chunkHeader (pool_run cs p) i))) \<and>
    (\<forall>h \<in> set (run_handles cs p). unat (ch_chunk_index h) < length (mp_directory p) \<and>
       unat (ck_generation (chunkHeader p (ch_chunk_index h))) < unat (ch_generation h) \<and>
       unat (ch_generation h) \<le> unat (ck_generation (chunkHeader (pool_run cs p) (ch_chunk_index h))))"
  using assms
proof (induction cs arbitrary: p m)
  case (Cons c cs)
  have "m + length (filter is_Allocate [c]) < 2 ^ 32 - 1"
    using Cons.prems(3) by (simp split: if_splits)
  note step = call_generations [OF Cons.prems(1,2) this]
  have "m + length (filter is_Allocate [c]) + length (filter is_Allocate cs) < 2 ^ 32 - 1"
    using Cons.prems(3) by (simp split: if_splits)
  from Cons.IH [OF pool_inv_call [OF Cons.prems(1)] step [THEN conjunct1] this]
  have IH: "generations_below (pool_run cs (pool_call c p))
      (m + length (filter is_Allocate [c]) + length (filter is_Allocate cs))"
    "unat i < length (mp_directory p) \<Longrightarrow> unat (ck_generation (chunkHeader (pool_call c p) i)) \<le>
       unat (ck_generation (chunkHeader (pool_run cs (pool_call c p)) i))"
    "h \<in> set (run_handles cs (pool_call c p)) \<Longrightarrow> unat (ch_chunk_index h) < length (mp_directory p) \<and>
       unat (ck_generation (chunkHeader (pool_call c p) (ch_chunk_index h))) < unat (ch_generation h) \<and>
       unat (ch_generation h) \<le>
         unat (ck_generation (chunkHeader (pool_run cs (pool_call c p)) (ch_chunk_index h)))" for i h
    by simp_all
  have run: "pool_run (c # cs) p = pool_run cs (pool_call c p)" by (simp add: pool_run_def)
  show ?case
    unfolding run run_handles_Cons [of c cs]
  proof (intro conjI allI impI ballI, goal_cases)
    case 1
    then show ?case using IH(1) by (simp split: if_splits)
  next
    case (2 i)
    then show ?case using step IH(2) [of i] by (meson le_trans)
  next
    case (3 h)
    then show ?case using step IH(3) [of h] by auto
  next
    case (4 h)
    then show ?case using step IH(3) [of h] by (fastforce dest: le_less_trans)
  next
    case (5 h)
    then show ?case using step IH(2) [of "ch_chunk_index h"] IH(3) [of h] by fastforce
  qed
qed (simp add: pool_run_def)

lemma invalid_handle_rejected:
  assumes "\<not> handle_valid p h"
  shows "wr_error (writablePayload h p) = InvalidChunkHandle"
    "pool_publishLoaned h n sequence ts refs p = (InvalidChunkHandle, p)"
    "pool_writeAndPublish h (Some data) n sequence ts refs p = (InvalidChunkHandle, p)"
    "pool_addReference h p = (InvalidChunkHandle, p)"
    "rr_error (fst (pool_release h p)) = InvalidChunkHandle" "snd (pool_release h p) = p"
    "pool_reclaim h p = (InvalidChunkHandle, p)" "pool_cancel h p = (InvalidChunkHandle, p)"
  using assms
  by (simp_all add: handle_valid_def writablePayload_def pool_publishLoaned_def publishLocked_def
      pool_writeAndPublish_def pool_addReference_def pool_release_def pool_reclaim_def
      pool_cancel_def Let_def)

text \<open>
  (C7) A handle dies with the reuse of its chunk: once \<open>allocate\<close> has handed out a later handle for
  the same chunk, every operation of the pool rejects the older handle with \<open>InvalidChunkHandle\<close>
  and changes nothing, from then on and whatever is called in between, as long as fewer than
  \<open>2 ^ 32 - 1\<close> allocations were made over the pool's life.
\<close>

theorem stale_handle_rejected:
  assumes "MemoryPool_create d config pid env os = (Inr p, os')"
    "length (filter is_Allocate (calls @ later)) < 2 ^ 32 - 1"
    "h \<in> set (run_handles calls p)" "h' \<in> set (run_handles later (pool_run calls p))"
    "ch_chunk_index h' = ch_chunk_index h"
  defines "q \<equiv> pool_run later (pool_run calls p)"
  shows "wr_error (writablePayload h q) = InvalidChunkHandle \<and>
    pool_publishLoaned h n sequence ts refs q = (InvalidChunkHandle, q) \<and>
    pool_writeAndPublish h (Some data) n sequence ts refs q = (InvalidChunkHandle, q) \<and>
    pool_addReference h q = (InvalidChunkHandle, q) \<and>
    rr_error (fst (pool_release h q)) = InvalidChunkHandle \<and> snd (pool_release h q) = q \<and>
    pool_reclaim h q = (InvalidChunkHandle, q) \<and> pool_cancel h q = (InvalidChunkHandle, q)"
proof -
  note inv = pool_inv_create [OF assms(1)]
  have "generations_below p 0"
    using created_chunk(2) [OF assms(1)] by (simp add: generations_below_def)
  from run_generations [OF inv this, of calls]
  have first: "generations_below (pool_run calls p) (length (filter is_Allocate calls))"
    "unat (ch_generation h) \<le> unat (ck_generation (chunkHeader (pool_run calls p) (ch_chunk_index h)))"
    using assms(2,3) by simp_all
  from run_generations [OF pool_inv_run [OF inv] first(1), of later] assms(2,4)
  have "unat (ck_generation (chunkHeader (pool_run calls p) (ch_chunk_index h'))) < unat (ch_generation h')"
    "unat (ch_generation h') \<le> unat (ck_generation (chunkHeader q (ch_chunk_index h')))"
    by (simp_all add: q_def)
  with first(2) have "\<not> handle_valid q h"
    by (auto simp: assms(5) handle_valid_def handleMatches_def)
  then show ?thesis by (simp add: invalid_handle_rejected)
qed

lemma allocate_Ok:
  assumes inv: "pool_inv p" and alloc: "pool_allocate n p = (a, p')" "ar_error a = Ok"
  obtains c i where "findSizeClass (mp_size_classes p) n = Some c" "c < length (mp_size_classes p)"
    "ch_chunk_index (ar_handle a) = i" "unat i < length (mp_directory p)"
    "unat (de_size_class_index (mp_directory p ! unat i)) = c"
    "handle_valid p' (ar_handle a)" "chunkHeader p' i = loanedHeader n (chunkHeader p i)"
    "mp_free_lists p' = (mp_free_lists p)[c := butlast (mp_free_lists p ! c)]"
  using inv
proof (cases rule: pool_allocate_cases [of p n])
  case (loaned c i)
  have c: "c < length (mp_size_classes p)" using findSizeClass_Some [OF loaned(1)] by simp
  note i = last_free [OF inv c loaned(2), folded loaned(3)]
  have hdr: "chunkHeader p' i = loanedHeader n (chunkHeader p i)"
    using chunkHeader_set [OF pool_inv_wf [OF inv] i(1) i(1)] loaned(4) alloc(1) by simp
  have dir: "mp_directory p' = mp_directory p" "mp_descriptor p' = mp_descriptor p"
    using mp_directory_ops(1) [of n p] mp_descriptor_ops(1) [of n p] alloc(1) by simp_all
  have h: "ar_handle a = \<lparr>ch_pool_id = pd_pool_id (mp_descriptor p), ch_chunk_index = i,
      ch_generation = nextGeneration (ck_generation (chunkHeader p i)),
      ch_payload_offset = de_payload_offset (mp_directory p ! unat i)\<rparr>"
    using loaned(4) alloc(1) by auto
  then have idx: "ch_chunk_index (ar_handle a) = i" by simp
  have "handle_valid p' (ar_handle a)"
    using i(1) by (simp add: h handle_valid_def handleMatches_def dir hdr loanedHeader_def)
  moreover have "mp_free_lists p' = (mp_free_lists p)[c := butlast (mp_free_lists p ! c)]"
    using loaned(4) alloc(1) by (auto simp: count_defs)
  ultimately show ?thesis using that [OF loaned(1) c idx i(1,2)] hdr by blast
qed (use alloc in auto)

lemma cancel_then_allocate:
  assumes inv: "pool_inv p" and alloc: "pool_allocate n p = (a, p1)" "ar_error a = Ok"
  defines "p2 \<equiv> snd (pool_cancel (ar_handle a) p1)"
  shows "ar_error (fst (pool_allocate n p2)) = Ok"
    "ch_chunk_index (ar_handle (fst (pool_allocate n p2))) = ch_chunk_index (ar_handle a)"
proof -
  have inv1: "pool_inv p1" using pool_inv_call [OF inv, of "Allocate n"] alloc(1) by simp
  have inv2: "pool_inv p2" using pool_inv_call [OF inv1, of "Cancel (ar_handle a)"] by (simp add: p2_def)
  obtain c i where r: "findSizeClass (mp_size_classes p) n = Some c" "c < length (mp_size_classes p)"
    "ch_chunk_index (ar_handle a) = i" "unat i < length (mp_directory p)"
    "unat (de_size_class_index (mp_directory p ! unat i)) = c"
    "handle_valid p1 (ar_handle a)" "chunkHeader p1 i = loanedHeader n (chunkHeader p i)"
    "mp_free_lists p1 = (mp_free_lists p)[c := butlast (mp_free_lists p ! c)]"
    using allocate_Ok [OF inv alloc] .
  have same: "mp_directory p1 = mp_directory p" "mp_size_classes p1 = mp_size_classes p"
    using mp_fields_call [of "Allocate n" p] alloc(1) by simp_all
  have len: "c < length (mp_free_lists p)"
    using r(2) pool_inv_wf [OF inv] by (simp add: pool_wf_def)
  have "mp_free_lists p2 ! c = butlast (mp_free_lists p ! c) @ [i]"
    using r(3-7) len by (simp add: p2_def pool_cancel_eq [OF inv1] count_defs pushFree_def same r(8)
        loanedHeader_def)
  moreover have "mp_size_classes p2 = mp_size_classes p"
    using mp_fields_call [of "Cancel (ar_handle a)" p1] by (simp add: p2_def same)
  ultimately have facts: "findSizeClass (mp_size_classes p2) n = Some c" "last (mp_free_lists p2 ! c) = i"
    "mp_free_lists p2 ! c \<noteq> []"
    using r(1) by simp_all
  have "ar_error (fst (pool_allocate n p2)) = Ok \<and>
      ch_chunk_index (ar_handle (fst (pool_allocate n p2))) = ch_chunk_index (ar_handle a)"
    using inv2 by (cases rule: pool_allocate_cases [of p2 n]) (use facts r(3) in auto)
  then show "ar_error (fst (pool_allocate n p2)) = Ok"
    "ch_chunk_index (ar_handle (fst (pool_allocate n p2))) = ch_chunk_index (ar_handle a)"
    by blast+
qed

theorem stale_handle_rejected_witness:
  "\<exists>p os' a p'. MemoryPool_create demoDescriptor demoConfig 1 demoEnv demoOs = (Inr p, os') \<and>
     pool_allocate 10 p = (a, p') \<and> ar_error a = Ok \<and>
     (let q = pool_run [Allocate 10, Cancel (ar_handle a), Allocate 10] p
      in pool_cancel (ar_handle a) q = (InvalidChunkHandle, q))"
proof -
  obtain p os' a p' where p: "MemoryPool_create demoDescriptor demoConfig 1 demoEnv demoOs = (Inr p, os')"
    "pool_allocate 10 p = (a, p')" "ar_error a = Ok"
    using demo_loan by (elim exE conjE) simp
  define p2 where "p2 = snd (pool_cancel (ar_handle a) p')"
  define h' where "h' = ar_handle (fst (pool_allocate 10 p2))"
  note again = cancel_then_allocate [OF pool_inv_create [OF p(1)] p(2,3), folded p2_def]
  have run: "pool_run [Allocate 10, Cancel (ar_handle a)] p = p2"
    using p(2) by (simp add: pool_run_def p2_def)
  have h: "ar_handle a \<in> set (run_handles [Allocate 10, Cancel (ar_handle a)] p)"
    "h' \<in> set (run_handles [Allocate 10] (pool_run [Allocate 10, Cancel (ar_handle a)] p))"
    "ch_chunk_index h' = ch_chunk_index (ar_handle a)"
    using p(2,3) again by (simp_all add: run h'_def)
  have few: "length (filter is_Allocate ([Allocate 10, Cancel (ar_handle a)] @ [Allocate 10])) < 2 ^ 32 - 1"
    by simp
  have "pool_cancel (ar_handle a) (pool_run [Allocate 10] p2) =
      (InvalidChunkHandle, pool_run [Allocate 10] p2)"
    using stale_handle_rejected [OF p(1) few h] unfolding run by blast
  moreover have "pool_run [Allocate 10, Cancel (ar_handle a), Allocate 10] p = pool_run [Allocate 10] p2"
    using run by (simp add: pool_run_def)
  ultimately show ?thesis using p by (metis (no_types, lifting))
qed

section \<open>References\<close>

text \<open>
  (C8) The reference count is exact: a chunk published with \<open>refs\<close> references stays published
  through \<open>refs - 1\<close> releases, the next release reports that it became released, any further release
  is rejected as \<open>DuplicateRelease\<close> without effect, and only then \<open>reclaim\<close> succeeds and puts the
  chunk back as the next free one of its class.
\<close>

theorem release_counts_references:
  assumes inv: "pool_inv p" and v: "handle_valid p h" "handle_state p h = Published"
    and k: "k \<le> unat (handle_refs p h)"
  defines "q \<equiv> pool_run (replicate k (Release h)) p"
  shows "unat (handle_refs q h) = unat (handle_refs p h) - k \<and>
    (if k < unat (handle_refs p h)
     then handle_state q h = Published \<and> rr_error (fst (pool_release h q)) = Ok \<and>
       (rr_became_released (fst (pool_release h q)) \<longleftrightarrow> Suc k = unat (handle_refs p h)) \<and>
       pool_reclaim h q = (InvalidState, q)
     else handle_state q h = Released \<and> rr_error (fst (pool_release h q)) = DuplicateRelease \<and>
       snd (pool_release h q) = q \<and> fst (pool_reclaim h q) = Ok \<and>
       (let r = snd (pool_reclaim h q);
            c = unat (de_size_class_index (mp_directory p ! unat (ch_chunk_index h)))
        in handle_state r h = Free \<and> mp_free_lists r ! c = mp_free_lists q ! c @ [ch_chunk_index h]))"
proof -
  have invq: "pool_inv q" unfolding q_def by (rule pool_inv_run [OF inv])
  have run: "handle_valid q h" "unat (handle_refs q h) = unat (handle_refs p h) - k"
    "handle_state q h = (if k = unat (handle_refs p h) then Released else Published)"
    using releases_published [OF inv v k] by (simp_all add: q_def)
  have dir: "mp_directory q = mp_directory p" by (simp add: q_def)
  show ?thesis
  proof (cases "k < unat (handle_refs p h)")
    case True
    then have pub: "handle_state q h = Published" using run(3) by simp
    note r = release_published [OF invq run(1) pub]
    have "handle_refs q h = 1 \<longleftrightarrow> Suc k = unat (handle_refs p h)"
      using run(2) True by (auto simp: word_unat_eq_iff)
    then show ?thesis
      using True run(1,2) pub r(1,3) by (simp add: pool_reclaim_eq [OF invq])
  next
    case False
    then have rel: "handle_state q h = Released" using run(3) k by simp
    have c: "unat (de_size_class_index (mp_directory p ! unat (ch_chunk_index h))) < length (mp_free_lists q)"
      using pool_wf_class(1) [OF pool_inv_wf [OF invq] handle_valid_lt [OF run(1)]] pool_inv_wf [OF invq]
      by (simp add: pool_wf_def dir)
    have "handle_state (snd (pool_reclaim h q)) h = Free"
      using run(1) rel by (simp add: pool_reclaim_eq [OF invq] chunkHeader_def count_defs pushFree_def setChunkHeader_def)
    then show ?thesis
      using False run(1,2) rel c
      by (simp add: pool_release_eq [OF invq] pool_reclaim_eq [OF invq] Let_def count_defs pushFree_def dir)
  qed
qed

lemma demo_published:
  "\<exists>p os' a p' q. MemoryPool_create demoDescriptor demoConfig 1 demoEnv demoOs = (Inr p, os') \<and>
     pool_allocate 10 p = (a, p') \<and> ar_error a = Ok \<and>
     pool_writeAndPublish (ar_handle a) (Some (replicate 10 7)) 10 1 5 2 p' = (Ok, q) \<and>
     handle_valid q (ar_handle a) \<and> handle_state q (ar_handle a) = Published \<and>
     handle_refs q (ar_handle a) = 2"
proof -
  obtain p os' a p' where p: "MemoryPool_create demoDescriptor demoConfig 1 demoEnv demoOs = (Inr p, os')"
    "pool_allocate 10 p = (a, p')" "ar_error a = Ok"
    using demo_loan by (elim exE conjE) simp
  define h where "h = ar_handle a"
  note inv = pool_inv_create [OF p(1)]
  have inv': "pool_inv p'" using pool_inv_call [OF inv, of "Allocate 10"] p(2) by simp
  obtain c i where r: "ch_chunk_index h = i" "handle_valid p' h"
    "chunkHeader p' i = loanedHeader 10 (chunkHeader p i)"
    using allocate_Ok [OF inv p(2,3)] unfolding h_def .
  have size: "ck_payload_size (chunkHeader p' i) = 10" "ck_state (chunkHeader p' i) = Loaned"
    by (simp_all add: r(3) loanedHeader_def)
  have "ck_payload_size (chunkHeader p' i) \<le> ck_capacity (chunkHeader p' i)"
    using pool_inv_headers(2) [OF inv' handle_valid_lt [OF r(2)]] r(1) size(2)
    by (simp add: chunk_state_ok_def)
  then have "publishLocked h 10 1 2 p' = Ok"
    using r(1,2) size by (simp add: publishLocked_Ok word_le_nat_alt)
  then obtain q where q: "pool_writeAndPublish h (Some (replicate 10 7)) 10 1 5 2 p' = (Ok, q)"
    by (simp add: pool_writeAndPublish_def Let_def)
  have st: "handle_valid q h" "handle_state q h = Published"
    using published_read(5,6) [OF inv' q, of 10] by simp_all
  have "handle_refs q h = 2"
    unfolding writeAndPublish_Ok(3) [OF q]
    by (simp add: markPublished_def setChunkHeader_def chunkHeader_def count_defs)
  then show ?thesis using p q st unfolding h_def by blast
qed

theorem release_counts_references_witness:
  "\<exists>q h. pool_inv q \<and> handle_state q h = Published \<and> handle_refs q h = 2 \<and>
     handle_state (pool_run (replicate 1 (Release h)) q) h = Published \<and>
     handle_state (pool_run (replicate 2 (Release h)) q) h = Released \<and>
     fst (pool_reclaim h (pool_run (replicate 2 (Release h)) q)) = Ok"
proof -
  obtain p os' a p' q where p: "MemoryPool_create demoDescriptor demoConfig 1 demoEnv demoOs = (Inr p, os')"
    "pool_allocate 10 p = (a, p')"
    "pool_writeAndPublish (ar_handle a) (Some (replicate 10 7)) 10 1 5 2 p' = (Ok, q)"
    "handle_valid q (ar_handle a)" "handle_state q (ar_handle a) = Published"
    "handle_refs q (ar_handle a) = 2"
    using demo_published by (elim exE conjE) simp
  have inv: "pool_inv q"
    using pool_inv_run [OF pool_inv_create [OF p(1)], of "[Allocate 10,
        WriteAndPublish (ar_handle a) (Some (replicate 10 7)) 10 1 5 2]"] p(2,3)
    by (simp add: pool_run_def)
  have "handle_state (pool_run (replicate 1 (Release (ar_handle a))) q) (ar_handle a) = Published"
    using release_counts_references [OF inv p(4,5), of 1] p(6) by simp
  moreover have "handle_state (pool_run (replicate 2 (Release (ar_handle a))) q) (ar_handle a) = Released \<and>
      fst (pool_reclaim (ar_handle a) (pool_run (replicate 2 (Release (ar_handle a))) q)) = Ok"
    using release_counts_references [OF inv p(4,5), of 2] p(6) by simp
  ultimately show ?thesis using inv p(5,6) by blast
qed

section \<open>Reading through a subscriber's view\<close>

lemma chunk_chain_le: "chunk_chain lo es hi \<Longrightarrow> lo \<le> hi"
  by (induction lo es hi rule: chunk_chain.induct) auto

lemma size_max_top: "\<not> SIZE_MAX < n"
  using le_SIZE_MAX [of n] by (simp only: not_less)

lemma created_descriptor:
  assumes "MemoryPool_create d config pid env os = (Inr p, os')"
  shows "mp_descriptor p = d" "80 \<le> unat (pd_segment_size d)" "pd_pool_id d \<noteq> 0"
    "pd_layout_version d = kPoolLayoutVersion"
proof -
  show d: "mp_descriptor p = d" using created_pool [OF assms] by blast
  have "pool_wf p" using created_pool [OF assms] by blast
  then show "80 \<le> unat (pd_segment_size d)"
    using chunk_chain_le by (fastforce simp: pool_wf_def layout_ok_def d)
  show "pd_pool_id d \<noteq> 0" "pd_layout_version d = kPoolLayoutVersion"
    using assms by (auto elim: MemoryPool_create_ok)
qed

lemma view_open_run:
  assumes create: "MemoryPool_create d config pid env os = (Inr p, os')"
    and region: "SharedMemoryRegion_openReadOnly (pd_shm_name d) (pd_segment_size d) env2 os2 = (Inr region, os3)"
  shows "MemoryPoolView_open d (pd_topic_id d) env2 (mp_memory (pool_run calls p)) os2 =
    (Inr (view_of region p), os3)"
proof -
  note d = created_descriptor [OF create] and inv = pool_inv_create [OF create]
  obtain h where h: "header_for p h"
    "metadata_at h (mp_size_classes p) (mp_directory p) (pm_bytes (mp_memory p))"
    using created_metadata [OF create] .
  have size: "r_size region = pd_segment_size d" using region by (auto elim: open_ok_form)
  have "viewMapped d (pd_topic_id d) region (mp_memory (pool_run calls p)) = Inr (view_of region p)"
    using viewMapped_complete [OF pool_inv_run [OF inv], of calls h region] size
      metadata_at_run [OF inv h(2), of calls] h(1)
    by (simp add: header_for_run d(1) view_of_def)
  then show ?thesis
    using region d size_max_top by (simp add: MemoryPoolView_open_def kPoolHeaderSize_def)
qed

lemma demo_open:
  assumes "os_objects os (pd_shm_name demoDescriptor) = Some 448"
  shows "\<exists>region os'. SharedMemoryRegion_openReadOnly (pd_shm_name demoDescriptor)
    (pd_segment_size demoDescriptor) demoEnv os = (Inr region, os')"
  using assms
  by (simp add: SharedMemoryRegion_openReadOnly_def validateArguments_def shm_open_existing_def
      isValidSharedMemoryName_def demoDescriptor_def demoEnv_def)

text \<open>
  (C9) A subscriber can always map a publisher's pool: whatever the publisher has done with the pool
  since it was created, \<open>MemoryPoolView::open\<close> with the pool's descriptor accepts the mapped segment
  and recovers the publisher's size classes and directory from its bytes.
\<close>

theorem view_open_complete:
  assumes "MemoryPool_create d config pid env os = (Inr p, os')"
    "SharedMemoryRegion_openReadOnly (pd_shm_name d) (pd_segment_size d) env2 os2 = (Inr region, os3)"
  shows "MemoryPoolView_open d (pd_topic_id d) env2 (mp_memory (pool_run calls p)) os2 =
    (Inr \<lparr>mv_descriptor = d, mv_region = region, mv_size_classes = mp_size_classes p,
          mv_directory = mp_directory p\<rparr>, os3)"
  using view_open_run [OF assms] by (simp add: view_of_def created_descriptor [OF assms(1)])

theorem view_open_complete_witness:
  "\<exists>p os' view os3. MemoryPool_create demoDescriptor demoConfig 1 demoEnv demoOs = (Inr p, os') \<and>
     MemoryPoolView_open demoDescriptor 3 demoEnv (mp_memory (pool_run [Allocate 10, Allocate 1] p)) os' =
       (Inr view, os3) \<and> mv_directory view = mp_directory p"
proof -
  obtain p os' where p: "MemoryPool_create demoDescriptor demoConfig 1 demoEnv demoOs = (Inr p, os')"
    "os_objects os' (pd_shm_name demoDescriptor) = Some 448"
    using demo_create by (elim exE conjE) simp
  obtain region os3 where "SharedMemoryRegion_openReadOnly (pd_shm_name demoDescriptor)
      (pd_segment_size demoDescriptor) demoEnv os' = (Inr region, os3)"
    using demo_open [OF p(2)] by blast
  from view_open_complete [OF p(1) this, of "[Allocate 10, Allocate 1]"] show ?thesis
    using p(1) by (auto simp: demoDescriptor_def)
qed

text \<open>While a chunk stays published only its reference count changes, and its payload is frozen.\<close>

lemma published_stable:
  assumes "pool_inv p" "unat i < length (mp_directory p)"
    "\<forall>k \<le> length cs. ck_state (chunkHeader (pool_run (take k cs) p) i) = Published"
  shows "\<exists>r. chunkHeader (pool_run cs p) i = (chunkHeader p i)\<lparr>ck_ref_count := r\<rparr>"
    "\<forall>a \<in> payload_range p i. pm_bytes (mp_memory (pool_run cs p)) a = pm_bytes (mp_memory p) a"
proof -
  have "(\<exists>r. chunkHeader (pool_run cs p) i = (chunkHeader p i)\<lparr>ck_ref_count := r\<rparr>) \<and>
    (\<forall>a \<in> payload_range p i. pm_bytes (mp_memory (pool_run cs p)) a = pm_bytes (mp_memory p) a)"
    using assms
  proof (induction cs arbitrary: p)
    case Nil
    have "chunkHeader p i = (chunkHeader p i)\<lparr>ck_ref_count := ck_ref_count (chunkHeader p i)\<rparr>" by simp
    then show ?case unfolding pool_run_def by (metis ball_triv fold_simps(1) list.simps(9))
  next
    case (Cons c cs)
    note inv = Cons.prems(1) and i = Cons.prems(2)
    have run: "pool_run (c # cs) p = pool_run cs (pool_call c p)" by (simp add: pool_run_def)
    have pub: "ck_state (chunkHeader p i) = Published"
      using Cons.prems(3) [rule_format, of 0] by (simp add: pool_run_def)
    have later: "\<forall>k \<le> length cs. ck_state (chunkHeader (pool_run (take k cs) (pool_call c p)) i) = Published"
      using Cons.prems(3) by (auto simp: pool_run_def dest: spec [of _ "Suc _"])
    have pub': "ck_state (chunkHeader (pool_call c p) i) = Published"
      using later [rule_format, of 0] by (simp add: pool_run_def)
    have i': "unat i < length (mp_directory (pool_call c p))" using i by simp
    obtain r where IH: "chunkHeader (pool_run cs (pool_call c p)) i =
        (chunkHeader (pool_call c p) i)\<lparr>ck_ref_count := r\<rparr>"
      "\<forall>a \<in> payload_range (pool_call c p) i.
         pm_bytes (mp_memory (pool_run cs (pool_call c p))) a = pm_bytes (mp_memory (pool_call c p)) a"
      using Cons.IH [OF pool_inv_call [OF inv] i' later] by blast
    obtain r' where r': "chunkHeader (pool_call c p) i = (chunkHeader p i)\<lparr>ck_ref_count := r'\<rparr>"
    proof (cases "chunkHeader (pool_call c p) i = chunkHeader p i")
      case True
      then show ?thesis by (intro that [of "ck_ref_count (chunkHeader p i)"]) simp
    next
      case False
      then show ?thesis
        using life_step_chunks [OF inv life_step_call [OF inv] _ i, of c]
          header_step_published [OF _ pub pub'] that by auto
    qed
    have "payload_range (pool_call c p) i = payload_range p i" by (simp add: payload_range_def)
    then show ?case
      using IH pool_call_frame_bytes [OF inv i, of _ c] pub unfolding run r' by auto
  qed
  then show "\<exists>r. chunkHeader (pool_run cs p) i = (chunkHeader p i)\<lparr>ck_ref_count := r\<rparr>"
    "\<forall>a \<in> payload_range p i. pm_bytes (mp_memory (pool_run cs p)) a = pm_bytes (mp_memory p) a"
    by blast+
qed

lemma mem_read_frozen:
  assumes "\<forall>a \<in> payload_range p i. m' a = m a" "off = de_payload_offset (mp_directory p ! unat i)"
    "n \<le> unat (de_capacity (mp_directory p ! unat i))"
  shows "mem_read (unat off) n m' = mem_read (unat off) n m"
  by (rule mem_read_cong) (use assms in \<open>auto simp: payload_range_def Let_def\<close>)

lemma published_read_later:
  fixes region :: SharedMemoryRegion
  assumes inv: "pool_inv p" and pub: "pool_writeAndPublish h (Some data) n sequence ts refs p = (Ok, q)"
    and len: "length data = unat n" and max: "n \<le> m"
    and held: "\<forall>k \<le> length cs. handle_state (pool_run (take k cs) q) h = Published"
  defines "r \<equiv> view_read h m (view_of region p) (mp_memory (pool_run cs q))"
  shows "cv_error r = Ok" "read_bytes r (mp_memory (pool_run cs q)) = data" "cv_sequence r = sequence"
    "cv_publish_timestamp_ns r = ts"
proof -
  have invq: "pool_inv q"
    using pool_inv_call [OF inv, of "WriteAndPublish h (Some data) n sequence ts refs"] pub by simp
  note first = published_read(1-4) [OF inv pub len max, of region]
    published_read(5,6) [OF inv pub len max]
  note i = handle_valid_lt [OF first(5)]
  obtain refs' where hdr: "chunkHeader (pool_run cs q) (ch_chunk_index h) =
      (chunkHeader q (ch_chunk_index h))\<lparr>ck_ref_count := refs'\<rparr>"
    using published_stable(1) [OF invq i held] ..
  have view: "view_of region p = view_of region q"
    using mp_fields_call [of "WriteAndPublish h (Some data) n sequence ts refs" p] pub
    by (simp add: view_of_def)
  then have view': "view_of region p = view_of region (pool_run cs q)"
    by (simp add: view_of_def)
  have same: "r = view_read h m (view_of region p) (mp_memory q)"
    unfolding r_def view' view_read_eq [OF pool_inv_run [OF invq]]
    unfolding view' [symmetric] view view_read_eq [OF invq] by (simp add: hdr Let_def)
  show "cv_error r = Ok" "cv_sequence r = sequence" "cv_publish_timestamp_ns r = ts"
    using first by (simp_all add: same)
  have size: "unat (ck_payload_size (chunkHeader q (ch_chunk_index h))) \<le>
      unat (de_capacity (mp_directory q ! unat (ch_chunk_index h)))"
    using pool_inv_headers(2) [OF invq i] first(6) unat_ck_capacity [OF invq i]
    by (simp add: chunk_state_ok_def word_le_nat_alt)
  have r: "cv_payload r = Some (ch_payload_offset h)"
    "cv_payload_size r = ucast (ck_payload_size (chunkHeader q (ch_chunk_index h)))"
    using first(1) unfolding same view view_read_eq [OF invq] by (auto simp: Let_def split: if_splits)
  have "read_bytes r (mp_memory (pool_run cs q)) = read_bytes r (mp_memory q)"
    using mem_read_frozen [OF published_stable(2) [OF invq i held] handle_payload_offset [OF first(5)] size]
    by (simp add: read_bytes_def r)
  then show "read_bytes r (mp_memory (pool_run cs q)) = data" using first(2) by (simp add: same)
qed

text \<open>
  (C10) End-to-end integrity of a published message: a subscriber that opened its view of the pool at
  any time reads, for a handle that \<open>writeAndPublish\<close> accepted, exactly the published bytes, sequence
  number and time stamp, at any later time up to which the chunk has stayed published, whatever
  else was allocated, written, published, released and reclaimed in the meantime.
\<close>

theorem publish_read_back:
  assumes create: "MemoryPool_create d config pid env os = (Inr p, os')"
    and view: "MemoryPoolView_open d (pd_topic_id d) env2 (mp_memory (pool_run opened p)) os2 = (Inr view, os3)"
    and publish: "pool_writeAndPublish h (Some data) n sequence ts refs (pool_run before p) = (Ok, q)"
    and size: "length data = unat n" "n \<le> max_message_size"
    and held: "\<forall>k \<le> length later. handle_state (pool_run (take k later) q) h = Published"
  defines "mem \<equiv> mp_memory (pool_run later q)"
  defines "r \<equiv> view_read h max_message_size view mem"
  shows "cv_error r = Ok \<and> read_bytes r mem = data \<and> cv_sequence r = sequence \<and>
    cv_publish_timestamp_ns r = ts"
proof -
  obtain region os4 where region: "SharedMemoryRegion_openReadOnly (pd_shm_name d) (pd_segment_size d)
      env2 os2 = (Inr region, os4)"
    using view by (auto simp: MemoryPoolView_open_def split: if_splits sum.splits prod.splits)
  have "view = view_of region (pool_run before p)"
    using view_open_run [OF create region, of opened] view by (simp add: view_of_def)
  then show ?thesis
    using published_read_later [OF pool_inv_run [OF pool_inv_create [OF create]] publish size held,
        of region] by (simp add: r_def mem_def)
qed

lemma demo_view:
  obtains p os' h q view os3 where
    "MemoryPool_create demoDescriptor demoConfig 1 demoEnv demoOs = (Inr p, os')"
    "MemoryPoolView_open demoDescriptor (pd_topic_id demoDescriptor) demoEnv (mp_memory (pool_run [] p)) os' =
       (Inr view, os3)"
    "pool_writeAndPublish (h) (Some (replicate 10 7)) 10 1 5 2 (pool_run [Allocate 10] p) = (Ok, q)"
    "handle_state q (h) = Published"
    "cv_error (view_read (h) 100 view (mp_memory q)) = Ok"
proof -
  obtain p os' a p' q where p: "MemoryPool_create demoDescriptor demoConfig 1 demoEnv demoOs = (Inr p, os')"
    "pool_allocate 10 p = (a, p')"
    "pool_writeAndPublish (ar_handle a) (Some (replicate 10 7)) 10 1 5 2 p' = (Ok, q)"
    "handle_state q (ar_handle a) = Published"
    using demo_published by (elim exE conjE) simp
  have "os_objects os' (pd_shm_name demoDescriptor) = Some 448"
    using demo_create p(1) by auto
  then obtain region os3 where region: "SharedMemoryRegion_openReadOnly (pd_shm_name demoDescriptor)
      (pd_segment_size demoDescriptor) demoEnv os' = (Inr region, os3)"
    using demo_open by blast
  have run: "pool_run [Allocate 10] p = p'" using p(2) by (simp add: pool_run_def)
  have inv: "pool_inv p'" using pool_inv_run [OF pool_inv_create [OF p(1)]] run by metis
  have "view_of region p = view_of region p'"
    unfolding run [symmetric] by (simp add: view_of_def)
  then have "cv_error (view_read (ar_handle a) 100 (view_of region p) (mp_memory q)) = Ok"
    using published_read(1) [OF inv p(3), of 100 region] by simp
  from that [OF p(1) view_open_run [OF p(1) region, of "[]"], of "ar_handle a" q, unfolded run, OF p(3,4) this]
  show ?thesis .
qed

theorem publish_read_back_witness:
  "\<exists>p os' h q view os3. MemoryPool_create demoDescriptor demoConfig 1 demoEnv demoOs = (Inr p, os') \<and>
     MemoryPoolView_open demoDescriptor (pd_topic_id demoDescriptor) demoEnv (mp_memory (pool_run [] p)) os' =
       (Inr view, os3) \<and>
     pool_writeAndPublish h (Some (replicate 10 7)) 10 1 5 2 (pool_run [Allocate 10] p) =
       (Ok, q) \<and>
     read_bytes (view_read h 100 view (mp_memory q)) (mp_memory q) = replicate 10 7"
proof -
  obtain p os' h q view os3 where p:
    "MemoryPool_create demoDescriptor demoConfig 1 demoEnv demoOs = (Inr p, os')"
    "MemoryPoolView_open demoDescriptor (pd_topic_id demoDescriptor) demoEnv (mp_memory (pool_run [] p)) os' =
       (Inr view, os3)"
    "pool_writeAndPublish h (Some (replicate 10 7)) 10 1 5 2 (pool_run [Allocate 10] p) = (Ok, q)"
    "handle_state q h = Published"
    by (rule demo_view) blast
  have "read_bytes (view_read h 100 view (mp_memory q)) (mp_memory q) = replicate 10 7"
    using publish_read_back [OF p(1-3), of 100 "[]"] p(4) by (simp add: pool_run_def)
  then show ?thesis using p(1-3) by blast
qed

text \<open>
  (C11) Memory safety of the reader: whatever bytes a segment holds when it is opened, and whatever
  another process writes into it afterwards, a view that \<open>MemoryPoolView::open\<close> accepted never reads
  outside the mapping: a successful \<open>read\<close> returns a payload that lies inside the segment and inside
  its chunk and is no longer than the subscriber's limit, and the chunks of the view do not overlap.
\<close>

theorem view_read_in_bounds:
  fixes h :: ChunkHandle and max_message_size :: size_t and pm' :: PoolMemory
  assumes view: "MemoryPoolView_open d topic env pm os = (Inr view, os')"
  defines "r \<equiv> view_read h max_message_size view pm'"
  shows "(cv_error r = Ok \<longrightarrow>
      (\<exists>off. cv_payload r = Some off \<and> unat off + unat (cv_payload_size r) \<le> unat (pd_segment_size d) \<and>
         unat (cv_payload_size r) \<le> unat max_message_size \<and>
         unat (cv_payload_size r) \<le> unat (de_capacity (mv_directory view ! unat (ch_chunk_index h))))) \<and>
    (\<forall>i j. i < j \<and> j < length (mv_directory view) \<longrightarrow>
       unat (de_payload_offset (mv_directory view ! i)) + unat (de_capacity (mv_directory view ! i))
         \<le> unat (de_header_offset (mv_directory view ! j)))"
proof -
  obtain region os2 where region: "SharedMemoryRegion_openReadOnly (pd_shm_name d) (pd_segment_size d)
      env os = (Inr region, os2)" "viewMapped d topic region pm = Inr view"
    using view by (auto simp: MemoryPoolView_open_def split: if_splits sum.splits prod.splits)
  have size: "r_size region = pd_segment_size d" using region(1) by (auto elim: open_ok_form)
  obtain lo where chain: "chunk_chain lo (mv_directory view) (unat (pd_segment_size d))"
    using viewMapped_sound(1) [OF region(2)] size by auto
  have "\<exists>off. cv_payload r = Some off \<and> unat off + unat (cv_payload_size r) \<le> unat (pd_segment_size d) \<and>
      unat (cv_payload_size r) \<le> unat max_message_size \<and>
      unat (cv_payload_size r) \<le> unat (de_capacity (mv_directory view ! unat (ch_chunk_index h)))"
    if ok: "cv_error r = Ok"
  proof -
    define e where "e = mv_directory view ! unat (ch_chunk_index h)"
    define hdr where "hdr = pm_chunks pm' (de_header_offset e)"
    have r: "unat (ch_chunk_index h) < length (mv_directory view)" "cv_payload r = Some (de_payload_offset e)"
      "cv_payload_size r = ucast (ck_payload_size hdr)" "ucast (ck_capacity hdr) = de_capacity e"
      "ck_payload_size hdr \<le> ck_capacity hdr"
      "(ucast (ck_payload_size hdr) :: u64) \<le> max_message_size"
      using ok unfolding r_def by (auto simp: view_read_def Let_def e_def hdr_def not_less split: if_splits)
    have "unat (ck_payload_size hdr) \<le> unat (de_capacity e)"
      using r(5) arg_cong [OF r(4), of unat] by (simp add: word_le_nat_alt)
    moreover have "unat (ck_payload_size hdr) \<le> unat max_message_size"
      using r(6) by (simp add: word_le_nat_alt)
    ultimately show ?thesis
      using chunk_chain_nth(4) [OF chain r(1)] r(2,3) by (simp add: e_def)
  qed
  then show ?thesis using chunk_chain_ordered [OF chain] by blast
qed

theorem view_read_in_bounds_witness:
  "\<exists>pm os view os' h pm'. MemoryPoolView_open demoDescriptor (pd_topic_id demoDescriptor) demoEnv pm os =
       (Inr view, os') \<and> cv_error (view_read h 100 view pm') = Ok \<and>
     unat (the (cv_payload (view_read h 100 view pm'))) +
       unat (cv_payload_size (view_read h 100 view pm')) \<le> 448"
proof -
  obtain p q :: MemoryPool and os' h view os3 where p:
    "MemoryPoolView_open demoDescriptor (pd_topic_id demoDescriptor) demoEnv (mp_memory (pool_run [] p)) os' =
       (Inr view, os3)"
    "cv_error (view_read h 100 view (mp_memory q)) = Ok"
    by (rule demo_view) blast
  have seg: "unat (pd_segment_size demoDescriptor) = 448" by (simp add: demoDescriptor_def)
  have "unat (the (cv_payload (view_read h 100 view (mp_memory q)))) +
      unat (cv_payload_size (view_read h 100 view (mp_memory q))) \<le> 448"
    using view_read_in_bounds [OF p(1), of h 100 "mp_memory q"] p(2) unfolding seg by fastforce
  then show ?thesis using p by blast
qed

end
