(* ===== verification/MW_Control_Protocol.thy ===== *)
theory MW_Control_Protocol
  imports MW_Frame_Protocol
begin

text \<open>
  The control protocol between the middleware library and the registry daemon
  (\<open>src/middleware/src/detail/control_protocol.cpp\<close>): the frame header, the payload writer and
  reader, and the response envelope.
\<close>

section \<open>Opcodes and headers\<close>

definition kControlMagic :: u32 where "kControlMagic = 0x4D574332"
definition kControlVersion :: u16 where "kControlVersion = 5"
definition kControlHeaderSize :: nat where "kControlHeaderSize = 16"
definition kMaxControlPayloadSize :: nat where "kMaxControlPayloadSize = 64 * 1024"

lemmas control_constants =
  kControlMagic_def kControlVersion_def kControlHeaderSize_def kMaxControlPayloadSize_def

datatype Opcode =
    OpRegisterNode | OpUnregisterNode | OpAdvertiseTopic | OpUnadvertiseTopic
  | OpSubscribeTopic | OpUnsubscribeTopic | OpResolveEndpoint | OpListNodes
  | OpListTopics | OpQueryTopic | OpAttachHeartbeat | OpHeartbeat
  | OpQueryStats | OpResponse
  | OpcodeCast u16

fun opcodeValue :: "Opcode \<Rightarrow> u16" where
  "opcodeValue OpRegisterNode = 1"
| "opcodeValue OpUnregisterNode = 2"
| "opcodeValue OpAdvertiseTopic = 3"
| "opcodeValue OpUnadvertiseTopic = 4"
| "opcodeValue OpSubscribeTopic = 5"
| "opcodeValue OpUnsubscribeTopic = 6"
| "opcodeValue OpResolveEndpoint = 7"
| "opcodeValue OpListNodes = 8"
| "opcodeValue OpListTopics = 9"
| "opcodeValue OpQueryTopic = 10"
| "opcodeValue OpAttachHeartbeat = 11"
| "opcodeValue OpHeartbeat = 12"
| "opcodeValue OpQueryStats = 13"
| "opcodeValue OpResponse = 100"
| "opcodeValue (OpcodeCast x) = x"

definition opcodeCastOf :: "u16 \<Rightarrow> Opcode" where
  "opcodeCastOf x =
    (if x = 1 then OpRegisterNode
     else if x = 2 then OpUnregisterNode
     else if x = 3 then OpAdvertiseTopic
     else if x = 4 then OpUnadvertiseTopic
     else if x = 5 then OpSubscribeTopic
     else if x = 6 then OpUnsubscribeTopic
     else if x = 7 then OpResolveEndpoint
     else if x = 8 then OpListNodes
     else if x = 9 then OpListTopics
     else if x = 10 then OpQueryTopic
     else if x = 11 then OpAttachHeartbeat
     else if x = 12 then OpHeartbeat
     else if x = 13 then OpQueryStats
     else if x = 100 then OpResponse
     else OpcodeCast x)"

fun opcodeListed :: "Opcode \<Rightarrow> bool" where
  "opcodeListed (OpcodeCast _) = False"
| "opcodeListed _ = True"

interpretation opcode: wire_enum opcodeValue opcodeCastOf opcodeListed
proof unfold_locales
  show "opcodeValue (opcodeCastOf x) = x" for x by (simp add: opcodeCastOf_def)
  show "opcodeCastOf (opcodeValue e) = e" if "opcodeListed e" for e
    using that by (cases e) (simp_all add: opcodeCastOf_def)
qed

fun isKnownRequestOpcode :: "Opcode \<Rightarrow> bool" where
  "isKnownRequestOpcode OpResponse = False"
| "isKnownRequestOpcode (OpcodeCast _) = False"
| "isKnownRequestOpcode _ = True"

record ControlHeader =
  ctl_magic :: u32
  ctl_version :: u16
  ctl_opcode :: Opcode
  ctl_request_id :: u32
  ctl_payload_size :: u32

record ControlFrame =
  cf_header :: ControlHeader
  cf_payload :: bytes

datatype ControlHeaderValidation =
  ControlValid | ControlBadMagic | ControlUnsupportedVersion | ControlPayloadTooLarge

text \<open>\<open>appendBigEndian\<close> pushes the bytes \<open>encodeBigEndian\<close> stores.\<close>

definition appendBigEndian :: "bytes \<Rightarrow> 'a::len word \<Rightarrow> bytes" where
  "appendBigEndian output value = output @ encodeBigEndian value"

definition encodeControlHeader :: "ControlHeader \<Rightarrow> bytes" where
  "encodeControlHeader header =
     (let encoded = [];
          encoded = appendBigEndian encoded (ctl_magic header);
          encoded = appendBigEndian encoded (ctl_version header);
          encoded = appendBigEndian encoded (opcodeValue (ctl_opcode header));
          encoded = appendBigEndian encoded (ctl_request_id header);
          encoded = appendBigEndian encoded (ctl_payload_size header)
      in encoded)"

definition decodeControlHeader :: "bytes option \<Rightarrow> ControlHeader option" where
  "decodeControlHeader input =
     (case input of
        None \<Rightarrow> None
      | Some data \<Rightarrow>
          if length data \<noteq> kControlHeaderSize then None
          else Some \<lparr>ctl_magic = get_be 0 data, ctl_version = get_be 4 data,
                     ctl_opcode = opcodeCastOf (get_be 6 data), ctl_request_id = get_be 8 data,
                     ctl_payload_size = get_be 12 data\<rparr>)"

definition validateControlHeader :: "ControlHeader \<Rightarrow> ControlHeaderValidation" where
  "validateControlHeader header =
     (if ctl_magic header \<noteq> kControlMagic then ControlBadMagic
      else if ctl_version header \<noteq> kControlVersion then ControlUnsupportedVersion
      else if unat (ctl_payload_size header) > kMaxControlPayloadSize
      then ControlPayloadTooLarge
      else ControlValid)"

text \<open>\<open>None\<close> is the \<open>std::length_error\<close> of an oversized payload.\<close>

definition encodeControlFrame :: "Opcode \<Rightarrow> u32 \<Rightarrow> bytes \<Rightarrow> bytes option" where
  "encodeControlFrame opcode request_id payload =
     (if length payload > kMaxControlPayloadSize then None
      else Some (encodeControlHeader
             \<lparr>ctl_magic = kControlMagic, ctl_version = kControlVersion, ctl_opcode = opcode,
              ctl_request_id = request_id, ctl_payload_size = word_of_nat (length payload)\<rparr>
           @ payload))"

section \<open>Payload writer and reader\<close>

type_synonym PayloadWriter = bytes

definition writeU16 :: "PayloadWriter \<Rightarrow> u16 \<Rightarrow> PayloadWriter" where
  "writeU16 data value = appendBigEndian data value"

definition writeU32 :: "PayloadWriter \<Rightarrow> u32 \<Rightarrow> PayloadWriter" where
  "writeU32 data value = appendBigEndian data value"

definition writeU64 :: "PayloadWriter \<Rightarrow> u64 \<Rightarrow> PayloadWriter" where
  "writeU64 data value = appendBigEndian data value"

definition writeString :: "PayloadWriter \<Rightarrow> string \<Rightarrow> PayloadWriter option" where
  "writeString data value =
     (if length value > 0xFFFFFFFF then None
      else Some (writeU32 data (word_of_nat (length value)) @ bytes_of_string value))"

definition writeBytes :: "PayloadWriter \<Rightarrow> bytes \<Rightarrow> PayloadWriter" where
  "writeBytes data value = data @ value"

text \<open>
  A read returns the value and the reader moved past it, or \<open>None\<close> for \<open>false\<close>; no caller
  uses a reader again after a failed read.
\<close>

record PayloadReader =
  rd_data :: bytes
  rd_offset :: nat

definition newReader :: "bytes \<Rightarrow> PayloadReader" where
  "newReader data = \<lparr>rd_data = data, rd_offset = 0\<rparr>"

definition rd_remaining :: "PayloadReader \<Rightarrow> nat" where
  "rd_remaining r = length (rd_data r) - rd_offset r"

definition rd_empty :: "PayloadReader \<Rightarrow> bool" where
  "rd_empty r \<longleftrightarrow> rd_offset r = length (rd_data r)"

definition readU16 :: "PayloadReader \<Rightarrow> (u16 \<times> PayloadReader) option" where
  "readU16 r =
     (if rd_remaining r < 2 then None
      else Some (get_be (rd_offset r) (rd_data r), r\<lparr>rd_offset := rd_offset r + 2\<rparr>))"

definition readU32 :: "PayloadReader \<Rightarrow> (u32 \<times> PayloadReader) option" where
  "readU32 r =
     (if rd_remaining r < 4 then None
      else Some (get_be (rd_offset r) (rd_data r), r\<lparr>rd_offset := rd_offset r + 4\<rparr>))"

definition readU64 :: "PayloadReader \<Rightarrow> (u64 \<times> PayloadReader) option" where
  "readU64 r =
     (if rd_remaining r < 8 then None
      else Some (get_be (rd_offset r) (rd_data r), r\<lparr>rd_offset := rd_offset r + 8\<rparr>))"

definition readString :: "PayloadReader \<Rightarrow> (string \<times> PayloadReader) option" where
  "readString r =
     (case readU32 r of
        None \<Rightarrow> None
      | Some (n, r) \<Rightarrow>
          if unat n > rd_remaining r then None
          else Some (string_of_bytes (read_at (rd_offset r) (unat n) (rd_data r)),
                     r\<lparr>rd_offset := rd_offset r + unat n\<rparr>))"

definition readRemaining :: "PayloadReader \<Rightarrow> bytes \<times> PayloadReader" where
  "readRemaining r = (drop (rd_offset r) (rd_data r), r\<lparr>rd_offset := length (rd_data r)\<rparr>)"

record ResponseEnvelope =
  re_error :: ErrorCode
  re_message :: string
  re_body :: bytes

definition encodeResponsePayload :: "ErrorCode \<Rightarrow> string \<Rightarrow> bytes \<Rightarrow> bytes option" where
  "encodeResponsePayload error message body =
     (let writer = writeU16 [] (errorCodeValue error) in
      case writeString writer message of
        None \<Rightarrow> None
      | Some writer \<Rightarrow> Some (writeBytes writer body))"

definition decodeResponsePayload :: "bytes \<Rightarrow> ResponseEnvelope option" where
  "decodeResponsePayload payload =
     (case readU16 (newReader payload) of
        None \<Rightarrow> None
      | Some (error, r) \<Rightarrow>
        (case readString r of
           None \<Rightarrow> None
         | Some (message, r) \<Rightarrow>
             Some \<lparr>re_error = errorCodeCastOf error, re_message = message,
                   re_body = fst (readRemaining r)\<rparr>))"

section \<open>The reader undoes the writer\<close>

text \<open>
  The bytes a reader has still to deliver.  The interface \<open>payload_field\<close> says that reading a
  field at the front of the rest delivers the value and leaves what follows it.
\<close>

definition rd_rest :: "PayloadReader \<Rightarrow> bytes" where
  "rd_rest r = drop (rd_offset r) (rd_data r)"

definition rd_ok :: "PayloadReader \<Rightarrow> bool" where
  "rd_ok r \<longleftrightarrow> rd_offset r \<le> length (rd_data r)"

lemma rd_remaining_rest [simp]: "rd_remaining r = length (rd_rest r)"
  by (simp add: rd_remaining_def rd_rest_def)

lemma rd_empty_rest: "rd_ok r \<Longrightarrow> rd_empty r \<longleftrightarrow> rd_rest r = []"
  by (auto simp: rd_empty_def rd_rest_def rd_ok_def)

lemma newReader_ok [simp]: "rd_ok (newReader data)" and newReader_rest [simp]: "rd_rest (newReader data) = data"
  by (simp_all add: rd_ok_def rd_rest_def newReader_def)

locale payload_field =
  fixes enc :: "'v \<Rightarrow> bytes" and rd :: "PayloadReader \<Rightarrow> ('v \<times> PayloadReader) option"
    and good :: "'v \<Rightarrow> bool"
  assumes read_front:
    "rd_ok r \<Longrightarrow> good v \<Longrightarrow> rd_rest r = enc v @ post \<Longrightarrow>
       \<exists>r'. rd r = Some (v, r') \<and> rd_ok r' \<and> rd_rest r' = post \<and> rd_data r' = rd_data r"
    and read_ok: "rd_ok r \<Longrightarrow> rd r = Some (v, r') \<Longrightarrow> rd_ok r' \<and> rd_data r' = rd_data r"
begin

lemma read_whole:
  "good v \<Longrightarrow> \<exists>r'. rd (newReader (enc v)) = Some (v, r') \<and> rd_empty r'"
  using read_front [of "newReader (enc v)" v "[]"] rd_empty_rest by auto

lemma enc_prefix_free:
  assumes "good v" "good w" "enc v @ xs = enc w @ ys"
  shows "v = w \<and> xs = ys"
proof -
  obtain r where "rd (newReader (enc v @ xs)) = Some (v, r)" "rd_rest r = xs"
    using read_front [of "newReader (enc v @ xs)" v xs] assms(1) by auto
  moreover obtain r' where "rd (newReader (enc w @ ys)) = Some (w, r')" "rd_rest r' = ys"
    using read_front [of "newReader (enc w @ ys)" w ys] assms(2) by auto
  ultimately show ?thesis using assms(3) by simp
qed

end

lemma get_be_rest:
  "(get_be (rd_offset r) (rd_data r) :: 'a::len word) = decodeBigEndian (take (LENGTH('a) div 8) (rd_rest r))"
  by (simp add: get_be_def read_at_def rd_rest_def)

lemma rd_advance:
  assumes "rd_ok r" "n \<le> length (rd_rest r)"
  shows "rd_ok (r\<lparr>rd_offset := rd_offset r + n\<rparr>)"
    "rd_rest (r\<lparr>rd_offset := rd_offset r + n\<rparr>) = drop n (rd_rest r)"
  using assms by (auto simp: rd_ok_def rd_rest_def add.commute)

interpretation u16_field: payload_field encodeBigEndian readU16 "\<lambda>_. True"
proof unfold_locales
  fix r v post assume "rd_ok r" "rd_rest r = encodeBigEndian (v :: u16) @ post"
  then show "\<exists>r'. readU16 r = Some (v, r') \<and> rd_ok r' \<and> rd_rest r' = post \<and> rd_data r' = rd_data r"
    using rd_advance [of r 2] by (simp add: readU16_def get_be_rest be16.dec_enc)
next
  fix r v r' assume "rd_ok r" "readU16 r = Some (v, r')"
  then show "rd_ok r' \<and> rd_data r' = rd_data r"
    using rd_advance [of r 2] by (auto simp: readU16_def split: if_splits)
qed

interpretation u32_field: payload_field encodeBigEndian readU32 "\<lambda>_. True"
proof unfold_locales
  fix r v post assume "rd_ok r" "rd_rest r = encodeBigEndian (v :: u32) @ post"
  then show "\<exists>r'. readU32 r = Some (v, r') \<and> rd_ok r' \<and> rd_rest r' = post \<and> rd_data r' = rd_data r"
    by (simp add: readU32_def get_be_rest rd_advance be32.dec_enc)
qed (auto simp: readU32_def rd_advance split: if_splits)

interpretation u64_field: payload_field encodeBigEndian readU64 "\<lambda>_. True"
proof unfold_locales
  fix r v post assume "rd_ok r" "rd_rest r = encodeBigEndian (v :: u64) @ post"
  then show "\<exists>r'. readU64 r = Some (v, r') \<and> rd_ok r' \<and> rd_rest r' = post \<and> rd_data r' = rd_data r"
    by (simp add: readU64_def get_be_rest rd_advance be64.dec_enc)
qed (auto simp: readU64_def rd_advance split: if_splits)

definition stringField :: "string \<Rightarrow> bytes" where
  "stringField s = encodeBigEndian (word_of_nat (length s) :: u32) @ bytes_of_string s"

lemma writeString_field:
  "length s \<le> 0xFFFFFFFF \<Longrightarrow> writeString data s = Some (data @ stringField s)"
  by (simp add: writeString_def writeU32_def appendBigEndian_def stringField_def)

lemma readString_front:
  assumes "rd_ok r" "length s \<le> 0xFFFFFFFF" "rd_rest r = stringField s @ post"
  shows "\<exists>r'. readString r = Some (s, r') \<and> rd_ok r' \<and> rd_rest r' = post \<and> rd_data r' = rd_data r"
proof -
  have n: "unat (word_of_nat (length s) :: u32) = length s"
    using assms(2) by (simp add: unsigned_of_nat take_bit_nat_eq_self)
  obtain r1 where r1: "readU32 r = Some (word_of_nat (length s), r1)" "rd_ok r1"
    "rd_rest r1 = bytes_of_string s @ post" "rd_data r1 = rd_data r"
    using u32_field.read_front [OF assms(1)] assms(3) by (fastforce simp: stringField_def)
  have "read_at (rd_offset r1) (length s) (rd_data r1) = bytes_of_string s"
    using r1(3) by (simp add: read_at_def rd_rest_def)
  then show ?thesis
    using r1 n by (simp add: readString_def rd_advance)
qed

interpretation string_field: payload_field stringField readString "\<lambda>s. length s \<le> 0xFFFFFFFF"
proof unfold_locales
  fix r v r' assume ok: "rd_ok r" and rd: "readString r = Some (v, r')"
  obtain n r1 where r1: "readU32 r = Some (n, r1)" "unat n \<le> length (rd_rest r1)"
    "r' = r1\<lparr>rd_offset := rd_offset r1 + unat n\<rparr>"
    using rd by (auto simp: readString_def split: option.splits if_splits)
  then show "rd_ok r' \<and> rd_data r' = rd_data r"
    using u32_field.read_ok [OF ok r1(1)] by (simp add: rd_advance)
qed (rule readString_front)

section \<open>Round trips of headers, frames and responses\<close>

lemma length_encodeControlHeader [simp]: "length (encodeControlHeader header) = 16"
  by (simp add: encodeControlHeader_def appendBigEndian_def)

lemma decode_encodeControlHeader:
  "opcodeListed (ctl_opcode header) \<Longrightarrow>
     decodeControlHeader (Some (encodeControlHeader header)) = Some header"
  by (simp add: decodeControlHeader_def encodeControlHeader_def appendBigEndian_def
      kControlHeaderSize_def get_be_def read_at_def be16.dec_enc be32.dec_enc opcode.cast_value)

interpretation control_header:
  message_codec "\<lambda>h. Some (encodeControlHeader h)" "\<lambda>bs. decodeControlHeader (Some bs)" 16
    "\<lambda>h. opcodeListed (ctl_opcode h)"
proof unfold_locales
  show "length bs = 16" if "decodeControlHeader (Some bs) = Some m" for m bs
    using that by (simp add: decodeControlHeader_def kControlHeaderSize_def split: if_splits)
qed (auto simp: decode_encodeControlHeader)

lemma encodeControlFrame_split:
  assumes "encodeControlFrame opcode request_id payload = Some frame" "opcodeListed opcode"
  shows "\<exists>header. decodeControlHeader (Some (take 16 frame)) = Some header \<and>
    validateControlHeader header = ControlValid \<and> ctl_opcode header = opcode \<and>
    ctl_request_id header = request_id \<and> unat (ctl_payload_size header) = length payload \<and>
    drop 16 frame = payload"
proof -
  have "length payload \<le> 65536" and frame: "frame = encodeControlHeader
      \<lparr>ctl_magic = kControlMagic, ctl_version = kControlVersion, ctl_opcode = opcode,
       ctl_request_id = request_id, ctl_payload_size = word_of_nat (length payload)\<rparr> @ payload"
    using assms(1) by (auto simp: encodeControlFrame_def kMaxControlPayloadSize_def split: if_splits)
  then have "unat (word_of_nat (length payload) :: u32) = length payload"
    by (simp add: unsigned_of_nat take_bit_nat_eq_self)
  then show ?thesis
    using \<open>length payload \<le> 65536\<close> assms(2)
    by (simp add: frame decode_encodeControlHeader validateControlHeader_def control_constants)
qed

lemma decode_encodeResponsePayload:
  assumes "errorCodeListed error" "length message \<le> 0xFFFFFFFF"
  shows "\<exists>payload. encodeResponsePayload error message body = Some payload \<and>
    decodeResponsePayload payload = Some \<lparr>re_error = error, re_message = message, re_body = body\<rparr>"
proof -
  define payload where
    "payload = encodeBigEndian (errorCodeValue error) @ stringField message @ body"
  have enc: "encodeResponsePayload error message body = Some payload"
    using assms(2) by (simp add: encodeResponsePayload_def writeString_field writeU16_def
        appendBigEndian_def writeBytes_def payload_def)
  obtain r1 where r1: "readU16 (newReader payload) = Some (errorCodeValue error, r1)" "rd_ok r1"
    "rd_rest r1 = stringField message @ body"
    using u16_field.read_front [of "newReader payload"] by (fastforce simp: payload_def)
  obtain r2 where r2: "readString r1 = Some (message, r2)" "rd_rest r2 = body"
    using readString_front [OF r1(2) assms(2) r1(3)] by blast
  have "decodeResponsePayload payload =
      Some \<lparr>re_error = error, re_message = message, re_body = body\<rparr>"
    using r1(1) r2 assms(1)
    by (simp add: decodeResponsePayload_def readRemaining_def error_code.cast_value
        flip: rd_rest_def)
  then show ?thesis using enc by blast
qed

end
