(* ===== verification/MW_Socket_IO.thy ===== *)
theory MW_Socket_IO
  imports MW_Frame_Protocol
begin

text \<open>
  The blocking transfer loops \<open>readExactWith\<close> and \<open>writeAllWith\<close>
  (\<open>src/middleware/src/detail/socket_io.hpp\<close>, \<open>socket_io.cpp\<close>).  The template argument, the
  system call, is the list of the results its successive calls return.  A loop that has used the
  list up without finishing is still inside the call: its value is \<open>None\<close>.
\<close>

datatype IoStatus = IoComplete | IoClosed | IoFailed

record IoResult =
  io_status :: IoStatus
  io_transferred :: nat
  io_error_number :: int

definition ioResult :: "IoStatus \<Rightarrow> nat \<Rightarrow> int \<Rightarrow> IoResult" where
  "ioResult status transferred error_number =
     \<lparr>io_status = status, io_transferred = transferred, io_error_number = error_number\<rparr>"

definition EINTR :: int where "EINTR = 4"
definition EIO :: int where "EIO = 5"
definition EPIPE :: int where "EPIPE = 32"
definition ECONNRESET :: int where "ECONNRESET = 104"
definition ENOTCONN :: int where "ENOTCONN = 107"

text \<open>
  The result of one \<open>recv\<close>: some bytes stored at the destination, end of stream (the value 0),
  or an \<open>errno\<close>; and of one \<open>send\<close>: a count of bytes accepted, 0, or an \<open>errno\<close>.
\<close>

datatype RecvResult = RecvData bytes | RecvErrno int

fun readExactWith ::
  "nat \<Rightarrow> bytes \<Rightarrow> RecvResult list \<Rightarrow> (IoResult \<times> bytes \<times> RecvResult list) option" where
  "readExactWith want buffer [] =
     (if length buffer < want then None
      else Some (ioResult IoComplete (length buffer) 0, buffer, []))"
| "readExactWith want buffer (r # rs) =
     (if length buffer < want
      then (case r of
          RecvData bs \<Rightarrow>
            if bs = [] then Some (ioResult IoClosed (length buffer) 0, buffer, rs)
            else if length bs > want - length buffer
            then Some (ioResult IoFailed (length buffer) EIO, buffer, rs)
            else readExactWith want (buffer @ bs) rs
        | RecvErrno e \<Rightarrow>
            if e = EINTR then readExactWith want buffer rs
            else Some (ioResult IoFailed (length buffer) e, buffer, rs))
      else Some (ioResult IoComplete (length buffer) 0, buffer, r # rs))"

datatype SendResult = SendCount nat | SendErrno int

text \<open>The second component of the result is what has reached the socket.\<close>

fun writeAllWith ::
  "bytes \<Rightarrow> nat \<Rightarrow> SendResult list \<Rightarrow> (IoResult \<times> bytes \<times> SendResult list) option" where
  "writeAllWith buffer transferred [] =
     (if transferred < length buffer then None
      else Some (ioResult IoComplete transferred 0, take transferred buffer, []))"
| "writeAllWith buffer transferred (r # rs) =
     (if transferred < length buffer
      then (case r of
          SendCount n \<Rightarrow>
            if n = 0 then Some (ioResult IoClosed transferred 0, take transferred buffer, rs)
            else if n > length buffer - transferred
            then Some (ioResult IoFailed transferred EIO, take transferred buffer, rs)
            else writeAllWith buffer (transferred + n) rs
        | SendErrno e \<Rightarrow>
            if e = EINTR then writeAllWith buffer transferred rs
            else Some (ioResult IoFailed transferred e, take transferred buffer, rs))
      else Some (ioResult IoComplete transferred 0, take transferred buffer, r # rs))"

definition isDisconnectError :: "int \<Rightarrow> bool" where
  "isDisconnectError error_number \<longleftrightarrow>
     error_number = EPIPE \<or> error_number = ECONNRESET \<or> error_number = ENOTCONN"

definition closeOnDisconnect :: "IoResult \<Rightarrow> IoResult" where
  "closeOnDisconnect result =
     (if io_status result = IoFailed \<and> isDisconnectError (io_error_number result)
      then result\<lparr>io_status := IoClosed\<rparr> else result)"

definition readExact ::
  "nat \<Rightarrow> RecvResult list \<Rightarrow> (IoResult \<times> bytes \<times> RecvResult list) option" where
  "readExact want rs = map_option (apfst closeOnDisconnect) (readExactWith want [] rs)"

definition writeAll ::
  "bytes \<Rightarrow> SendResult list \<Rightarrow> (IoResult \<times> bytes \<times> SendResult list) option" where
  "writeAll buffer rs = map_option (apfst closeOnDisconnect) (writeAllWith buffer 0 rs)"

section \<open>The read loop\<close>

text \<open>The bytes a list of results delivers, and the results that only interrupt or deliver.\<close>

fun delivered :: "RecvResult list \<Rightarrow> bytes" where
  "delivered [] = []"
| "delivered (RecvData bs # rs) = bs @ delivered rs"
| "delivered (RecvErrno _ # rs) = delivered rs"

fun benign :: "RecvResult \<Rightarrow> bool" where
  "benign (RecvData bs) \<longleftrightarrow> bs \<noteq> []"
| "benign (RecvErrno e) \<longleftrightarrow> e = EINTR"

lemma readExactWith_done:
  "want \<le> length buffer \<Longrightarrow>
     readExactWith want buffer rs = Some (ioResult IoComplete (length buffer) 0, buffer, rs)"
  by (cases rs) auto

text \<open>However the kernel cuts the bytes up, the loop collects exactly them.\<close>

lemma readExactWith_chunks:
  assumes "list_all benign rs" "length (buffer @ delivered rs) = want"
    "rs = [] \<or> (\<exists>bs. last rs = RecvData bs)"
  shows "readExactWith want buffer (rs @ later) =
    Some (ioResult IoComplete want 0, buffer @ delivered rs, later)"
  using assms
proof (induction rs arbitrary: buffer)
  case Nil
  then show ?case by (simp add: readExactWith_done)
next
  case (Cons r rs)
  have last: "rs = [] \<or> (\<exists>bs. last rs = RecvData bs)"
    using Cons.prems(3) by (cases rs) auto
  show ?case
  proof (cases r)
    case (RecvData bs)
    then show ?thesis
      using Cons.prems Cons.IH [of "buffer @ bs"] last by (auto simp: neq_Nil_conv)
  next
    case (RecvErrno e)
    have "delivered rs \<noteq> []"
    proof -
      obtain bs where "rs \<noteq> []" "last rs = RecvData bs"
        using Cons.prems(3) RecvErrno by (cases rs) auto
      then have "RecvData bs \<in> set rs" by (metis last_in_set)
      moreover from this have "bs \<noteq> []" using Cons.prems(1) by (auto simp: list_all_iff)
      moreover have "RecvData bs \<in> set xs \<Longrightarrow> bs \<noteq> [] \<Longrightarrow> delivered xs \<noteq> []" for xs
        by (induction xs rule: delivered.induct) auto
      ultimately show ?thesis by blast
    qed
    then show ?thesis
      using Cons.prems Cons.IH [of buffer] last RecvErrno by (auto simp: neq_Nil_conv)
  qed
qed

text \<open>Whatever the results, the buffer holds a prefix of what was delivered.\<close>

lemma readExactWith_prefix:
  "readExactWith want buffer rs = Some (res, out, rest) \<Longrightarrow> length buffer \<le> want \<Longrightarrow>
     io_transferred res = length out \<and> length out \<le> want \<and>
     (\<exists>ys. buffer @ delivered rs = out @ ys) \<and>
     (io_status res = IoComplete \<longleftrightarrow> length out = want)"
proof (induction want buffer rs arbitrary: res out rest rule: readExactWith.induct)
  case (1 want buffer)
  then show ?case by (auto simp: ioResult_def split: if_splits)
next
  case (2 want buffer r rs)
  show ?case
  proof (cases "length buffer < want")
    case False
    then show ?thesis using 2 by (auto simp: ioResult_def)
  next
    case True
    show ?thesis
    proof (cases r)
      case (RecvData bs)
      then show ?thesis
        using 2 True by (auto simp: ioResult_def split: if_splits)
    next
      case (RecvErrno e)
      then show ?thesis
        using 2 True by (auto simp: ioResult_def split: if_splits)
    qed
  qed
qed

lemma readExact_chunks:
  assumes "list_all benign rs" "length (delivered rs) = want"
    "rs = [] \<or> (\<exists>bs. last rs = RecvData bs)"
  shows "readExact want (rs @ later) = Some (ioResult IoComplete want 0, delivered rs, later)"
  using readExactWith_chunks [of rs "[]" want later] assms
  by (simp add: readExact_def closeOnDisconnect_def ioResult_def)

section \<open>The write loop\<close>

lemma writeAllWith_done:
  "length buffer \<le> transferred \<Longrightarrow>
     writeAllWith buffer transferred rs =
       Some (ioResult IoComplete transferred 0, take transferred buffer, rs)"
  by (cases rs) auto

lemma writeAllWith_prefix:
  "writeAllWith buffer transferred rs = Some (res, sent, rest) \<Longrightarrow> transferred \<le> length buffer \<Longrightarrow>
     sent = take (io_transferred res) buffer \<and> transferred \<le> io_transferred res \<and>
     io_transferred res \<le> length buffer \<and>
     (io_status res = IoComplete \<longleftrightarrow> io_transferred res = length buffer)"
proof (induction buffer transferred rs arbitrary: res sent rest rule: writeAllWith.induct)
  case (1 buffer transferred)
  then show ?case by (auto simp: ioResult_def split: if_splits)
next
  case (2 buffer transferred r rs)
  then show ?case
    by (cases r) (fastforce simp: ioResult_def split: if_splits)+
qed

lemma writeAll_prefix:
  assumes "writeAll buffer rs = Some (res, sent, rest)"
  shows "sent = take (io_transferred res) buffer \<and> io_transferred res \<le> length buffer \<and>
    (io_status res = IoComplete \<longleftrightarrow> sent = buffer)"
proof -
  obtain res' where res': "writeAllWith buffer 0 rs = Some (res', sent, rest)"
    "res = closeOnDisconnect res'"
    using assms by (auto simp: writeAll_def apfst_def map_prod_def split: prod.splits)
  have "io_status res = IoComplete \<longleftrightarrow> io_status res' = IoComplete"
    "io_transferred res = io_transferred res'"
    by (auto simp: res'(2) closeOnDisconnect_def)
  then show ?thesis
    using writeAllWith_prefix [OF res'(1)] by auto
qed

text \<open>Each call that accepts bytes brings the loop closer to its end.\<close>

fun accepted :: "SendResult list \<Rightarrow> nat" where
  "accepted [] = 0"
| "accepted (SendCount n # rs) = n + accepted rs"
| "accepted (SendErrno _ # rs) = accepted rs"

lemma writeAllWith_returns:
  "length buffer \<le> transferred + accepted rs \<Longrightarrow> \<exists>y. writeAllWith buffer transferred rs = Some y"
proof (induction buffer transferred rs rule: writeAllWith.induct)
  case (1 buffer transferred)
  then show ?case by auto
next
  case (2 buffer transferred r rs)
  then show ?case by (cases r) (auto simp: not_less)
qed

end
