(* ===== verification/MW_Wire_Properties.thy ===== *)
theory MW_Wire_Properties
  imports MW_Pool_Protocol MW_Control_Protocol MW_Socket_IO
begin

text \<open>
  The properties of the wire level: messages of the notification and control protocols survive
  encoding, fragmentation on a stream socket and decoding, short reads are never taken for complete
  messages, and the shared memory wrapper gives back what it took from the system.
\<close>

section \<open>Messages on a stream socket\<close>

definition demoWake :: QueueWake where
  "demoWake = \<lparr>qw_pool = \<lparr>pd_shm_name = ''/mw_pool'', pd_pool_id = 7, pd_segment_size = 448,
     pd_topic_id = 3, pd_layout_version = 1\<rparr>, qw_queue_id = 9\<rparr>"

lemma demo_wake: "isValidSharedMemoryName (pd_shm_name (qw_pool demoWake)) \<and> qw_queue_id demoWake \<noteq> 0"
  by (simp add: demoWake_def isValidSharedMemoryName_def)

text \<open>
  (C12) A wake-up reaches the subscriber intact: if the publisher's \<open>writeAll\<close> reports success on an
  encoded \<open>QueueWake\<close>, and the kernel hands the bytes over in any fragments, with any interruptions
  in between, then \<open>readExact\<close> returns exactly the encoded frame, leaves what follows it in the
  socket, and \<open>decodeQueueWake\<close> yields the message that was sent.
\<close>

theorem queue_wake_delivery:
  assumes good: "isValidSharedMemoryName (pd_shm_name (qw_pool w))" "qw_queue_id w \<noteq> 0"
    and send: "writeAll (the (encodeQueueWake w)) sends = Some (wres, sent, srest)"
      "io_status wres = IoComplete"
    and fragments: "list_all benign rs" "delivered rs = sent" "\<exists>bs. last rs = RecvData bs"
  shows "\<exists>rres frame. readExact kQueueWakeSize (rs @ later) = Some (rres, frame, later) \<and>
    io_status rres = IoComplete \<and> decodeQueueWake (Some frame) = Some w"
proof -
  obtain bs where bs: "encodeQueueWake w = Some bs" using queue_wake.enc_good good by blast
  have "sent = bs"
    using writeAll_prefix [OF send(1)] send(2) bs by (metis option.sel)
  then have len: "length (delivered rs) = kQueueWakeSize"
    using queue_wake.enc_size [OF bs] fragments(2) by (simp add: queue_constants)
  show ?thesis
    using readExact_chunks [OF fragments(1) len, of later] fragments(2,3) \<open>sent = bs\<close>
      queue_wake.dec_enc [OF _ bs] good by (auto simp: ioResult_def)
qed

theorem queue_wake_delivery_witness:
  "\<exists>rres frame. readExact kQueueWakeSize ([RecvErrno EINTR, RecvData (take 100 (the (encodeQueueWake demoWake))),
       RecvErrno EINTR, RecvData (drop 100 (the (encodeQueueWake demoWake)))] @ [RecvData [1]]) =
     Some (rres, frame, [RecvData [1]]) \<and> io_status rres = IoComplete \<and>
     decodeQueueWake (Some frame) = Some demoWake"
proof -
  define bs where "bs = the (encodeQueueWake demoWake)"
  have len: "length bs = 272"
    using queue_wake.enc_good [of demoWake] queue_wake.enc_size demo_wake by (force simp: bs_def)
  have send: "writeAll bs [SendCount 200, SendErrno EINTR, SendCount 72] =
      Some (ioResult IoComplete 272 0, bs, [])"
    using len by (simp add: writeAll_def closeOnDisconnect_def ioResult_def)
  have rs: "list_all benign [RecvErrno EINTR, RecvData (take 100 bs), RecvErrno EINTR, RecvData (drop 100 bs)]"
    "delivered [RecvErrno EINTR, RecvData (take 100 bs), RecvErrno EINTR, RecvData (drop 100 bs)] = bs"
    using len by auto
  show ?thesis
    using queue_wake_delivery [OF conjunct1 [OF demo_wake] conjunct2 [OF demo_wake] send [unfolded bs_def] _
        rs [unfolded bs_def], of "[RecvData [1]]"] by (simp add: ioResult_def)
qed

text \<open>
  (C13) \<open>readExact\<close> never mistakes a short read for a message: whatever the sequence of results, it
  reports \<open>Complete\<close> only with all requested bytes in the buffer, and on a closed or failed connection
  the buffer holds a prefix of what the peer delivered, with the number of bytes reported; the
  errors that mean that the peer is gone are reported as \<open>Closed\<close>.
\<close>

theorem readExact_no_short_reads:
  assumes "readExact want rs = Some (res, out, rest)"
  shows "io_transferred res = length out \<and> length out \<le> want \<and> (\<exists>ys. delivered rs = out @ ys) \<and>
    (io_status res = IoComplete \<longleftrightarrow> length out = want) \<and>
    \<not> (io_status res = IoFailed \<and> io_error_number res \<in> {EPIPE, ECONNRESET, ENOTCONN})"
proof -
  obtain res' where r: "readExactWith want [] rs = Some (res', out, rest)" "res = closeOnDisconnect res'"
    using assms by (auto simp: readExact_def apfst_def map_prod_def split: prod.splits)
  have "io_transferred res' = length out \<and> length out \<le> want \<and> (\<exists>ys. delivered rs = out @ ys) \<and>
      (io_status res' = IoComplete \<longleftrightarrow> length out = want)"
    using readExactWith_prefix [OF r(1)] by simp
  then show ?thesis by (auto simp: r(2) closeOnDisconnect_def isDisconnectError_def)
qed

theorem readExact_no_short_reads_witness:
  "readExact 4 [RecvData [1, 2], RecvErrno EINTR, RecvErrno ECONNRESET, RecvData [3, 4]] =
     Some (\<lparr>io_status = IoClosed, io_transferred = 2, io_error_number = ECONNRESET\<rparr>, [1, 2],
       [RecvData [3, 4]]) \<and>
   io_transferred \<lparr>io_status = IoClosed, io_transferred = 2, io_error_number = ECONNRESET\<rparr> =
     length [1, 2 :: u8]"
proof -
  have r: "readExact 4 [RecvData [1, 2], RecvErrno EINTR, RecvErrno ECONNRESET, RecvData [3, 4]] =
     Some (\<lparr>io_status = IoClosed, io_transferred = 2, io_error_number = ECONNRESET\<rparr>, [1, 2],
       [RecvData [3, 4]])"
    by (simp add: readExact_def closeOnDisconnect_def ioResult_def isDisconnectError_def EINTR_def ECONNRESET_def)
  then show ?thesis using readExact_no_short_reads [OF r] by blast
qed

text \<open>
  (C14) The notification stream of a pool: any sequence of notifications with valid names and
  consistent pool identifiers, encoded and concatenated, splits into frames of the fixed size that
  decode to exactly that sequence.
\<close>

theorem pool_notification_stream:
  assumes "\<forall>n \<in> set ns. isValidSharedMemoryName (pd_shm_name (pn_pool n)) \<and>
    ch_pool_id (pn_handle n) = pd_pool_id (pn_pool n)"
  shows "map (decodePoolNotification \<circ> Some)
      (frames kPoolNotificationSize (concat (map (the \<circ> encodePoolNotification) ns))) = map Some ns"
  using pool_notification.stream_round_trip [OF assms]
  by (simp add: pool_constants comp_def)

definition demoNotification :: PoolNotification where
  "demoNotification = \<lparr>pn_pool = qw_pool demoWake,
     pn_handle = \<lparr>ch_pool_id = 7, ch_chunk_index = 1, ch_generation = 4, ch_payload_offset = 256\<rparr>,
     pn_payload_size = 10, pn_sequence = 1, pn_publish_timestamp_ns = 5\<rparr>"

theorem pool_notification_stream_witness:
  "map (decodePoolNotification \<circ> Some) (frames kPoolNotificationSize
     (concat (map (the \<circ> encodePoolNotification)
        [demoNotification, demoNotification\<lparr>pn_sequence := 2\<rparr>]))) =
   [Some demoNotification, Some (demoNotification\<lparr>pn_sequence := 2\<rparr>)]"
  using pool_notification_stream [of "[demoNotification, demoNotification\<lparr>pn_sequence := 2\<rparr>]"]
  by (simp add: demoNotification_def demoWake_def isValidSharedMemoryName_def)

section \<open>The control protocol\<close>

text \<open>
  (C15) A registry response round-trips: for every listed error code, message and body that fit into
  one frame, the client's \<open>decodeControlHeader\<close>, \<open>validateControlHeader\<close> and \<open>decodeResponsePayload\<close>
  recover the opcode, the request identifier, the error code, the message and the body that the
  server encoded; a payload beyond the limit is refused when it is encoded.
\<close>

theorem control_response_round_trip:
  fixes body :: bytes
  assumes "opcodeListed opcode" "errorCodeListed error" "length message \<le> 0xFFFFFFFF"
  defines "payload \<equiv> the (encodeResponsePayload error message body)"
  shows "if 6 + length message + length body \<le> kMaxControlPayloadSize
    then \<exists>frame header. encodeControlFrame opcode request_id payload = Some frame \<and>
      decodeControlHeader (Some (take kControlHeaderSize frame)) = Some header \<and>
      validateControlHeader header = ControlValid \<and> ctl_opcode header = opcode \<and>
      ctl_request_id header = request_id \<and>
      unat (ctl_payload_size header) = length frame - kControlHeaderSize \<and>
      decodeResponsePayload (drop kControlHeaderSize frame) =
        Some \<lparr>re_error = error, re_message = message, re_body = body\<rparr>
    else encodeControlFrame opcode request_id payload = None"
proof -
  have enc: "encodeResponsePayload error message body =
      Some (encodeBigEndian (errorCodeValue error) @ stringField message @ body)"
    using assms(3) by (simp add: encodeResponsePayload_def writeString_field writeU16_def
        appendBigEndian_def writeBytes_def)
  have len: "length payload = 6 + length message + length body"
    by (simp add: payload_def enc stringField_def)
  show ?thesis
  proof (cases "6 + length message + length body \<le> kMaxControlPayloadSize")
    case True
    then obtain frame where frame: "encodeControlFrame opcode request_id payload = Some frame"
      by (simp add: encodeControlFrame_def len)
    have "length frame = 16 + length payload"
      using frame by (auto simp: encodeControlFrame_def split: if_splits)
    then show ?thesis
      using True frame encodeControlFrame_split [OF frame assms(1)]
        decode_encodeResponsePayload [OF assms(2,3), of body] enc
      by (auto simp: payload_def kControlHeaderSize_def)
  next
    case False
    then show ?thesis by (simp add: encodeControlFrame_def len)
  qed
qed

theorem control_response_round_trip_witness:
  "decodeResponsePayload (drop kControlHeaderSize (the (encodeControlFrame OpHeartbeat 5
     (the (encodeResponsePayload NotRegistered ''gone'' [1, 2]))))) =
   Some \<lparr>re_error = NotRegistered, re_message = ''gone'', re_body = [1, 2]\<rparr>"
  using control_response_round_trip [of OpHeartbeat NotRegistered "''gone''" "[1, 2]" 5]
  by (auto simp: control_constants)

section \<open>Shared memory objects\<close>

text \<open>
  (C16) No leaks: a failing \<open>SharedMemoryRegion::create\<close> leaves descriptors, mappings and named
  objects of the system as they were, whichever system call failed, and for a successful one the
  clean-up of the region restores them.
\<close>

theorem shared_memory_no_leak:
  assumes "\<forall>fd. env_open env = Inr fd \<longrightarrow> fd \<notin> os_fds os"
    "\<forall>a. env_mmap env = Inr a \<longrightarrow> a \<notin> os_maps os" "env_unlink env = None"
  shows "case SharedMemoryRegion_create name object_size env os of
      (Inl err, os') \<Rightarrow> os' = os
    | (Inr region, os') \<Rightarrow> os_objects os' name = Some object_size \<and> os_objects os name = None \<and>
        snd (SharedMemoryRegion_cleanup region env os') = os"
proof (cases "SharedMemoryRegion_create name object_size env os")
  case (Pair r os')
  show ?thesis
  proof (cases r)
    case (Inl err)
    then show ?thesis using create_fail_no_leak [of name object_size env os err os'] Pair assms by simp
  next
    case (Inr region)
    have c: "SharedMemoryRegion_create name object_size env os = (Inr region, os')" using Pair Inr by simp
    have "os_objects os' name = Some object_size \<and> os_objects os name = None"
      using c by (auto elim: create_ok_form)
    then show ?thesis using cleanup_create [OF c assms(3,1,2)] c by simp
  qed
qed

theorem shared_memory_no_leak_witness:
  "\<exists>region os'. SharedMemoryRegion_create ''/a'' 64
       \<lparr>env_open = Inr 3, env_ftruncate = None, env_fstat = None, env_mmap = Inr 4096, env_unlink = None\<rparr>
       \<lparr>os_objects = Map.empty, os_fds = {}, os_maps = {}\<rparr> = (Inr region, os') \<and>
     snd (SharedMemoryRegion_cleanup region
       \<lparr>env_open = Inr 3, env_ftruncate = None, env_fstat = None, env_mmap = Inr 4096, env_unlink = None\<rparr>
       os') = \<lparr>os_objects = Map.empty, os_fds = {}, os_maps = {}\<rparr>"
proof -
  define env where "env = \<lparr>env_open = Inr 3, env_ftruncate = None, env_fstat = None,
    env_mmap = Inr 4096, env_unlink = None\<rparr>"
  define os where "os = \<lparr>os_objects = Map.empty, os_fds = {}, os_maps = {}\<rparr>"
  obtain region os' where c: "SharedMemoryRegion_create ''/a'' 64 env os = (Inr region, os')"
    by (simp add: SharedMemoryRegion_create_def validateArguments_def shm_open_excl_def
        isValidSharedMemoryName_def env_def os_def)
  then show ?thesis
    using shared_memory_no_leak [of env os "''/a''" 64] by (simp flip: env_def os_def) (simp add: env_def os_def)
qed

end
