(* ===== verification/MW_Subscriber_Queue.thy ===== *)
theory MW_Subscriber_Queue
  imports MW_Pool_Protocol MW_Pool_Layout
begin

text \<open>
  The bounded queue of chunk handles in shared memory between a publisher and a subscriber:
  \<open>src/middleware/src/detail/subscriber_queue.cpp\<close>.  The mapped segment is the record
  \<open>QueueShared\<close>: header, slots, and the wake-ups issued on the condition variable \<open>not_full\<close>.  Every
  operation runs under the robust process-shared mutex; what locking it reports is the environment
  record \<open>LockEnv\<close>, so the recovery after the death of an owner is part of each operation.  A
  publisher that waits for room gives up the mutex: each return from \<open>pthread_cond_timedwait\<close> is a
  \<open>WaitEvent\<close> that says what the other processes did to the segment in between and what the call
  returned.
\<close>

section \<open>Data\<close>

definition kSubscriberQueueMagic :: u32 where "kSubscriberQueueMagic = 0x4D575151"
definition kMaxSubscriberQueueDepth :: u32 where "kMaxSubscriberQueueDepth = 65536"

text \<open>
  Sizes of the structs on a 64-bit GNU/Linux system.  The two reserved fields of the header are
  never read or written and have no counterpart below.
\<close>

definition sizeofSubscriberQueueHeader :: nat where "sizeofSubscriberQueueHeader = 256"
definition sizeofChunkHandle :: nat where "sizeofChunkHandle = 24"
definition alignofChunkHandle :: nat where "alignofChunkHandle = 8"

record QueueStats =
  qst_enqueued :: u64
  qst_dequeued :: u64
  qst_dropped_newest :: u64
  qst_dropped_oldest :: u64
  qst_block_timeouts :: u64
  qst_blocked_count :: u64
  qst_blocked_time_ns :: u64
  qst_owner_death_recoveries :: u64
  qst_peer_resets :: u64
  qst_current_size :: u32
  qst_max_size :: u32

record SubscriberQueueHeader =
  qh_magic :: u32
  qh_version :: u16
  qh_header_size :: u16
  qh_segment_size :: u64
  qh_queue_id :: u64
  qh_block_timeout_ms :: u64
  qh_capacity :: u32
  qh_head :: u32
  qh_tail :: u32
  qh_size :: u32
  qh_max_size :: u32
  qh_attachment_count :: u32
  qh_closed :: u32
  qh_overflow_policy :: u16
  qh_enqueued :: u64
  qh_dequeued :: u64
  qh_dropped_newest :: u64
  qh_dropped_oldest :: u64
  qh_block_timeouts :: u64
  qh_blocked_count :: u64
  qh_blocked_time_ns :: u64
  qh_owner_death_recoveries :: u64
  qh_peer_resets :: u64

definition zeroQueueHeader :: SubscriberQueueHeader where
  "zeroQueueHeader = \<lparr>qh_magic = 0, qh_version = 0, qh_header_size = 0, qh_segment_size = 0,
     qh_queue_id = 0, qh_block_timeout_ms = 0, qh_capacity = 0, qh_head = 0, qh_tail = 0,
     qh_size = 0, qh_max_size = 0, qh_attachment_count = 0, qh_closed = 0, qh_overflow_policy = 0,
     qh_enqueued = 0, qh_dequeued = 0, qh_dropped_newest = 0, qh_dropped_oldest = 0,
     qh_block_timeouts = 0, qh_blocked_count = 0, qh_blocked_time_ns = 0,
     qh_owner_death_recoveries = 0, qh_peer_resets = 0\<rparr>"

datatype QueueEnqueueStatus =
  Accepted | DroppedNewest | TimedOut | Closed | NotificationFailed | SynchronizationError

record QueueEnqueueResult =
  er_status :: QueueEnqueueStatus
  er_dropped_oldest :: "ChunkHandle option"
  er_notification_sent :: bool
  er_blocked :: bool
  er_blocked_time_ns :: u64

datatype CondCall = CondSignal | CondBroadcast

text \<open>\<open>qs_alive\<close>: the mutex and the condition variable have not been destroyed.\<close>

record QueueShared =
  qs_header :: SubscriberQueueHeader
  qs_slots :: "ChunkHandle list"
  qs_wakes :: "CondCall list"
  qs_alive :: bool

record SharedSubscriberQueue =
  sq_descriptor :: QueueDescriptor
  sq_region :: SharedMemoryRegion
  sq_owner :: bool
  sq_attached :: bool

datatype QueueError =
  QueueInvalidArgument string | QueueOverflow string | QueueSystemError int
| QueueShmError ShmError | QueueMiddlewareError ErrorCode string

definition EOWNERDEAD :: int where "EOWNERDEAD = 130"
definition ENOTRECOVERABLE :: int where "ENOTRECOVERABLE = 131"
definition ETIMEDOUT :: int where "ETIMEDOUT = 110"

section \<open>Locking\<close>

text \<open>The result of \<open>pthread_mutex_lock\<close> or \<open>trylock\<close>, and of \<open>pthread_mutex_consistent\<close>.\<close>

record LockEnv =
  le_lock :: int
  le_consistent :: int

abbreviation modifyHeader :: "(SubscriberQueueHeader \<Rightarrow> SubscriberQueueHeader) \<Rightarrow> QueueShared \<Rightarrow> QueueShared" where
  "modifyHeader f s \<equiv> s\<lparr>qs_header := f (qs_header s)\<rparr>"

definition wake :: "CondCall \<Rightarrow> QueueShared \<Rightarrow> QueueShared" where
  "wake c s = s\<lparr>qs_wakes := qs_wakes s @ [c]\<rparr>"

definition resetRingAfterOwnerDeath :: "QueueShared \<Rightarrow> QueueShared" where
  "resetRingAfterOwnerDeath s =
     wake CondBroadcast (modifyHeader (\<lambda>h. h\<lparr>qh_head := 0, qh_tail := 0, qh_size := 0,
       qh_owner_death_recoveries := qh_owner_death_recoveries h + 1\<rparr>) s)"

definition makeMutexConsistentAfterOwnerDeath :: "int \<Rightarrow> QueueShared \<Rightarrow> bool \<times> QueueShared" where
  "makeMutexConsistentAfterOwnerDeath consistent s =
     (consistent = 0, resetRingAfterOwnerDeath s)"

text \<open>The constructor of \<open>PthreadLock\<close>: whether the mutex is held, and the segment.\<close>

definition PthreadLock :: "LockEnv \<Rightarrow> QueueShared \<Rightarrow> bool \<times> QueueShared" where
  "PthreadLock lenv s =
     (if le_lock lenv = 0 then (True, s)
      else if le_lock lenv = EOWNERDEAD
      then makeMutexConsistentAfterOwnerDeath (le_consistent lenv) s
      else (False, s))"

definition recoverConditionWaitOwnerDeath :: "int \<Rightarrow> int \<Rightarrow> QueueShared \<Rightarrow> bool \<times> QueueShared" where
  "recoverConditionWaitOwnerDeath consistent error s =
     (if error \<noteq> EOWNERDEAD then (error = 0, s)
      else makeMutexConsistentAfterOwnerDeath consistent s)"

section \<open>Time\<close>

record timespec =
  tv_sec :: int
  tv_nsec :: int

definition time_t_max :: int where "time_t_max = 2 ^ 63 - 1"

text \<open>The argument \<open>clock\<close> is what \<open>clock_gettime\<close> delivers, \<open>None\<close> when it fails.\<close>

definition monotonicDeadline :: "u64 \<Rightarrow> timespec option \<Rightarrow> timespec" where
  "monotonicDeadline timeout_ms clock =
     (case clock of
        None \<Rightarrow> \<lparr>tv_sec = 0, tv_nsec = 0\<rparr>
      | Some deadline \<Rightarrow>
          let seconds = uint (timeout_ms div 1000);
              nanoseconds = uint ((timeout_ms mod 1000) * 1000000) in
          if seconds > time_t_max - tv_sec deadline
          then \<lparr>tv_sec = time_t_max, tv_nsec = 999999999\<rparr>
          else
            let deadline = \<lparr>tv_sec = tv_sec deadline + seconds,
                  tv_nsec = tv_nsec deadline + nanoseconds\<rparr> in
            if tv_nsec deadline \<ge> 1000000000
            then \<lparr>tv_sec = tv_sec deadline + 1, tv_nsec = tv_nsec deadline - 1000000000\<rparr>
            else deadline)"

definition elapsedNanoseconds :: "timespec \<Rightarrow> timespec \<Rightarrow> u64" where
  "elapsedNanoseconds start end =
     (let seconds = tv_sec end - tv_sec start;
          nanoseconds = tv_nsec end - tv_nsec start;
          elapsed = seconds * 1000000000 + nanoseconds in
      if elapsed \<le> 0 then 0 else word_of_int elapsed)"

section \<open>Descriptors and headers\<close>

text \<open>Rounding the header size up to the alignment of a slot, a power of two.\<close>

definition slotsOffset :: size_t where
  "slotsOffset = and (word_of_nat (sizeofSubscriberQueueHeader + alignofChunkHandle - 1))
     (not (word_of_nat (alignofChunkHandle - 1)))"

definition immutableHeaderMatches :: "SubscriberQueueHeader \<Rightarrow> QueueDescriptor \<Rightarrow> bool" where
  "immutableHeaderMatches header descriptor \<longleftrightarrow>
     qh_magic header = kSubscriberQueueMagic \<and> qh_version header = kQueueLayoutVersion \<and>
     unat (qh_header_size header) = sizeofSubscriberQueueHeader \<and>
     qh_segment_size header = qd_segment_size descriptor \<and>
     qh_queue_id header = qd_queue_id descriptor \<and> qh_capacity header = qd_capacity descriptor \<and>
     qh_overflow_policy header = overflowPolicyValue (qd_overflow_policy descriptor) \<and>
     qh_block_timeout_ms header = qd_block_timeout_ms descriptor"

definition ringInvariantsHold :: "SubscriberQueueHeader \<Rightarrow> bool" where
  "ringInvariantsHold header \<longleftrightarrow>
     qh_capacity header \<noteq> 0 \<and> qh_head header < qh_capacity header \<and>
     qh_tail header < qh_capacity header \<and> qh_size header \<le> qh_capacity header"

definition queue_requiredSegmentSize :: "u32 \<Rightarrow> QueueError + size_t" where
  "queue_requiredSegmentSize capacity =
     (if capacity = 0 \<or> capacity > kMaxSubscriberQueueDepth
      then Inl (QueueInvalidArgument ''subscriber queue depth is outside the supported range'')
      else case checkedMultiply (ucast capacity) (word_of_nat sizeofChunkHandle) of
        None \<Rightarrow> Inl (QueueOverflow ''subscriber queue segment size overflow'')
      | Some slot_bytes \<Rightarrow>
          (case checkedAdd slotsOffset slot_bytes of
             None \<Rightarrow> Inl (QueueOverflow ''subscriber queue segment size overflow'')
           | Some bytes \<Rightarrow> Inr bytes))"

text \<open>
  The disjunction is evaluated from the left, so \<open>requiredSegmentSize\<close> is called on capacities in
  its range only; its own exceptions are of a type derived from the same base and propagate.
\<close>

definition validateDescriptor :: "QueueDescriptor \<Rightarrow> QueueError option" where
  "validateDescriptor descriptor =
     (if \<not> isValidSharedMemoryName (qd_shm_name descriptor) \<or> qd_queue_id descriptor = 0 \<or>
        qd_layout_version descriptor \<noteq> kQueueLayoutVersion \<or> qd_capacity descriptor = 0 \<or>
        qd_capacity descriptor > kMaxSubscriberQueueDepth \<or>
        \<not> validOverflowPolicy (qd_overflow_policy descriptor) \<or>
        qd_block_timeout_ms descriptor = 0
      then Some (QueueInvalidArgument ''invalid subscriber queue descriptor'')
      else case queue_requiredSegmentSize (qd_capacity descriptor) of
        Inl err \<Rightarrow> Some err
      | Inr bytes \<Rightarrow>
          if qd_segment_size descriptor \<noteq> bytes
          then Some (QueueInvalidArgument ''invalid subscriber queue descriptor'')
          else None)"

section \<open>Creating and opening a queue\<close>

text \<open>
  The results of the \<open>pthread\<close> initialisation calls of \<open>create\<close>, in the order of the calls:
  mutex attributes (init, process-shared, robust), mutex, condition attributes (init,
  process-shared, monotonic clock), condition variable.
\<close>

type_synonym QueueInitEnv = "int list"

fun firstError :: "int list \<Rightarrow> int option" where
  "firstError [] = None"
| "firstError (e # es) = (if e \<noteq> 0 then Some e else firstError es)"

definition nullChunkHandle :: ChunkHandle where
  "nullChunkHandle = \<lparr>ch_pool_id = 0, ch_chunk_index = 0, ch_generation = 0, ch_payload_offset = 0\<rparr>"

definition newQueueHeader :: "QueueDescriptor \<Rightarrow> SubscriberQueueHeader" where
  "newQueueHeader descriptor = zeroQueueHeader
     \<lparr>qh_version := kQueueLayoutVersion,
      qh_header_size := word_of_nat sizeofSubscriberQueueHeader,
      qh_segment_size := qd_segment_size descriptor, qh_queue_id := qd_queue_id descriptor,
      qh_block_timeout_ms := qd_block_timeout_ms descriptor, qh_capacity := qd_capacity descriptor,
      qh_attachment_count := 1,
      qh_overflow_policy := overflowPolicyValue (qd_overflow_policy descriptor),
      qh_magic := kSubscriberQueueMagic\<rparr>"

definition SharedSubscriberQueue_create ::
  "QueueDescriptor \<Rightarrow> QueueInitEnv \<Rightarrow> ShmEnv \<Rightarrow> ShmOs
     \<Rightarrow> (QueueError + SharedSubscriberQueue \<times> QueueShared) \<times> ShmOs" where
  "SharedSubscriberQueue_create descriptor ienv env os =
     (case validateDescriptor descriptor of
        Some err \<Rightarrow> (Inl err, os)
      | None \<Rightarrow>
        (case SharedMemoryRegion_create (qd_shm_name descriptor) (qd_segment_size descriptor) env os of
           (Inl err, os) \<Rightarrow> (Inl (QueueShmError err), os)
         | (Inr region, os) \<Rightarrow>
           (case firstError ienv of
              Some error \<Rightarrow>
                (Inl (QueueSystemError error), snd (SharedMemoryRegion_cleanup region env os))
            | None \<Rightarrow>
                (Inr (\<lparr>sq_descriptor = descriptor, sq_region = region, sq_owner = True,
                       sq_attached = True\<rparr>,
                      \<lparr>qs_header = newQueueHeader descriptor,
                       qs_slots = replicate (unat (qd_capacity descriptor)) nullChunkHandle,
                       qs_wakes = [], qs_alive = True\<rparr>), os))))"

text \<open>
  Opening maps the segment that is there.  On a throw the lock and the region are released by
  their destructors; the attachment count changes only on success.
\<close>

definition SharedSubscriberQueue_open ::
  "QueueDescriptor \<Rightarrow> LockEnv \<Rightarrow> ShmEnv \<Rightarrow> QueueShared \<Rightarrow> ShmOs
     \<Rightarrow> (QueueError + SharedSubscriberQueue) \<times> QueueShared \<times> ShmOs" where
  "SharedSubscriberQueue_open descriptor lenv env s os =
     (case validateDescriptor descriptor of
        Some err \<Rightarrow> (Inl err, s, os)
      | None \<Rightarrow>
        (case SharedMemoryRegion_openReadWrite (qd_shm_name descriptor) (qd_segment_size descriptor)
                env os of
           (Inl err, os) \<Rightarrow> (Inl (QueueShmError err), s, os)
         | (Inr region, os) \<Rightarrow>
           let closed_os = snd (SharedMemoryRegion_cleanup region env os) in
           if \<not> immutableHeaderMatches (qs_header s) descriptor
           then (Inl (QueueMiddlewareError InvalidSharedMemory
                   ''subscriber queue metadata does not match its descriptor''), s, closed_os)
           else
             let (locked, s) = PthreadLock lenv s in
             if \<not> locked
             then (Inl (QueueMiddlewareError SharedMemoryError
                     ''subscriber queue mutex could not be locked''), s, closed_os)
             else if \<not> ringInvariantsHold (qs_header s)
             then (Inl (QueueMiddlewareError InvalidSharedMemory
                     ''subscriber queue ring invariants are invalid''), s, closed_os)
             else if qh_closed (qs_header s) \<noteq> 0 \<or>
               qh_attachment_count (qs_header s) = 0xFFFFFFFF
             then (Inl (QueueMiddlewareError QueueClosed ''subscriber queue is closed''), s, closed_os)
             else
               (Inr \<lparr>sq_descriptor = descriptor, sq_region = region, sq_owner = False,
                     sq_attached = True\<rparr>,
                modifyHeader (\<lambda>h. h\<lparr>qh_attachment_count := qh_attachment_count h + 1\<rparr>) s, os)))"

section \<open>Enqueue\<close>

record WaitEvent =
  wt_others :: "QueueShared \<Rightarrow> QueueShared"
  wt_error :: int
  wt_consistent :: int

datatype WaitOutcome = WaitOver | WaitTimedOut | WaitFailed

text \<open>
  The loop around \<open>pthread_cond_timedwait\<close>.  \<open>None\<close>: the listed returns from the call are used up
  and the publisher is still waiting.
\<close>

fun enqueueWait :: "WaitEvent list \<Rightarrow> QueueShared \<Rightarrow> (WaitOutcome \<times> QueueShared) option" where
  "enqueueWait events s =
     (if qh_size (qs_header s) = qh_capacity (qs_header s) \<and> qh_closed (qs_header s) = 0
      then (case events of
          [] \<Rightarrow> None
        | e # events \<Rightarrow>
            let s = wt_others e s in
            if wt_error e = ETIMEDOUT then Some (WaitTimedOut, s)
            else
              let (recovered, s) = recoverConditionWaitOwnerDeath (wt_consistent e) (wt_error e) s in
              if \<not> recovered then Some (WaitFailed, s)
              else enqueueWait events s)
      else Some (WaitOver, s))"

declare enqueueWait.simps [simp del]

text \<open>
  What one call of \<open>enqueue\<close> sees of its environment: the lock, the notification callback
  (\<open>None\<close> for the null pointer, otherwise its result), the clock readings for the deadline and for
  the begin and the end of the wait, and the returns from the wait for a given deadline.
\<close>

record EnqueueEnv =
  en_lock :: LockEnv
  en_notify :: "bool option"
  en_clock :: "timespec option"
  en_blocked_start :: timespec
  en_blocked_end :: timespec
  en_waits :: "timespec \<Rightarrow> WaitEvent list"

definition enqueueResult ::
  "QueueEnqueueStatus \<Rightarrow> ChunkHandle option \<Rightarrow> bool \<Rightarrow> bool \<Rightarrow> u64 \<Rightarrow> QueueEnqueueResult" where
  "enqueueResult status dropped sent blocked ns =
     \<lparr>er_status = status, er_dropped_oldest = dropped, er_notification_sent = sent,
      er_blocked = blocked, er_blocked_time_ns = ns\<rparr>"

text \<open>Storing the handle at the tail.\<close>

definition pushSlot :: "ChunkHandle \<Rightarrow> QueueShared \<Rightarrow> QueueShared" where
  "pushSlot handle s =
     (let h = qs_header s;
          tail = (qh_tail h + 1) mod qh_capacity h;
          n = qh_size h + 1 in
      s\<lparr>qs_slots := (qs_slots s)[unat (qh_tail h) := handle],
        qs_header := h\<lparr>qh_tail := tail, qh_size := n, qh_enqueued := qh_enqueued h + 1,
          qh_max_size := max (qh_max_size h) n\<rparr>\<rparr>)"

text \<open>Taking it back when the notification could not be sent; \<open>max_size\<close> keeps its new value.\<close>

definition undoPush :: "QueueShared \<Rightarrow> QueueShared" where
  "undoPush s = modifyHeader (\<lambda>h. h\<lparr>
     qh_tail := (if qh_tail h = 0 then qh_capacity h - 1 else qh_tail h - 1),
     qh_size := qh_size h - 1, qh_enqueued := qh_enqueued h - 1\<rparr>) s"

definition popHead :: "SubscriberQueueHeader \<Rightarrow> SubscriberQueueHeader" where
  "popHead h = h\<lparr>qh_head := (qh_head h + 1) mod qh_capacity h, qh_size := qh_size h - 1\<rparr>"

abbreviation headSlot :: "QueueShared \<Rightarrow> ChunkHandle" where
  "headSlot s \<equiv> qs_slots s ! unat (qh_head (qs_header s))"

definition finishEnqueue ::
  "ChunkHandle \<Rightarrow> bool option \<Rightarrow> bool \<Rightarrow> ChunkHandle option \<Rightarrow> bool \<Rightarrow> u64 \<Rightarrow> QueueShared
     \<Rightarrow> QueueEnqueueResult \<times> QueueShared" where
  "finishEnqueue handle notify needs_notification dropped blocked ns s =
     (let s = pushSlot handle s in
      if needs_notification \<and> notify \<noteq> None
      then if the notify
           then (enqueueResult Accepted dropped True blocked ns, s)
           else (enqueueResult NotificationFailed None False blocked ns, undoPush s)
      else (enqueueResult Accepted dropped False blocked ns, s))"

definition queue_enqueue ::
  "ChunkHandle \<Rightarrow> EnqueueEnv \<Rightarrow> QueueShared \<Rightarrow> (QueueEnqueueResult \<times> QueueShared) option" where
  "queue_enqueue handle env s =
     (let (locked, s) = PthreadLock (en_lock env) s in
      if \<not> locked then Some (enqueueResult SynchronizationError None False False 0, s)
      else if qh_closed (qs_header s) \<noteq> 0
      then Some (enqueueResult Closed None False False 0, s)
      else
        let needs_notification = (qh_size (qs_header s) = 0);
            policy = overflowPolicyCastOf (qh_overflow_policy (qs_header s)) in
        if qh_size (qs_header s) = qh_capacity (qs_header s)
        then
          (if policy = DropNewest
           then Some (enqueueResult DroppedNewest None False False 0,
                  modifyHeader (\<lambda>h. h\<lparr>qh_dropped_newest := qh_dropped_newest h + 1\<rparr>) s)
           else if policy = DropOldest
           then Some (finishEnqueue handle (en_notify env) False (Some (headSlot s)) False 0
                  (modifyHeader (\<lambda>h. (popHead h)\<lparr>qh_dropped_oldest := qh_dropped_oldest h + 1\<rparr>) s))
           else
             let deadline = monotonicDeadline (qh_block_timeout_ms (qs_header s)) (en_clock env);
                 s = modifyHeader (\<lambda>h. h\<lparr>qh_blocked_count := qh_blocked_count h + 1\<rparr>) s;
                 ns = elapsedNanoseconds (en_blocked_start env) (en_blocked_end env);
                 add = modifyHeader (\<lambda>h. h\<lparr>qh_blocked_time_ns := qh_blocked_time_ns h + ns\<rparr>) in
             (case enqueueWait (en_waits env deadline) s of
                None \<Rightarrow> None
              | Some (WaitTimedOut, s) \<Rightarrow>
                  Some (enqueueResult TimedOut None False True ns,
                    modifyHeader (\<lambda>h. h\<lparr>qh_block_timeouts := qh_block_timeouts h + 1\<rparr>) (add s))
              | Some (WaitFailed, s) \<Rightarrow>
                  Some (enqueueResult SynchronizationError None False True ns, add s)
              | Some (WaitOver, s) \<Rightarrow>
                  let s = add s in
                  if qh_closed (qs_header s) \<noteq> 0
                  then Some (enqueueResult Closed None False True ns, s)
                  else Some (finishEnqueue handle (en_notify env) (qh_size (qs_header s) = 0) None
                         True ns s)))
        else Some (finishEnqueue handle (en_notify env) needs_notification None False 0 s))"

section \<open>Dequeue and drain\<close>

definition queue_tryDequeue :: "LockEnv \<Rightarrow> QueueShared \<Rightarrow> ChunkHandle option \<times> QueueShared" where
  "queue_tryDequeue lenv s =
     (let (locked, s) = PthreadLock lenv s in
      if \<not> locked \<or> qh_size (qs_header s) = 0 then (None, s)
      else
        let handle = headSlot s;
            s = modifyHeader (\<lambda>h. (popHead h)\<lparr>qh_dequeued := qh_dequeued h + 1\<rparr>) s in
        (Some handle, wake CondSignal s))"

definition queue_peek :: "LockEnv \<Rightarrow> QueueShared \<Rightarrow> ChunkHandle option \<times> QueueShared" where
  "queue_peek lenv s =
     (let (locked, s) = PthreadLock lenv s in
      if \<not> locked \<or> qh_size (qs_header s) = 0 then (None, s)
      else (Some (headSlot s), s))"

function drainLoop :: "ChunkHandle list \<Rightarrow> QueueShared \<Rightarrow> ChunkHandle list \<times> QueueShared" where
  "drainLoop handles s =
     (if qh_size (qs_header s) \<noteq> 0
      then drainLoop (handles @ [headSlot s]) (modifyHeader popHead s)
      else (handles, s))"
  by pat_completeness auto

termination drainLoop
  by (relation "measure (\<lambda>(_, s). unat (qh_size (qs_header s)))")
    (auto simp: popHead_def unat_minus_one unat_gt_0)

declare drainLoop.simps [simp del]

definition drainAll :: "QueueShared \<Rightarrow> ChunkHandle list \<times> QueueShared" where
  "drainAll s =
     (let (handles, s) = drainLoop [] s;
          s = modifyHeader (\<lambda>h. h\<lparr>qh_tail := qh_head h\<rparr>) s
      in (handles, wake CondBroadcast s))"

definition lockError :: QueueError where
  "lockError = QueueMiddlewareError SharedMemoryError ''subscriber queue mutex could not be locked''"

definition queue_drain :: "LockEnv \<Rightarrow> QueueShared \<Rightarrow> (QueueError + ChunkHandle list) \<times> QueueShared" where
  "queue_drain lenv s =
     (let (locked, s) = PthreadLock lenv s in
      if \<not> locked then (Inl lockError, s)
      else let (handles, s) = drainAll s in (Inr handles, s))"

definition queue_closeAndDrain ::
  "LockEnv \<Rightarrow> QueueShared \<Rightarrow> (QueueError + ChunkHandle list) \<times> QueueShared" where
  "queue_closeAndDrain lenv s =
     (let (locked, s) = PthreadLock lenv s in
      if \<not> locked then (Inl lockError, s)
      else
        let s = modifyHeader (\<lambda>h. h\<lparr>qh_closed := 1\<rparr>) s;
            (handles, s) = drainAll s
        in (Inr handles, s))"

section \<open>Discarding a pool\<close>

text \<open>The loop with \<open>remaining\<close> iterations left; it compacts the kept handles in place.\<close>

fun discardLoop ::
  "nat \<Rightarrow> u64 \<Rightarrow> u32 \<Rightarrow> u32 \<Rightarrow> u32 \<Rightarrow> u32 \<Rightarrow> ChunkHandle list \<Rightarrow> u32 \<times> ChunkHandle list" where
  "discardLoop 0 pool_id capacity head index kept slots = (kept, slots)"
| "discardLoop (Suc remaining) pool_id capacity head index kept slots =
     (let handle = slots ! unat ((head + index) mod capacity) in
      if pool_id \<noteq> 0 \<and> ch_pool_id handle \<noteq> pool_id
      then discardLoop remaining pool_id capacity head (index + 1) (kept + 1)
             (slots[unat ((head + kept) mod capacity) := handle])
      else discardLoop remaining pool_id capacity head (index + 1) kept slots)"

definition queue_discardPool :: "u64 \<Rightarrow> LockEnv \<Rightarrow> QueueShared \<Rightarrow> QueueShared" where
  "queue_discardPool pool_id lenv s =
     (let (locked, s) = PthreadLock lenv s in
      if \<not> locked then s
      else
        let h = qs_header s;
            (kept, slots) = discardLoop (unat (qh_size h)) pool_id (qh_capacity h) (qh_head h) 0 0
              (qs_slots s);
            s = s\<lparr>qs_slots := slots,
                  qs_header := h\<lparr>qh_tail := (qh_head h + kept) mod qh_capacity h, qh_size := kept,
                    qh_peer_resets := qh_peer_resets h + 1\<rparr>\<rparr>
        in wake CondBroadcast s)"

section \<open>Recovery, statistics and detaching\<close>

text \<open>\<open>recoverAndClose\<close> uses \<open>pthread_mutex_trylock\<close>; the region is unmapped on every path.\<close>

definition queue_recoverAndClose ::
  "QueueDescriptor \<Rightarrow> LockEnv \<Rightarrow> ShmEnv \<Rightarrow> QueueShared \<Rightarrow> ShmOs \<Rightarrow> ErrorCode \<times> QueueShared \<times> ShmOs" where
  "queue_recoverAndClose descriptor lenv env s os =
     (case validateDescriptor descriptor of
        Some err \<Rightarrow> (InvalidSharedMemory, s, os)
      | None \<Rightarrow>
        (case SharedMemoryRegion_openReadWrite (qd_shm_name descriptor) (qd_segment_size descriptor)
                env os of
           (Inl (ShmSystemError errno), os) \<Rightarrow>
             (if errno = ENOENT then Ok else SharedMemoryError, s, os)
         | (Inl (ShmInvalidArgument _), os) \<Rightarrow> (InvalidSharedMemory, s, os)
         | (Inr region, os) \<Rightarrow>
           let os = snd (SharedMemoryRegion_cleanup region env os) in
           if \<not> immutableHeaderMatches (qs_header s) descriptor then (InvalidSharedMemory, s, os)
           else
             let (locked, s) = PthreadLock lenv s in
             if \<not> locked then (SharedMemoryError, s, os)
             else
               (Ok, wake CondBroadcast (modifyHeader (\<lambda>h. h\<lparr>qh_head := 0, qh_tail := 0,
                      qh_size := 0, qh_closed := 1, qh_peer_resets := qh_peer_resets h + 1\<rparr>) s),
                os)))"

definition queue_abandonMutexForTesting :: "bool \<Rightarrow> int \<Rightarrow> QueueShared \<Rightarrow> bool \<times> QueueShared" where
  "queue_abandonMutexForTesting corrupt_invariants error s =
     (if error \<noteq> 0 then (False, s)
      else if corrupt_invariants
      then (True, modifyHeader (\<lambda>h. h\<lparr>qh_head := qh_capacity h, qh_tail := qh_capacity h,
              qh_size := qh_capacity h\<rparr>) s)
      else (True, s))"

definition headerStats :: "SubscriberQueueHeader \<Rightarrow> QueueStats" where
  "headerStats h =
     \<lparr>qst_enqueued = qh_enqueued h, qst_dequeued = qh_dequeued h,
      qst_dropped_newest = qh_dropped_newest h, qst_dropped_oldest = qh_dropped_oldest h,
      qst_block_timeouts = qh_block_timeouts h, qst_blocked_count = qh_blocked_count h,
      qst_blocked_time_ns = qh_blocked_time_ns h,
      qst_owner_death_recoveries = qh_owner_death_recoveries h,
      qst_peer_resets = qh_peer_resets h, qst_current_size = qh_size h,
      qst_max_size = qh_max_size h\<rparr>"

definition queue_stats :: "LockEnv \<Rightarrow> QueueShared \<Rightarrow> QueueStats \<times> QueueShared" where
  "queue_stats lenv s =
     (let (locked, s) = PthreadLock lenv s in
      if \<not> locked then (headerStats zeroQueueHeader, s)
      else (headerStats (qs_header s), s))"

definition queue_close :: "SharedSubscriberQueue \<Rightarrow> LockEnv \<Rightarrow> QueueShared \<Rightarrow> QueueShared" where
  "queue_close q lenv s =
     (if \<not> sq_attached q then s
      else
        let (locked, s) = PthreadLock lenv s in
        if \<not> locked then s
        else wake CondBroadcast (modifyHeader (\<lambda>h. h\<lparr>qh_closed := 1\<rparr>) s))"

definition queue_detach ::
  "SharedSubscriberQueue \<Rightarrow> LockEnv \<Rightarrow> QueueShared \<Rightarrow> SharedSubscriberQueue \<times> QueueShared" where
  "queue_detach q lenv s =
     (if \<not> sq_attached q then (q, s)
      else
        let (locked, s) = PthreadLock lenv s in
        if \<not> locked \<or> qh_attachment_count (qs_header s) = 0 then (q\<lparr>sq_attached := False\<rparr>, s)
        else
          let s = modifyHeader (\<lambda>h. h\<lparr>qh_attachment_count := qh_attachment_count h - 1\<rparr>) s;
              last_attachment = (qh_attachment_count (qs_header s) = 0) in
          (q\<lparr>sq_attached := False\<rparr>,
           if last_attachment then s\<lparr>qs_alive := False\<rparr> else s))"

text \<open>The destructor: the owner closes the queue first; the region is released afterwards.\<close>

definition queue_destroy ::
  "SharedSubscriberQueue \<Rightarrow> LockEnv \<Rightarrow> LockEnv \<Rightarrow> ShmEnv \<Rightarrow> QueueShared \<Rightarrow> ShmOs \<Rightarrow> QueueShared \<times> ShmOs" where
  "queue_destroy q close_lenv detach_lenv env s os =
     (let s = (if sq_owner q then queue_close q close_lenv s else s);
          (q, s) = queue_detach q detach_lenv s
      in (s, snd (SharedMemoryRegion_cleanup (sq_region q) env os)))"

end
