(* ===== verification/MW_Queue_Refinement.thy ===== *)
theory MW_Queue_Refinement
  imports MW_Subscriber_Queue "HOL-Library.Multiset" "HOL-Library.Sublist"
begin

text \<open>
  The ring buffer of \<open>SharedSubscriberQueue\<close> implements a bounded first-in first-out list:
  \<open>queue_list\<close> reads the list off the segment, \<open>ring_ok\<close> is the invariant, and each operation is
  shown to act on the list as its contract says.  The interface \<open>bounded_fifo\<close> is what a publisher
  and a subscriber rely on.
\<close>

section \<open>Slices of a ring\<close>

definition ring_slice :: "'a list \<Rightarrow> nat \<Rightarrow> nat \<Rightarrow> nat \<Rightarrow> 'a list" where
  "ring_slice xs c start n = map (\<lambda>k. xs ! ((start + k) mod c)) [0..<n]"

lemma length_ring_slice [simp]: "length (ring_slice xs c start n) = n"
  by (simp add: ring_slice_def)

lemma ring_slice_0 [simp]: "ring_slice xs c start 0 = []"
  by (simp add: ring_slice_def)

lemma ring_slice_Cons:
  "ring_slice xs c start (Suc n) = xs ! (start mod c) # ring_slice xs c ((start + 1) mod c) n"
proof -
  have "(Suc (start + k)) mod c = ((start + 1) mod c + k) mod c" for k
    by (simp add: mod_add_left_eq)
  then show ?thesis
    by (simp add: ring_slice_def upt_conv_Cons map_Suc_upt [symmetric] del: upt_Suc)
qed

lemma ring_slice_snoc: "ring_slice xs c start (Suc n) = ring_slice xs c start n @ [xs ! ((start + n) mod c)]"
  by (simp add: ring_slice_def)

lemma ring_position_inj:
  fixes c :: nat
  assumes "(start + j) mod c = (start + k) mod c" "j < c" "k < c"
  shows "j = k"
proof -
  have "c dvd (start + k) - (start + j)" if "j \<le> k"
    using assms(1) that mod_eq_dvd_iff_nat [of "start + j" "start + k" c] by simp
  moreover have "c dvd (start + j) - (start + k)" if "k \<le> j"
    using assms(1) that mod_eq_dvd_iff_nat [of "start + k" "start + j" c] by simp
  ultimately show ?thesis using assms(2,3) by (cases j k rule: le_cases) (auto dest: dvd_imp_le)
qed

lemma ring_slice_update:
  assumes "n \<le> j" "j < c" "length xs = c"
  shows "ring_slice (xs[(start + j) mod c := v]) c start n = ring_slice xs c start n"
proof -
  have "(start + j) mod c \<noteq> (start + k) mod c" if "k < n" for k
    using ring_position_inj [of start j c k] assms that by auto
  then show ?thesis by (simp add: ring_slice_def)
qed

lemma ring_slice_push:
  assumes "n < c" "length xs = c"
  shows "ring_slice (xs[(start + n) mod c := v]) c start (Suc n) = ring_slice xs c start n @ [v]"
  using assms by (simp add: ring_slice_snoc ring_slice_update)

section \<open>The invariant and the abstraction\<close>

definition header_ok :: "SubscriberQueueHeader \<Rightarrow> bool" where
  "header_ok h \<longleftrightarrow>
     0 < unat (qh_capacity h) \<and> unat (qh_capacity h) \<le> 65536 \<and>
     unat (qh_head h) < unat (qh_capacity h) \<and> unat (qh_size h) \<le> unat (qh_capacity h) \<and>
     unat (qh_tail h) = (unat (qh_head h) + unat (qh_size h)) mod unat (qh_capacity h) \<and>
     unat (qh_size h) \<le> unat (qh_max_size h) \<and> unat (qh_max_size h) \<le> unat (qh_capacity h)"

definition ring_ok :: "QueueShared \<Rightarrow> bool" where
  "ring_ok s \<longleftrightarrow> header_ok (qs_header s) \<and> length (qs_slots s) = unat (qh_capacity (qs_header s))"

definition queue_list :: "QueueShared \<Rightarrow> ChunkHandle list" where
  "queue_list s = ring_slice (qs_slots s) (unat (qh_capacity (qs_header s)))
     (unat (qh_head (qs_header s))) (unat (qh_size (qs_header s)))"

abbreviation queue_capacity :: "QueueShared \<Rightarrow> nat" where
  "queue_capacity s \<equiv> unat (qh_capacity (qs_header s))"

lemma length_queue_list [simp]: "length (queue_list s) = unat (qh_size (qs_header s))"
  by (simp add: queue_list_def)

lemma queue_list_empty: "queue_list s = [] \<longleftrightarrow> qh_size (qs_header s) = 0"
  by (metis length_0_conv length_queue_list unat_eq_zero)

lemma ring_sum_mod:
  fixes x y c :: u32
  assumes "unat x < 65536" "unat y \<le> 65536"
  shows "unat ((x + y) mod c) = (unat x + unat y) mod unat c"
proof -
  have "unat (x + y) = unat x + unat y" using assms by (intro unat_add_no_wrap) simp
  then show ?thesis by (simp add: unat_mod)
qed

lemma ring_next:
  fixes x c :: u32
  assumes "unat x < 65536"
  shows "unat ((x + 1) mod c) = (unat x + 1) mod unat c"
  using ring_sum_mod [OF assms, of 1 c] by simp

lemma u32_succ:
  fixes x :: u32
  assumes "unat x < 65536"
  shows "unat (x + 1) = Suc (unat x)"
  using unat_add_no_wrap [of x 1] assms by simp

lemma ring_back:
  fixes x c :: u32
  assumes "unat x < unat c" "unat c \<le> 65536"
  shows "(if (x + 1) mod c = 0 then c - 1 else (x + 1) mod c - 1) = x"
proof (cases "unat x + 1 = unat c")
  case True
  have "unat (x + 1) = unat x + 1" using u32_succ [of x] assms by simp
  then have "x + 1 = c" using True by (simp add: word_unat_eq_iff)
  then show ?thesis by auto
next
  case False
  have eq: "unat (x + 1) = unat x + 1" using u32_succ [of x] assms by simp
  then have "x + 1 < c" using False assms(1) by (simp add: word_less_nat_alt)
  then have "(x + 1) mod c = x + 1" by (rule mod_word_less)
  moreover have "x + 1 \<noteq> 0" using eq by (metis add_is_0 unat_0 zero_neq_one)
  ultimately show ?thesis by simp
qed

text \<open>Every lemma below only looks at the ring fields of the header.\<close>

lemma ring_ok_cong:
  assumes "qh_capacity (qs_header s') = qh_capacity (qs_header s)"
    "qh_head (qs_header s') = qh_head (qs_header s)" "qh_tail (qs_header s') = qh_tail (qs_header s)"
    "qh_size (qs_header s') = qh_size (qs_header s)"
    "qh_max_size (qs_header s') = qh_max_size (qs_header s)" "qs_slots s' = qs_slots s"
  shows "ring_ok s' = ring_ok s" "queue_list s' = queue_list s"
  using assms by (simp_all add: ring_ok_def header_ok_def queue_list_def)

lemma ring_ok_wake [simp]: "ring_ok (wake c s) = ring_ok s" "queue_list (wake c s) = queue_list s"
  "qs_header (wake c s) = qs_header s" "qs_slots (wake c s) = qs_slots s"
  by (simp_all add: wake_def ring_ok_def queue_list_def)

lemma pop_ring:
  assumes ok: "ring_ok s" and ne: "qh_size (qs_header s) \<noteq> 0"
  shows "ring_ok (modifyHeader popHead s)" "queue_list s = headSlot s # queue_list (modifyHeader popHead s)"
proof -
  let ?h = "qs_header s"
  have h: "header_ok ?h" and len: "length (qs_slots s) = unat (qh_capacity ?h)"
    using ok by (simp_all add: ring_ok_def)
  have "unat (qh_head ?h) < 65536" using h by (simp add: header_ok_def)
  note head = ring_next [OF this, of "qh_capacity ?h"]
  obtain n where n: "unat (qh_size ?h) = Suc n"
    using ne by (metis not0_implies_Suc unat_eq_zero)
  have size: "unat (qh_size ?h - 1) = n" using unat_minus_one [OF ne] n by simp
  have "(unat (qh_head ?h) + Suc n) mod unat (qh_capacity ?h) =
      ((unat (qh_head ?h) + 1) mod unat (qh_capacity ?h) + n) mod unat (qh_capacity ?h)"
    by (simp add: mod_add_left_eq)
  then show "ring_ok (modifyHeader popHead s)"
    using h len head size n by (simp add: ring_ok_def header_ok_def popHead_def)
  show "queue_list s = headSlot s # queue_list (modifyHeader popHead s)"
    using h head size n by (simp add: queue_list_def popHead_def ring_slice_Cons header_ok_def)
qed

lemma push_ring:
  assumes ok: "ring_ok s" and room: "qh_size (qs_header s) \<noteq> qh_capacity (qs_header s)"
  shows "ring_ok (pushSlot handle s)" "queue_list (pushSlot handle s) = queue_list s @ [handle]"
    "ring_ok (undoPush (pushSlot handle s))" "queue_list (undoPush (pushSlot handle s)) = queue_list s"
proof -
  let ?h = "qs_header s"
  have h: "header_ok ?h" and len: "length (qs_slots s) = unat (qh_capacity ?h)"
    using ok by (simp_all add: ring_ok_def)
  have lt: "unat (qh_size ?h) < unat (qh_capacity ?h)"
    using h room by (auto simp: header_ok_def word_unat_eq_iff)
  have t: "unat (qh_tail ?h) = (unat (qh_head ?h) + unat (qh_size ?h)) mod unat (qh_capacity ?h)"
    using h by (simp add: header_ok_def)
  have tail_lt: "unat (qh_tail ?h) < unat (qh_capacity ?h)" unfolding t using h by (simp add: header_ok_def)
  then have "unat (qh_tail ?h) < 65536" by (rule less_le_trans) (use h in \<open>simp add: header_ok_def\<close>)
  note tail = ring_next [OF this, of "qh_capacity ?h"]
  have size: "unat (qh_size ?h + 1) = Suc (unat (qh_size ?h))"
    using lt h by (intro u32_succ) (auto simp: header_ok_def)
  have tail': "unat ((qh_tail ?h + 1) mod qh_capacity ?h) =
      (unat (qh_head ?h) + Suc (unat (qh_size ?h))) mod unat (qh_capacity ?h)"
    unfolding tail t by (simp add: mod_Suc_eq)
  have max: "unat (max (qh_max_size ?h) (qh_size ?h + 1)) \<le> unat (qh_capacity ?h)"
    "unat (qh_size ?h + 1) \<le> unat (max (qh_max_size ?h) (qh_size ?h + 1))"
    "unat (qh_size ?h) \<le> unat (max (qh_max_size ?h) (qh_size ?h + 1))"
    using h lt size by (auto simp: max_def header_ok_def word_le_nat_alt)
  show "ring_ok (pushSlot handle s)"
    using h len lt tail' size max by (simp add: ring_ok_def header_ok_def pushSlot_def Let_def)
  show "queue_list (pushSlot handle s) = queue_list s @ [handle]"
    using ring_slice_push [OF lt len, of "unat (qh_head ?h)" handle] size t
    by (simp add: queue_list_def pushSlot_def Let_def)
  have undo: "(if (qh_tail ?h + 1) mod qh_capacity ?h = 0 then qh_capacity ?h - 1
      else (qh_tail ?h + 1) mod qh_capacity ?h - 1) = qh_tail ?h"
    using ring_back [OF tail_lt] h by (simp add: header_ok_def)
  have hdr: "qs_header (undoPush (pushSlot handle s)) = ?h\<lparr>qh_max_size := max (qh_max_size ?h) (qh_size ?h + 1)\<rparr>"
    using undo by (cases "(qh_tail ?h + 1) mod qh_capacity ?h = 0")
      (simp_all add: undoPush_def pushSlot_def Let_def)
  have "length (qs_slots (undoPush (pushSlot handle s))) = length (qs_slots s)"
    by (simp add: undoPush_def pushSlot_def Let_def)
  then show "ring_ok (undoPush (pushSlot handle s))"
    using h len max(1,3) by (simp add: ring_ok_def header_ok_def hdr)
  show "queue_list (undoPush (pushSlot handle s)) = queue_list s"
    using ring_slice_update [OF order_refl lt len, of "unat (qh_head ?h)" handle] t
    by (simp add: queue_list_def undoPush_def pushSlot_def Let_def)
qed

section \<open>Locking and draining\<close>

lemma reset_ring:
  assumes "ring_ok s"
  shows "ring_ok (resetRingAfterOwnerDeath s)" "queue_list (resetRingAfterOwnerDeath s) = []"
  using assms by (simp_all add: resetRingAfterOwnerDeath_def ring_ok_def header_ok_def queue_list_def)

lemma lock_ring:
  assumes "ring_ok s" "PthreadLock lenv s = (locked, s')"
  shows "ring_ok s'" "queue_list s' = (if le_lock lenv = EOWNERDEAD then [] else queue_list s)"
    "le_lock lenv \<noteq> EOWNERDEAD \<Longrightarrow> s' = s"
    "locked \<longleftrightarrow> le_lock lenv = 0 \<or> le_lock lenv = EOWNERDEAD \<and> le_consistent lenv = 0"
  using assms reset_ring [OF assms(1)]
  by (auto simp: PthreadLock_def makeMutexConsistentAfterOwnerDeath_def EOWNERDEAD_def split: if_splits)

lemma drainLoop_ring:
  assumes "ring_ok s" "drainLoop handles s = (hs, s')"
  shows "hs = handles @ queue_list s \<and> ring_ok s' \<and> queue_list s' = [] \<and>
    qh_closed (qs_header s') = qh_closed (qs_header s) \<and> qs_wakes s' = qs_wakes s"
  using assms
proof (induction handles s arbitrary: hs s' rule: drainLoop.induct)
  case (1 handles s)
  show ?case
  proof (cases "qh_size (qs_header s) = 0")
    case True
    then show ?thesis using 1(2,3) by (simp add: drainLoop.simps [of handles s] queue_list_empty)
  next
    case False
    note pop = pop_ring [OF 1(2) False]
    have "drainLoop (handles @ [headSlot s]) (modifyHeader popHead s) = (hs, s')"
      using 1(3) False by (simp add: drainLoop.simps [of handles s])
    from 1(1) [OF False pop(1) this] show ?thesis
      using pop(2) by (simp add: popHead_def)
  qed
qed

lemma drainAll_ring:
  assumes "ring_ok s" "drainAll s = (hs, s')"
  shows "hs = queue_list s" "ring_ok s'" "queue_list s' = []"
    "qh_closed (qs_header s') = qh_closed (qs_header s)" "qs_wakes s' = qs_wakes s @ [CondBroadcast]"
proof -
  obtain s1 where s1: "drainLoop [] s = (hs, s1)"
    "s' = wake CondBroadcast (modifyHeader (\<lambda>h. h\<lparr>qh_tail := qh_head h\<rparr>) s1)"
    using assms(2) by (auto simp: drainAll_def Let_def split: prod.splits)
  note d = drainLoop_ring [OF assms(1) s1(1)]
  have "qh_head (qs_header s1) = qh_tail (qs_header s1)"
    using d by (simp add: ring_ok_def header_ok_def queue_list_empty word_unat_eq_iff)
  then have "s' = wake CondBroadcast s1" using s1(2) by simp
  then show "hs = queue_list s" "ring_ok s'" "queue_list s' = []"
    "qh_closed (qs_header s') = qh_closed (qs_header s)" "qs_wakes s' = qs_wakes s @ [CondBroadcast]"
    using d by (simp_all) (simp add: wake_def)
qed

section \<open>Discarding\<close>

definition keeps :: "u64 \<Rightarrow> ChunkHandle \<Rightarrow> bool" where
  "keeps pool_id handle \<longleftrightarrow> pool_id \<noteq> 0 \<and> ch_pool_id handle \<noteq> pool_id"

lemma discardLoop_ring:
  fixes capacity head :: u32
  defines "c \<equiv> unat capacity" and "st \<equiv> unat head"
  assumes "0 < c" "c \<le> 65536" "st < c" "length slots = c" "unat kept \<le> unat index"
    "unat index + n \<le> c" "discardLoop n pool_id capacity head index kept slots = (kept', slots')"
  shows "length slots' = c \<and> unat kept' \<le> unat index + n \<and>
    ring_slice slots' c st (unat kept') = ring_slice slots c st (unat kept) @
      filter (keeps pool_id) (map (\<lambda>k. slots ! ((st + k) mod c)) [unat index..<unat index + n])"
  using assms(5-)
proof (induction n arbitrary: index kept slots)
  case 0
  then show ?case by simp
next
  case (Suc n)
  define handle where "handle = slots ! ((st + unat index) mod c)"
  have lt: "st < 65536" "unat index < 65536" "unat kept < 65536"
    using Suc.prems assms(4) by linarith+
  have pos: "unat ((head + index) mod capacity) = (st + unat index) mod c"
    "unat ((head + kept) mod capacity) = (st + unat kept) mod c"
    using lt by (simp_all add: ring_sum_mod c_def st_def)
  have idx: "unat (index + 1) = Suc (unat index)" "unat (kept + 1) = Suc (unat kept)"
    using lt by (simp_all add: u32_succ)
  have upt: "[unat index..<unat index + Suc n] = unat index # [Suc (unat index)..<Suc (unat index) + n]"
    by (simp add: upt_conv_Cons)
  show ?case
  proof (cases "keeps pool_id handle")
    case True
    define slots1 where "slots1 = slots[(st + unat kept) mod c := handle]"
    have run: "discardLoop n pool_id capacity head (index + 1) (kept + 1) slots1 = (kept', slots')"
      using Suc.prems(5) True
      by (simp add: pos handle_def [symmetric] keeps_def slots1_def Let_def)
    have front: "ring_slice slots1 c st (Suc (unat kept)) = ring_slice slots c st (unat kept) @ [handle]"
      unfolding slots1_def using Suc.prems(2-4) by (intro ring_slice_push) linarith+
    have same: "slots1 ! ((st + k) mod c) = slots ! ((st + k) mod c)"
      if "k \<in> set [Suc (unat index)..<Suc (unat index) + n]" for k
    proof -
      have "(st + unat kept) mod c \<noteq> (st + k) mod c"
        using that ring_position_inj [of st "unat kept" c k] Suc.prems(3,4) by auto
      then show ?thesis by (simp add: slots1_def)
    qed
    have "length slots1 = c" using Suc.prems(2) by (simp add: slots1_def)
    from Suc.IH [OF Suc.prems(1) this _ _ run] Suc.prems(3,4)
    have IH: "length slots' = c" "unat kept' \<le> Suc (unat index) + n"
      "ring_slice slots' c st (unat kept') = ring_slice slots1 c st (Suc (unat kept)) @
         filter (keeps pool_id) (map (\<lambda>k. slots1 ! ((st + k) mod c)) [Suc (unat index)..<Suc (unat index) + n])"
      by (simp_all add: idx)
    have eq: "map (\<lambda>k. slots1 ! ((st + k) mod c)) [Suc (unat index)..<Suc (unat index) + n] =
        map (\<lambda>k. slots ! ((st + k) mod c)) [Suc (unat index)..<Suc (unat index) + n]"
      using same by (rule map_cong [OF refl])
    show ?thesis
      using IH(1,2) True unfolding upt IH(3) front eq by (simp add: handle_def [symmetric] del: upt_Suc)
  next
    case False
    have run: "discardLoop n pool_id capacity head (index + 1) kept slots = (kept', slots')"
      using Suc.prems(5) False by (auto simp: pos handle_def [symmetric] keeps_def Let_def)
    show ?thesis
      using Suc.IH [OF Suc.prems(1,2) _ _ run] Suc.prems(3,4) False
      unfolding upt by (simp add: idx handle_def [symmetric])
  qed
qed

lemma discard_ring:
  fixes pool_id :: u64
  assumes ok: "ring_ok s" and lock: "PthreadLock lenv s = (True, s1)"
  defines "s' \<equiv> queue_discardPool pool_id lenv s"
  shows "ring_ok s'" "queue_list s' = filter (keeps pool_id) (queue_list s1)"
    "qs_wakes s' = qs_wakes s1 @ [CondBroadcast]" "qh_closed (qs_header s') = qh_closed (qs_header s1)"
proof -
  have ok1: "ring_ok s1" using lock_ring(1) [OF ok lock] .
  let ?h = "qs_header s1"
  obtain kept slots where loop: "discardLoop (unat (qh_size ?h)) pool_id (qh_capacity ?h) (qh_head ?h) 0 0
      (qs_slots s1) = (kept, slots)"
    by (metis surj_pair)
  have h: "header_ok ?h" "length (qs_slots s1) = unat (qh_capacity ?h)"
    using ok1 by (simp_all add: ring_ok_def)
  have r: "length slots = unat (qh_capacity ?h)" "unat kept \<le> unat (qh_size ?h)"
    "ring_slice slots (unat (qh_capacity ?h)) (unat (qh_head ?h)) (unat kept) =
       filter (keeps pool_id) (queue_list s1)"
    using discardLoop_ring [OF _ _ _ h(2) _ _ loop] h(1)
    by (simp_all add: header_ok_def queue_list_def ring_slice_def)
  have s': "s' = wake CondBroadcast (s1\<lparr>qs_slots := slots,
      qs_header := ?h\<lparr>qh_tail := (qh_head ?h + kept) mod qh_capacity ?h, qh_size := kept,
        qh_peer_resets := qh_peer_resets ?h + 1\<rparr>\<rparr>)"
    by (simp add: s'_def queue_discardPool_def lock loop Let_def)
  have "unat ((qh_head ?h + kept) mod qh_capacity ?h) =
      (unat (qh_head ?h) + unat kept) mod unat (qh_capacity ?h)"
    using h(1) r(2) by (intro ring_sum_mod) (auto simp: header_ok_def)
  then show "ring_ok s'" using h(1) r(1,2) by (auto simp: s' ring_ok_def header_ok_def)
  show "queue_list s' = filter (keeps pool_id) (queue_list s1)" using r(3) by (simp add: s' queue_list_def)
  show "qs_wakes s' = qs_wakes s1 @ [CondBroadcast]" "qh_closed (qs_header s') = qh_closed ?h"
    by (simp_all add: s' wake_def)
qed

section \<open>Enqueue\<close>

lemma ring_full: "ring_ok s \<Longrightarrow> qh_size (qs_header s) = qh_capacity (qs_header s) \<longleftrightarrow>
    length (queue_list s) = queue_capacity s"
  by (simp add: word_unat_eq_iff)

lemma finishEnqueue_ring:
  assumes ok: "ring_ok s" and room: "qh_size (qs_header s) \<noteq> qh_capacity (qs_header s)"
    and fin: "finishEnqueue handle notify needs dropped blocked ns s = (r, s')"
  shows "ring_ok s'" "qs_wakes s' = qs_wakes s" "qh_closed (qs_header s') = qh_closed (qs_header s)"
    "if needs \<and> notify = Some False
     then er_status r = NotificationFailed \<and> er_dropped_oldest r = None \<and> queue_list s' = queue_list s
     else er_status r = Accepted \<and> er_dropped_oldest r = dropped \<and>
       queue_list s' = queue_list s @ [handle]"
  using fin push_ring [OF ok room, of handle]
  by (auto simp: finishEnqueue_def Let_def enqueueResult_def pushSlot_def undoPush_def split: if_splits)

lemma drop_oldest_ring:
  assumes ok: "ring_ok s" and full: "qh_size (qs_header s) = qh_capacity (qs_header s)"
  defines "s1 \<equiv> modifyHeader (\<lambda>h. (popHead h)\<lparr>qh_dropped_oldest := qh_dropped_oldest h + 1\<rparr>) s"
  shows "ring_ok s1" "queue_list s = headSlot s # queue_list s1" "qh_closed (qs_header s1) = qh_closed (qs_header s)"
    "qh_size (qs_header s1) \<noteq> qh_capacity (qs_header s1)"
proof -
  have ne: "qh_size (qs_header s) \<noteq> 0" using ok full by (auto simp: ring_ok_def header_ok_def)
  have eq: "ring_ok s1 = ring_ok (modifyHeader popHead s)" "queue_list s1 = queue_list (modifyHeader popHead s)"
    by (rule ring_ok_cong; simp add: s1_def popHead_def)+
  then show "ring_ok s1" "queue_list s = headSlot s # queue_list s1"
    using pop_ring [OF ok ne] by simp_all
  show "qh_closed (qs_header s1) = qh_closed (qs_header s)"
    "qh_size (qs_header s1) \<noteq> qh_capacity (qs_header s1)"
    by (simp_all add: s1_def popHead_def full)
qed

text \<open>The contract of \<open>enqueue\<close> on lists, where no waiting is involved.\<close>

fun fifo_enqueue ::
  "OverflowPolicy \<Rightarrow> nat \<Rightarrow> bool option \<Rightarrow> 'h \<Rightarrow> 'h list \<Rightarrow> QueueEnqueueStatus \<times> 'h option \<times> 'h list" where
  "fifo_enqueue policy capacity notify h xs =
     (if length xs < capacity
      then if xs = [] \<and> notify = Some False then (NotificationFailed, None, xs)
           else (Accepted, None, xs @ [h])
      else if policy = DropNewest then (DroppedNewest, None, xs)
      else (Accepted, Some (hd xs), tl xs @ [h]))"

lemma enqueue_refines:
  assumes ok: "ring_ok s" and lock: "le_lock (en_lock env) = 0" and op: "qh_closed (qs_header s) = 0"
    and nowait: "overflowPolicyCastOf (qh_overflow_policy (qs_header s)) \<in> {DropNewest, DropOldest} \<or>
      length (queue_list s) < queue_capacity s"
  shows "\<exists>r s'. queue_enqueue handle env s = Some (r, s') \<and> ring_ok s' \<and> qs_wakes s' = qs_wakes s \<and>
    (er_status r, er_dropped_oldest r, queue_list s') =
      fifo_enqueue (overflowPolicyCastOf (qh_overflow_policy (qs_header s))) (queue_capacity s)
        (en_notify env) handle (queue_list s)"
proof -
  have l: "PthreadLock (en_lock env) s = (True, s)" using lock by (simp add: PthreadLock_def)
  show ?thesis
  proof (cases "qh_size (qs_header s) = qh_capacity (qs_header s)")
    case False
    then have lt: "unat (qh_size (qs_header s)) < queue_capacity s"
      using ok by (auto simp: ring_ok_def header_ok_def word_unat_eq_iff)
    obtain r s' where fin: "finishEnqueue handle (en_notify env) (qh_size (qs_header s) = 0) None False 0 s = (r, s')"
      by (metis surj_pair)
    note f = finishEnqueue_ring [OF ok False fin]
    have "queue_enqueue handle env s = Some (r, s')"
      using op False fin by (simp add: queue_enqueue_def l Let_def)
    then show ?thesis
      using f lt by (auto simp: queue_list_empty split: if_splits)
  next
    case True
    then have full: "length (queue_list s) = queue_capacity s" by simp
    note d = drop_oldest_ring [OF ok True]
    show ?thesis
    proof (cases "overflowPolicyCastOf (qh_overflow_policy (qs_header s)) = DropNewest")
      case newest: True
      have "ring_ok (modifyHeader (\<lambda>h. h\<lparr>qh_dropped_newest := qh_dropped_newest h + 1\<rparr>) s)"
        "queue_list (modifyHeader (\<lambda>h. h\<lparr>qh_dropped_newest := qh_dropped_newest h + 1\<rparr>) s) = queue_list s"
        using ok ring_ok_cong [of "modifyHeader (\<lambda>h. h\<lparr>qh_dropped_newest := qh_dropped_newest h + 1\<rparr>) s" s]
        by simp_all
      then show ?thesis
        using op True newest full by (simp add: queue_enqueue_def l Let_def enqueueResult_def)
    next
      case False
      then have oldest: "overflowPolicyCastOf (qh_overflow_policy (qs_header s)) = DropOldest"
        using nowait full by auto
      obtain r s' where fin: "finishEnqueue handle (en_notify env) False (Some (headSlot s)) False 0
          (modifyHeader (\<lambda>h. (popHead h)\<lparr>qh_dropped_oldest := qh_dropped_oldest h + 1\<rparr>) s) = (r, s')"
        by (metis surj_pair)
      note f = finishEnqueue_ring [OF d(1,4) fin]
      have "queue_enqueue handle env s = Some (r, s')"
        using op True oldest fin by (simp add: queue_enqueue_def l Let_def)
      then show ?thesis using f d(2) full oldest by auto
    qed
  qed
qed

section \<open>Waiting for room\<close>

lemma recover_ring:
  assumes "ring_ok s" "recoverConditionWaitOwnerDeath consistent error s = (b, s')"
  shows "ring_ok s'"
  using assms reset_ring(1) [OF assms(1)]
  by (auto simp: recoverConditionWaitOwnerDeath_def makeMutexConsistentAfterOwnerDeath_def split: if_splits)

lemma enqueueWait_returns:
  "\<exists>e \<in> set events. wt_error e = ETIMEDOUT \<Longrightarrow> \<exists>y. enqueueWait events s = Some y"
proof (induction events arbitrary: s)
  case (Cons e events)
  then show ?case
    by (subst enqueueWait.simps) (auto simp: Let_def split: prod.splits if_splits)
qed simp

section \<open>The operations of the other processes\<close>

text \<open>The calls that run as one critical section; only a publisher's \<open>enqueue\<close> may wait inside.\<close>

datatype QueueOp =
  QDequeue LockEnv
| QPeek LockEnv
| QDrain LockEnv
| QCloseAndDrain LockEnv
| QDiscardPool u64 LockEnv
| QStats LockEnv
| QOpen QueueDescriptor LockEnv ShmEnv ShmOs
| QClose SharedSubscriberQueue LockEnv
| QDetach SharedSubscriberQueue LockEnv
| QRecoverAndClose QueueDescriptor LockEnv ShmEnv ShmOs

fun queue_op :: "QueueOp \<Rightarrow> QueueShared \<Rightarrow> QueueShared" where
  "queue_op (QDequeue l) s = snd (queue_tryDequeue l s)"
| "queue_op (QPeek l) s = snd (queue_peek l s)"
| "queue_op (QDrain l) s = snd (queue_drain l s)"
| "queue_op (QCloseAndDrain l) s = snd (queue_closeAndDrain l s)"
| "queue_op (QDiscardPool pool_id l) s = queue_discardPool pool_id l s"
| "queue_op (QStats l) s = snd (queue_stats l s)"
| "queue_op (QOpen d l env os) s = fst (snd (SharedSubscriberQueue_open d l env s os))"
| "queue_op (QClose q l) s = queue_close q l s"
| "queue_op (QDetach q l) s = snd (queue_detach q l s)"
| "queue_op (QRecoverAndClose d l env os) s = fst (snd (queue_recoverAndClose d l env s os))"

definition fixed_part ::
  "SubscriberQueueHeader \<Rightarrow> u32 \<times> u16 \<times> u16 \<times> u64 \<times> u64 \<times> u32 \<times> u16 \<times> u64" where
  "fixed_part h = (qh_magic h, qh_version h, qh_header_size h, qh_segment_size h, qh_queue_id h,
     qh_capacity h, qh_overflow_policy h, qh_block_timeout_ms h)"

text \<open>
  What a critical section may do to the segment: keep the ring well formed and the immutable part
  of the header as it is, and wake the waiting publisher whenever the list gets shorter or the
  queue is closed.
\<close>

definition guarded :: "QueueShared \<Rightarrow> QueueShared \<Rightarrow> bool" where
  "guarded s s' \<longleftrightarrow> ring_ok s' \<and> fixed_part (qs_header s') = fixed_part (qs_header s) \<and>
     length (qs_wakes s) \<le> length (qs_wakes s') \<and>
     (length (queue_list s') < length (queue_list s) \<or>
      qh_closed (qs_header s) = 0 \<and> qh_closed (qs_header s') \<noteq> 0 \<longrightarrow>
      length (qs_wakes s) < length (qs_wakes s')) \<and>
     (qh_closed (qs_header s) \<noteq> 0 \<longrightarrow> qh_closed (qs_header s') \<noteq> 0)"

lemma guarded_refl: "ring_ok s \<Longrightarrow> guarded s s"
  by (simp add: guarded_def)

lemma guarded_trans: "guarded s t \<Longrightarrow> guarded t u \<Longrightarrow> guarded s u"
  by (auto simp: guarded_def)

lemma fixed_wake [simp]: "fixed_part (qs_header (wake c s)) = fixed_part (qs_header s)"
  by (simp add: wake_def)

lemma guarded_lock:
  assumes "ring_ok s" "PthreadLock lenv s = (locked, s')"
  shows "guarded s s'"
proof -
  have "guarded s (resetRingAfterOwnerDeath s)"
    using reset_ring [OF assms(1)]
    by (simp add: guarded_def resetRingAfterOwnerDeath_def fixed_part_def wake_def)
  then show ?thesis
    using assms guarded_refl [OF assms(1)]
    by (auto simp: PthreadLock_def makeMutexConsistentAfterOwnerDeath_def split: if_splits)
qed

text \<open>A change of header fields that are not part of the ring.\<close>

lemma guarded_fields:
  assumes "ring_ok s" "qh_head (qs_header s') = qh_head (qs_header s)"
    "qh_tail (qs_header s') = qh_tail (qs_header s)" "qh_size (qs_header s') = qh_size (qs_header s)"
    "qh_max_size (qs_header s') = qh_max_size (qs_header s)" "qs_slots s' = qs_slots s"
    "fixed_part (qs_header s') = fixed_part (qs_header s)"
    "length (qs_wakes s) < length (qs_wakes s') \<or> qs_wakes s' = qs_wakes s \<and>
       qh_closed (qs_header s') = qh_closed (qs_header s)"
    "qh_closed (qs_header s) \<noteq> 0 \<longrightarrow> qh_closed (qs_header s') \<noteq> 0"
  shows "guarded s s'"
  using assms ring_ok_cong [of s' s] by (auto simp: guarded_def fixed_part_def)

lemma guarded_dequeue:
  assumes "ring_ok s"
  shows "guarded s (snd (queue_tryDequeue l s))"
proof -
  obtain locked s1 where l: "PthreadLock l s = (locked, s1)" by (metis surj_pair)
  note g = guarded_lock [OF assms l] and ok = lock_ring(1) [OF assms l]
  show ?thesis
  proof (cases "\<not> locked \<or> qh_size (qs_header s1) = 0")
    case True
    then show ?thesis using g l by (simp add: queue_tryDequeue_def)
  next
    case False
    define s2 where "s2 = modifyHeader (\<lambda>h. (popHead h)\<lparr>qh_dequeued := qh_dequeued h + 1\<rparr>) s1"
    have eq: "ring_ok s2 = ring_ok (modifyHeader popHead s1)"
      by (rule ring_ok_cong; simp add: s2_def popHead_def)
    have "guarded s1 (wake CondSignal s2)"
      using eq pop_ring(1) [OF ok] False
      by (simp add: guarded_def fixed_part_def) (simp add: s2_def popHead_def wake_def)
    then show ?thesis
      using guarded_trans [OF g] l False by (simp add: queue_tryDequeue_def Let_def s2_def)
  qed
qed

lemma drainLoop_fixed:
  "drainLoop handles s = (hs, s') \<Longrightarrow> fixed_part (qs_header s') = fixed_part (qs_header s)"
proof (induction handles s arbitrary: hs s' rule: drainLoop.induct)
  case (1 handles s)
  show ?case
  proof (cases "qh_size (qs_header s) = 0")
    case True
    then show ?thesis using 1(2) by (simp add: drainLoop.simps [of handles s])
  next
    case False
    then have "drainLoop (handles @ [headSlot s]) (modifyHeader popHead s) = (hs, s')"
      using 1(2) by (simp add: drainLoop.simps [of handles s])
    from 1(1) [OF False this] show ?thesis by (simp add: fixed_part_def popHead_def)
  qed
qed

lemma guarded_drainAll:
  assumes "ring_ok s" "drainAll s = (hs, s')"
  shows "guarded s s'"
proof -
  obtain s1 where "drainLoop [] s = (hs, s1)" "fixed_part (qs_header s') = fixed_part (qs_header s1)"
    using assms(2) by (auto simp: drainAll_def Let_def fixed_part_def split: prod.splits)
  then show ?thesis
    using drainAll_ring [OF assms] drainLoop_fixed [of "[]" s hs s1] by (simp add: guarded_def)
qed

lemma guarded_discard:
  assumes "ring_ok s"
  shows "guarded s (queue_discardPool pool_id l s)"
proof -
  obtain locked s1 where l: "PthreadLock l s = (locked, s1)" by (metis surj_pair)
  show ?thesis
  proof (cases locked)
    case True
    have "fixed_part (qs_header (queue_discardPool pool_id l s)) = fixed_part (qs_header s1)"
      using True l by (simp add: queue_discardPool_def Let_def fixed_part_def split: prod.splits)
    then have "guarded s1 (queue_discardPool pool_id l s)"
      using discard_ring [OF assms, of l s1 pool_id] l True by (simp add: guarded_def)
    then show ?thesis using guarded_trans [OF guarded_lock [OF assms l]] by blast
  next
    case False
    then show ?thesis using guarded_lock [OF assms l] l by (simp add: queue_discardPool_def)
  qed
qed

lemma guarded_read:
  assumes "ring_ok s"
  shows "guarded s (snd (queue_peek l s))" "guarded s (snd (queue_stats l s))"
proof -
  obtain locked s1 where l: "PthreadLock l s = (locked, s1)" by (metis surj_pair)
  show "guarded s (snd (queue_peek l s))" "guarded s (snd (queue_stats l s))"
    using guarded_lock [OF assms l] l by (simp_all add: queue_peek_def queue_stats_def)
qed

lemma guarded_drain:
  assumes "ring_ok s"
  shows "guarded s (snd (queue_drain l s))" "guarded s (snd (queue_closeAndDrain l s))"
proof -
  obtain locked s1 where l: "PthreadLock l s = (locked, s1)" by (metis surj_pair)
  note g = guarded_lock [OF assms l] and ok = lock_ring(1) [OF assms l]
  obtain hs s2 where d: "drainAll s1 = (hs, s2)" by (metis surj_pair)
  show "guarded s (snd (queue_drain l s))"
    using guarded_trans [OF g guarded_drainAll [OF ok d]] g l d by (simp add: queue_drain_def)
  define c where "c = modifyHeader (\<lambda>h. h\<lparr>qh_closed := 1\<rparr>) s1"
  obtain hs' s3 where d': "drainAll c = (hs', s3)" by (metis surj_pair)
  have okc: "ring_ok c" "queue_list c = queue_list s1"
    using ok ring_ok_cong [of c s1] by (simp_all add: c_def)
  note r = drainAll_ring [OF okc(1) d']
  have "guarded s1 s3"
    using r okc(2) guarded_drainAll [OF okc(1) d'] by (simp add: guarded_def) (simp add: c_def fixed_part_def)
  then show "guarded s (snd (queue_closeAndDrain l s))"
    using guarded_trans [OF g] g l d' by (simp add: queue_closeAndDrain_def c_def)
qed

lemma guarded_open:
  assumes "ring_ok s"
  shows "guarded s (fst (snd (SharedSubscriberQueue_open d l env s os)))"
proof -
  obtain locked s1 where l: "PthreadLock l s = (locked, s1)" by (metis surj_pair)
  note g = guarded_lock [OF assms l] and ok = lock_ring(1) [OF assms l]
  have "guarded s1 (modifyHeader (\<lambda>h. h\<lparr>qh_attachment_count := qh_attachment_count h + 1\<rparr>) s1)"
    by (rule guarded_fields [OF ok]) (simp_all add: fixed_part_def)
  then show ?thesis
    using g guarded_trans [OF g] guarded_refl [OF assms]
    by (auto simp: SharedSubscriberQueue_open_def Let_def l split: option.splits sum.splits prod.splits)
qed

lemma guarded_close:
  assumes "ring_ok s"
  shows "guarded s (queue_close q l s)"
proof -
  obtain locked s1 where l: "PthreadLock l s = (locked, s1)" by (metis surj_pair)
  note g = guarded_lock [OF assms l] and ok = lock_ring(1) [OF assms l]
  have "guarded s1 (wake CondBroadcast (modifyHeader (\<lambda>h. h\<lparr>qh_closed := 1\<rparr>) s1))"
    by (rule guarded_fields [OF ok]) (simp_all add: fixed_part_def wake_def)
  then show ?thesis
    using g guarded_trans [OF g] guarded_refl [OF assms] by (simp add: queue_close_def l)
qed

lemma guarded_detach:
  assumes "ring_ok s"
  shows "guarded s (snd (queue_detach q l s))"
proof -
  obtain locked s1 where l: "PthreadLock l s = (locked, s1)" by (metis surj_pair)
  note g = guarded_lock [OF assms l] and ok = lock_ring(1) [OF assms l]
  define s2 where "s2 = modifyHeader (\<lambda>h. h\<lparr>qh_attachment_count := qh_attachment_count h - 1\<rparr>) s1"
  have "guarded s1 s2" "guarded s1 (s2\<lparr>qs_alive := False\<rparr>)"
    by (rule guarded_fields [OF ok]; simp add: s2_def fixed_part_def)+
  moreover have "snd (queue_detach q l s) \<in> {s, s1, s2, s2\<lparr>qs_alive := False\<rparr>}"
    by (auto simp: queue_detach_def l Let_def s2_def)
  ultimately show ?thesis
    using g guarded_trans [OF g] guarded_refl [OF assms] by (elim insertE) simp_all
qed

lemma guarded_recover:
  assumes "ring_ok s"
  shows "guarded s (fst (snd (queue_recoverAndClose d l env s os)))"
proof -
  obtain locked s1 where l: "PthreadLock l s = (locked, s1)" by (metis surj_pair)
  note g = guarded_lock [OF assms l] and ok = lock_ring(1) [OF assms l]
  define s2 where "s2 = modifyHeader (\<lambda>h. h\<lparr>qh_head := 0, qh_tail := 0, qh_size := 0,
    qh_closed := 1, qh_peer_resets := qh_peer_resets h + 1\<rparr>) s1"
  have "ring_ok s2" using ok by (simp add: s2_def ring_ok_def header_ok_def)
  then have "guarded s1 (wake CondBroadcast s2)"
    by (simp add: guarded_def) (simp add: s2_def fixed_part_def wake_def)
  then show ?thesis
    using g guarded_trans [OF g] guarded_refl [OF assms] unfolding s2_def
    by (auto simp: queue_recoverAndClose_def Let_def l
        split: option.splits sum.splits prod.splits ShmError.splits)
qed

lemma guarded_op: "ring_ok s \<Longrightarrow> guarded s (queue_op op s)"
  by (cases op) (simp_all add: guarded_dequeue guarded_read guarded_drain guarded_discard guarded_open
      guarded_close guarded_detach guarded_recover)

lemma guarded_ops: "ring_ok s \<Longrightarrow> guarded s (fold queue_op ops s)"
proof (induction ops arbitrary: s)
  case (Cons op ops)
  have "ring_ok (queue_op op s)" using guarded_op [OF Cons.prems] by (simp add: guarded_def)
  from guarded_trans [OF guarded_op [OF Cons.prems] Cons.IH [OF this]] show ?case by simp
qed (simp add: guarded_refl)

section \<open>Runs\<close>

text \<open>While a publisher waits, the other processes run operations on the queue.\<close>

definition rely :: "EnqueueEnv \<Rightarrow> bool" where
  "rely env \<longleftrightarrow> (\<forall>deadline. \<forall>e \<in> set (en_waits env deadline). \<exists>ops. wt_others e = fold queue_op ops)"

datatype QueueStep = QEnqueue ChunkHandle EnqueueEnv | QOther QueueOp

fun queue_step :: "QueueStep \<Rightarrow> QueueShared \<Rightarrow> QueueShared option" where
  "queue_step (QEnqueue handle env) s = map_option snd (queue_enqueue handle env s)"
| "queue_step (QOther op) s = Some (queue_op op s)"

fun queue_run :: "QueueStep list \<Rightarrow> QueueShared \<Rightarrow> QueueShared option" where
  "queue_run [] s = Some s"
| "queue_run (c # cs) s = Option.bind (queue_step c s) (queue_run cs)"

fun step_rely :: "QueueStep \<Rightarrow> bool" where
  "step_rely (QEnqueue _ env) \<longleftrightarrow> rely env"
| "step_rely (QOther _) \<longleftrightarrow> True"

definition queue_stable :: "QueueShared \<Rightarrow> QueueShared \<Rightarrow> bool" where
  "queue_stable s s' \<longleftrightarrow> ring_ok s' \<and> fixed_part (qs_header s') = fixed_part (qs_header s) \<and>
     (qh_closed (qs_header s) \<noteq> 0 \<longrightarrow> qh_closed (qs_header s') \<noteq> 0)"

lemma guarded_stable: "guarded s s' \<Longrightarrow> queue_stable s s'"
  by (simp add: guarded_def queue_stable_def)

lemma stable_trans: "queue_stable s t \<Longrightarrow> queue_stable t u \<Longrightarrow> queue_stable s u"
  by (auto simp: queue_stable_def)

lemma stable_fields:
  assumes "ring_ok s" "qh_head (qs_header s') = qh_head (qs_header s)"
    "qh_tail (qs_header s') = qh_tail (qs_header s)" "qh_size (qs_header s') = qh_size (qs_header s)"
    "qh_max_size (qs_header s') = qh_max_size (qs_header s)" "qs_slots s' = qs_slots s"
    "fixed_part (qs_header s') = fixed_part (qs_header s)"
    "qh_closed (qs_header s) \<noteq> 0 \<longrightarrow> qh_closed (qs_header s') \<noteq> 0"
  shows "queue_stable s s'"
  using assms ring_ok_cong [of s' s] by (auto simp: queue_stable_def fixed_part_def)

lemma stable_finish:
  assumes "ring_ok s" "qh_size (qs_header s) \<noteq> qh_capacity (qs_header s)"
  shows "queue_stable s (snd (finishEnqueue handle notify needs dropped blocked ns s))"
proof -
  obtain r s' where fin: "finishEnqueue handle notify needs dropped blocked ns s = (r, s')"
    by (metis surj_pair)
  have "fixed_part (qs_header s') = fixed_part (qs_header s)"
    using fin by (auto simp: finishEnqueue_def Let_def pushSlot_def undoPush_def fixed_part_def split: if_splits)
  then show ?thesis using finishEnqueue_ring(1,3) [OF assms fin] fin by (simp add: queue_stable_def)
qed

lemma stable_recover:
  assumes "ring_ok s" "recoverConditionWaitOwnerDeath consistent error s = (b, s')"
  shows "queue_stable s s'"
  using assms recover_ring [OF assms]
  by (auto simp: queue_stable_def recoverConditionWaitOwnerDeath_def makeMutexConsistentAfterOwnerDeath_def
      resetRingAfterOwnerDeath_def fixed_part_def wake_def split: if_splits)

lemma enqueueWait_stable:
  assumes "ring_ok s" "\<forall>e \<in> set events. \<forall>t. ring_ok t \<longrightarrow> queue_stable t (wt_others e t)"
    "enqueueWait events s = Some (out, s')"
  shows "queue_stable s s' \<and> (out = WaitOver \<longrightarrow> qh_size (qs_header s') \<noteq> qh_capacity (qs_header s') \<or>
    qh_closed (qs_header s') \<noteq> 0)"
  using assms
proof (induction events arbitrary: s)
  case Nil
  then show ?case by (auto simp: enqueueWait.simps [of "[]"] queue_stable_def split: if_splits)
next
  case (Cons e es)
  show ?case
  proof (cases "qh_size (qs_header s) = qh_capacity (qs_header s) \<and> qh_closed (qs_header s) = 0")
    case False
    then show ?thesis using Cons.prems(1,3) by (auto simp: enqueueWait.simps [of "e # es"] queue_stable_def)
  next
    case True
    define t where "t = wt_others e s"
    obtain b t' where rec: "recoverConditionWaitOwnerDeath (wt_consistent e) (wt_error e) t = (b, t')"
      by (metis surj_pair)
    have st: "queue_stable s t" using Cons.prems(1,2) by (simp add: t_def)
    then have "ring_ok t" by (simp add: queue_stable_def)
    note st' = stable_trans [OF st stable_recover [OF this rec]]
    have step: "enqueueWait (e # es) s = (if wt_error e = ETIMEDOUT then Some (WaitTimedOut, t)
        else if \<not> b then Some (WaitFailed, t') else enqueueWait es t')"
      using True rec by (simp add: enqueueWait.simps [of "e # es" s] t_def)
    show ?thesis
    proof (cases "wt_error e = ETIMEDOUT \<or> \<not> b")
      case fin: True
      then show ?thesis using Cons.prems(3) st st' unfolding step by (auto split: if_splits)
    next
      case False
      then have "enqueueWait es t' = Some (out, s')" using Cons.prems(3) unfolding step by simp
      moreover have "ring_ok t'" using st' by (simp add: queue_stable_def)
      ultimately show ?thesis using Cons.IH [of t'] Cons.prems(2) stable_trans [OF st'] by simp
    qed
  qed
qed

lemma rely_stable: "rely env \<Longrightarrow> \<forall>e \<in> set (en_waits env deadline). \<forall>t. ring_ok t \<longrightarrow> queue_stable t (wt_others e t)"
  using guarded_ops guarded_stable by (fastforce simp: rely_def)

text \<open>What \<open>enqueue\<close> does when it has to wait.\<close>

lemma enqueue_blocking_cases:
  assumes ok: "ring_ok s" and lock: "le_lock (en_lock env) = 0" and op: "qh_closed (qs_header s) = 0"
    and full: "qh_size (qs_header s) = qh_capacity (qs_header s)"
    and block: "overflowPolicyCastOf (qh_overflow_policy (qs_header s)) \<notin> {DropNewest, DropOldest}"
    and rel: "rely env" and enq: "queue_enqueue handle env s = Some (r, s')"
  obtains
    (timeout) s1 where "queue_stable s s1" "er_status r = TimedOut" "queue_list s' = queue_list s1" "queue_stable s1 s'"
  | (failed) s1 where "queue_stable s s1" "er_status r = SynchronizationError" "queue_list s' = queue_list s1" "queue_stable s1 s'"
  | (closed) s1 where "queue_stable s s1" "er_status r = Closed" "qh_closed (qs_header s') \<noteq> 0"
      "queue_list s' = queue_list s1" "queue_stable s1 s'"
  | (room) s1 ns where "queue_stable s s1" "qh_size (qs_header s1) \<noteq> qh_capacity (qs_header s1)"
      "(r, s') = finishEnqueue handle (en_notify env) (qh_size (qs_header s1) = 0) None True ns s1"
proof -
  have l: "PthreadLock (en_lock env) s = (True, s)" using lock by (simp add: PthreadLock_def)
  define deadline where "deadline = monotonicDeadline (qh_block_timeout_ms (qs_header s)) (en_clock env)"
  define ns where "ns = elapsedNanoseconds (en_blocked_start env) (en_blocked_end env)"
  define s0 where "s0 = modifyHeader (\<lambda>h. h\<lparr>qh_blocked_count := qh_blocked_count h + 1\<rparr>) s"
  define add where "add = modifyHeader (\<lambda>h. h\<lparr>qh_blocked_time_ns := qh_blocked_time_ns h + ns\<rparr>)"
  have st0: "queue_stable s s0" by (rule stable_fields [OF ok]) (simp_all add: s0_def fixed_part_def)
  then have ok0: "ring_ok s0" by (simp add: queue_stable_def)
  obtain out s1 where w: "enqueueWait (en_waits env deadline) s0 = Some (out, s1)"
    using enq op full block
    by (auto simp: queue_enqueue_def l Let_def deadline_def s0_def split: option.splits)
  note ws = enqueueWait_stable [OF ok0 rely_stable [OF rel] w]
  have st1: "queue_stable s s1" using ws stable_trans [OF st0] by blast
  then have ok1: "ring_ok s1" by (simp add: queue_stable_def)
  have a: "queue_stable s1 (add s1)" "queue_list (add s1) = queue_list s1"
    by (rule stable_fields [OF ok1]; simp add: add_def fixed_part_def)
      (rule ring_ok_cong; simp add: add_def)
  then have oka: "ring_ok (add s1)" by (simp add: queue_stable_def)
  define s2 where "s2 = modifyHeader (\<lambda>h. h\<lparr>qh_block_timeouts := qh_block_timeouts h + 1\<rparr>) (add s1)"
  have t: "queue_stable (add s1) s2" "queue_list s2 = queue_list (add s1)"
    by (rule stable_fields [OF oka]; simp add: s2_def fixed_part_def)
      (rule ring_ok_cong; simp add: s2_def)
  have res: "Some (r, s') = (case out of
        WaitTimedOut \<Rightarrow> Some (enqueueResult TimedOut None False True ns, s2)
      | WaitFailed \<Rightarrow> Some (enqueueResult SynchronizationError None False True ns, add s1)
      | WaitOver \<Rightarrow> if qh_closed (qs_header (add s1)) \<noteq> 0
          then Some (enqueueResult Closed None False True ns, add s1)
          else Some (finishEnqueue handle (en_notify env) (qh_size (qs_header (add s1)) = 0) None True ns (add s1)))"
    using enq op full block w
    by (cases out) (auto simp: queue_enqueue_def l Let_def deadline_def s0_def s2_def add_def ns_def
        split: if_splits)
  show ?thesis
  proof (cases out)
    case WaitTimedOut
    then show ?thesis
      using timeout [OF st1] res t a stable_trans [OF a(1) t(1)] by (simp add: enqueueResult_def)
  next
    case WaitFailed
    then show ?thesis using failed [OF st1] res a by (simp add: enqueueResult_def)
  next
    case WaitOver
    show ?thesis
    proof (cases "qh_closed (qs_header (add s1)) = 0")
      case True
      then have "qh_size (qs_header (add s1)) \<noteq> qh_capacity (qs_header (add s1))"
        using ws WaitOver by (simp add: add_def)
      then show ?thesis using room [OF stable_trans [OF st1 a(1)]] res WaitOver True by simp
    next
      case False
      then show ?thesis using closed [OF st1] res WaitOver a by (simp add: enqueueResult_def)
    qed
  qed
qed

abbreviation lockOk :: LockEnv where
  "lockOk \<equiv> \<lparr>le_lock = 0, le_consistent = 0\<rparr>"

lemma enqueue_after_lock:
  assumes "PthreadLock (en_lock env) s = (True, s1)"
  shows "queue_enqueue handle env s = queue_enqueue handle (env\<lparr>en_lock := lockOk\<rparr>) s1"
proof -
  define env' where "env' = env\<lparr>en_lock := lockOk\<rparr>"
  have same: "en_notify env' = en_notify env" "en_clock env' = en_clock env" "en_waits env' = en_waits env"
    "en_blocked_start env' = en_blocked_start env" "en_blocked_end env' = en_blocked_end env"
    "PthreadLock (en_lock env') s1 = (True, s1)"
    by (simp_all add: env'_def PthreadLock_def)
  show ?thesis unfolding env'_def [symmetric] unfolding queue_enqueue_def same assms ..
qed

lemma stable_enqueue_locked:
  assumes ok: "ring_ok s" and lock: "le_lock (en_lock env) = 0" and rel: "rely env"
    and enq: "queue_enqueue handle env s = Some (r, s')"
  shows "queue_stable s s'"
proof -
  have l: "PthreadLock (en_lock env) s = (True, s)" using lock by (simp add: PthreadLock_def)
  consider (closed) "qh_closed (qs_header s) \<noteq> 0"
    | (room) "qh_closed (qs_header s) = 0" "qh_size (qs_header s) \<noteq> qh_capacity (qs_header s)"
    | (newest) "qh_closed (qs_header s) = 0" "qh_size (qs_header s) = qh_capacity (qs_header s)"
        "overflowPolicyCastOf (qh_overflow_policy (qs_header s)) = DropNewest"
    | (oldest) "qh_closed (qs_header s) = 0" "qh_size (qs_header s) = qh_capacity (qs_header s)"
        "overflowPolicyCastOf (qh_overflow_policy (qs_header s)) = DropOldest"
    | (block) "qh_closed (qs_header s) = 0" "qh_size (qs_header s) = qh_capacity (qs_header s)"
        "overflowPolicyCastOf (qh_overflow_policy (qs_header s)) \<notin> {DropNewest, DropOldest}"
    by auto
  then show ?thesis
  proof cases
    case closed
    then show ?thesis using enq ok by (simp add: queue_enqueue_def l queue_stable_def)
  next
    case room
    then have "s' = snd (finishEnqueue handle (en_notify env) (qh_size (qs_header s) = 0) None False 0 s)"
      using enq by (simp add: queue_enqueue_def l Let_def)
    then show ?thesis using stable_finish [OF ok room(2)] by simp
  next
    case newest
    then have "s' = modifyHeader (\<lambda>h. h\<lparr>qh_dropped_newest := qh_dropped_newest h + 1\<rparr>) s"
      using enq by (simp add: queue_enqueue_def l Let_def)
    then show ?thesis by (intro stable_fields [OF ok]) (simp_all add: fixed_part_def)
  next
    case oldest
    define s1 where "s1 = modifyHeader (\<lambda>h. (popHead h)\<lparr>qh_dropped_oldest := qh_dropped_oldest h + 1\<rparr>) s"
    note d = drop_oldest_ring [OF ok oldest(2), folded s1_def]
    have "queue_stable s s1" using d by (simp add: queue_stable_def) (simp add: s1_def popHead_def fixed_part_def)
    moreover have "s' = snd (finishEnqueue handle (en_notify env) False (Some (headSlot s)) False 0 s1)"
      using enq oldest by (simp add: queue_enqueue_def l Let_def s1_def)
    ultimately show ?thesis using stable_finish [OF d(1,4)] stable_trans by metis
  next
    case block
    from ok lock block rel enq show ?thesis
    proof (cases rule: enqueue_blocking_cases)
      case (room s1 ns)
      then have "ring_ok s1" by (simp add: queue_stable_def)
      from stable_finish [OF this room(2), of handle "en_notify env" "qh_size (qs_header s1) = 0" None True ns]
      show ?thesis using stable_trans [OF room(1)] by (simp flip: room(3))
    qed (use stable_trans in blast)+
  qed
qed

lemma stable_enqueue:
  assumes ok: "ring_ok s" and rel: "rely env" and enq: "queue_enqueue handle env s = Some (r, s')"
  shows "queue_stable s s'"
proof -
  obtain locked s1 where l: "PthreadLock (en_lock env) s = (locked, s1)" by (metis surj_pair)
  have st: "queue_stable s s1" using guarded_stable [OF guarded_lock [OF ok l]] .
  show ?thesis
  proof (cases locked)
    case True
    have "rely (env\<lparr>en_lock := lockOk\<rparr>)" using rel by (simp add: rely_def)
    with stable_enqueue_locked [of s1 "env\<lparr>en_lock := lockOk\<rparr>" handle r s'] st enq
    show ?thesis using enqueue_after_lock [of env s s1] l True stable_trans by (auto simp: queue_stable_def)
  next
    case False
    then show ?thesis using enq st l by (simp add: queue_enqueue_def)
  qed
qed

lemma stable_step: "ring_ok s \<Longrightarrow> step_rely c \<Longrightarrow> queue_step c s = Some s' \<Longrightarrow> queue_stable s s'"
  by (cases c) (auto intro: stable_enqueue guarded_stable guarded_op)

lemma stable_run: "ring_ok s \<Longrightarrow> list_all step_rely cs \<Longrightarrow> queue_run cs s = Some s' \<Longrightarrow> queue_stable s s'"
proof (induction cs arbitrary: s)
  case Nil
  then show ?case by (simp add: queue_stable_def)
next
  case (Cons c cs)
  then obtain s1 where s1: "queue_step c s = Some s1" "queue_run cs s1 = Some s'"
    by (auto split: bind_splits)
  have st: "queue_stable s s1" using stable_step [OF Cons.prems(1) _ s1(1)] Cons.prems(2) by simp
  then have "ring_ok s1" by (simp add: queue_stable_def)
  then show ?case using Cons.IH [OF _ _ s1(2)] Cons.prems(2) stable_trans [OF st] by simp
qed

section \<open>A new queue\<close>

lemma validateDescriptor_None:
  assumes "validateDescriptor d = None"
  shows "0 < unat (qd_capacity d)" "unat (qd_capacity d) \<le> 65536" "overflowPolicyListed (qd_overflow_policy d)"
    "isValidSharedMemoryName (qd_shm_name d)"
  using assms
  by (auto simp: validateDescriptor_def validOverflowPolicy_def kMaxSubscriberQueueDepth_def not_less
      word_le_nat_alt unat_gt_0 split: if_splits sum.splits)

lemma queue_create_ok:
  assumes "SharedSubscriberQueue_create d ienv env os = (Inr (q, s), os')"
  shows "ring_ok s" "queue_list s = []" "immutableHeaderMatches (qs_header s) d"
    "qh_closed (qs_header s) = 0" "qh_attachment_count (qs_header s) = 1" "validateDescriptor d = None"
    "qd_layout_version d = kQueueLayoutVersion"
proof -
  have v: "validateDescriptor d = None"
    and s: "s = \<lparr>qs_header = newQueueHeader d, qs_slots = replicate (unat (qd_capacity d)) nullChunkHandle,
      qs_wakes = [], qs_alive = True\<rparr>"
    using assms by (auto simp: SharedSubscriberQueue_create_def split: option.splits sum.splits prod.splits)
  show "validateDescriptor d = None" by (rule v)
  show "ring_ok s" "queue_list s = []" "qh_closed (qs_header s) = 0" "qh_attachment_count (qs_header s) = 1"
    using validateDescriptor_None [OF v]
    by (simp_all add: s ring_ok_def header_ok_def queue_list_def newQueueHeader_def zeroQueueHeader_def)
  show "immutableHeaderMatches (qs_header s) d"
    by (simp add: s immutableHeaderMatches_def newQueueHeader_def sizeofSubscriberQueueHeader_def)
  show "qd_layout_version d = kQueueLayoutVersion"
    using v by (auto simp: validateDescriptor_def split: if_splits)
qed

lemma fixed_matches:
  "fixed_part h' = fixed_part h \<Longrightarrow> immutableHeaderMatches h' d = immutableHeaderMatches h d"
  by (simp add: fixed_part_def immutableHeaderMatches_def)

lemma ring_invariants: "ring_ok s \<Longrightarrow> ringInvariantsHold (qs_header s)"
  by (auto simp: ring_ok_def header_ok_def ringInvariantsHold_def word_less_nat_alt word_le_nat_alt)

end
