(* ===== verification/MW_Queue_Properties.thy ===== *)
theory MW_Queue_Properties
  imports MW_Queue_Refinement
begin

text \<open>
  The correctness properties of the subscriber queue: invariant, refinement of a bounded list,
  conservation and order of handles over any interleaving of a publisher and a subscriber, waiting
  with a deadline, and wake-ups.
\<close>

section \<open>The interface between publisher and subscriber\<close>

text \<open>
  \<open>put\<close> returns the handles that did not stay in the queue: the rejected one, or the oldest one
  that had to give way.  \<open>fifo_run\<close> interleaves puts (\<open>Some h\<close>) and gets (\<open>None\<close>) and collects what
  was received and what was dropped.
\<close>

fun fifo_run ::
  "('h \<Rightarrow> 's \<Rightarrow> 'h list \<times> 's) \<Rightarrow> ('s \<Rightarrow> 'h option \<times> 's) \<Rightarrow> 'h option list \<Rightarrow> 's \<Rightarrow> 'h list \<times> 'h list \<times> 's" where
  "fifo_run put get [] s = ([], [], s)"
| "fifo_run put get (Some h # cs) s =
     (let (d, s) = put h s; (got, dropped, s) = fifo_run put get cs s in (got, d @ dropped, s))"
| "fifo_run put get (None # cs) s =
     (let (r, s) = get s; (got, dropped, s) = fifo_run put get cs s in
      (case r of None \<Rightarrow> got | Some h \<Rightarrow> h # got, dropped, s))"

definition puts :: "'h option list \<Rightarrow> 'h list" where
  "puts cs = map the (filter (\<lambda>c. c \<noteq> None) cs)"

lemma puts_simps [simp]: "puts [] = []" "puts (Some h # cs) = h # puts cs" "puts (None # cs) = puts cs"
  by (simp_all add: puts_def)

locale bounded_fifo =
  fixes contents :: "'s \<Rightarrow> 'h list" and inv :: "'s \<Rightarrow> bool"
    and put :: "'h \<Rightarrow> 's \<Rightarrow> 'h list \<times> 's" and get :: "'s \<Rightarrow> 'h option \<times> 's"
  assumes put_inv: "inv s \<Longrightarrow> put h s = (d, s') \<Longrightarrow> inv s'"
    and put_conserves: "inv s \<Longrightarrow> put h s = (d, s') \<Longrightarrow>
      mset (contents s') + mset d = mset (contents s) + {#h#}"
    and put_order: "inv s \<Longrightarrow> put h s = (d, s') \<Longrightarrow> subseq (contents s') (contents s @ [h])"
    and get_inv: "inv s \<Longrightarrow> get s = (r, s') \<Longrightarrow> inv s'"
    and get_front: "inv s \<Longrightarrow> get s = (r, s') \<Longrightarrow>
      contents s = (case r of None \<Rightarrow> [] | Some h \<Rightarrow> [h]) @ contents s'"
begin

lemma run_fifo:
  "inv s \<Longrightarrow> fifo_run put get cs s = (got, dropped, s') \<Longrightarrow>
     inv s' \<and> mset (contents s) + mset (puts cs) = mset got + mset dropped + mset (contents s') \<and>
     subseq (got @ contents s') (contents s @ puts cs)"
proof (induction cs arbitrary: s got dropped)
  case (Cons c cs)
  show ?case
  proof (cases c)
    case None
    obtain r s1 got1 where s1: "get s = (r, s1)" "fifo_run put get cs s1 = (got1, dropped, s')"
      "got = (case r of None \<Rightarrow> got1 | Some h \<Rightarrow> h # got1)"
      using Cons.prems(2) None by (auto split: prod.splits)
    note IH = Cons.IH [OF get_inv [OF Cons.prems(1) s1(1)] s1(2)]
    show ?thesis
      using IH get_front [OF Cons.prems(1) s1(1)] s1(3) None by (cases r) auto
  next
    case (Some h)
    obtain d s1 dropped1 where s1: "put h s = (d, s1)" "fifo_run put get cs s1 = (got, dropped1, s')"
      "dropped = d @ dropped1"
      using Cons.prems(2) Some by (auto split: prod.splits)
    note IH = Cons.IH [OF put_inv [OF Cons.prems(1) s1(1)] s1(2)]
    have "subseq (contents s1 @ puts cs) ((contents s @ [h]) @ puts cs)"
      using put_order [OF Cons.prems(1) s1(1)] by (rule list_emb_append_mono) simp
    then have "subseq (got @ contents s') (contents s @ puts (c # cs))"
      using IH Some by (auto intro: subseq_order.order_trans)
    moreover have "mset (contents s) + mset (puts (c # cs)) = mset got + mset dropped + mset (contents s')"
    proof -
      have "mset (contents s) + mset (puts (c # cs)) = (mset (contents s) + {#h#}) + mset (puts cs)"
        by (simp add: Some)
      also have "\<dots> = (mset (contents s1) + mset d) + mset (puts cs)"
        using put_conserves [OF Cons.prems(1) s1(1)] by simp
      also have "\<dots> = mset d + (mset (contents s1) + mset (puts cs))" by (simp add: ac_simps)
      finally show ?thesis using IH s1(3) by (simp add: ac_simps)
    qed
    ultimately show ?thesis using IH by blast
  qed
qed simp

end

text \<open>A publisher that waits in vain: the kernel reports the timeout and nobody touched the queue.\<close>

definition queueEnv :: "bool option \<Rightarrow> EnqueueEnv" where
  "queueEnv notify = \<lparr>en_lock = lockOk, en_notify = notify, en_clock = None,
     en_blocked_start = \<lparr>tv_sec = 0, tv_nsec = 0\<rparr>, en_blocked_end = \<lparr>tv_sec = 1, tv_nsec = 0\<rparr>,
     en_waits = (\<lambda>_. [\<lparr>wt_others = id, wt_error = ETIMEDOUT, wt_consistent = 0\<rparr>])\<rparr>"

definition queue_put :: "bool option \<Rightarrow> ChunkHandle \<Rightarrow> QueueShared \<Rightarrow> ChunkHandle list \<times> QueueShared" where
  "queue_put notify handle s =
     (case queue_enqueue handle (queueEnv notify) s of
        None \<Rightarrow> ([handle], s)
      | Some (r, s') \<Rightarrow>
          (if er_status r = Accepted
           then (case er_dropped_oldest r of None \<Rightarrow> [] | Some old \<Rightarrow> [old]) else [handle], s'))"

lemma queue_put_cases:
  assumes ok: "ring_ok s" and put: "queue_put notify handle s = (d, s')"
  obtains (rejected) "d = [handle]" "queue_list s' = queue_list s" "ring_ok s'"
  | (accepted) "d = []" "queue_list s' = queue_list s @ [handle]" "ring_ok s'"
  | (replaced) "queue_list s \<noteq> []" "d = [hd (queue_list s)]" "queue_list s' = tl (queue_list s) @ [handle]" "ring_ok s'"
proof -
  have lock: "le_lock (en_lock (queueEnv notify)) = 0" by (simp add: queueEnv_def)
  then have l: "PthreadLock (en_lock (queueEnv notify)) s = (True, s)" by (simp add: PthreadLock_def)
  have lt: "length (queue_list s) < queue_capacity s" if "qh_size (qs_header s) \<noteq> qh_capacity (qs_header s)"
    using ok that by (auto simp: ring_ok_def header_ok_def word_unat_eq_iff)
  consider (closed) "qh_closed (qs_header s) \<noteq> 0"
    | (wait) "qh_closed (qs_header s) = 0" "qh_size (qs_header s) = qh_capacity (qs_header s)"
        "overflowPolicyCastOf (qh_overflow_policy (qs_header s)) \<notin> {DropNewest, DropOldest}"
    | (nowait) "qh_closed (qs_header s) = 0"
        "overflowPolicyCastOf (qh_overflow_policy (qs_header s)) \<in> {DropNewest, DropOldest} \<or>
          length (queue_list s) < queue_capacity s"
    using lt by blast
  then show ?thesis
  proof cases
    case closed
    then have "queue_put notify handle s = ([handle], s)"
      by (simp add: queue_put_def queue_enqueue_def l enqueueResult_def)
    then show ?thesis using rejected put ok by simp
  next
    case wait
    have w: "enqueueWait (en_waits (queueEnv notify) dl) t = Some (WaitTimedOut, t)"
      if "qh_size (qs_header t) = qh_capacity (qs_header t)" "qh_closed (qs_header t) = 0" for dl t
      using that by (simp add: queueEnv_def enqueueWait.simps [of "[_]"])
    have d: "d = [handle]" and s': "\<exists>a b c. s' = modifyHeader (\<lambda>h. h\<lparr>qh_blocked_count := a,
        qh_blocked_time_ns := b, qh_block_timeouts := c\<rparr>) s"
      using put wait by (auto simp: queue_put_def queue_enqueue_def l Let_def w enqueueResult_def)
    have "ring_ok s' = ring_ok s" "queue_list s' = queue_list s"
      by (rule ring_ok_cong; use s' in force)+
    then show ?thesis using rejected ok d by simp
  next
    case nowait
    obtain r t where e: "queue_enqueue handle (queueEnv notify) s = Some (r, t)" "ring_ok t"
      "(er_status r, er_dropped_oldest r, queue_list t) =
         fifo_enqueue (overflowPolicyCastOf (qh_overflow_policy (qs_header s))) (queue_capacity s)
           (en_notify (queueEnv notify)) handle (queue_list s)"
      using enqueue_refines [OF ok lock nowait(1,2)] by blast
    have "0 < queue_capacity s" using ok by (simp add: ring_ok_def header_ok_def)
    then have ne: "\<not> length (queue_list s) < queue_capacity s \<Longrightarrow> queue_list s \<noteq> []"
      by (metis list.size(3))
    show ?thesis
      using put e rejected accepted replaced ne by (auto simp: queue_put_def split: if_splits)
  qed
qed

interpretation ring_fifo:
  bounded_fifo queue_list ring_ok "queue_put notify" "queue_tryDequeue lockOk" for notify
proof unfold_locales
  fix s h d s' assume a: "ring_ok s" "queue_put notify h s = (d, s')"
  show "ring_ok s'" using a by (cases rule: queue_put_cases) auto
  show "mset (queue_list s') + mset d = mset (queue_list s) + {#h#}"
    using a by (cases rule: queue_put_cases) (auto simp: neq_Nil_conv)
  show "subseq (queue_list s') (queue_list s @ [h])"
    using a by (cases rule: queue_put_cases) (auto simp: neq_Nil_conv intro: subseq_rev_drop_many)
next
  fix s r s' assume a: "ring_ok s" "queue_tryDequeue lockOk s = (r, s')"
  have l: "PthreadLock lockOk s = (True, s)" by (simp add: PthreadLock_def)
  define s1 where "s1 = modifyHeader (\<lambda>h. (popHead h)\<lparr>qh_dequeued := qh_dequeued h + 1\<rparr>) s"
  have eq: "queue_list s1 = queue_list (modifyHeader popHead s)"
    by (rule ring_ok_cong; simp add: s1_def popHead_def)
  show "ring_ok s'" using guarded_dequeue [OF a(1), of lockOk] a(2) by (simp add: guarded_def)
  show "queue_list s = (case r of None \<Rightarrow> [] | Some h \<Rightarrow> [h]) @ queue_list s'"
  proof (cases "qh_size (qs_header s) = 0")
    case True
    then show ?thesis using a(2) by (auto simp: queue_tryDequeue_def l queue_list_empty)
  next
    case False
    have "(r, s') = (Some (headSlot s), wake CondSignal s1)"
      using a(2) False by (simp add: queue_tryDequeue_def l Let_def s1_def)
    then show ?thesis using pop_ring(2) [OF a(1) False] eq by simp
  qed
qed

section \<open>A concrete queue\<close>

definition demoQueue :: "OverflowPolicy \<Rightarrow> QueueDescriptor" where
  "demoQueue policy = \<lparr>qd_shm_name = ''/mw_queue'', qd_queue_id = 9, qd_segment_size = 304,
     qd_capacity = 2, qd_layout_version = kQueueLayoutVersion, qd_overflow_policy = policy, qd_block_timeout_ms = 1500\<rparr>"

definition demoQueueEnv :: ShmEnv where
  "demoQueueEnv = \<lparr>env_open = Inr 4, env_ftruncate = None, env_fstat = None, env_mmap = Inr 8192,
     env_unlink = None\<rparr>"

definition demoQueueOs :: ShmOs where
  "demoQueueOs = \<lparr>os_objects = Map.empty, os_fds = {}, os_maps = {}\<rparr>"

definition demoHandle :: "u32 \<Rightarrow> ChunkHandle" where
  "demoHandle i = \<lparr>ch_pool_id = 7, ch_chunk_index = i, ch_generation = 1, ch_payload_offset = 256\<rparr>"

lemma slotsOffset_value: "slotsOffset = 256"
  by (simp add: slotsOffset_def sizeofSubscriberQueueHeader_def alignofChunkHandle_def)

lemma demo_queue_size: "queue_requiredSegmentSize 2 = Inr 304"
  by (simp add: queue_requiredSegmentSize_def kMaxSubscriberQueueDepth_def sizeofChunkHandle_def
      slotsOffset_value checkedMultiply_def checkedAdd_def SIZE_MAX_def)

lemma demo_queue_create:
  assumes "validOverflowPolicy policy"
  obtains q s os' where "SharedSubscriberQueue_create (demoQueue policy) [0, 0, 0, 0, 0, 0, 0, 0] demoQueueEnv demoQueueOs =
      (Inr (q, s), os')" "qh_overflow_policy (qs_header s) = overflowPolicyValue policy" "queue_capacity s = 2"
proof -
  have v: "validateDescriptor (demoQueue policy) = None"
    using assms demo_queue_size
    by (simp add: validateDescriptor_def demoQueue_def isValidSharedMemoryName_def kQueueLayoutVersion_def
        kMaxSubscriberQueueDepth_def)
  obtain region os' where r: "SharedMemoryRegion_create ''/mw_queue'' 304 demoQueueEnv demoQueueOs = (Inr region, os')"
    by (simp add: SharedMemoryRegion_create_def validateArguments_def shm_open_excl_def
        isValidSharedMemoryName_def demoQueueEnv_def demoQueueOs_def)
  have sel: "qd_shm_name (demoQueue policy) = ''/mw_queue''" "qd_segment_size (demoQueue policy) = 304"
    "qd_capacity (demoQueue policy) = 2" "qd_overflow_policy (demoQueue policy) = policy"
    by (simp_all add: demoQueue_def)
  obtain q s where c: "SharedSubscriberQueue_create (demoQueue policy) [0, 0, 0, 0, 0, 0, 0, 0] demoQueueEnv demoQueueOs =
      (Inr (q, s), os')" "qs_header s = newQueueHeader (demoQueue policy)"
    using v r by (simp add: SharedSubscriberQueue_create_def sel)
  from that [OF c(1)] show ?thesis by (simp add: c(2) newQueueHeader_def sel)
qed

section \<open>Invariant\<close>

text \<open>
  (C17) The ring is never corrupted: after any sequence of enqueues (with the other processes running
  any operations while a publisher waits), dequeues, drains, discards, attachments, recoveries after
  the death of a lock holder, and closings, a queue that was created holds at most its capacity, its
  ring fields are consistent, and its immutable header still matches the descriptor, so a later
  \<open>open\<close> accepts it unless it has been closed; a closed queue never reopens.
\<close>

theorem queue_invariant_reachable:
  assumes "SharedSubscriberQueue_create d ienv env os = (Inr (q, s0), os')"
    "list_all step_rely steps" "queue_run steps s0 = Some s"
  shows "ring_ok s \<and> length (queue_list s) \<le> unat (qd_capacity d) \<and>
    immutableHeaderMatches (qs_header s) d \<and> ringInvariantsHold (qs_header s) \<and>
    (qh_closed (qs_header s) \<noteq> 0 \<longrightarrow> list_all step_rely later \<longrightarrow>
       (\<forall>s'. queue_run later s = Some s' \<longrightarrow> qh_closed (qs_header s') \<noteq> 0))"
proof -
  note new = queue_create_ok [OF assms(1)]
  have st: "queue_stable s0 s" using stable_run [OF new(1) assms(2,3)] .
  then have ok: "ring_ok s" by (simp add: queue_stable_def)
  have m: "immutableHeaderMatches (qs_header s) d"
    using st new(3) fixed_matches [of "qs_header s" "qs_header s0" d] by (simp add: queue_stable_def)
  then have "length (queue_list s) \<le> unat (qd_capacity d)"
    using ok by (simp add: ring_ok_def header_ok_def immutableHeaderMatches_def)
  moreover have "qh_closed (qs_header s') \<noteq> 0"
    if "qh_closed (qs_header s) \<noteq> 0" "list_all step_rely later" "queue_run later s = Some s'" for s'
    using stable_run [OF ok that(2,3)] that(1) by (simp add: queue_stable_def)
  ultimately show ?thesis using ok m ring_invariants [OF ok] by simp
qed

theorem queue_invariant_reachable_witness:
  "\<exists>q s0 os' s. SharedSubscriberQueue_create (demoQueue DropOldest) [0, 0, 0, 0, 0, 0, 0, 0] demoQueueEnv demoQueueOs =
       (Inr (q, s0), os') \<and>
     queue_run [QOther (QDequeue lockOk), QOther (QCloseAndDrain lockOk)] s0 = Some s \<and> ring_ok s"
proof -
  obtain q s0 os' where c: "SharedSubscriberQueue_create (demoQueue DropOldest) [0, 0, 0, 0, 0, 0, 0, 0] demoQueueEnv
      demoQueueOs = (Inr (q, s0), os')"
    by (rule demo_queue_create [of DropOldest]) (auto simp: validOverflowPolicy_def)
  obtain s where s: "queue_run [QOther (QDequeue lockOk), QOther (QCloseAndDrain lockOk)] s0 = Some s"
    by simp
  have "ring_ok s"
    using queue_invariant_reachable [OF c _ s, of "[]"] by simp
  then show ?thesis using c s by blast
qed

section \<open>Refinement of a bounded list\<close>

text \<open>
  (C18) \<open>enqueue\<close> refines its contract on lists: on a well-formed open queue that has room, or whose
  policy does not block, the status, the handle reported as dropped and the new contents are those
  of \<open>fifo_enqueue\<close>: append if there is room, otherwise refuse the new handle (\<open>DropNewest\<close>) or
  drop the oldest and report it (\<open>DropOldest\<close>); if the notification of a formerly empty queue fails
  the handle is taken back.
\<close>

theorem queue_enqueue_refines_list:
  assumes "ring_ok s" "le_lock (en_lock env) = 0" "qh_closed (qs_header s) = 0"
    "overflowPolicyCastOf (qh_overflow_policy (qs_header s)) \<in> {DropNewest, DropOldest} \<or>
     length (queue_list s) < queue_capacity s"
  shows "\<exists>r s'. queue_enqueue handle env s = Some (r, s') \<and> ring_ok s' \<and>
    (er_status r, er_dropped_oldest r, queue_list s') =
      fifo_enqueue (overflowPolicyCastOf (qh_overflow_policy (qs_header s))) (queue_capacity s)
        (en_notify env) handle (queue_list s)"
  using enqueue_refines [OF assms] by blast

theorem queue_enqueue_refines_list_witness:
  "\<exists>s r s'. ring_ok s \<and> queue_list s = [] \<and>
     queue_enqueue (demoHandle 0) (queueEnv (Some True)) s = Some (r, s') \<and> er_status r = Accepted \<and>
     queue_list s' = [demoHandle 0]"
proof -
  obtain q s os' where c: "SharedSubscriberQueue_create (demoQueue DropOldest) [0, 0, 0, 0, 0, 0, 0, 0] demoQueueEnv
      demoQueueOs = (Inr (q, s), os')" "queue_capacity s = 2"
    by (rule demo_queue_create [of DropOldest]) (auto simp: validOverflowPolicy_def)
  note new = queue_create_ok [OF c(1)]
  show ?thesis
    using queue_enqueue_refines_list [OF new(1) _ new(4), of "queueEnv (Some True)" "demoHandle 0"] new c(2)
    by (auto simp: queueEnv_def)
qed



text \<open>
  (C20) Draining and discarding: \<open>drain\<close> and \<open>closeAndDrain\<close> return the whole contents in order and
  leave the queue empty (the latter closed, so that enqueues are refused from then on), and
  \<open>discardPool\<close> removes exactly the handles of the given pool, all of them for the pool identifier 0,
  and keeps the others in order.
\<close>

theorem queue_drain_discard:
  assumes ok: "ring_ok s" and lock: "le_lock lenv = 0"
  shows "(\<exists>s'. queue_drain lenv s = (Inr (queue_list s), s') \<and> ring_ok s' \<and> queue_list s' = []) \<and>
    (\<exists>s'. queue_closeAndDrain lenv s = (Inr (queue_list s), s') \<and> ring_ok s' \<and> queue_list s' = [] \<and>
       (le_lock (en_lock env) = 0 \<longrightarrow>
          queue_enqueue handle env s' = Some (enqueueResult Closed None False False 0, s'))) \<and>
    queue_list (queue_discardPool pool_id lenv s) =
      (if pool_id = 0 then [] else filter (\<lambda>h. ch_pool_id h \<noteq> pool_id) (queue_list s)) \<and>
    ring_ok (queue_discardPool pool_id lenv s)"
proof -
  have l: "PthreadLock lenv s = (True, s)" using lock by (simp add: PthreadLock_def)
  obtain hs s1 where d: "drainAll s = (hs, s1)" by (metis surj_pair)
  note r = drainAll_ring [OF ok d]
  define c where "c = modifyHeader (\<lambda>h. h\<lparr>qh_closed := 1\<rparr>) s"
  have okc: "ring_ok c" "queue_list c = queue_list s" using ok ring_ok_cong [of c s] by (simp_all add: c_def)
  obtain hs' s2 where d': "drainAll c = (hs', s2)" by (metis surj_pair)
  note r' = drainAll_ring [OF okc(1) d']
  have cl: "qh_closed (qs_header s2) \<noteq> 0" using r'(4) by (simp add: c_def)
  have "queue_closeAndDrain lenv s = (Inr (queue_list s), s2)"
    using d' r'(1) okc(2) by (simp add: queue_closeAndDrain_def l c_def)
  moreover have "queue_enqueue handle env s2 = Some (enqueueResult Closed None False False 0, s2)"
    if "le_lock (en_lock env) = 0"
    using that cl by (simp add: queue_enqueue_def PthreadLock_def)
  moreover have "queue_drain lenv s = (Inr (queue_list s), s1)"
    using d r(1) by (simp add: queue_drain_def l)
  moreover have "queue_list (queue_discardPool pool_id lenv s) =
      (if pool_id = 0 then [] else filter (\<lambda>h. ch_pool_id h \<noteq> pool_id) (queue_list s))"
    using discard_ring(2) [OF ok l, of pool_id] by (simp add: keeps_def [abs_def])
  ultimately show ?thesis using r r' discard_ring(1) [OF ok l, of pool_id] by blast
qed

theorem queue_drain_discard_witness:
  "\<exists>s s'. ring_ok s \<and> queue_closeAndDrain lockOk s = (Inr (queue_list s), s') \<and> queue_list s' = [] \<and>
     queue_enqueue (demoHandle 0) (queueEnv None) s' = Some (enqueueResult Closed None False False 0, s')"
proof -
  obtain q s os' where c: "SharedSubscriberQueue_create (demoQueue DropOldest) [0, 0, 0, 0, 0, 0, 0, 0] demoQueueEnv
      demoQueueOs = (Inr (q, s), os')" "queue_capacity s = 2"
    by (rule demo_queue_create [of DropOldest]) (auto simp: validOverflowPolicy_def)
  note new = queue_create_ok [OF c(1)]
  have "le_lock (en_lock (queueEnv None)) = 0" by (simp add: queueEnv_def)
  then show ?thesis
    using queue_drain_discard [OF new(1), of lockOk "queueEnv None" "demoHandle 0" 0] new(1) by auto
qed

section \<open>Waiting\<close>



lemma enqueue_blocking_result:
  assumes "le_lock (en_lock env) = 0" "qh_closed (qs_header s) = 0"
    "qh_size (qs_header s) = qh_capacity (qs_header s)"
    "overflowPolicyCastOf (qh_overflow_policy (qs_header s)) \<notin> {DropNewest, DropOldest}"
    "queue_enqueue handle env s = Some (r, s')"
  shows "er_blocked r \<and> er_dropped_oldest r = None"
  using assms
  by (auto simp: queue_enqueue_def PthreadLock_def Let_def finishEnqueue_def enqueueResult_def
      split: option.splits WaitOutcome.splits if_splits)


definition demoFull :: QueueShared where
  "demoFull = \<lparr>qs_header = zeroQueueHeader\<lparr>qh_capacity := 1, qh_size := 1, qh_max_size := 1,
       qh_overflow_policy := 3, qh_block_timeout_ms := 1500\<rparr>,
     qs_slots = [demoHandle 0], qs_wakes = [], qs_alive = True\<rparr>"

definition demoWait :: EnqueueEnv where
  "demoWait = (queueEnv None)\<lparr>en_waits := (\<lambda>_. [\<lparr>wt_others = fold queue_op [QDequeue lockOk],
     wt_error = 0, wt_consistent = 0\<rparr>])\<rparr>"

lemma demo_full: "ring_ok demoFull" "queue_list demoFull = [demoHandle 0]"
  by (simp_all add: demoFull_def ring_ok_def header_ok_def zeroQueueHeader_def queue_list_def ring_slice_def)


text \<open>
  (C23) No lost wake-up for a waiting publisher: every operation of another process that takes a
  handle out of the queue, resets it or closes it also signals the condition variable on which
  publishers wait for room.
\<close>

theorem queue_room_wakes_publisher:
  assumes "ring_ok s"
    "length (queue_list (queue_op op s)) < length (queue_list s) \<or>
     qh_closed (qs_header s) = 0 \<and> qh_closed (qs_header (queue_op op s)) \<noteq> 0"
  shows "length (qs_wakes s) < length (qs_wakes (queue_op op s))"
  using guarded_op [OF assms(1), of op] assms(2) unfolding guarded_def by blast

theorem queue_room_wakes_publisher_witness:
  "ring_ok demoFull \<and> length (qs_wakes demoFull) < length (qs_wakes (queue_op (QCloseAndDrain lockOk) demoFull))"
proof -
  obtain s' where "queue_closeAndDrain lockOk demoFull = (Inr (queue_list demoFull), s')" "queue_list s' = []"
  proof -
    define c where "c = modifyHeader (\<lambda>h. h\<lparr>qh_closed := 1\<rparr>) demoFull"
    have okc: "ring_ok c" "queue_list c = queue_list demoFull"
      using demo_full ring_ok_cong [of c demoFull] by (simp_all add: c_def)
    obtain hs s2 where d: "drainAll c = (hs, s2)" by (metis surj_pair)
    show ?thesis
      using that [of s2] drainAll_ring [OF okc(1) d] okc(2) d
      by (simp add: queue_closeAndDrain_def PthreadLock_def c_def)
  qed
  then show ?thesis
    using queue_room_wakes_publisher [OF demo_full(1), of "QCloseAndDrain lockOk"] demo_full by simp
qed

text \<open>
  (C24) The deadline of a waiting publisher is exact: from a normalised clock reading the computed
  deadline is the reading plus the timeout, in nanoseconds, and normalised again; no timeout of 64
  bits saturates it as long as the clock is below \<open>2 ^ 62\<close> seconds.
\<close>

theorem monotonicDeadline_exact:
  fixes now :: timespec and timeout_ms :: u64
  assumes "0 \<le> tv_sec now" "tv_sec now \<le> 2 ^ 62" "0 \<le> tv_nsec now" "tv_nsec now < 1000000000"
  defines "d \<equiv> monotonicDeadline timeout_ms (Some now)"
  shows "tv_sec d * 1000000000 + tv_nsec d =
      tv_sec now * 1000000000 + tv_nsec now + uint timeout_ms * 1000000 \<and>
    0 \<le> tv_nsec d \<and> tv_nsec d < 1000000000 \<and> tv_sec d \<le> time_t_max"
proof -
  have t: "0 \<le> uint timeout_ms" "uint timeout_ms < 2 ^ 64" using uint_bounded [of timeout_ms] by simp_all
  define q where "q = uint timeout_ms div 1000"
  define r where "r = uint timeout_ms mod 1000"
  have qr: "uint timeout_ms = q * 1000 + r" "0 \<le> r" "r < 1000" "0 \<le> q" "q < 2 ^ 60"
    using t by (simp_all add: q_def r_def pos_imp_zdiv_nonneg_iff)
  have u: "uint (timeout_ms div 1000) = q" "uint (timeout_ms mod 1000) = r"
    by (simp_all add: q_def r_def uint_div uint_mod)
  have "uint ((timeout_ms mod 1000) * 1000000) = r * 1000000"
    using qr(2,3) by (simp add: uint_word_ariths u)
  moreover have "\<not> q > time_t_max - tv_sec now" using qr(5) assms(2) by (simp add: time_t_max_def)
  ultimately show ?thesis
    using qr assms(1-4) by (auto simp: d_def monotonicDeadline_def Let_def u time_t_max_def)
qed

theorem monotonicDeadline_exact_witness:
  "tv_sec (monotonicDeadline 1500 (Some \<lparr>tv_sec = 10, tv_nsec = 700000000\<rparr>)) * 1000000000 +
     tv_nsec (monotonicDeadline 1500 (Some \<lparr>tv_sec = 10, tv_nsec = 700000000\<rparr>)) = 12200000000"
  using monotonicDeadline_exact [of "\<lparr>tv_sec = 10, tv_nsec = 700000000\<rparr>" 1500] by simp

end
