(* ===== verification/MW_Ordered_Map.thy ===== *)
theory MW_Ordered_Map
  imports Main
begin

text \<open>
  The part of \<open>std::map\<close> that the registry uses: an association list ordered by key, so that
  iteration has the order of the container.  \<open>emplace\<close> does nothing when the key is present, as in
  the standard library; \<open>modify\<close> is a write through the reference that \<open>find\<close> or \<open>at\<close> returned.
\<close>

type_synonym ('k, 'v) omap = "('k \<times> 'v) list"

abbreviation omap_find :: "'k \<Rightarrow> ('k, 'v) omap \<Rightarrow> 'v option" where
  "omap_find k m \<equiv> map_of m k"

fun omap_emplace :: "'k::linorder \<Rightarrow> 'v \<Rightarrow> ('k, 'v) omap \<Rightarrow> ('k, 'v) omap" where
  "omap_emplace k v [] = [(k, v)]"
| "omap_emplace k v ((a, b) # m) =
     (if k < a then (k, v) # (a, b) # m
      else if k = a then (a, b) # m
      else (a, b) # omap_emplace k v m)"

definition omap_modify :: "'k \<Rightarrow> ('v \<Rightarrow> 'v) \<Rightarrow> ('k, 'v) omap \<Rightarrow> ('k, 'v) omap" where
  "omap_modify k f m = map (\<lambda>(a, b). if a = k then (a, f b) else (a, b)) m"

definition omap_erase :: "'k \<Rightarrow> ('k, 'v) omap \<Rightarrow> ('k, 'v) omap" where
  "omap_erase k m = filter (\<lambda>(a, b). a \<noteq> k) m"

text \<open>\<open>m[k] = v\<close>.\<close>

definition omap_assign :: "'k::linorder \<Rightarrow> 'v \<Rightarrow> ('k, 'v) omap \<Rightarrow> ('k, 'v) omap" where
  "omap_assign k v m = (if omap_find k m = None then omap_emplace k v m else omap_modify k (\<lambda>_. v) m)"

definition omap_ok :: "('k::linorder, 'v) omap \<Rightarrow> bool" where
  "omap_ok m \<longleftrightarrow> sorted_wrt (<) (map fst m)"

section \<open>Lookup after an update\<close>

lemma omap_find_emplace:
  "omap_find x (omap_emplace k v m) =
     (if x = k \<and> omap_find k m = None then Some v else omap_find x m)"
  if "omap_ok m"
  using that
proof (induction m)
  case (Cons e m)
  obtain a b where e: "e = (a, b)" by (cases e)
  have ok: "omap_ok m" "\<forall>c \<in> fst ` set m. a < c" using Cons.prems by (auto simp: omap_ok_def e)
  have "omap_find k m = None" if "k < a" using ok(2) that by (force simp: map_of_eq_None_iff)
  then show ?case using Cons.IH [OF ok(1)] by (auto simp: e)
qed simp

lemma omap_find_modify [simp]:
  "omap_find x (omap_modify k f m) = (if x = k then map_option f (omap_find k m) else omap_find x m)"
  by (induction m) (auto simp: omap_modify_def)

lemma omap_find_erase [simp]: "omap_find x (omap_erase k m) = (if x = k then None else omap_find x m)"
  by (induction m) (auto simp: omap_erase_def)

lemma omap_keys_emplace: "fst ` set (omap_emplace k v m) = insert k (fst ` set m)"
  by (induction k v m rule: omap_emplace.induct) auto

lemma omap_keys_modify [simp]: "map fst (omap_modify k f m) = map fst m"
  by (auto simp: omap_modify_def)

lemma omap_find_assign [simp]:
  "omap_ok m \<Longrightarrow> omap_find x (omap_assign k v m) = (if x = k then Some v else omap_find x m)"
  by (auto simp: omap_assign_def omap_find_emplace)

section \<open>Order\<close>

lemma omap_ok_Nil [simp]: "omap_ok []"
  by (simp add: omap_ok_def)

lemma omap_ok_emplace [simp]: "omap_ok m \<Longrightarrow> omap_ok (omap_emplace k v m)"
proof (induction k v m rule: omap_emplace.induct)
  case (2 k v a b m)
  have "\<forall>c \<in> fst ` set (omap_emplace k v m). a < c" if "\<not> k < a" "k \<noteq> a"
    using 2(2) that by (auto simp: omap_keys_emplace omap_ok_def)
  then show ?case using 2 by (auto simp: omap_ok_def)
qed (simp add: omap_ok_def)

lemma omap_ok_modify [simp]: "omap_ok (omap_modify k f m) = omap_ok m"
  by (simp add: omap_ok_def)

lemma omap_ok_erase [simp]: "omap_ok m \<Longrightarrow> omap_ok (omap_erase k m)"
  by (induction m) (auto simp: omap_ok_def omap_erase_def)

lemma omap_ok_assign [simp]: "omap_ok m \<Longrightarrow> omap_ok (omap_assign k v m)"
  by (simp add: omap_assign_def)

lemma omap_ok_filter [simp]: "omap_ok m \<Longrightarrow> omap_ok (filter P m)"
  by (induction m) (auto simp: omap_ok_def)

lemma omap_find_filter:
  "omap_ok m \<Longrightarrow> omap_find k (filter (\<lambda>(a, b). P a b) m) =
     (case omap_find k m of None \<Rightarrow> None | Some v \<Rightarrow> if P k v then Some v else None)"
proof (induction m)
  case (Cons e m)
  obtain a b where e: "e = (a, b)" by (cases e)
  have ok: "omap_ok m" and "a \<notin> fst ` set m" using Cons.prems by (auto simp: omap_ok_def e)
  then have none: "omap_find a m = None" by (simp add: map_of_eq_None_iff)
  show ?case using Cons.IH [OF ok] none by (auto simp: e)
qed simp

lemma omap_find_set: "omap_ok m \<Longrightarrow> (k, v) \<in> set m \<longleftrightarrow> omap_find k m = Some v"
  by (rule iffI) (auto simp: omap_ok_def strict_sorted_iff intro!: map_of_is_SomeI dest: map_of_SomeD)

end
