(* ===== verification/MW_Registry_State.thy ===== *)
theory MW_Registry_State
  imports MW_Config MW_Pool_Layout MW_Ordered_Map
    "HOL-Library.Monad_Syntax" "HOL-Library.List_Lexorder" "HOL-Library.Char_ord"
begin

text \<open>
  The registry's bookkeeping of nodes, topics and endpoints:
  \<open>src/registry/src/registry_state.cpp\<close> and its header.  The class is the record \<open>RegistryState\<close>;
  \<open>std::map\<close> members are ordered association lists, \<open>std::set\<close> members are sets iterated in
  ascending order.  An operation that uses \<open>std::map::at\<close> returns \<open>None\<close> where \<open>at\<close> throws
  \<open>std::out_of_range\<close>.  Time is in nanoseconds of the steady clock, timeouts are in milliseconds.
\<close>

section \<open>Data\<close>

type_synonym ConnectionId = u64

record NodeRecord =
  nr_node_id :: u64
  nr_session_id :: u64
  nr_node_name :: string
  nr_control_connection :: ConnectionId
  nr_heartbeat_connection :: ConnectionId
  nr_liveness :: LivenessState
  nr_last_seen :: int
  nr_publisher_endpoints :: "u64 set"
  nr_subscriber_endpoints :: "u64 set"

record SharedPoolMetadata =
  spm_shm_name :: string
  spm_pool_id :: u64
  spm_segment_size :: u64
  spm_layout_version :: u16

record SharedQueueMetadata =
  sqm_shm_name :: string
  sqm_queue_id :: u64
  sqm_segment_size :: u64
  sqm_capacity :: u32
  sqm_layout_version :: u16
  sqm_overflow_policy :: u16
  sqm_block_timeout_ms :: u64

definition emptyPool :: SharedPoolMetadata where
  "emptyPool = \<lparr>spm_shm_name = [], spm_pool_id = 0, spm_segment_size = 0, spm_layout_version = 0\<rparr>"

definition emptyQueue :: SharedQueueMetadata where
  "emptyQueue = \<lparr>sqm_shm_name = [], sqm_queue_id = 0, sqm_segment_size = 0, sqm_capacity = 0,
     sqm_layout_version = 0, sqm_overflow_policy = 0, sqm_block_timeout_ms = 0\<rparr>"

record TopicRecord =
  tr_topic_id :: u64
  tr_topic_name :: string
  tr_type_name :: string
  tr_type_hash :: string
  tr_transport :: TransportType
  tr_max_message_size :: size_t
  tr_publisher_endpoint :: "u64 option"
  tr_subscriber_endpoints :: "u64 set"
  tr_pool :: SharedPoolMetadata

record PublisherEndpoint =
  pe_endpoint_id :: u64
  pe_node_id :: u64
  pe_topic_id :: u64
  pe_max_message_size :: size_t
  pe_transport :: TransportType
  pe_pool :: SharedPoolMetadata

record SubscriberEndpoint =
  se_endpoint_id :: u64
  se_node_id :: u64
  se_topic_id :: u64
  se_data_socket_path :: string
  se_max_message_size :: size_t
  se_transport :: TransportType
  se_queue :: SharedQueueMetadata

record IdResult =
  ir_error :: ErrorCode
  ir_id :: u64
  ir_session_id :: u64

record HeartbeatResult =
  hr_error :: ErrorCode
  hr_state :: LivenessState

datatype PeerEventKind = PublisherDead | SubscriberDead

record PeerEventRecord =
  pv_kind :: PeerEventKind
  pv_target_node_id :: u64
  pv_target_endpoint_id :: u64
  pv_dead_endpoint_id :: u64
  pv_topic_id :: u64
  pv_resource_id :: u64

record DeadNodeCleanup =
  dn_node_id :: u64
  dn_session_id :: u64
  dn_control_connection :: ConnectionId
  dn_heartbeat_connection :: ConnectionId
  dn_pools :: "SharedPoolMetadata list"
  dn_queues :: "SharedQueueMetadata list"
  dn_socket_paths :: "string list"
  dn_peer_events :: "PeerEventRecord list"

record LivenessUpdate =
  lu_suspected_nodes :: "u64 list"
  lu_dead_nodes :: "DeadNodeCleanup list"

record RegistryMetrics =
  rm_heartbeat_received :: u64
  rm_suspected_count :: u64
  rm_dead_node_count :: u64

record RegistryStatsSnapshot =
  rss_node_count :: u64
  rss_topic_count :: u64
  rss_publisher_count :: u64
  rss_subscriber_count :: u64
  rss_heartbeat_received :: u64
  rss_suspected_count :: u64
  rss_dead_node_count :: u64

record EndpointResult =
  epr_error :: ErrorCode
  epr_topic_id :: u64
  epr_endpoint_id :: u64
  epr_pool :: SharedPoolMetadata

record DiscoveredSubscriber =
  ds_endpoint_id :: u64
  ds_data_socket_path :: string
  ds_max_message_size :: size_t
  ds_queue :: SharedQueueMetadata

record DiscoveryResult =
  dr_error :: ErrorCode
  dr_topic_id :: u64
  dr_transport :: TransportType
  dr_pool :: SharedPoolMetadata
  dr_subscribers :: "DiscoveredSubscriber list"

record RegistryState =
  rs_next_node_id :: u64
  rs_next_session_id :: u64
  rs_next_topic_id :: u64
  rs_next_endpoint_id :: u64
  rs_nodes :: "(u64, NodeRecord) omap"
  rs_node_names :: "(string, u64) omap"
  rs_topics :: "(u64, TopicRecord) omap"
  rs_topic_names :: "(string, u64) omap"
  rs_publishers :: "(u64, PublisherEndpoint) omap"
  rs_subscribers :: "(u64, SubscriberEndpoint) omap"
  rs_liveness :: LivenessConfig
  rs_metrics :: RegistryMetrics

definition newRegistryState :: "LivenessConfig \<Rightarrow> RegistryState" where
  "newRegistryState liveness =
     \<lparr>rs_next_node_id = 1, rs_next_session_id = 1, rs_next_topic_id = 1, rs_next_endpoint_id = 1,
      rs_nodes = [], rs_node_names = [], rs_topics = [], rs_topic_names = [], rs_publishers = [],
      rs_subscribers = [], rs_liveness = liveness,
      rs_metrics = \<lparr>rm_heartbeat_received = 0, rm_suspected_count = 0, rm_dead_node_count = 0\<rparr>\<rparr>"

text \<open>The constructor; \<open>None\<close> is the \<open>std::invalid_argument\<close> exception.\<close>

definition RegistryState_new :: "LivenessConfig \<Rightarrow> RegistryState option" where
  "RegistryState_new liveness =
     (if \<not> validLivenessConfig liveness then None else Some (newRegistryState liveness))"

section \<open>Validation\<close>

definition validTransport :: "TransportType \<Rightarrow> bool" where
  "validTransport transport \<longleftrightarrow> transport = UnixDomainSocket \<or> transport = SharedMemory"

definition validPoolMetadata :: "TransportType \<Rightarrow> SharedPoolMetadata \<Rightarrow> bool" where
  "validPoolMetadata transport pool =
     (if transport = UnixDomainSocket
      then spm_shm_name pool = [] \<and> spm_pool_id pool = 0 \<and> spm_segment_size pool = 0 \<and>
        spm_layout_version pool = 0
      else 2 \<le> length (spm_shm_name pool) \<and> length (spm_shm_name pool) \<le> 192 \<and>
        hd (spm_shm_name pool) = CHR ''/'' \<and> CHR 0x00 \<notin> set (spm_shm_name pool) \<and>
        CHR ''/'' \<notin> set (tl (spm_shm_name pool)) \<and> spm_pool_id pool \<noteq> 0 \<and>
        spm_segment_size pool \<noteq> 0 \<and> spm_layout_version pool = 1)"

definition validQueueMetadata :: "TransportType \<Rightarrow> SharedQueueMetadata \<Rightarrow> bool" where
  "validQueueMetadata transport queue =
     (if transport = UnixDomainSocket
      then sqm_shm_name queue = [] \<and> sqm_queue_id queue = 0 \<and> sqm_segment_size queue = 0 \<and>
        sqm_capacity queue = 0 \<and> sqm_layout_version queue = 0 \<and> sqm_overflow_policy queue = 0 \<and>
        sqm_block_timeout_ms queue = 0
      else
        let valid_policy = (sqm_overflow_policy queue \<ge> overflowPolicyValue DropNewest \<and>
              sqm_overflow_policy queue \<le> overflowPolicyValue BlockWithTimeout) in
        2 \<le> length (sqm_shm_name queue) \<and> length (sqm_shm_name queue) \<le> 192 \<and>
        hd (sqm_shm_name queue) = CHR ''/'' \<and> CHR 0x00 \<notin> set (sqm_shm_name queue) \<and>
        CHR ''/'' \<notin> set (tl (sqm_shm_name queue)) \<and> sqm_queue_id queue \<noteq> 0 \<and>
        sqm_segment_size queue \<noteq> 0 \<and> sqm_capacity queue \<noteq> 0 \<and> sqm_capacity queue \<le> 65536 \<and>
        sqm_layout_version queue = 3 \<and> valid_policy \<and> sqm_block_timeout_ms queue \<noteq> 0)"

section \<open>Nodes and heartbeats\<close>

definition registerNode :: "ConnectionId \<Rightarrow> string \<Rightarrow> int \<Rightarrow> RegistryState \<Rightarrow> IdResult \<times> RegistryState" where
  "registerNode connection node_name now st =
     (if node_name = [] then (\<lparr>ir_error = InvalidArgument, ir_id = 0, ir_session_id = 0\<rparr>, st)
      else if omap_find node_name (rs_node_names st) \<noteq> None
      then (\<lparr>ir_error = DuplicateNode, ir_id = 0, ir_session_id = 0\<rparr>, st)
      else
        let node_id = rs_next_node_id st;
            session_id = rs_next_session_id st;
            node = \<lparr>nr_node_id = node_id, nr_session_id = session_id, nr_node_name = node_name,
              nr_control_connection = connection, nr_heartbeat_connection = 0,
              nr_liveness = Alive, nr_last_seen = now, nr_publisher_endpoints = {},
              nr_subscriber_endpoints = {}\<rparr> in
        (\<lparr>ir_error = Ok, ir_id = node_id, ir_session_id = session_id\<rparr>,
         st\<lparr>rs_next_node_id := node_id + 1, rs_next_session_id := session_id + 1,
            rs_nodes := omap_emplace node_id node (rs_nodes st),
            rs_node_names := omap_emplace node_name node_id (rs_node_names st)\<rparr>))"

definition ownedNode :: "ConnectionId \<Rightarrow> u64 \<Rightarrow> RegistryState \<Rightarrow> NodeRecord option" where
  "ownedNode connection node_id st =
     (case omap_find node_id (rs_nodes st) of
        None \<Rightarrow> None
      | Some node \<Rightarrow> if nr_control_connection node \<noteq> connection then None else Some node)"

definition attachHeartbeat :: "ConnectionId \<Rightarrow> u64 \<Rightarrow> u64 \<Rightarrow> RegistryState \<Rightarrow> ErrorCode \<times> RegistryState" where
  "attachHeartbeat connection node_id session_id st =
     (case omap_find node_id (rs_nodes st) of
        None \<Rightarrow> (NotRegistered, st)
      | Some node \<Rightarrow>
          if nr_session_id node \<noteq> session_id \<or> connection = 0 then (NotRegistered, st)
          else if nr_heartbeat_connection node \<noteq> 0 \<and> nr_heartbeat_connection node \<noteq> connection
          then (NotRegistered, st)
          else (Ok, st\<lparr>rs_nodes := omap_modify node_id
                  (\<lambda>node. node\<lparr>nr_heartbeat_connection := connection\<rparr>) (rs_nodes st)\<rparr>))"

definition heartbeat :: "ConnectionId \<Rightarrow> u64 \<Rightarrow> u64 \<Rightarrow> int \<Rightarrow> RegistryState \<Rightarrow> HeartbeatResult \<times> RegistryState" where
  "heartbeat connection node_id session_id now st =
     (case omap_find node_id (rs_nodes st) of
        None \<Rightarrow> (\<lparr>hr_error = NotRegistered, hr_state = Dead\<rparr>, st)
      | Some node \<Rightarrow>
          if nr_session_id node \<noteq> session_id then (\<lparr>hr_error = NotRegistered, hr_state = Dead\<rparr>, st)
          else if connection \<noteq> nr_control_connection node \<and> connection \<noteq> nr_heartbeat_connection node
          then (\<lparr>hr_error = NotRegistered, hr_state = nr_liveness node\<rparr>, st)
          else
            (\<lparr>hr_error = Ok, hr_state = Alive\<rparr>,
             st\<lparr>rs_nodes := omap_modify node_id
                  (\<lambda>node. node\<lparr>nr_last_seen := now, nr_liveness := Alive\<rparr>) (rs_nodes st),
                rs_metrics := (rs_metrics st)\<lparr>rm_heartbeat_received :=
                  rm_heartbeat_received (rs_metrics st) + 1\<rparr>\<rparr>))"

definition detachHeartbeatConnection :: "ConnectionId \<Rightarrow> RegistryState \<Rightarrow> RegistryState" where
  "detachHeartbeatConnection connection st =
     st\<lparr>rs_nodes := map (\<lambda>(k, node). (k, if nr_heartbeat_connection node = connection
          then node\<lparr>nr_heartbeat_connection := 0\<rparr> else node)) (rs_nodes st)\<rparr>"

section \<open>Topics\<close>

text \<open>The returned reference is the key under which the topic is stored, with the record there.\<close>

definition findOrCreateTopic ::
  "string \<Rightarrow> string \<Rightarrow> string \<Rightarrow> size_t \<Rightarrow> TransportType \<Rightarrow> RegistryState
     \<Rightarrow> ((u64 \<times> TopicRecord) \<times> RegistryState) option" where
  "findOrCreateTopic topic_name type_name type_hash max_message_size transport st =
     (case omap_find topic_name (rs_topic_names st) of
        Some topic_id \<Rightarrow>
          do { topic \<leftarrow> omap_find topic_id (rs_topics st); Some ((topic_id, topic), st) }
      | None \<Rightarrow>
          let topic_id = rs_next_topic_id st;
              st = st\<lparr>rs_next_topic_id := topic_id + 1,
                rs_topics := omap_emplace topic_id
                  \<lparr>tr_topic_id = topic_id, tr_topic_name = topic_name, tr_type_name = type_name,
                   tr_type_hash = type_hash, tr_transport = transport,
                   tr_max_message_size = max_message_size, tr_publisher_endpoint = None,
                   tr_subscriber_endpoints = {}, tr_pool = emptyPool\<rparr> (rs_topics st),
                rs_topic_names := omap_emplace topic_name topic_id (rs_topic_names st)\<rparr> in
          do { topic \<leftarrow> omap_find topic_id (rs_topics st); Some ((topic_id, topic), st) })"

fun minSubscriberSize :: "u64 list \<Rightarrow> (u64, SubscriberEndpoint) omap \<Rightarrow> size_t \<Rightarrow> size_t option" where
  "minSubscriberSize [] subscribers maximum = Some maximum"
| "minSubscriberSize (e # es) subscribers maximum =
     do { subscriber \<leftarrow> omap_find e subscribers;
          minSubscriberSize es subscribers (min maximum (se_max_message_size subscriber)) }"

definition recomputeTopicMaxMessageSize :: "u64 \<Rightarrow> RegistryState \<Rightarrow> RegistryState option" where
  "recomputeTopicMaxMessageSize topic_id st =
     do { topic \<leftarrow> omap_find topic_id (rs_topics st);
          maximum \<leftarrow> (case tr_publisher_endpoint topic of
              None \<Rightarrow> Some SIZE_MAX
            | Some e \<Rightarrow> do { publisher \<leftarrow> omap_find e (rs_publishers st);
                            Some (min SIZE_MAX (pe_max_message_size publisher)) });
          maximum \<leftarrow> minSubscriberSize (sorted_list_of_set (tr_subscriber_endpoints topic))
            (rs_subscribers st) maximum;
          let has_endpoint = (tr_publisher_endpoint topic \<noteq> None \<or> tr_subscriber_endpoints topic \<noteq> {});
          Some (if has_endpoint
                then st\<lparr>rs_topics := omap_modify topic_id
                       (\<lambda>topic. topic\<lparr>tr_max_message_size := maximum\<rparr>) (rs_topics st)\<rparr>
                else st) }"

definition eraseTopicIfEmpty :: "u64 \<Rightarrow> RegistryState \<Rightarrow> RegistryState" where
  "eraseTopicIfEmpty topic_id st =
     (case omap_find topic_id (rs_topics st) of
        None \<Rightarrow> st
      | Some topic \<Rightarrow>
          if tr_publisher_endpoint topic \<noteq> None \<or> tr_subscriber_endpoints topic \<noteq> {} then st
          else st\<lparr>rs_topic_names := omap_erase (tr_topic_name topic) (rs_topic_names st),
                  rs_topics := omap_erase topic_id (rs_topics st)\<rparr>)"

section \<open>Endpoints\<close>

definition endpointError :: "ErrorCode \<Rightarrow> u64 \<Rightarrow> EndpointResult" where
  "endpointError error topic_id =
     \<lparr>epr_error = error, epr_topic_id = topic_id, epr_endpoint_id = 0, epr_pool = emptyPool\<rparr>"

text \<open>The checks of \<open>advertise\<close> and \<open>subscribe\<close> against a topic that exists already.\<close>

definition topicConflict ::
  "string \<Rightarrow> string \<Rightarrow> string \<Rightarrow> TransportType \<Rightarrow> bool \<Rightarrow> RegistryState \<Rightarrow> EndpointResult option option" where
  "topicConflict topic_name type_name type_hash transport publishing st =
     (case omap_find topic_name (rs_topic_names st) of
        None \<Rightarrow> Some None
      | Some topic_id \<Rightarrow>
          do { topic \<leftarrow> omap_find topic_id (rs_topics st);
               Some (if tr_type_name topic \<noteq> type_name \<or> tr_type_hash topic \<noteq> type_hash
                     then Some (endpointError TypeMismatch (tr_topic_id topic))
                     else if tr_transport topic \<noteq> transport
                     then Some (endpointError TransportMismatch (tr_topic_id topic))
                     else if publishing \<and> tr_publisher_endpoint topic \<noteq> None
                     then Some (endpointError DuplicatePublisher (tr_topic_id topic))
                     else None) })"

definition advertise ::
  "ConnectionId \<Rightarrow> u64 \<Rightarrow> string \<Rightarrow> string \<Rightarrow> string \<Rightarrow> size_t \<Rightarrow> TransportType \<Rightarrow> SharedPoolMetadata
     \<Rightarrow> RegistryState \<Rightarrow> (EndpointResult \<times> RegistryState) option" where
  "advertise connection node_id topic_name type_name type_hash max_message_size transport pool st =
     (case ownedNode connection node_id st of
        None \<Rightarrow> Some (endpointError NotRegistered 0, st)
      | Some node \<Rightarrow>
          if topic_name = [] \<or> type_name = [] \<or> type_hash = [] \<or> max_message_size > 0xFFFFFFFF \<or>
            \<not> validTransport transport \<or> \<not> validPoolMetadata transport pool
          then Some (endpointError InvalidArgument 0, st)
          else
            do { conflict \<leftarrow> topicConflict topic_name type_name type_hash transport True st;
                 (case conflict of
                    Some result \<Rightarrow> Some (result, st)
                  | None \<Rightarrow>
                      do { ((key, topic), st) \<leftarrow> findOrCreateTopic topic_name type_name type_hash
                             max_message_size transport st;
                           let endpoint_id = rs_next_endpoint_id st;
                           let topic_id = tr_topic_id topic;
                           Some (\<lparr>epr_error = Ok, epr_topic_id = topic_id,
                                   epr_endpoint_id = endpoint_id, epr_pool = pool\<rparr>,
                             st\<lparr>rs_next_endpoint_id := endpoint_id + 1,
                                rs_publishers := omap_emplace endpoint_id
                                  \<lparr>pe_endpoint_id = endpoint_id, pe_node_id = node_id,
                                   pe_topic_id = topic_id, pe_max_message_size = max_message_size,
                                   pe_transport = transport, pe_pool = pool\<rparr> (rs_publishers st),
                                rs_topics := omap_modify key
                                  (\<lambda>topic. topic\<lparr>tr_publisher_endpoint := Some endpoint_id,
                                     tr_pool := pool,
                                     tr_max_message_size :=
                                       min (tr_max_message_size topic) max_message_size\<rparr>)
                                  (rs_topics st),
                                rs_nodes := omap_modify node_id
                                  (\<lambda>node. node\<lparr>nr_publisher_endpoints :=
                                     insert endpoint_id (nr_publisher_endpoints node)\<rparr>)
                                  (rs_nodes st)\<rparr>) }) })"

definition unadvertise ::
  "ConnectionId \<Rightarrow> u64 \<Rightarrow> u64 \<Rightarrow> RegistryState \<Rightarrow> (ErrorCode \<times> RegistryState) option" where
  "unadvertise connection node_id endpoint_id st =
     (case (ownedNode connection node_id st, omap_find endpoint_id (rs_publishers st)) of
        (Some node, Some endpoint) \<Rightarrow>
          if pe_node_id endpoint \<noteq> node_id then Some (EndpointNotFound, st)
          else
            let topic_id = pe_topic_id endpoint;
                st = st\<lparr>rs_nodes := omap_modify node_id
                         (\<lambda>node. node\<lparr>nr_publisher_endpoints :=
                            nr_publisher_endpoints node - {endpoint_id}\<rparr>) (rs_nodes st),
                       rs_publishers := omap_erase endpoint_id (rs_publishers st)\<rparr> in
            do { topic \<leftarrow> omap_find topic_id (rs_topics st);
                 let st = st\<lparr>rs_topics := omap_modify topic_id
                       (\<lambda>topic. topic\<lparr>tr_publisher_endpoint := None, tr_pool := emptyPool\<rparr>)
                       (rs_topics st)\<rparr>;
                 st \<leftarrow> recomputeTopicMaxMessageSize topic_id st;
                 Some (Ok, eraseTopicIfEmpty topic_id st) }
      | _ \<Rightarrow> Some (EndpointNotFound, st))"

definition subscribe ::
  "ConnectionId \<Rightarrow> u64 \<Rightarrow> string \<Rightarrow> string \<Rightarrow> string \<Rightarrow> size_t \<Rightarrow> string \<Rightarrow> TransportType
     \<Rightarrow> SharedQueueMetadata \<Rightarrow> RegistryState \<Rightarrow> (EndpointResult \<times> RegistryState) option" where
  "subscribe connection node_id topic_name type_name type_hash max_message_size data_socket_path
       transport queue st =
     (case ownedNode connection node_id st of
        None \<Rightarrow> Some (endpointError NotRegistered 0, st)
      | Some node \<Rightarrow>
          if topic_name = [] \<or> type_name = [] \<or> type_hash = [] \<or> data_socket_path = [] \<or>
            max_message_size > 0xFFFFFFFF \<or> \<not> validTransport transport \<or>
            \<not> validQueueMetadata transport queue
          then Some (endpointError InvalidArgument 0, st)
          else
            do { conflict \<leftarrow> topicConflict topic_name type_name type_hash transport False st;
                 (case conflict of
                    Some result \<Rightarrow> Some (result, st)
                  | None \<Rightarrow>
                      do { ((key, topic), st) \<leftarrow> findOrCreateTopic topic_name type_name type_hash
                             max_message_size transport st;
                           let endpoint_id = rs_next_endpoint_id st;
                           let topic_id = tr_topic_id topic;
                           Some (\<lparr>epr_error = Ok, epr_topic_id = topic_id,
                                   epr_endpoint_id = endpoint_id, epr_pool = tr_pool topic\<rparr>,
                             st\<lparr>rs_next_endpoint_id := endpoint_id + 1,
                                rs_subscribers := omap_emplace endpoint_id
                                  \<lparr>se_endpoint_id = endpoint_id, se_node_id = node_id,
                                   se_topic_id = topic_id, se_data_socket_path = data_socket_path,
                                   se_max_message_size = max_message_size,
                                   se_transport = transport, se_queue = queue\<rparr> (rs_subscribers st),
                                rs_topics := omap_modify key
                                  (\<lambda>topic. topic\<lparr>tr_subscriber_endpoints :=
                                       insert endpoint_id (tr_subscriber_endpoints topic),
                                     tr_max_message_size :=
                                       min (tr_max_message_size topic) max_message_size\<rparr>)
                                  (rs_topics st),
                                rs_nodes := omap_modify node_id
                                  (\<lambda>node. node\<lparr>nr_subscriber_endpoints :=
                                     insert endpoint_id (nr_subscriber_endpoints node)\<rparr>)
                                  (rs_nodes st)\<rparr>) }) })"

definition unsubscribe ::
  "ConnectionId \<Rightarrow> u64 \<Rightarrow> u64 \<Rightarrow> RegistryState \<Rightarrow> (ErrorCode \<times> RegistryState) option" where
  "unsubscribe connection node_id endpoint_id st =
     (case (ownedNode connection node_id st, omap_find endpoint_id (rs_subscribers st)) of
        (Some node, Some endpoint) \<Rightarrow>
          if se_node_id endpoint \<noteq> node_id then Some (EndpointNotFound, st)
          else
            let topic_id = se_topic_id endpoint;
                st = st\<lparr>rs_nodes := omap_modify node_id
                         (\<lambda>node. node\<lparr>nr_subscriber_endpoints :=
                            nr_subscriber_endpoints node - {endpoint_id}\<rparr>) (rs_nodes st),
                       rs_subscribers := omap_erase endpoint_id (rs_subscribers st)\<rparr> in
            do { topic \<leftarrow> omap_find topic_id (rs_topics st);
                 let st = st\<lparr>rs_topics := omap_modify topic_id
                       (\<lambda>topic. topic\<lparr>tr_subscriber_endpoints :=
                          tr_subscriber_endpoints topic - {endpoint_id}\<rparr>) (rs_topics st)\<rparr>;
                 st \<leftarrow> recomputeTopicMaxMessageSize topic_id st;
                 Some (Ok, eraseTopicIfEmpty topic_id st) }
      | _ \<Rightarrow> Some (EndpointNotFound, st))"

section \<open>Removing nodes\<close>

fun unadvertiseAll :: "ConnectionId \<Rightarrow> u64 \<Rightarrow> u64 list \<Rightarrow> RegistryState \<Rightarrow> RegistryState option" where
  "unadvertiseAll connection node_id [] st = Some st"
| "unadvertiseAll connection node_id (e # es) st =
     do { (_, st) \<leftarrow> unadvertise connection node_id e st; unadvertiseAll connection node_id es st }"

fun unsubscribeAll :: "ConnectionId \<Rightarrow> u64 \<Rightarrow> u64 list \<Rightarrow> RegistryState \<Rightarrow> RegistryState option" where
  "unsubscribeAll connection node_id [] st = Some st"
| "unsubscribeAll connection node_id (e # es) st =
     do { (_, st) \<leftarrow> unsubscribe connection node_id e st; unsubscribeAll connection node_id es st }"

definition unregisterNode :: "ConnectionId \<Rightarrow> u64 \<Rightarrow> RegistryState \<Rightarrow> (ErrorCode \<times> RegistryState) option" where
  "unregisterNode connection node_id st =
     (case ownedNode connection node_id st of
        None \<Rightarrow> Some (NotRegistered, st)
      | Some node \<Rightarrow>
          do { st \<leftarrow> unadvertiseAll connection node_id
                 (sorted_list_of_set (nr_publisher_endpoints node)) st;
               st \<leftarrow> unsubscribeAll connection node_id
                 (sorted_list_of_set (nr_subscriber_endpoints node)) st;
               Some (Ok, st\<lparr>rs_node_names := omap_erase (nr_node_name node) (rs_node_names st),
                           rs_nodes := omap_erase node_id (rs_nodes st)\<rparr>) })"

fun publisherDeadEvents ::
  "u64 list \<Rightarrow> u64 \<Rightarrow> PublisherEndpoint \<Rightarrow> RegistryState \<Rightarrow> PeerEventRecord list" where
  "publisherDeadEvents [] endpoint_id publisher st = []"
| "publisherDeadEvents (s # ss) endpoint_id publisher st =
     (case omap_find s (rs_subscribers st) of
        None \<Rightarrow> []
      | Some subscriber \<Rightarrow>
          [\<lparr>pv_kind = PublisherDead, pv_target_node_id = se_node_id subscriber,
            pv_target_endpoint_id = s, pv_dead_endpoint_id = endpoint_id,
            pv_topic_id = pe_topic_id publisher,
            pv_resource_id = spm_pool_id (pe_pool publisher)\<rparr>]) @
     publisherDeadEvents ss endpoint_id publisher st"

fun cleanupPublishers :: "u64 list \<Rightarrow> RegistryState \<Rightarrow> DeadNodeCleanup \<Rightarrow> DeadNodeCleanup option" where
  "cleanupPublishers [] st cleanup = Some cleanup"
| "cleanupPublishers (e # es) st cleanup =
     (case omap_find e (rs_publishers st) of
        None \<Rightarrow> cleanupPublishers es st cleanup
      | Some publisher \<Rightarrow>
          let cleanup = (if spm_shm_name (pe_pool publisher) \<noteq> []
                then cleanup\<lparr>dn_pools := dn_pools cleanup @ [pe_pool publisher]\<rparr> else cleanup) in
          do { topic \<leftarrow> omap_find (pe_topic_id publisher) (rs_topics st);
               cleanupPublishers es st (cleanup\<lparr>dn_peer_events := dn_peer_events cleanup @
                 publisherDeadEvents (sorted_list_of_set (tr_subscriber_endpoints topic)) e
                   publisher st\<rparr>) })"

definition subscriberDeadEvents ::
  "u64 \<Rightarrow> SubscriberEndpoint \<Rightarrow> TopicRecord \<Rightarrow> RegistryState \<Rightarrow> PeerEventRecord list" where
  "subscriberDeadEvents endpoint_id subscriber topic st =
     (case tr_publisher_endpoint topic of
        None \<Rightarrow> []
      | Some p \<Rightarrow>
          (case omap_find p (rs_publishers st) of
             None \<Rightarrow> []
           | Some publisher \<Rightarrow>
               [\<lparr>pv_kind = SubscriberDead, pv_target_node_id = pe_node_id publisher,
                 pv_target_endpoint_id = pe_endpoint_id publisher,
                 pv_dead_endpoint_id = endpoint_id, pv_topic_id = se_topic_id subscriber,
                 pv_resource_id = sqm_queue_id (se_queue subscriber)\<rparr>]))"

fun cleanupSubscribers :: "u64 list \<Rightarrow> RegistryState \<Rightarrow> DeadNodeCleanup \<Rightarrow> DeadNodeCleanup option" where
  "cleanupSubscribers [] st cleanup = Some cleanup"
| "cleanupSubscribers (e # es) st cleanup =
     (case omap_find e (rs_subscribers st) of
        None \<Rightarrow> cleanupSubscribers es st cleanup
      | Some subscriber \<Rightarrow>
          let cleanup = (if sqm_shm_name (se_queue subscriber) \<noteq> []
                then cleanup\<lparr>dn_queues := dn_queues cleanup @ [se_queue subscriber]\<rparr> else cleanup);
              cleanup = cleanup\<lparr>dn_socket_paths :=
                dn_socket_paths cleanup @ [se_data_socket_path subscriber]\<rparr> in
          do { topic \<leftarrow> omap_find (se_topic_id subscriber) (rs_topics st);
               cleanupSubscribers es st (cleanup\<lparr>dn_peer_events := dn_peer_events cleanup @
                 subscriberDeadEvents e subscriber topic st\<rparr>) })"

text \<open>The inner \<open>option\<close> is the function's \<open>std::optional\<close>, the outer one the exception.\<close>

definition cleanupDeadNode :: "u64 \<Rightarrow> RegistryState \<Rightarrow> (DeadNodeCleanup option \<times> RegistryState) option" where
  "cleanupDeadNode node_id st =
     (case omap_find node_id (rs_nodes st) of
        None \<Rightarrow> Some (None, st)
      | Some node \<Rightarrow>
          do { cleanup \<leftarrow> cleanupPublishers (sorted_list_of_set (nr_publisher_endpoints node)) st
                 \<lparr>dn_node_id = nr_node_id node, dn_session_id = nr_session_id node,
                  dn_control_connection = nr_control_connection node,
                  dn_heartbeat_connection = nr_heartbeat_connection node, dn_pools = [],
                  dn_queues = [], dn_socket_paths = [], dn_peer_events = []\<rparr>;
               cleanup \<leftarrow> cleanupSubscribers (sorted_list_of_set (nr_subscriber_endpoints node)) st
                 cleanup;
               (_, st) \<leftarrow> unregisterNode (nr_control_connection node) (nr_node_id node) st;
               Some (Some cleanup, st\<lparr>rs_metrics := (rs_metrics st)
                 \<lparr>rm_dead_node_count := rm_dead_node_count (rs_metrics st) + 1\<rparr>\<rparr>) })"

fun cleanupAll :: "u64 list \<Rightarrow> RegistryState \<Rightarrow> (DeadNodeCleanup list \<times> RegistryState) option" where
  "cleanupAll [] st = Some ([], st)"
| "cleanupAll (n # ns) st =
     do { (cleanup, st) \<leftarrow> cleanupDeadNode n st;
          (cleanups, st) \<leftarrow> cleanupAll ns st;
          Some ((case cleanup of None \<Rightarrow> [] | Some c \<Rightarrow> [c]) @ cleanups, st) }"

section \<open>Liveness\<close>

text \<open>The first loop of \<open>evaluateLiveness\<close>: new records, suspicions counted and reported, the dead.\<close>

fun livenessPass ::
  "LivenessConfig \<Rightarrow> int \<Rightarrow> (u64, NodeRecord) omap \<Rightarrow> u64
     \<Rightarrow> (u64, NodeRecord) omap \<times> u64 \<times> u64 list \<times> u64 list" where
  "livenessPass config now [] suspected_count = ([], suspected_count, [], [])"
| "livenessPass config now ((k, node) # nodes) suspected_count =
     (let elapsed = now - nr_last_seen node;
          suspect = (elapsed \<ge> suspect_timeout config * 1000000 \<and> nr_liveness node = Alive);
          dead = (elapsed \<ge> dead_timeout config * 1000000);
          (nodes, count, suspected, deads) = livenessPass config now nodes
            (if suspect then suspected_count + 1 else suspected_count) in
      ((k, if suspect then node\<lparr>nr_liveness := Suspected\<rparr> else node) # nodes, count,
       (if suspect \<and> elapsed < dead_timeout config * 1000000 then [nr_node_id node] else []) @ suspected,
       (if dead then [nr_node_id node] else []) @ deads))"

definition evaluateLiveness :: "int \<Rightarrow> RegistryState \<Rightarrow> (LivenessUpdate \<times> RegistryState) option" where
  "evaluateLiveness now st =
     (let (nodes, count, suspected, dead_ids) = livenessPass (rs_liveness st) now (rs_nodes st)
            (rm_suspected_count (rs_metrics st));
          st = st\<lparr>rs_nodes := nodes, rs_metrics := (rs_metrics st)\<lparr>rm_suspected_count := count\<rparr>\<rparr> in
      do { (cleanups, st) \<leftarrow> cleanupAll dead_ids st;
           Some (\<lparr>lu_suspected_nodes = suspected, lu_dead_nodes = cleanups\<rparr>, st) })"

definition disconnectConnection ::
  "ConnectionId \<Rightarrow> RegistryState \<Rightarrow> (DeadNodeCleanup list \<times> RegistryState) option" where
  "disconnectConnection connection st =
     (let node_ids = map fst (filter (\<lambda>(k, node). nr_control_connection node = connection)
            (rs_nodes st)) in
      do { (cleanups, st) \<leftarrow> cleanupAll node_ids st;
           Some (cleanups, if cleanups = [] then detachHeartbeatConnection connection st else st) })"

section \<open>Queries\<close>

fun discoveredSubscribers ::
  "u64 list \<Rightarrow> (u64, SubscriberEndpoint) omap \<Rightarrow> DiscoveredSubscriber list option" where
  "discoveredSubscribers [] subscribers = Some []"
| "discoveredSubscribers (e # es) subscribers =
     do { s \<leftarrow> omap_find e subscribers;
          ds \<leftarrow> discoveredSubscribers es subscribers;
          Some (\<lparr>ds_endpoint_id = se_endpoint_id s, ds_data_socket_path = se_data_socket_path s,
                 ds_max_message_size = se_max_message_size s, ds_queue = se_queue s\<rparr> # ds) }"

definition resolve :: "ConnectionId \<Rightarrow> u64 \<Rightarrow> u64 \<Rightarrow> RegistryState \<Rightarrow> DiscoveryResult option" where
  "resolve connection node_id publisher_endpoint_id st =
     (let failed = \<lparr>dr_error = EndpointNotFound, dr_topic_id = 0, dr_transport = UnixDomainSocket,
            dr_pool = emptyPool, dr_subscribers = []\<rparr> in
      case (ownedNode connection node_id st, omap_find publisher_endpoint_id (rs_publishers st)) of
        (Some node, Some publisher) \<Rightarrow>
          if pe_node_id publisher \<noteq> node_id then Some failed
          else
            do { topic \<leftarrow> omap_find (pe_topic_id publisher) (rs_topics st);
                 if tr_subscriber_endpoints topic = {}
                 then Some \<lparr>dr_error = TopicNotFound, dr_topic_id = tr_topic_id topic,
                        dr_transport = tr_transport topic, dr_pool = tr_pool topic,
                        dr_subscribers = []\<rparr>
                 else do { ds \<leftarrow> discoveredSubscribers
                             (sorted_list_of_set (tr_subscriber_endpoints topic)) (rs_subscribers st);
                           Some \<lparr>dr_error = Ok, dr_topic_id = tr_topic_id topic,
                              dr_transport = tr_transport topic, dr_pool = tr_pool topic,
                              dr_subscribers = ds\<rparr> } }
      | _ \<Rightarrow> Some failed)"

definition listNodes :: "RegistryState \<Rightarrow> NodeRecord list" where
  "listNodes st = sort_key nr_node_name (map snd (rs_nodes st))"

definition listTopics :: "RegistryState \<Rightarrow> TopicRecord list" where
  "listTopics st = sort_key tr_topic_name (map snd (rs_topics st))"

definition queryTopic :: "string \<Rightarrow> RegistryState \<Rightarrow> TopicRecord option option" where
  "queryTopic topic_name st =
     (case omap_find topic_name (rs_topic_names st) of
        None \<Rightarrow> Some None
      | Some topic_id \<Rightarrow> do { topic \<leftarrow> omap_find topic_id (rs_topics st); Some (Some topic) })"

definition statsSnapshot :: "RegistryState \<Rightarrow> RegistryStatsSnapshot" where
  "statsSnapshot st =
     \<lparr>rss_node_count = word_of_nat (length (rs_nodes st)),
      rss_topic_count = word_of_nat (length (rs_topics st)),
      rss_publisher_count = word_of_nat (length (rs_publishers st)),
      rss_subscriber_count = word_of_nat (length (rs_subscribers st)),
      rss_heartbeat_received = rm_heartbeat_received (rs_metrics st),
      rss_suspected_count = rm_suspected_count (rs_metrics st),
      rss_dead_node_count = rm_dead_node_count (rs_metrics st)\<rparr>"

definition publisherEndpoint :: "u64 \<Rightarrow> RegistryState \<Rightarrow> PublisherEndpoint option" where
  "publisherEndpoint endpoint_id st = omap_find endpoint_id (rs_publishers st)"

definition registry_node :: "u64 \<Rightarrow> RegistryState \<Rightarrow> NodeRecord option" where
  "registry_node node_id st = omap_find node_id (rs_nodes st)"

end
