(* ===== verification/MW_Registry_Invariant.thy ===== *)
theory MW_Registry_Invariant
  imports MW_Registry_State
begin

text \<open>
  The invariant of the registry's tables and its preservation by the operations of
  \<open>src/registry/src/registry_state.cpp\<close>.  Names and identifiers determine each other, the endpoint
  sets of nodes and topics are exactly the endpoints that name them, and the negotiated size of a
  topic is the minimum over its endpoints.  The invariant carries a set of topics that are exempt
  from the last clause: the operations create a topic before its first endpoint and remove it after
  its last one.
\<close>

section \<open>Tables with names\<close>

definition table_ok :: "('r \<Rightarrow> u64) \<Rightarrow> u64 \<Rightarrow> (u64, 'r) omap \<Rightarrow> bool" where
  "table_ok id_of bound table \<longleftrightarrow>
     omap_ok table \<and> (\<forall>k r. omap_find k table = Some r \<longrightarrow> id_of r = k \<and> k < bound)"

definition named_ok ::
  "('r \<Rightarrow> u64) \<Rightarrow> ('r \<Rightarrow> string) \<Rightarrow> u64 \<Rightarrow> (u64, 'r) omap \<Rightarrow> (string, u64) omap \<Rightarrow> bool" where
  "named_ok id_of name_of bound table names \<longleftrightarrow>
     table_ok id_of bound table \<and> omap_ok names \<and>
     (\<forall>k r. omap_find k table = Some r \<longrightarrow> omap_find (name_of r) names = Some k) \<and>
     (\<forall>s k. omap_find s names = Some k \<longrightarrow> (\<exists>r. omap_find k table = Some r \<and> name_of r = s))"

lemma table_ok_fresh: "table_ok id_of bound table \<Longrightarrow> omap_find bound table = None"
  by (cases "omap_find bound table") (auto simp: table_ok_def)

lemma less_succ_word: "n \<noteq> - 1 \<Longrightarrow> k \<le> n \<Longrightarrow> k < n + 1" for k n :: u64
  using unat_Suc_no_wrap [of n] by (simp add: word_less_nat_alt word_le_nat_alt)

lemma table_ok_emplace:
  assumes "table_ok id_of bound table" "id_of r = bound" "bound \<noteq> - 1"
  shows "table_ok id_of (bound + 1) (omap_emplace bound r table)"
  using assms table_ok_fresh [OF assms(1)]
  by (auto simp: table_ok_def omap_find_emplace split: if_splits intro!: less_succ_word less_imp_le)

lemma table_ok_weaken: "table_ok id_of bound table \<Longrightarrow> bound \<noteq> - 1 \<Longrightarrow> table_ok id_of (bound + 1) table"
  by (auto simp: table_ok_def intro!: less_succ_word less_imp_le)

lemma table_ok_modify:
  assumes "table_ok id_of bound table" "\<And>r. id_of (f r) = id_of r"
  shows "table_ok id_of bound (omap_modify k f table)"
  using assms by (auto simp: table_ok_def)

lemma table_ok_erase: "table_ok id_of bound table \<Longrightarrow> table_ok id_of bound (omap_erase k table)"
  by (auto simp: table_ok_def split: if_splits)

lemma named_ok_emplace:
  assumes "named_ok id_of name_of bound table names" "id_of r = bound" "bound \<noteq> - 1"
    "omap_find (name_of r) names = None"
  shows "named_ok id_of name_of (bound + 1) (omap_emplace bound r table)
    (omap_emplace (name_of r) bound names)"
proof -
  have t: "table_ok id_of bound table" using assms(1) by (simp add: named_ok_def)
  then have ok: "omap_ok table" "omap_ok names" using assms(1) by (auto simp: table_ok_def named_ok_def)
  have fresh: "omap_find k table = Some x \<Longrightarrow> name_of x \<noteq> name_of r"
    "omap_find s names = Some k \<Longrightarrow> k \<noteq> bound" for k x s
    using assms(1,4) table_ok_fresh [OF t] by (fastforce simp: named_ok_def)+
  show ?thesis unfolding named_ok_def
    using assms(1,4) ok fresh table_ok_fresh [OF t] table_ok_emplace [OF t assms(2,3)]
    by (auto simp: named_ok_def omap_find_emplace)
qed

lemma named_ok_modify:
  assumes "named_ok id_of name_of bound table names"
    "\<And>r. id_of (f r) = id_of r" "\<And>r. name_of (f r) = name_of r"
  shows "named_ok id_of name_of bound (omap_modify k f table) names"
  using assms by (fastforce simp: named_ok_def intro!: table_ok_modify)

lemma named_ok_erase:
  assumes "named_ok id_of name_of bound table names" "omap_find k table = Some r"
  shows "named_ok id_of name_of bound (omap_erase k table) (omap_erase (name_of r) names)"
  using assms by (auto simp: named_ok_def intro!: table_ok_erase split: if_splits) (metis option.inject)+

section \<open>The invariant\<close>

abbreviation publishersWith :: "(PublisherEndpoint \<Rightarrow> u64) \<Rightarrow> u64 \<Rightarrow> RegistryState \<Rightarrow> u64 set" where
  "publishersWith f k st \<equiv> {e. \<exists>p. omap_find e (rs_publishers st) = Some p \<and> f p = k}"

abbreviation subscribersWith :: "(SubscriberEndpoint \<Rightarrow> u64) \<Rightarrow> u64 \<Rightarrow> RegistryState \<Rightarrow> u64 set" where
  "subscribersWith f k st \<equiv> {e. \<exists>s. omap_find e (rs_subscribers st) = Some s \<and> f s = k}"

definition topic_sizes :: "RegistryState \<Rightarrow> u64 \<Rightarrow> size_t set" where
  "topic_sizes st t =
     {pe_max_message_size p | e p. omap_find e (rs_publishers st) = Some p \<and> pe_topic_id p = t} \<union>
     {se_max_message_size s | e s. omap_find e (rs_subscribers st) = Some s \<and> se_topic_id s = t}"

definition node_ok :: "RegistryState \<Rightarrow> u64 \<Rightarrow> NodeRecord \<Rightarrow> bool" where
  "node_ok st n r \<longleftrightarrow> nr_publisher_endpoints r = publishersWith pe_node_id n st \<and>
     nr_subscriber_endpoints r = subscribersWith se_node_id n st"

definition topic_ok :: "RegistryState \<Rightarrow> u64 \<Rightarrow> TopicRecord \<Rightarrow> bool" where
  "topic_ok st t r \<longleftrightarrow>
     set_option (tr_publisher_endpoint r) = publishersWith pe_topic_id t st \<and>
     tr_subscriber_endpoints r = subscribersWith se_topic_id t st \<and>
     (\<forall>e p. omap_find e (rs_publishers st) = Some p \<longrightarrow> pe_topic_id p = t \<longrightarrow> tr_pool r = pe_pool p) \<and>
     (tr_publisher_endpoint r = None \<longrightarrow> tr_pool r = emptyPool) \<and>
     (\<forall>m \<in> topic_sizes st t. tr_max_message_size r \<le> m)"

definition publisher_ok :: "RegistryState \<Rightarrow> PublisherEndpoint \<Rightarrow> bool" where
  "publisher_ok st p \<longleftrightarrow> omap_find (pe_node_id p) (rs_nodes st) \<noteq> None \<and>
     (\<exists>r. omap_find (pe_topic_id p) (rs_topics st) = Some r \<and> tr_transport r = pe_transport p) \<and>
     validTransport (pe_transport p) \<and> validPoolMetadata (pe_transport p) (pe_pool p)"

definition subscriber_ok :: "RegistryState \<Rightarrow> SubscriberEndpoint \<Rightarrow> bool" where
  "subscriber_ok st s \<longleftrightarrow> omap_find (se_node_id s) (rs_nodes st) \<noteq> None \<and>
     (\<exists>r. omap_find (se_topic_id s) (rs_topics st) = Some r \<and> tr_transport r = se_transport s) \<and>
     validTransport (se_transport s) \<and> validQueueMetadata (se_transport s) (se_queue s)"

definition registry_ok :: "u64 set \<Rightarrow> RegistryState \<Rightarrow> bool" where
  "registry_ok X st \<longleftrightarrow>
     named_ok nr_node_id nr_node_name (rs_next_node_id st) (rs_nodes st) (rs_node_names st) \<and>
     named_ok tr_topic_id tr_topic_name (rs_next_topic_id st) (rs_topics st) (rs_topic_names st) \<and>
     table_ok pe_endpoint_id (rs_next_endpoint_id st) (rs_publishers st) \<and>
     table_ok se_endpoint_id (rs_next_endpoint_id st) (rs_subscribers st) \<and>
     (\<forall>n r. omap_find n (rs_nodes st) = Some r \<longrightarrow> node_ok st n r) \<and>
     (\<forall>t r. omap_find t (rs_topics st) = Some r \<longrightarrow> topic_ok st t r) \<and>
     (\<forall>t r. omap_find t (rs_topics st) = Some r \<longrightarrow> t \<notin> X \<longrightarrow>
        tr_max_message_size r \<in> topic_sizes st t) \<and>
     (\<forall>e p. omap_find e (rs_publishers st) = Some p \<longrightarrow> publisher_ok st p) \<and>
     (\<forall>e s. omap_find e (rs_subscribers st) = Some s \<longrightarrow> subscriber_ok st s) \<and>
     (\<forall>e. omap_find e (rs_publishers st) = None \<or> omap_find e (rs_subscribers st) = None)"

abbreviation registry_inv :: "RegistryState \<Rightarrow> bool" where
  "registry_inv \<equiv> registry_ok {}"

lemma registry_ok_new: "registry_inv (newRegistryState liveness)"
  by (simp add: registry_ok_def newRegistryState_def named_ok_def table_ok_def)

lemma registry_ok_mono: "registry_ok X st \<Longrightarrow> X \<subseteq> Y \<Longrightarrow> registry_ok Y st"
  unfolding registry_ok_def by (elim conjE, intro conjI; (assumption | fast))

lemma registry_okD:
  assumes "registry_ok X st"
  shows "named_ok nr_node_id nr_node_name (rs_next_node_id st) (rs_nodes st) (rs_node_names st)"
    "named_ok tr_topic_id tr_topic_name (rs_next_topic_id st) (rs_topics st) (rs_topic_names st)"
    "table_ok pe_endpoint_id (rs_next_endpoint_id st) (rs_publishers st)"
    "table_ok se_endpoint_id (rs_next_endpoint_id st) (rs_subscribers st)"
    "omap_find n (rs_nodes st) = Some r \<Longrightarrow> node_ok st n r"
    "omap_find t (rs_topics st) = Some tr \<Longrightarrow> topic_ok st t tr"
    "omap_find t (rs_topics st) = Some tr \<Longrightarrow> t \<notin> X \<Longrightarrow> tr_max_message_size tr \<in> topic_sizes st t"
    "omap_find e (rs_publishers st) = Some p \<Longrightarrow> publisher_ok st p"
    "omap_find e (rs_subscribers st) = Some s \<Longrightarrow> subscriber_ok st s"
    "omap_find e (rs_publishers st) = None \<or> omap_find e (rs_subscribers st) = None"
  using assms by (simp_all add: registry_ok_def)

lemma registry_maps_ok:
  assumes "registry_ok X st"
  shows "omap_ok (rs_nodes st)" "omap_ok (rs_node_names st)" "omap_ok (rs_topics st)"
    "omap_ok (rs_topic_names st)" "omap_ok (rs_publishers st)" "omap_ok (rs_subscribers st)"
  using registry_okD(1-4) [OF assms] by (auto simp: named_ok_def table_ok_def)

lemma registry_node_id: "registry_ok X st \<Longrightarrow> omap_find n (rs_nodes st) = Some r \<Longrightarrow> nr_node_id r = n"
  using registry_okD(1) [of X st] by (auto simp: named_ok_def table_ok_def)

lemma registry_topic_id: "registry_ok X st \<Longrightarrow> omap_find t (rs_topics st) = Some r \<Longrightarrow> tr_topic_id r = t"
  using registry_okD(2) [of X st] by (auto simp: named_ok_def table_ok_def)

lemma registry_topic_named:
  assumes "registry_ok X st" "omap_find name (rs_topic_names st) = Some t"
  obtains r where "omap_find t (rs_topics st) = Some r" "tr_topic_name r = name"
  using registry_okD(2) [OF assms(1)] assms(2) that unfolding named_ok_def by blast

lemma finite_endpoints [simp]: "finite (publishersWith f k st)" "finite (subscribersWith g k st)"
proof -
  have "publishersWith f k st \<subseteq> dom (map_of (rs_publishers st))"
    "subscribersWith g k st \<subseteq> dom (map_of (rs_subscribers st))" by auto
  then show "finite (publishersWith f k st)" "finite (subscribersWith g k st)"
    by (meson finite_dom_map_of finite_subset)+
qed

section \<open>Nodes and heartbeats\<close>

text \<open>Writing the fields of a node that the invariant does not mention.\<close>

lemma registry_ok_node_fields:
  assumes ok: "registry_ok X st"
    and f: "\<And>r. nr_node_id (f r) = nr_node_id r" "\<And>r. nr_node_name (f r) = nr_node_name r"
      "\<And>r. nr_publisher_endpoints (f r) = nr_publisher_endpoints r"
      "\<And>r. nr_subscriber_endpoints (f r) = nr_subscriber_endpoints r"
  shows "registry_ok X (st\<lparr>rs_nodes := omap_modify n f (rs_nodes st), rs_metrics := m\<rparr>)"
  using ok named_ok_modify [OF registry_okD(1) [OF ok], of f n, OF f(1,2)]
  by (auto simp: registry_ok_def node_ok_def topic_ok_def publisher_ok_def subscriber_ok_def
      topic_sizes_def f)

lemma registry_ok_metrics: "registry_ok X (st\<lparr>rs_metrics := m\<rparr>) = registry_ok X st"
  by (simp add: registry_ok_def node_ok_def topic_ok_def publisher_ok_def subscriber_ok_def
      topic_sizes_def)

lemma heartbeat_ok: "registry_ok X st \<Longrightarrow> registry_ok X (snd (heartbeat connection n session now st))"
  by (auto simp: heartbeat_def intro!: registry_ok_node_fields split: option.split)

lemma attachHeartbeat_ok: "registry_ok X st \<Longrightarrow> registry_ok X (snd (attachHeartbeat connection n session st))"
  using registry_ok_node_fields [of X st "\<lambda>r. r\<lparr>nr_heartbeat_connection := connection\<rparr>" "rs_metrics st" n]
  by (auto simp: attachHeartbeat_def split: option.split)

lemma registerNode_ok:
  assumes ok: "registry_ok X st" and "rs_next_node_id st \<noteq> - 1"
  shows "registry_ok X (snd (registerNode connection name now st))"
proof -
  note named = registry_okD(1) [OF ok]
  have fresh: "omap_find (rs_next_node_id st) (rs_nodes st) = None"
    using named by (intro table_ok_fresh) (auto simp: named_ok_def)
  have none: "publishersWith pe_node_id (rs_next_node_id st) st = {}"
    "subscribersWith se_node_id (rs_next_node_id st) st = {}"
    using registry_okD(8,9) [OF ok] fresh by (force simp: publisher_ok_def subscriber_ok_def)+
  show ?thesis
  proof (cases "name = [] \<or> omap_find name (rs_node_names st) \<noteq> None")
    case True
    then show ?thesis using ok by (auto simp: registerNode_def)
  next
    case False
    define node where "node = \<lparr>nr_node_id = rs_next_node_id st, nr_session_id = rs_next_session_id st,
      nr_node_name = name, nr_control_connection = connection, nr_heartbeat_connection = 0,
      nr_liveness = Alive, nr_last_seen = now, nr_publisher_endpoints = {},
      nr_subscriber_endpoints = {}\<rparr>"
    have sel: "nr_node_id node = rs_next_node_id st" "nr_node_name node = name"
      "nr_publisher_endpoints node = {}" "nr_subscriber_endpoints node = {}"
      by (simp_all add: node_def)
    have "named_ok nr_node_id nr_node_name (rs_next_node_id st + 1)
        (omap_emplace (rs_next_node_id st) node (rs_nodes st))
        (omap_emplace name (rs_next_node_id st) (rs_node_names st))"
      using named_ok_emplace [OF named sel(1) assms(2)] False by (simp add: sel)
    then show ?thesis
      using ok none fresh False unfolding registerNode_def Let_def node_def [symmetric]
      by (auto simp: registry_ok_def node_ok_def topic_ok_def publisher_ok_def subscriber_ok_def
          topic_sizes_def omap_find_emplace registry_maps_ok [OF ok] sel)
  qed
qed

definition same_node :: "NodeRecord \<Rightarrow> NodeRecord \<Rightarrow> bool" where
  "same_node r r' \<longleftrightarrow> nr_node_id r' = nr_node_id r \<and> nr_session_id r' = nr_session_id r \<and>
     nr_node_name r' = nr_node_name r \<and> nr_control_connection r' = nr_control_connection r \<and>
     nr_publisher_endpoints r' = nr_publisher_endpoints r \<and>
     nr_subscriber_endpoints r' = nr_subscriber_endpoints r"

text \<open>The same for a pass over the whole table.\<close>

lemma registry_ok_nodes_sim:
  assumes ok: "registry_ok X st" and keys: "map fst nodes = map fst (rs_nodes st)"
    and sim: "\<And>n. rel_option same_node (omap_find n (rs_nodes st)) (omap_find n nodes)"
  shows "registry_ok X (st\<lparr>rs_nodes := nodes, rs_metrics := m\<rparr>)"
proof -
  have sim': "omap_find n nodes = Some r' \<Longrightarrow> \<exists>r. omap_find n (rs_nodes st) = Some r \<and> same_node r r'"
    "omap_find n (rs_nodes st) = Some r \<Longrightarrow> \<exists>r'. omap_find n nodes = Some r' \<and> same_node r r'" for n r r'
    using sim [of n] by (auto simp: option_rel_Some1 option_rel_Some2)
  have "named_ok nr_node_id nr_node_name (rs_next_node_id st) nodes (rs_node_names st)"
    using registry_okD(1) [OF ok] sim' keys
    by (fastforce simp: named_ok_def table_ok_def omap_ok_def same_node_def)
  moreover have "node_ok st n r'" if "omap_find n nodes = Some r'" for n r'
    using sim'(1) [OF that] registry_okD(5) [OF ok, of n] by (auto simp: node_ok_def same_node_def)
  moreover have "omap_find n nodes = None \<longleftrightarrow> omap_find n (rs_nodes st) = None" for n
    using sim [of n] by (auto simp: option.rel_sel)
  ultimately show ?thesis using ok
    by (simp add: registry_ok_def node_ok_def topic_ok_def publisher_ok_def subscriber_ok_def
        topic_sizes_def)
qed

lemma detachHeartbeatConnection_ok:
  assumes ok: "registry_ok X st"
  shows "registry_ok X (detachHeartbeatConnection connection st)"
proof -
  define f where "f node = (if nr_heartbeat_connection node = connection
    then node\<lparr>nr_heartbeat_connection := 0\<rparr> else node)" for node :: NodeRecord
  have "registry_ok X (st\<lparr>rs_nodes := map (\<lambda>(k, node). (k, f node)) (rs_nodes st),
      rs_metrics := rs_metrics st\<rparr>)"
  proof (rule registry_ok_nodes_sim [OF ok])
    show "rel_option same_node (omap_find n (rs_nodes st))
        (omap_find n (map (\<lambda>(k, node). (k, f node)) (rs_nodes st)))" for n
      by (cases "omap_find n (rs_nodes st)") (auto simp: map_of_map same_node_def f_def)
  qed (simp add: split_def)
  then show ?thesis by (simp add: detachHeartbeatConnection_def f_def)
qed

section \<open>Creating topics and endpoints\<close>

definition newTopic :: "u64 \<Rightarrow> string \<Rightarrow> string \<Rightarrow> string \<Rightarrow> size_t \<Rightarrow> TransportType \<Rightarrow> TopicRecord" where
  "newTopic topic_id topic_name type_name type_hash max_message_size transport =
     \<lparr>tr_topic_id = topic_id, tr_topic_name = topic_name, tr_type_name = type_name,
      tr_type_hash = type_hash, tr_transport = transport,
      tr_max_message_size = max_message_size, tr_publisher_endpoint = None,
      tr_subscriber_endpoints = {}, tr_pool = emptyPool\<rparr>"

lemma newTopic_sel [simp]:
  "tr_topic_id (newTopic t name tn th m tp) = t" "tr_topic_name (newTopic t name tn th m tp) = name"
  "tr_transport (newTopic t name tn th m tp) = tp" "tr_max_message_size (newTopic t name tn th m tp) = m"
  "tr_publisher_endpoint (newTopic t name tn th m tp) = None"
  "tr_subscriber_endpoints (newTopic t name tn th m tp) = {}"
  "tr_pool (newTopic t name tn th m tp) = emptyPool"
  by (simp_all add: newTopic_def)

lemma findOrCreateTopic_found:
  assumes "registry_ok X st" "omap_find name (rs_topic_names st) = Some t"
    "omap_find t (rs_topics st) = Some r"
  shows "findOrCreateTopic name tn th m tp st = Some ((t, r), st)"
  using assms by (simp add: findOrCreateTopic_def)

lemma registry_fresh_topic:
  assumes ok: "registry_ok X st"
  shows "omap_find (rs_next_topic_id st) (rs_topics st) = None"
    "publishersWith pe_topic_id (rs_next_topic_id st) st = {}"
    "subscribersWith se_topic_id (rs_next_topic_id st) st = {}"
    "topic_sizes st (rs_next_topic_id st) = {}"
proof -
  show none: "omap_find (rs_next_topic_id st) (rs_topics st) = None"
    using registry_okD(2) [OF ok] by (intro table_ok_fresh) (auto simp: named_ok_def)
  show "publishersWith pe_topic_id (rs_next_topic_id st) st = {}"
    "subscribersWith se_topic_id (rs_next_topic_id st) st = {}"
    using registry_okD(8,9) [OF ok] none by (force simp: publisher_ok_def subscriber_ok_def)+
  then show "topic_sizes st (rs_next_topic_id st) = {}" by (auto simp: topic_sizes_def)
qed

definition withTopic :: "string \<Rightarrow> string \<Rightarrow> string \<Rightarrow> size_t \<Rightarrow> TransportType \<Rightarrow> RegistryState \<Rightarrow> RegistryState" where
  "withTopic name tn th m tp st =
     st\<lparr>rs_next_topic_id := rs_next_topic_id st + 1,
        rs_topics := omap_emplace (rs_next_topic_id st) (newTopic (rs_next_topic_id st) name tn th m tp)
          (rs_topics st),
        rs_topic_names := omap_emplace name (rs_next_topic_id st) (rs_topic_names st)\<rparr>"

lemma withTopic_find:
  assumes "registry_ok X st"
  shows "omap_find t (rs_topics (withTopic name tn th m tp st)) =
    (if t = rs_next_topic_id st then Some (newTopic t name tn th m tp) else omap_find t (rs_topics st))"
  using registry_fresh_topic(1) [OF assms]
  by (simp add: withTopic_def omap_find_emplace registry_maps_ok [OF assms])

lemma findOrCreateTopic_created:
  assumes ok: "registry_ok X st" and "omap_find name (rs_topic_names st) = None"
  shows "findOrCreateTopic name tn th m tp st =
    Some ((rs_next_topic_id st, newTopic (rs_next_topic_id st) name tn th m tp), withTopic name tn th m tp st)"
  using assms(2) registry_fresh_topic(1) [OF ok] omap_find_emplace [OF registry_maps_ok(3) [OF ok]]
  by (simp add: findOrCreateTopic_def Let_def withTopic_def newTopic_def)

lemma withTopic_ok:
  assumes ok: "registry_ok X st" and none: "omap_find name (rs_topic_names st) = None"
    and wrap: "rs_next_topic_id st \<noteq> - 1"
  shows "registry_ok (insert (rs_next_topic_id st) X) (withTopic name tn th m tp st)"
proof -
  note fresh = registry_fresh_topic [OF ok]
  let ?st = "withTopic name tn th m tp st"
  have same: "rs_nodes ?st = rs_nodes st" "rs_node_names ?st = rs_node_names st"
    "rs_publishers ?st = rs_publishers st" "rs_subscribers ?st = rs_subscribers st"
    "rs_next_endpoint_id ?st = rs_next_endpoint_id st" "rs_next_node_id ?st = rs_next_node_id st"
    by (simp_all add: withTopic_def)
  have sizes: "topic_sizes ?st = topic_sizes st" by (simp add: topic_sizes_def same fun_eq_iff)
  have named: "named_ok tr_topic_id tr_topic_name (rs_next_topic_id ?st) (rs_topics ?st) (rs_topic_names ?st)"
    using named_ok_emplace [OF registry_okD(2) [OF ok], of "newTopic (rs_next_topic_id st) name tn th m tp"]
      none wrap by (simp add: withTopic_def)
  have p: "publisher_ok ?st p" if "publisher_ok st p" for p
    using that fresh(1) by (auto simp: publisher_ok_def same withTopic_find [OF ok])
  have s: "subscriber_ok ?st s" if "subscriber_ok st s" for s
    using that fresh(1) by (auto simp: subscriber_ok_def same withTopic_find [OF ok])
  have t: "topic_ok ?st t r" if "omap_find t (rs_topics ?st) = Some r" for t r
    using that registry_okD(6) [OF ok, of t r] fresh
    by (auto simp: topic_ok_def same sizes withTopic_find [OF ok] split: if_splits)
  show ?thesis using ok named p s t
    by (auto simp: registry_ok_def same sizes node_ok_def withTopic_find [OF ok] split: if_splits)
qed

lemma ex_find_insert:
  assumes "P k = None"
  shows "(\<exists>e p. (if e = k then Some q else P e) = Some p \<and> Q p) \<longleftrightarrow> Q q \<or> (\<exists>e p. P e = Some p \<and> Q p)"
proof
  assume "Q q \<or> (\<exists>e p. P e = Some p \<and> Q p)"
  then show "\<exists>e p. (if e = k then Some q else P e) = Some p \<and> Q p"
  proof (elim disjE exE conjE)
    fix e p assume *: "P e = Some p" "Q p"
    then have "e \<noteq> k" using assms by auto
    then show ?thesis using * by (intro exI [of _ e] exI [of _ p]) simp
  qed (auto intro!: exI [of _ k])
qed (auto split: if_splits)

lemma mem_topic_sizes:
  "x \<in> topic_sizes st t \<longleftrightarrow>
     (\<exists>e p. omap_find e (rs_publishers st) = Some p \<and> pe_topic_id p = t \<and> pe_max_message_size p = x) \<or>
     (\<exists>e s. omap_find e (rs_subscribers st) = Some s \<and> se_topic_id s = t \<and> se_max_message_size s = x)"
  unfolding topic_sizes_def by blast

lemma registry_fresh_endpoint:
  assumes "registry_ok X st"
  shows "omap_find (rs_next_endpoint_id st) (rs_publishers st) = None"
    "omap_find (rs_next_endpoint_id st) (rs_subscribers st) = None"
  using registry_okD(3,4) [OF assms] by (auto intro: table_ok_fresh)

text \<open>The effect of a successful \<open>advertise\<close> once the topic exists.\<close>

definition withPublisher ::
  "u64 \<Rightarrow> u64 \<Rightarrow> size_t \<Rightarrow> TransportType \<Rightarrow> SharedPoolMetadata \<Rightarrow> RegistryState \<Rightarrow> RegistryState" where
  "withPublisher n t m tp pool st =
     st\<lparr>rs_next_endpoint_id := rs_next_endpoint_id st + 1,
        rs_publishers := omap_emplace (rs_next_endpoint_id st)
          \<lparr>pe_endpoint_id = rs_next_endpoint_id st, pe_node_id = n, pe_topic_id = t,
           pe_max_message_size = m, pe_transport = tp, pe_pool = pool\<rparr> (rs_publishers st),
        rs_topics := omap_modify t (\<lambda>topic. topic\<lparr>tr_publisher_endpoint := Some (rs_next_endpoint_id st),
            tr_pool := pool, tr_max_message_size := min (tr_max_message_size topic) m\<rparr>) (rs_topics st),
        rs_nodes := omap_modify n (\<lambda>node. node\<lparr>nr_publisher_endpoints :=
            insert (rs_next_endpoint_id st) (nr_publisher_endpoints node)\<rparr>) (rs_nodes st)\<rparr>"

lemma withPublisher_find:
  assumes "registry_ok X st"
  shows "omap_find e (rs_publishers (withPublisher n t m tp pool st)) =
    (if e = rs_next_endpoint_id st
     then Some \<lparr>pe_endpoint_id = rs_next_endpoint_id st, pe_node_id = n, pe_topic_id = t, pe_max_message_size = m,
       pe_transport = tp, pe_pool = pool\<rparr>
     else omap_find e (rs_publishers st))"
  using registry_fresh_endpoint(1) [OF assms]
  by (simp add: withPublisher_def omap_find_emplace registry_maps_ok [OF assms])

lemma withPublisher_sets:
  assumes "registry_ok X st"
  shows "publishersWith pe_node_id k (withPublisher n t m tp pool st) =
      (if k = n then insert (rs_next_endpoint_id st) else id) (publishersWith pe_node_id k st)"
    "publishersWith pe_topic_id k (withPublisher n t m tp pool st) =
      (if k = t then insert (rs_next_endpoint_id st) else id) (publishersWith pe_topic_id k st)"
    "topic_sizes (withPublisher n t m tp pool st) k =
      (if k = t then insert m else id) (topic_sizes st k)"
proof -
  note find = withPublisher_find [OF assms] and fresh = registry_fresh_endpoint(1) [OF assms]
  show "publishersWith pe_node_id k (withPublisher n t m tp pool st) =
      (if k = n then insert (rs_next_endpoint_id st) else id) (publishersWith pe_node_id k st)"
    "publishersWith pe_topic_id k (withPublisher n t m tp pool st) =
      (if k = t then insert (rs_next_endpoint_id st) else id) (publishersWith pe_topic_id k st)"
    using fresh by (auto simp: find)
  have subs: "rs_subscribers (withPublisher n t m tp pool st) = rs_subscribers st"
    by (simp add: withPublisher_def)
  show "topic_sizes (withPublisher n t m tp pool st) k = (if k = t then insert m else id) (topic_sizes st k)"
    by (rule set_eqI) (simp add: mem_topic_sizes subs find 
        ex_find_insert [where P = "map_of (rs_publishers st)", OF fresh] disj_ac eq_commute [of m])
qed

lemma withPublisher_ok:
  assumes ok: "registry_ok X st" and X: "X \<subseteq> {t}" "t \<in> X \<longrightarrow> tr_max_message_size r = m"
    and found: "omap_find n (rs_nodes st) = Some node" "omap_find t (rs_topics st) = Some r"
    and free: "tr_publisher_endpoint r = None"
    and valid: "tr_transport r = tp" "validTransport tp" "validPoolMetadata tp pool"
    and wrap: "rs_next_endpoint_id st \<noteq> - 1"
  shows "registry_inv (withPublisher n t m tp pool st)"
proof -
  let ?st = "withPublisher n t m tp pool st"
  note find = withPublisher_find [OF ok] and sets = withPublisher_sets [OF ok]
    and fresh = registry_fresh_endpoint [OF ok]
  have same: "rs_node_names ?st = rs_node_names st" "rs_topic_names ?st = rs_topic_names st"
    "rs_subscribers ?st = rs_subscribers st" "rs_next_topic_id ?st = rs_next_topic_id st"
    "rs_next_node_id ?st = rs_next_node_id st" "rs_next_endpoint_id ?st = rs_next_endpoint_id st + 1"
    by (simp_all add: withPublisher_def)
  have nodes: "omap_find k (rs_nodes ?st) = (if k = n then Some (node\<lparr>nr_publisher_endpoints :=
      insert (rs_next_endpoint_id st) (nr_publisher_endpoints node)\<rparr>) else omap_find k (rs_nodes st))" for k
    using found by (simp add: withPublisher_def)
  have topics: "omap_find k (rs_topics ?st) = (if k = t then Some (r\<lparr>tr_publisher_endpoint :=
      Some (rs_next_endpoint_id st), tr_pool := pool, tr_max_message_size := min (tr_max_message_size r) m\<rparr>)
      else omap_find k (rs_topics st))" for k
    using found by (simp add: withPublisher_def)
  have named: "named_ok nr_node_id nr_node_name (rs_next_node_id ?st) (rs_nodes ?st) (rs_node_names ?st)"
    "named_ok tr_topic_id tr_topic_name (rs_next_topic_id ?st) (rs_topics ?st) (rs_topic_names ?st)"
    using registry_okD(1,2) [OF ok] by (simp_all add: withPublisher_def named_ok_modify)
  have tables: "table_ok pe_endpoint_id (rs_next_endpoint_id ?st) (rs_publishers ?st)"
    "table_ok se_endpoint_id (rs_next_endpoint_id ?st) (rs_subscribers ?st)"
    using registry_okD(3,4) [OF ok] wrap
    by (simp_all add: withPublisher_def table_ok_emplace table_ok_weaken)
  have node: "node_ok ?st k x" if "omap_find k (rs_nodes ?st) = Some x" for k x
    using that registry_okD(5) [OF ok] found(1)
    unfolding node_ok_def sets same by (auto simp: nodes split: if_splits)
  have none: "publishersWith pe_topic_id t st = {}"
    using registry_okD(6) [OF ok found(2)] free by (auto simp: topic_ok_def)
  have topic: "topic_ok ?st k x" if "omap_find k (rs_topics ?st) = Some x" for k x
    using that registry_okD(6) [OF ok] found(2) none fresh
    unfolding topic_ok_def sets same by (auto simp: topics find min_le_iff_disj split: if_splits)
  have size: "tr_max_message_size x \<in> topic_sizes ?st k" if "omap_find k (rs_topics ?st) = Some x" for k x
    using that registry_okD(7) [OF ok, of k] X found(2)
    unfolding sets by (auto simp: topics min_def split: if_splits)
  have pub: "publisher_ok ?st p" if "omap_find e (rs_publishers ?st) = Some p" for e p
    using that registry_okD(8) [OF ok, of e p] found valid
    by (auto simp: publisher_ok_def find nodes topics split: if_splits)
  have sub: "subscriber_ok ?st s" if "omap_find e (rs_subscribers ?st) = Some s" for e s
    using that registry_okD(9) [OF ok, of e s] found
    by (auto simp: subscriber_ok_def same nodes topics)
  show ?thesis unfolding registry_ok_def
    using named tables node topic size pub sub fresh registry_okD(10) [OF ok] by (auto simp: find same)
qed

text \<open>The effect of a successful \<open>subscribe\<close> once the topic exists.\<close>

definition withSubscriber ::
  "u64 \<Rightarrow> u64 \<Rightarrow> size_t \<Rightarrow> string \<Rightarrow> TransportType \<Rightarrow> SharedQueueMetadata \<Rightarrow> RegistryState \<Rightarrow> RegistryState" where
  "withSubscriber n t m path tp queue st =
     st\<lparr>rs_next_endpoint_id := rs_next_endpoint_id st + 1,
        rs_subscribers := omap_emplace (rs_next_endpoint_id st)
          \<lparr>se_endpoint_id = rs_next_endpoint_id st, se_node_id = n, se_topic_id = t,
           se_data_socket_path = path, se_max_message_size = m, se_transport = tp,
           se_queue = queue\<rparr> (rs_subscribers st),
        rs_topics := omap_modify t (\<lambda>topic. topic\<lparr>tr_subscriber_endpoints :=
            insert (rs_next_endpoint_id st) (tr_subscriber_endpoints topic),
            tr_max_message_size := min (tr_max_message_size topic) m\<rparr>) (rs_topics st),
        rs_nodes := omap_modify n (\<lambda>node. node\<lparr>nr_subscriber_endpoints :=
            insert (rs_next_endpoint_id st) (nr_subscriber_endpoints node)\<rparr>) (rs_nodes st)\<rparr>"

lemma withSubscriber_find:
  assumes "registry_ok X st"
  shows "omap_find e (rs_subscribers (withSubscriber n t m path tp queue st)) =
    (if e = rs_next_endpoint_id st
     then Some \<lparr>se_endpoint_id = rs_next_endpoint_id st, se_node_id = n, se_topic_id = t,
       se_data_socket_path = path, se_max_message_size = m, se_transport = tp, se_queue = queue\<rparr>
     else omap_find e (rs_subscribers st))"
  using registry_fresh_endpoint(2) [OF assms]
  by (simp add: withSubscriber_def omap_find_emplace registry_maps_ok [OF assms])

lemma withSubscriber_sets:
  assumes "registry_ok X st"
  shows "subscribersWith se_node_id k (withSubscriber n t m path tp queue st) =
      (if k = n then insert (rs_next_endpoint_id st) else id) (subscribersWith se_node_id k st)"
    "subscribersWith se_topic_id k (withSubscriber n t m path tp queue st) =
      (if k = t then insert (rs_next_endpoint_id st) else id) (subscribersWith se_topic_id k st)"
    "topic_sizes (withSubscriber n t m path tp queue st) k =
      (if k = t then insert m else id) (topic_sizes st k)"
proof -
  note find = withSubscriber_find [OF assms] and fresh = registry_fresh_endpoint(2) [OF assms]
  show "subscribersWith se_node_id k (withSubscriber n t m path tp queue st) =
      (if k = n then insert (rs_next_endpoint_id st) else id) (subscribersWith se_node_id k st)"
    "subscribersWith se_topic_id k (withSubscriber n t m path tp queue st) =
      (if k = t then insert (rs_next_endpoint_id st) else id) (subscribersWith se_topic_id k st)"
    using fresh by (auto simp: find)
  have pubs: "rs_publishers (withSubscriber n t m path tp queue st) = rs_publishers st"
    by (simp add: withSubscriber_def)
  show "topic_sizes (withSubscriber n t m path tp queue st) k =
      (if k = t then insert m else id) (topic_sizes st k)"
    by (rule set_eqI) (simp add: mem_topic_sizes pubs find disj_ac eq_commute [of m]
        ex_find_insert [where P = "map_of (rs_subscribers st)", OF fresh])
qed

lemma withSubscriber_ok:
  assumes ok: "registry_ok X st" and X: "X \<subseteq> {t}" "t \<in> X \<longrightarrow> tr_max_message_size r = m"
    and found: "omap_find n (rs_nodes st) = Some node" "omap_find t (rs_topics st) = Some r"
    and valid: "tr_transport r = tp" "validTransport tp" "validQueueMetadata tp queue"
    and wrap: "rs_next_endpoint_id st \<noteq> - 1"
  shows "registry_inv (withSubscriber n t m path tp queue st)"
proof -
  let ?st = "withSubscriber n t m path tp queue st"
  note find = withSubscriber_find [OF ok] and sets = withSubscriber_sets [OF ok]
    and fresh = registry_fresh_endpoint [OF ok]
  have same: "rs_node_names ?st = rs_node_names st" "rs_topic_names ?st = rs_topic_names st"
    "rs_publishers ?st = rs_publishers st" "rs_next_topic_id ?st = rs_next_topic_id st"
    "rs_next_node_id ?st = rs_next_node_id st" "rs_next_endpoint_id ?st = rs_next_endpoint_id st + 1"
    by (simp_all add: withSubscriber_def)
  have nodes: "omap_find k (rs_nodes ?st) = (if k = n then Some (node\<lparr>nr_subscriber_endpoints :=
      insert (rs_next_endpoint_id st) (nr_subscriber_endpoints node)\<rparr>) else omap_find k (rs_nodes st))" for k
    using found by (simp add: withSubscriber_def)
  have topics: "omap_find k (rs_topics ?st) = (if k = t then Some (r\<lparr>tr_subscriber_endpoints :=
      insert (rs_next_endpoint_id st) (tr_subscriber_endpoints r),
      tr_max_message_size := min (tr_max_message_size r) m\<rparr>) else omap_find k (rs_topics st))" for k
    using found by (simp add: withSubscriber_def)
  have named: "named_ok nr_node_id nr_node_name (rs_next_node_id ?st) (rs_nodes ?st) (rs_node_names ?st)"
    "named_ok tr_topic_id tr_topic_name (rs_next_topic_id ?st) (rs_topics ?st) (rs_topic_names ?st)"
    using registry_okD(1,2) [OF ok] by (simp_all add: withSubscriber_def named_ok_modify)
  have tables: "table_ok pe_endpoint_id (rs_next_endpoint_id ?st) (rs_publishers ?st)"
    "table_ok se_endpoint_id (rs_next_endpoint_id ?st) (rs_subscribers ?st)"
    using registry_okD(3,4) [OF ok] wrap
    by (simp_all add: withSubscriber_def table_ok_emplace table_ok_weaken)
  have node: "node_ok ?st k x" if "omap_find k (rs_nodes ?st) = Some x" for k x
    using that registry_okD(5) [OF ok] found(1)
    unfolding node_ok_def sets same by (auto simp: nodes split: if_splits)
  have topic: "topic_ok ?st k x" if "omap_find k (rs_topics ?st) = Some x" for k x
  proof (cases "k = t")
    case True
    then have x: "x = r\<lparr>tr_subscriber_endpoints := insert (rs_next_endpoint_id st) (tr_subscriber_endpoints r),
        tr_max_message_size := min (tr_max_message_size r) m\<rparr>" using that by (simp add: topics)
    show ?thesis using registry_okD(6) [OF ok found(2)] True
      unfolding topic_ok_def sets same x by (simp add: min_le_iff_disj)
  next
    case False
    then show ?thesis using that registry_okD(6) [OF ok, of k x]
      unfolding topic_ok_def sets same by (simp add: topics)
  qed
  have size: "tr_max_message_size x \<in> topic_sizes ?st k" if "omap_find k (rs_topics ?st) = Some x" for k x
    using that registry_okD(7) [OF ok, of k] X found(2)
    unfolding sets by (auto simp: topics min_def split: if_splits)
  have pub: "publisher_ok ?st p" if "omap_find e (rs_publishers ?st) = Some p" for e p
    using that registry_okD(8) [OF ok, of e p] found
    by (auto simp: publisher_ok_def same nodes topics)
  have sub: "subscriber_ok ?st s" if "omap_find e (rs_subscribers ?st) = Some s" for e s
    using that registry_okD(9) [OF ok, of e s] found valid
    by (auto simp: subscriber_ok_def find nodes topics split: if_splits)
  show ?thesis unfolding registry_ok_def
    using named tables node topic size pub sub fresh registry_okD(10) [OF ok] by (auto simp: find same)
qed

section \<open>The operations on endpoints\<close>

lemma ownedNode_Some:
  "ownedNode connection n st = Some node \<longleftrightarrow>
     omap_find n (rs_nodes st) = Some node \<and> nr_control_connection node = connection"
  by (auto simp: ownedNode_def split: option.splits)

lemma withPublisher_created:
  assumes ok: "registry_inv st" and none: "omap_find name (rs_topic_names st) = None"
    and node: "omap_find n (rs_nodes st) = Some node"
    and wrap: "rs_next_topic_id st \<noteq> - 1" "rs_next_endpoint_id st \<noteq> - 1"
    and valid: "validTransport tp" "validPoolMetadata tp pool"
  shows "registry_inv (withPublisher n (rs_next_topic_id st) m tp pool (withTopic name tn th m tp st))"
proof -
  have "omap_find n (rs_nodes (withTopic name tn th m tp st)) = Some node"
    "rs_next_endpoint_id (withTopic name tn th m tp st) \<noteq> - 1"
    using node wrap by (simp_all add: withTopic_def)
  then show ?thesis
    using withTopic_ok [OF ok none wrap(1)] withTopic_find [OF ok] valid
    by (intro withPublisher_ok [where r = "newTopic (rs_next_topic_id st) name tn th m tp"]) auto
qed

lemma withSubscriber_created:
  assumes ok: "registry_inv st" and none: "omap_find name (rs_topic_names st) = None"
    and node: "omap_find n (rs_nodes st) = Some node"
    and wrap: "rs_next_topic_id st \<noteq> - 1" "rs_next_endpoint_id st \<noteq> - 1"
    and valid: "validTransport tp" "validQueueMetadata tp queue"
  shows "registry_inv (withSubscriber n (rs_next_topic_id st) m path tp queue (withTopic name tn th m tp st))"
proof -
  have "omap_find n (rs_nodes (withTopic name tn th m tp st)) = Some node"
    "rs_next_endpoint_id (withTopic name tn th m tp st) \<noteq> - 1"
    using node wrap by (simp_all add: withTopic_def)
  then show ?thesis
    using withTopic_ok [OF ok none wrap(1)] withTopic_find [OF ok] valid
    by (intro withSubscriber_ok [where r = "newTopic (rs_next_topic_id st) name tn th m tp"]) auto
qed

text \<open>What a request against an existing topic has to agree on.\<close>

definition topicVerdict :: "string \<Rightarrow> string \<Rightarrow> TransportType \<Rightarrow> bool \<Rightarrow> TopicRecord \<Rightarrow> ErrorCode" where
  "topicVerdict tn th tp publishing r =
     (if tr_type_name r \<noteq> tn \<or> tr_type_hash r \<noteq> th then TypeMismatch
      else if tr_transport r \<noteq> tp then TransportMismatch
      else if publishing \<and> tr_publisher_endpoint r \<noteq> None then DuplicatePublisher else Ok)"

lemma topicConflict_found:
  assumes "registry_ok X st" "omap_find name (rs_topic_names st) = Some t"
    "omap_find t (rs_topics st) = Some r"
  shows "topicConflict name tn th tp publishing st =
    Some (if topicVerdict tn th tp publishing r = Ok then None
      else Some (endpointError (topicVerdict tn th tp publishing r) t))"
  using assms registry_topic_id [OF assms(1,3)] by (auto simp: topicConflict_def topicVerdict_def)

definition advertiseArgumentsOk ::
  "string \<Rightarrow> string \<Rightarrow> string \<Rightarrow> size_t \<Rightarrow> TransportType \<Rightarrow> SharedPoolMetadata \<Rightarrow> bool" where
  "advertiseArgumentsOk name tn th m tp pool \<longleftrightarrow> name \<noteq> [] \<and> tn \<noteq> [] \<and> th \<noteq> [] \<and> \<not> m > 0xFFFFFFFF \<and>
     validTransport tp \<and> validPoolMetadata tp pool"

lemma advertise_created:
  assumes ok: "registry_inv st" and none: "omap_find name (rs_topic_names st) = None"
    and owned: "ownedNode connection n st = Some node" and valid: "advertiseArgumentsOk name tn th m tp pool"
  shows "advertise connection n name tn th m tp pool st =
    Some (\<lparr>epr_error = Ok, epr_topic_id = rs_next_topic_id st,
        epr_endpoint_id = rs_next_endpoint_id st, epr_pool = pool\<rparr>,
      withPublisher n (rs_next_topic_id st) m tp pool (withTopic name tn th m tp st))"
  using owned valid none
  by (simp add: advertise_def advertiseArgumentsOk_def topicConflict_def
      findOrCreateTopic_created [OF ok none] withPublisher_def Let_def) (simp add: withTopic_def)

lemma advertise_existing:
  assumes ok: "registry_inv st" and found: "omap_find name (rs_topic_names st) = Some t"
    "omap_find t (rs_topics st) = Some r"
    and owned: "ownedNode connection n st = Some node" and valid: "advertiseArgumentsOk name tn th m tp pool"
  shows "advertise connection n name tn th m tp pool st =
    (if topicVerdict tn th tp True r = Ok
     then Some (\<lparr>epr_error = Ok, epr_topic_id = t, epr_endpoint_id = rs_next_endpoint_id st, epr_pool = pool\<rparr>,
            withPublisher n t m tp pool st)
     else Some (endpointError (topicVerdict tn th tp True r) t, st))"
  using owned valid registry_topic_id [OF ok found(2)]
  by (simp add: advertise_def advertiseArgumentsOk_def topicConflict_found [OF ok found]
      findOrCreateTopic_found [OF ok found] withPublisher_def Let_def)

lemma advertise_rejected:
  "ownedNode connection n st = None \<Longrightarrow>
     advertise connection n name tn th m tp pool st = Some (endpointError NotRegistered 0, st)"
  "ownedNode connection n st = Some node \<Longrightarrow> \<not> advertiseArgumentsOk name tn th m tp pool \<Longrightarrow>
     advertise connection n name tn th m tp pool st = Some (endpointError InvalidArgument 0, st)"
  by (auto simp: advertise_def advertiseArgumentsOk_def)

lemma advertise_ok:
  assumes ok: "registry_inv st" and wrap: "rs_next_topic_id st \<noteq> - 1" "rs_next_endpoint_id st \<noteq> - 1"
  shows "\<exists>res st'. advertise connection n name tn th m tp pool st = Some (res, st') \<and> registry_inv st'"
proof (cases "ownedNode connection n st")
  case (Some node)
  then have node: "omap_find n (rs_nodes st) = Some node" by (simp add: ownedNode_Some)
  show ?thesis
  proof (cases "advertiseArgumentsOk name tn th m tp pool")
    case valid: True
    then have tp: "validTransport tp" "validPoolMetadata tp pool" by (simp_all add: advertiseArgumentsOk_def)
    show ?thesis
    proof (cases "omap_find name (rs_topic_names st)")
      case None
      then show ?thesis using advertise_created [OF ok None Some valid]
          withPublisher_created [OF ok None node wrap tp] by blast
    next
      case found: (Some t)
      then obtain r where r: "omap_find t (rs_topics st) = Some r" by (rule registry_topic_named [OF ok])
      have "registry_inv (withPublisher n t m tp pool st)" if "topicVerdict tn th tp True r = Ok"
        using that tp wrap by (intro withPublisher_ok [OF ok _ _ node r]) (auto simp: topicVerdict_def split: if_splits)
      then show ?thesis using advertise_existing [OF ok found r Some valid] ok by auto
    qed
  qed (use Some ok advertise_rejected(2) in blast)
qed (use ok advertise_rejected(1) in blast)

definition subscribeArgumentsOk ::
  "string \<Rightarrow> string \<Rightarrow> string \<Rightarrow> size_t \<Rightarrow> string \<Rightarrow> TransportType \<Rightarrow> SharedQueueMetadata \<Rightarrow> bool" where
  "subscribeArgumentsOk name tn th m path tp queue \<longleftrightarrow> name \<noteq> [] \<and> tn \<noteq> [] \<and> th \<noteq> [] \<and> path \<noteq> [] \<and>
     \<not> m > 0xFFFFFFFF \<and> validTransport tp \<and> validQueueMetadata tp queue"

lemma subscribe_created:
  assumes ok: "registry_inv st" and none: "omap_find name (rs_topic_names st) = None"
    and owned: "ownedNode connection n st = Some node"
    and valid: "subscribeArgumentsOk name tn th m path tp queue"
  shows "subscribe connection n name tn th m path tp queue st =
    Some (\<lparr>epr_error = Ok, epr_topic_id = rs_next_topic_id st,
        epr_endpoint_id = rs_next_endpoint_id st, epr_pool = emptyPool\<rparr>,
      withSubscriber n (rs_next_topic_id st) m path tp queue (withTopic name tn th m tp st))"
  using owned valid none
  by (simp add: subscribe_def subscribeArgumentsOk_def topicConflict_def
      findOrCreateTopic_created [OF ok none] withSubscriber_def Let_def) (simp add: withTopic_def)

lemma subscribe_existing:
  assumes ok: "registry_inv st" and found: "omap_find name (rs_topic_names st) = Some t"
    "omap_find t (rs_topics st) = Some r"
    and owned: "ownedNode connection n st = Some node"
    and valid: "subscribeArgumentsOk name tn th m path tp queue"
  shows "subscribe connection n name tn th m path tp queue st =
    (if topicVerdict tn th tp False r = Ok
     then Some (\<lparr>epr_error = Ok, epr_topic_id = t, epr_endpoint_id = rs_next_endpoint_id st,
              epr_pool = tr_pool r\<rparr>, withSubscriber n t m path tp queue st)
     else Some (endpointError (topicVerdict tn th tp False r) t, st))"
  using owned valid registry_topic_id [OF ok found(2)]
  by (simp add: subscribe_def subscribeArgumentsOk_def topicConflict_found [OF ok found]
      findOrCreateTopic_found [OF ok found] withSubscriber_def Let_def)

lemma subscribe_rejected:
  "ownedNode connection n st = None \<Longrightarrow>
     subscribe connection n name tn th m path tp queue st = Some (endpointError NotRegistered 0, st)"
  "ownedNode connection n st = Some node \<Longrightarrow> \<not> subscribeArgumentsOk name tn th m path tp queue \<Longrightarrow>
     subscribe connection n name tn th m path tp queue st = Some (endpointError InvalidArgument 0, st)"
  by (auto simp: subscribe_def subscribeArgumentsOk_def)

lemma subscribe_ok:
  assumes ok: "registry_inv st" and wrap: "rs_next_topic_id st \<noteq> - 1" "rs_next_endpoint_id st \<noteq> - 1"
  shows "\<exists>res st'. subscribe connection n name tn th m path tp queue st = Some (res, st') \<and> registry_inv st'"
proof (cases "ownedNode connection n st")
  case (Some node)
  then have node: "omap_find n (rs_nodes st) = Some node" by (simp add: ownedNode_Some)
  show ?thesis
  proof (cases "subscribeArgumentsOk name tn th m path tp queue")
    case valid: True
    then have tp: "validTransport tp" "validQueueMetadata tp queue" by (simp_all add: subscribeArgumentsOk_def)
    show ?thesis
    proof (cases "omap_find name (rs_topic_names st)")
      case None
      then show ?thesis using subscribe_created [OF ok None Some valid]
          withSubscriber_created [OF ok None node wrap tp] by blast
    next
      case found: (Some t)
      then obtain r where r: "omap_find t (rs_topics st) = Some r" by (rule registry_topic_named [OF ok])
      have "registry_inv (withSubscriber n t m path tp queue st)" if "topicVerdict tn th tp False r = Ok"
        using that tp wrap by (intro withSubscriber_ok [OF ok _ _ node r]) (auto simp: topicVerdict_def split: if_splits)
      then show ?thesis using subscribe_existing [OF ok found r Some valid] ok by auto
    qed
  qed (use Some ok subscribe_rejected(2) in blast)
qed (use ok subscribe_rejected(1) in blast)

section \<open>Removing endpoints\<close>

lemma minSubscriberSize_min:
  assumes "\<forall>e \<in> set es. omap_find e subscribers \<noteq> None"
  shows "\<exists>m. minSubscriberSize es subscribers k = Some m \<and> m \<le> k \<and>
    (\<forall>e \<in> set es. \<forall>s. omap_find e subscribers = Some s \<longrightarrow> m \<le> se_max_message_size s) \<and>
    (m = k \<or> (\<exists>e \<in> set es. \<exists>s. omap_find e subscribers = Some s \<and> m = se_max_message_size s))"
  using assms
proof (induction es arbitrary: k)
  case (Cons e es)
  then obtain s where s: "omap_find e subscribers = Some s" by auto
  obtain m where "minSubscriberSize es subscribers (min k (se_max_message_size s)) = Some m"
    "m \<le> min k (se_max_message_size s)"
    "\<forall>e \<in> set es. \<forall>s. omap_find e subscribers = Some s \<longrightarrow> m \<le> se_max_message_size s"
    "m = min k (se_max_message_size s) \<or>
     (\<exists>e \<in> set es. \<exists>s. omap_find e subscribers = Some s \<and> m = se_max_message_size s)"
    using Cons.IH [of "min k (se_max_message_size s)"] Cons.prems by auto
  then show ?case using s by (auto simp: min_def split: if_splits)
qed simp

text \<open>The value before the loop over the subscribers.\<close>

lemma publisher_maximum:
  assumes ok: "registry_ok X st" and r: "omap_find t (rs_topics st) = Some r"
  obtains k where "(case tr_publisher_endpoint r of None \<Rightarrow> Some SIZE_MAX
      | Some e \<Rightarrow> do { p \<leftarrow> omap_find e (rs_publishers st); Some (min SIZE_MAX (pe_max_message_size p)) }) = Some k"
    "\<forall>e p. omap_find e (rs_publishers st) = Some p \<longrightarrow> pe_topic_id p = t \<longrightarrow> k = pe_max_message_size p"
    "publishersWith pe_topic_id t st = {} \<longrightarrow> k = SIZE_MAX"
proof (cases "tr_publisher_endpoint r")
  case None
  then show ?thesis using that [of SIZE_MAX] registry_okD(6) [OF ok r] by (auto simp: topic_ok_def)
next
  case (Some e)
  then have "{e} = publishersWith pe_topic_id t st" using registry_okD(6) [OF ok r] by (simp add: topic_ok_def)
  then obtain p where "omap_find e (rs_publishers st) = Some p" "pe_topic_id p = t"
    "\<forall>e' p'. omap_find e' (rs_publishers st) = Some p' \<and> pe_topic_id p' = t \<longrightarrow> e' = e" by blast
  note p = this
  show ?thesis
  proof (rule that [of "pe_max_message_size p"])
    show "\<forall>e p'. omap_find e (rs_publishers st) = Some p' \<longrightarrow> pe_topic_id p' = t \<longrightarrow>
        pe_max_message_size p = pe_max_message_size p'"
      using p by (metis option.inject)
    show "publishersWith pe_topic_id t st = {} \<longrightarrow> pe_max_message_size p = SIZE_MAX" using p by blast
  qed (simp add: Some p(1) min_absorb2 le_SIZE_MAX)
qed

lemma topic_sizes_empty:
  assumes "topic_ok st t r"
  shows "topic_sizes st t = {} \<longleftrightarrow> tr_publisher_endpoint r = None \<and> tr_subscriber_endpoints r = {}"
proof -
  have "topic_sizes st t = {} \<longleftrightarrow>
      publishersWith pe_topic_id t st = {} \<and> subscribersWith se_topic_id t st = {}"
    by (auto simp: topic_sizes_def)
  also have "\<dots> \<longleftrightarrow> tr_publisher_endpoint r = None \<and> tr_subscriber_endpoints r = {}"
    using assms unfolding topic_ok_def by (metis set_empty_eq)
  finally show ?thesis .
qed

lemma recomputeTopicMaxMessageSize_min:
  assumes ok: "registry_ok X st" and r: "omap_find t (rs_topics st) = Some r"
  obtains m where "recomputeTopicMaxMessageSize t st =
      Some (if topic_sizes st t = {} then st
        else st\<lparr>rs_topics := omap_modify t (\<lambda>topic. topic\<lparr>tr_max_message_size := m\<rparr>) (rs_topics st)\<rparr>)"
    "\<forall>x \<in> topic_sizes st t. m \<le> x" "topic_sizes st t \<noteq> {} \<longrightarrow> m \<in> topic_sizes st t"
proof -
  note topic = registry_okD(6) [OF ok r]
  let ?es = "sorted_list_of_set (tr_subscriber_endpoints r)"
  have es: "set ?es = subscribersWith se_topic_id t st" using topic by (simp add: topic_ok_def)
  obtain k where k: "(case tr_publisher_endpoint r of None \<Rightarrow> Some SIZE_MAX
      | Some e \<Rightarrow> do { p \<leftarrow> omap_find e (rs_publishers st); Some (min SIZE_MAX (pe_max_message_size p)) }) = Some k"
    "\<forall>e p. omap_find e (rs_publishers st) = Some p \<longrightarrow> pe_topic_id p = t \<longrightarrow> k = pe_max_message_size p"
    "publishersWith pe_topic_id t st = {} \<longrightarrow> k = SIZE_MAX"
    by (rule publisher_maximum [OF ok r])
  have "\<forall>e \<in> set ?es. omap_find e (rs_subscribers st) \<noteq> None" unfolding es by auto
  from minSubscriberSize_min [OF this, of k] obtain m where
    m: "minSubscriberSize ?es (rs_subscribers st) k = Some m" "m \<le> k"
    "\<forall>e \<in> set ?es. \<forall>s. omap_find e (rs_subscribers st) = Some s \<longrightarrow> m \<le> se_max_message_size s"
    "m = k \<or> (\<exists>e \<in> set ?es. \<exists>s. omap_find e (rs_subscribers st) = Some s \<and> m = se_max_message_size s)"
    by blast
  have eq: "recomputeTopicMaxMessageSize t st =
      Some (if topic_sizes st t = {} then st
        else st\<lparr>rs_topics := omap_modify t (\<lambda>topic. topic\<lparr>tr_max_message_size := m\<rparr>) (rs_topics st)\<rparr>)"
    using topic_sizes_empty [OF topic] m(1) k(1) by (simp add: recomputeTopicMaxMessageSize_def r)
  have low: "\<forall>x \<in> topic_sizes st t. m \<le> x"
    using m(2,3) k(2) unfolding es by (fastforce simp: mem_topic_sizes)
  have mem: "m = k \<or> m \<in> topic_sizes st t" using m(4) unfolding es by (fastforce simp: mem_topic_sizes)
  have "m \<in> topic_sizes st t" if "x \<in> topic_sizes st t" for x
  proof (cases "publishersWith pe_topic_id t st = {}")
    case True
    then have "m = x" if "m = k" using low k(3) that \<open>x \<in> _\<close> le_SIZE_MAX [of x] by (simp add: antisym)
    then show ?thesis using mem that by blast
  next
    case False
    then have "k \<in> topic_sizes st t" using k(2) unfolding mem_topic_sizes by blast
    then show ?thesis using mem by blast
  qed
  then show ?thesis using that [OF eq low] by blast
qed

lemma topic_max_ok:
  assumes ok: "registry_ok {t} st" and r: "omap_find t (rs_topics st) = Some r"
    and m: "\<forall>x \<in> topic_sizes st t. m \<le> x" "m \<in> topic_sizes st t"
  shows "registry_inv (st\<lparr>rs_topics := omap_modify t (\<lambda>topic. topic\<lparr>tr_max_message_size := m\<rparr>) (rs_topics st)\<rparr>)"
    (is "registry_inv ?st")
proof -
  have sizes: "topic_sizes ?st = topic_sizes st" by (simp add: topic_sizes_def fun_eq_iff)
  have topics: "omap_find k (rs_topics ?st) = (if k = t then Some (r\<lparr>tr_max_message_size := m\<rparr>)
      else omap_find k (rs_topics st))" for k using r by simp
  have named: "named_ok tr_topic_id tr_topic_name (rs_next_topic_id ?st) (rs_topics ?st) (rs_topic_names ?st)"
    using registry_okD(2) [OF ok] by (simp add: named_ok_modify)
  have topic: "topic_ok ?st k x" if "omap_find k (rs_topics ?st) = Some x" for k x
  proof (cases "k = t")
    case True
    then have "x = r\<lparr>tr_max_message_size := m\<rparr>" using that r by simp
    then show ?thesis using registry_okD(6) [OF ok r] m(1) True by (simp add: topic_ok_def sizes)
  next
    case False
    then show ?thesis using that registry_okD(6) [OF ok, of k x] by (simp add: topic_ok_def sizes)
  qed
  have size: "tr_max_message_size x \<in> topic_sizes ?st k" if "omap_find k (rs_topics ?st) = Some x" for k x
    using that registry_okD(7) [OF ok, of k] m(2)
    unfolding sizes topics by (auto split: if_splits)
  have ends: "publisher_ok st p \<Longrightarrow> publisher_ok ?st p" "subscriber_ok st s \<Longrightarrow> subscriber_ok ?st s" for p s
    using r unfolding publisher_ok_def subscriber_ok_def topics by auto
  show ?thesis using ok named topic size ends unfolding registry_ok_def node_ok_def by simp
qed

lemma eraseTopic_ok:
  assumes ok: "registry_ok {t} st" and r: "omap_find t (rs_topics st) = Some r" and empty: "topic_sizes st t = {}"
  shows "registry_inv (st\<lparr>rs_topic_names := omap_erase (tr_topic_name r) (rs_topic_names st),
    rs_topics := omap_erase t (rs_topics st)\<rparr>)" (is "registry_inv ?st")
proof -
  have sizes: "topic_sizes ?st = topic_sizes st" by (simp add: topic_sizes_def fun_eq_iff)
  have none: "pe_topic_id p \<noteq> t" if "omap_find e (rs_publishers st) = Some p" for e p
    using that empty by (auto simp: topic_sizes_def)
  have none': "se_topic_id s \<noteq> t" if "omap_find e (rs_subscribers st) = Some s" for e s
    using that empty by (auto simp: topic_sizes_def)
  have named: "named_ok tr_topic_id tr_topic_name (rs_next_topic_id ?st) (rs_topics ?st) (rs_topic_names ?st)"
    using named_ok_erase [OF registry_okD(2) [OF ok] r] by simp
  have topic: "topic_ok ?st k x" if "omap_find k (rs_topics ?st) = Some x" for k x
    using that registry_okD(6) [OF ok, of k x] by (simp add: topic_ok_def sizes split: if_splits)
  have size: "tr_max_message_size x \<in> topic_sizes ?st k" if "omap_find k (rs_topics ?st) = Some x" for k x
    using that registry_okD(7) [OF ok, of k x] by (simp add: sizes split: if_splits)
  have pub: "publisher_ok ?st p" if "omap_find e (rs_publishers ?st) = Some p" for e p
    using that none registry_okD(8) [OF ok, of e p] by (auto simp: publisher_ok_def)
  have sub: "subscriber_ok ?st s" if "omap_find e (rs_subscribers ?st) = Some s" for e s
    using that none' registry_okD(9) [OF ok, of e s] by (auto simp: subscriber_ok_def)
  show ?thesis using ok named topic size pub sub unfolding registry_ok_def node_ok_def by simp
qed

text \<open>The end of \<open>unadvertise\<close> and \<open>unsubscribe\<close>: only the topic tables change.\<close>

lemma settleTopic_ok:
  assumes ok: "registry_ok {t} st" and r: "omap_find t (rs_topics st) = Some r"
  obtains st1 where "recomputeTopicMaxMessageSize t st = Some st1" "registry_inv (eraseTopicIfEmpty t st1)"
    "\<exists>topics names. eraseTopicIfEmpty t st1 = st\<lparr>rs_topics := topics, rs_topic_names := names\<rparr>"
proof -
  obtain m where m: "recomputeTopicMaxMessageSize t st =
      Some (if topic_sizes st t = {} then st
        else st\<lparr>rs_topics := omap_modify t (\<lambda>topic. topic\<lparr>tr_max_message_size := m\<rparr>) (rs_topics st)\<rparr>)"
    "\<forall>x \<in> topic_sizes st t. m \<le> x" "topic_sizes st t \<noteq> {} \<longrightarrow> m \<in> topic_sizes st t"
    by (rule recomputeTopicMaxMessageSize_min [OF ok r])
  note empty = topic_sizes_empty [OF registry_okD(6) [OF ok r]]
  show ?thesis
  proof (cases "topic_sizes st t = {}")
    case True
    then have eq: "eraseTopicIfEmpty t st = st\<lparr>rs_topic_names := omap_erase (tr_topic_name r) (rs_topic_names st),
        rs_topics := omap_erase t (rs_topics st)\<rparr>"
      using r empty by (simp add: eraseTopicIfEmpty_def)
    show ?thesis
    proof (rule that [of st])
      show "\<exists>topics names. eraseTopicIfEmpty t st = st\<lparr>rs_topics := topics, rs_topic_names := names\<rparr>"
        unfolding eq by (intro exI [of _ "omap_erase t (rs_topics st)"]
            exI [of _ "omap_erase (tr_topic_name r) (rs_topic_names st)"]) simp
    qed (use m(1) True eq eraseTopic_ok [OF ok r True] in simp_all)
  next
    case False
    let ?st = "st\<lparr>rs_topics := omap_modify t (\<lambda>topic. topic\<lparr>tr_max_message_size := m\<rparr>) (rs_topics st)\<rparr>"
    have eq: "eraseTopicIfEmpty t ?st = ?st" using r False empty by (auto simp: eraseTopicIfEmpty_def)
    show ?thesis
    proof (rule that [of ?st])
      show "\<exists>topics names. eraseTopicIfEmpty t ?st = st\<lparr>rs_topics := topics, rs_topic_names := names\<rparr>"
        unfolding eq by (intro exI [of _ "rs_topics ?st"] exI [of _ "rs_topic_names st"]) simp
    qed (use m False eq topic_max_ok [OF ok r m(2)] in simp_all)
  qed
qed

definition withoutPublisher :: "u64 \<Rightarrow> u64 \<Rightarrow> u64 \<Rightarrow> RegistryState \<Rightarrow> RegistryState" where
  "withoutPublisher n t e st =
     st\<lparr>rs_nodes := omap_modify n (\<lambda>node. node\<lparr>nr_publisher_endpoints :=
          nr_publisher_endpoints node - {e}\<rparr>) (rs_nodes st),
        rs_publishers := omap_erase e (rs_publishers st),
        rs_topics := omap_modify t (\<lambda>topic. topic\<lparr>tr_publisher_endpoint := None,
          tr_pool := emptyPool\<rparr>) (rs_topics st)\<rparr>"

definition withoutSubscriber :: "u64 \<Rightarrow> u64 \<Rightarrow> u64 \<Rightarrow> RegistryState \<Rightarrow> RegistryState" where
  "withoutSubscriber n t e st =
     st\<lparr>rs_nodes := omap_modify n (\<lambda>node. node\<lparr>nr_subscriber_endpoints :=
          nr_subscriber_endpoints node - {e}\<rparr>) (rs_nodes st),
        rs_subscribers := omap_erase e (rs_subscribers st),
        rs_topics := omap_modify t (\<lambda>topic. topic\<lparr>tr_subscriber_endpoints :=
          tr_subscriber_endpoints topic - {e}\<rparr>) (rs_topics st)\<rparr>"

lemma withoutPublisher_sets:
  assumes p: "omap_find e (rs_publishers st) = Some p" "pe_node_id p = n" "pe_topic_id p = t"
  shows "publishersWith f k (withoutPublisher n t e st) = publishersWith f k st - {e}"
    "k \<noteq> n \<Longrightarrow> e \<notin> publishersWith pe_node_id k st" "k \<noteq> t \<Longrightarrow> e \<notin> publishersWith pe_topic_id k st"
    "topic_sizes (withoutPublisher n t e st) k \<subseteq> topic_sizes st k"
    "k \<noteq> t \<Longrightarrow> topic_sizes (withoutPublisher n t e st) k = topic_sizes st k"
proof -
  have find: "omap_find x (rs_publishers (withoutPublisher n t e st)) =
      (if x = e then None else omap_find x (rs_publishers st))"
    "rs_subscribers (withoutPublisher n t e st) = rs_subscribers st" for x
    by (simp_all add: withoutPublisher_def)
  show "publishersWith f k (withoutPublisher n t e st) = publishersWith f k st - {e}"
    by (auto simp: find)
  show "k \<noteq> n \<Longrightarrow> e \<notin> publishersWith pe_node_id k st" "k \<noteq> t \<Longrightarrow> e \<notin> publishersWith pe_topic_id k st"
    using p by auto
  show "topic_sizes (withoutPublisher n t e st) k \<subseteq> topic_sizes st k"
    by (fastforce simp: mem_topic_sizes find split: if_splits)
  show "topic_sizes (withoutPublisher n t e st) k = topic_sizes st k" if "k \<noteq> t"
  proof (rule set_eqI)
    have "(\<exists>x q. (if x = e then None else omap_find x (rs_publishers st)) = Some q \<and> pe_topic_id q = k \<and> Q q)
      \<longleftrightarrow> (\<exists>x q. omap_find x (rs_publishers st) = Some q \<and> pe_topic_id q = k \<and> Q q)" for Q
      using that p by (metis option.distinct(1) option.inject)
    then show "y \<in> topic_sizes (withoutPublisher n t e st) k \<longleftrightarrow> y \<in> topic_sizes st k" for y
      by (simp add: mem_topic_sizes find)
  qed
qed

lemma withoutPublisher_ok:
  assumes ok: "registry_inv st" and p: "omap_find e (rs_publishers st) = Some p"
    "pe_node_id p = n" "pe_topic_id p = t"
  shows "registry_ok {t} (withoutPublisher n t e st)"
proof -
  let ?st = "withoutPublisher n t e st"
  note sets = withoutPublisher_sets [OF p]
  obtain node r where found: "omap_find n (rs_nodes st) = Some node" "omap_find t (rs_topics st) = Some r"
    using registry_okD(8) [OF ok p(1)] p by (auto simp: publisher_ok_def)
  have same: "rs_node_names ?st = rs_node_names st" "rs_topic_names ?st = rs_topic_names st"
    "rs_subscribers ?st = rs_subscribers st" "rs_next_topic_id ?st = rs_next_topic_id st"
    "rs_next_node_id ?st = rs_next_node_id st" "rs_next_endpoint_id ?st = rs_next_endpoint_id st"
    by (simp_all add: withoutPublisher_def)
  have find: "omap_find x (rs_publishers ?st) = (if x = e then None else omap_find x (rs_publishers st))"
    "omap_find k (rs_nodes ?st) = (if k = n then Some (node\<lparr>nr_publisher_endpoints :=
      nr_publisher_endpoints node - {e}\<rparr>) else omap_find k (rs_nodes st))"
    "omap_find k (rs_topics ?st) = (if k = t then Some (r\<lparr>tr_publisher_endpoint := None,
      tr_pool := emptyPool\<rparr>) else omap_find k (rs_topics st))" for k x
    using found by (simp_all add: withoutPublisher_def)
  have named: "named_ok nr_node_id nr_node_name (rs_next_node_id ?st) (rs_nodes ?st) (rs_node_names ?st)"
    "named_ok tr_topic_id tr_topic_name (rs_next_topic_id ?st) (rs_topics ?st) (rs_topic_names ?st)"
    using registry_okD(1,2) [OF ok] by (simp_all add: withoutPublisher_def named_ok_modify)
  have tables: "table_ok pe_endpoint_id (rs_next_endpoint_id ?st) (rs_publishers ?st)"
    "table_ok se_endpoint_id (rs_next_endpoint_id ?st) (rs_subscribers ?st)"
    using registry_okD(3,4) [OF ok] by (simp_all add: withoutPublisher_def table_ok_erase)
  have node: "node_ok ?st k x" if "omap_find k (rs_nodes ?st) = Some x" for k x
    using that registry_okD(5) [OF ok, of k] found(1) sets(2) [of k]
    unfolding node_ok_def sets(1) same by (auto simp: find(2) split: if_splits)
  have only: "publishersWith pe_topic_id t st - {e} = {}"
    using registry_okD(6) [OF ok found(2)] p unfolding topic_ok_def
    by (metis (mono_tags, lifting) Diff_cancel mem_Collect_eq option.set_cases option.simps(15) singletonD)
  have topic: "topic_ok ?st k x" if x: "omap_find k (rs_topics ?st) = Some x" for k x
  proof (cases "k = t")
    case True
    then have eq: "x = r\<lparr>tr_publisher_endpoint := None, tr_pool := emptyPool\<rparr>" using x by (simp add: find)
    have "pe_topic_id q \<noteq> t" if "omap_find y (rs_publishers ?st) = Some q" for y q
      using that only by (auto simp: find(1) split: if_splits)
    then show ?thesis using registry_okD(6) [OF ok found(2)] only sets(4) [of t]
      unfolding topic_ok_def sets(1) same eq True by auto
  next
    case False
    then have old: "topic_ok st k x" using x registry_okD(6) [OF ok, of k x] by (simp add: find(3))
    have "omap_find y (rs_publishers ?st) = Some q \<Longrightarrow> omap_find y (rs_publishers st) = Some q" for y q
      by (simp add: find(1) split: if_splits)
    moreover have "publishersWith pe_topic_id k ?st = publishersWith pe_topic_id k st"
      using sets(1) sets(3) [OF False] by simp
    ultimately show ?thesis using old unfolding topic_ok_def sets(5) [OF False] same by blast
  qed
  have size: "k \<noteq> t \<Longrightarrow> tr_max_message_size x \<in> topic_sizes ?st k"
    if "omap_find k (rs_topics ?st) = Some x" for k x
    using that registry_okD(7) [OF ok, of k x] sets(5) [of k] by (simp add: find(3))
  have pub: "publisher_ok ?st q" if "omap_find x (rs_publishers ?st) = Some q" for x q
    using that registry_okD(8) [OF ok, of x q] found by (auto simp: publisher_ok_def find split: if_splits)
  have sub: "subscriber_ok ?st s" if "omap_find x (rs_subscribers ?st) = Some s" for x s
    using that registry_okD(9) [OF ok, of x s] found by (auto simp: subscriber_ok_def same find(2,3))
  show ?thesis unfolding registry_ok_def
    using named tables node topic size pub sub registry_okD(10) [OF ok] by (auto simp: find(1) same)
qed

lemma withoutSubscriber_sets:
  assumes s: "omap_find e (rs_subscribers st) = Some s" "se_node_id s = n" "se_topic_id s = t"
  shows "subscribersWith f k (withoutSubscriber n t e st) = subscribersWith f k st - {e}"
    "k \<noteq> n \<Longrightarrow> e \<notin> subscribersWith se_node_id k st" "k \<noteq> t \<Longrightarrow> e \<notin> subscribersWith se_topic_id k st"
    "topic_sizes (withoutSubscriber n t e st) k \<subseteq> topic_sizes st k"
    "k \<noteq> t \<Longrightarrow> topic_sizes (withoutSubscriber n t e st) k = topic_sizes st k"
proof -
  have find: "omap_find x (rs_subscribers (withoutSubscriber n t e st)) =
      (if x = e then None else omap_find x (rs_subscribers st))"
    "rs_publishers (withoutSubscriber n t e st) = rs_publishers st" for x
    by (simp_all add: withoutSubscriber_def)
  show "subscribersWith f k (withoutSubscriber n t e st) = subscribersWith f k st - {e}"
    by (auto simp: find)
  show "k \<noteq> n \<Longrightarrow> e \<notin> subscribersWith se_node_id k st" "k \<noteq> t \<Longrightarrow> e \<notin> subscribersWith se_topic_id k st"
    using s by auto
  show "topic_sizes (withoutSubscriber n t e st) k \<subseteq> topic_sizes st k"
    by (fastforce simp: mem_topic_sizes find split: if_splits)
  show "topic_sizes (withoutSubscriber n t e st) k = topic_sizes st k" if "k \<noteq> t"
  proof (rule set_eqI)
    have "(\<exists>x q. (if x = e then None else omap_find x (rs_subscribers st)) = Some q \<and> se_topic_id q = k \<and> Q q)
      \<longleftrightarrow> (\<exists>x q. omap_find x (rs_subscribers st) = Some q \<and> se_topic_id q = k \<and> Q q)" for Q
      using that s by (metis option.distinct(1) option.inject)
    then show "y \<in> topic_sizes (withoutSubscriber n t e st) k \<longleftrightarrow> y \<in> topic_sizes st k" for y
      by (simp add: mem_topic_sizes find)
  qed
qed

lemma withoutSubscriber_ok:
  assumes ok: "registry_inv st" and s: "omap_find e (rs_subscribers st) = Some s"
    "se_node_id s = n" "se_topic_id s = t"
  shows "registry_ok {t} (withoutSubscriber n t e st)"
proof -
  let ?st = "withoutSubscriber n t e st"
  note sets = withoutSubscriber_sets [OF s]
  obtain node r where found: "omap_find n (rs_nodes st) = Some node" "omap_find t (rs_topics st) = Some r"
    using registry_okD(9) [OF ok s(1)] s by (auto simp: subscriber_ok_def)
  have same: "rs_node_names ?st = rs_node_names st" "rs_topic_names ?st = rs_topic_names st"
    "rs_publishers ?st = rs_publishers st" "rs_next_topic_id ?st = rs_next_topic_id st"
    "rs_next_node_id ?st = rs_next_node_id st" "rs_next_endpoint_id ?st = rs_next_endpoint_id st"
    by (simp_all add: withoutSubscriber_def)
  have find: "omap_find x (rs_subscribers ?st) = (if x = e then None else omap_find x (rs_subscribers st))"
    "omap_find k (rs_nodes ?st) = (if k = n then Some (node\<lparr>nr_subscriber_endpoints :=
      nr_subscriber_endpoints node - {e}\<rparr>) else omap_find k (rs_nodes st))"
    "omap_find k (rs_topics ?st) = (if k = t then Some (r\<lparr>tr_subscriber_endpoints :=
      tr_subscriber_endpoints r - {e}\<rparr>) else omap_find k (rs_topics st))" for k x
    using found by (simp_all add: withoutSubscriber_def)
  have named: "named_ok nr_node_id nr_node_name (rs_next_node_id ?st) (rs_nodes ?st) (rs_node_names ?st)"
    "named_ok tr_topic_id tr_topic_name (rs_next_topic_id ?st) (rs_topics ?st) (rs_topic_names ?st)"
    using registry_okD(1,2) [OF ok] by (simp_all add: withoutSubscriber_def named_ok_modify)
  have tables: "table_ok pe_endpoint_id (rs_next_endpoint_id ?st) (rs_publishers ?st)"
    "table_ok se_endpoint_id (rs_next_endpoint_id ?st) (rs_subscribers ?st)"
    using registry_okD(3,4) [OF ok] by (simp_all add: withoutSubscriber_def table_ok_erase)
  have node: "node_ok ?st k x" if "omap_find k (rs_nodes ?st) = Some x" for k x
    using that registry_okD(5) [OF ok, of k] found(1) sets(2) [of k]
    unfolding node_ok_def sets(1) same by (auto simp: find(2) split: if_splits)
  have topic: "topic_ok ?st k x" if x: "omap_find k (rs_topics ?st) = Some x" for k x
  proof (cases "k = t")
    case True
    then have eq: "x = r\<lparr>tr_subscriber_endpoints := tr_subscriber_endpoints r - {e}\<rparr>"
      using x by (simp add: find)
    show ?thesis using registry_okD(6) [OF ok found(2)] sets(4) [of t]
      unfolding topic_ok_def sets(1) same eq True by (simp add: subset_iff)
  next
    case False
    then have "topic_ok st k x" using x registry_okD(6) [OF ok, of k x] by (simp add: find(3))
    moreover have "subscribersWith se_topic_id k ?st = subscribersWith se_topic_id k st"
      using sets(1) sets(3) [OF False] by simp
    ultimately show ?thesis unfolding topic_ok_def sets(5) [OF False] same by simp
  qed
  have size: "k \<noteq> t \<Longrightarrow> tr_max_message_size x \<in> topic_sizes ?st k"
    if "omap_find k (rs_topics ?st) = Some x" for k x
    using that registry_okD(7) [OF ok, of k x] sets(5) [of k] by (simp add: find(3))
  have pub: "publisher_ok ?st q" if "omap_find x (rs_publishers ?st) = Some q" for x q
    using that registry_okD(8) [OF ok, of x q] found by (auto simp: publisher_ok_def same find(2,3))
  have sub: "subscriber_ok ?st q" if "omap_find x (rs_subscribers ?st) = Some q" for x q
    using that registry_okD(9) [OF ok, of x q] found by (auto simp: subscriber_ok_def find split: if_splits)
  show ?thesis unfolding registry_ok_def
    using named tables node topic size pub sub registry_okD(10) [OF ok] by (auto simp: find(1) same)
qed

lemma unadvertise_fails:
  assumes "ownedNode connection n st = None \<or> e \<notin> publishersWith pe_node_id n st"
  shows "unadvertise connection n e st = Some (EndpointNotFound, st)"
  using assms by (auto simp: unadvertise_def split: option.split)

lemma unsubscribe_fails:
  assumes "ownedNode connection n st = None \<or> e \<notin> subscribersWith se_node_id n st"
  shows "unsubscribe connection n e st = Some (EndpointNotFound, st)"
  using assms by (auto simp: unsubscribe_def split: option.split)

lemma unadvertise_effect:
  assumes ok: "registry_inv st" and owned: "ownedNode connection n st = Some node"
    and p: "omap_find e (rs_publishers st) = Some p" "pe_node_id p = n"
  obtains topics names where
    "unadvertise connection n e st = Some (Ok, st\<lparr>rs_nodes := omap_modify n (\<lambda>node. node\<lparr>nr_publisher_endpoints :=
          nr_publisher_endpoints node - {e}\<rparr>) (rs_nodes st), rs_publishers := omap_erase e (rs_publishers st),
        rs_topics := topics, rs_topic_names := names\<rparr>)"
    "registry_inv (st\<lparr>rs_nodes := omap_modify n (\<lambda>node. node\<lparr>nr_publisher_endpoints :=
          nr_publisher_endpoints node - {e}\<rparr>) (rs_nodes st), rs_publishers := omap_erase e (rs_publishers st),
        rs_topics := topics, rs_topic_names := names\<rparr>)"
proof -
  let ?t = "pe_topic_id p"
  note ok1 = withoutPublisher_ok [OF ok p(1) p(2) refl]
  obtain r where r: "omap_find ?t (rs_topics st) = Some r"
    using registry_okD(8) [OF ok p(1)] by (auto simp: publisher_ok_def)
  then obtain r' where "omap_find ?t (rs_topics (withoutPublisher n ?t e st)) = Some r'"
    by (simp add: withoutPublisher_def)
  then obtain st1 topics names where st1: "recomputeTopicMaxMessageSize ?t (withoutPublisher n ?t e st) = Some st1"
    "registry_inv (eraseTopicIfEmpty ?t st1)"
    "eraseTopicIfEmpty ?t st1 = (withoutPublisher n ?t e st)\<lparr>rs_topics := topics, rs_topic_names := names\<rparr>"
    by (rule settleTopic_ok [OF ok1]) blast
  have "unadvertise connection n e st = Some (Ok, eraseTopicIfEmpty ?t st1)"
    using owned p r st1(1) by (simp add: unadvertise_def withoutPublisher_def Let_def)
  then show ?thesis using that [of names topics] st1(2) unfolding st1(3) by (simp add: withoutPublisher_def)
qed

lemma unsubscribe_effect:
  assumes ok: "registry_inv st" and owned: "ownedNode connection n st = Some node"
    and s: "omap_find e (rs_subscribers st) = Some s" "se_node_id s = n"
  obtains topics names where
    "unsubscribe connection n e st = Some (Ok, st\<lparr>rs_nodes := omap_modify n (\<lambda>node. node\<lparr>nr_subscriber_endpoints :=
          nr_subscriber_endpoints node - {e}\<rparr>) (rs_nodes st), rs_subscribers := omap_erase e (rs_subscribers st),
        rs_topics := topics, rs_topic_names := names\<rparr>)"
    "registry_inv (st\<lparr>rs_nodes := omap_modify n (\<lambda>node. node\<lparr>nr_subscriber_endpoints :=
          nr_subscriber_endpoints node - {e}\<rparr>) (rs_nodes st), rs_subscribers := omap_erase e (rs_subscribers st),
        rs_topics := topics, rs_topic_names := names\<rparr>)"
proof -
  let ?t = "se_topic_id s"
  note ok1 = withoutSubscriber_ok [OF ok s(1) s(2) refl]
  obtain r where r: "omap_find ?t (rs_topics st) = Some r"
    using registry_okD(9) [OF ok s(1)] by (auto simp: subscriber_ok_def)
  then obtain r' where "omap_find ?t (rs_topics (withoutSubscriber n ?t e st)) = Some r'"
    by (simp add: withoutSubscriber_def)
  then obtain st1 topics names where st1: "recomputeTopicMaxMessageSize ?t (withoutSubscriber n ?t e st) = Some st1"
    "registry_inv (eraseTopicIfEmpty ?t st1)"
    "eraseTopicIfEmpty ?t st1 = (withoutSubscriber n ?t e st)\<lparr>rs_topics := topics, rs_topic_names := names\<rparr>"
    by (rule settleTopic_ok [OF ok1]) blast
  have "unsubscribe connection n e st = Some (Ok, eraseTopicIfEmpty ?t st1)"
    using owned s r st1(1) by (simp add: unsubscribe_def withoutSubscriber_def Let_def)
  then show ?thesis using that [of names topics] st1(2) unfolding st1(3) by (simp add: withoutSubscriber_def)
qed

end
