(* ===== verification/MW_Registry_Lifecycle.thy ===== *)
theory MW_Registry_Lifecycle
  imports MW_Registry_Invariant
begin

text \<open>
  Removal of nodes in \<open>src/registry/src/registry_state.cpp\<close>: \<open>unregisterNode\<close>, the clean-up of dead
  nodes with its report, the liveness evaluation, and the runs of the whole registry.
\<close>

section \<open>Unregistering a node\<close>

text \<open>The node \<open>n\<close> has lost the publishers \<open>E\<close> and the subscribers \<open>F\<close>; topics may have changed.\<close>

definition detached :: "u64 \<Rightarrow> u64 set \<Rightarrow> u64 set \<Rightarrow> RegistryState \<Rightarrow> RegistryState \<Rightarrow> bool" where
  "detached n E F st st' \<longleftrightarrow>
     rs_next_node_id st' = rs_next_node_id st \<and> rs_next_session_id st' = rs_next_session_id st \<and>
     rs_next_topic_id st' = rs_next_topic_id st \<and> rs_next_endpoint_id st' = rs_next_endpoint_id st \<and>
     rs_node_names st' = rs_node_names st \<and> rs_liveness st' = rs_liveness st \<and>
     rs_metrics st' = rs_metrics st \<and>
     map fst (rs_nodes st') = map fst (rs_nodes st) \<and>
     (\<forall>k. omap_find k (rs_nodes st') = (if k = n then map_option (\<lambda>r. r\<lparr>
          nr_publisher_endpoints := nr_publisher_endpoints r - E,
          nr_subscriber_endpoints := nr_subscriber_endpoints r - F\<rparr>) (omap_find k (rs_nodes st))
        else omap_find k (rs_nodes st))) \<and>
     (\<forall>e. omap_find e (rs_publishers st') = (if e \<in> E then None else omap_find e (rs_publishers st))) \<and>
     (\<forall>e. omap_find e (rs_subscribers st') = (if e \<in> F then None else omap_find e (rs_subscribers st)))"

lemma detached_refl: "detached n {} {} st st"
  by (auto simp: detached_def option.map_ident)

lemma diff_diff_union: "A - B - C = A - (B \<union> C)"
  by blast

lemma detached_trans:
  assumes "detached n E F st st1" "detached n E' F' st1 st2"
  shows "detached n (E \<union> E') (F \<union> F') st st2"
  using assms unfolding detached_def
  by (auto simp: option.map_comp comp_def diff_diff_union)

lemma detached_owned:
  assumes "detached n E F st st'" "ownedNode connection n st = Some node"
  shows "ownedNode connection n st' = Some (node\<lparr>nr_publisher_endpoints := nr_publisher_endpoints node - E,
    nr_subscriber_endpoints := nr_subscriber_endpoints node - F\<rparr>)"
  using assms by (auto simp: detached_def ownedNode_Some)

lemma unadvertiseAll_effect:
  assumes "registry_inv st" "ownedNode connection n st = Some node" "distinct es"
    "set es \<subseteq> publishersWith pe_node_id n st"
  shows "\<exists>st'. unadvertiseAll connection n es st = Some st' \<and> registry_inv st' \<and> detached n (set es) {} st st'"
  using assms
proof (induction es arbitrary: st node)
  case (Cons e es)
  then obtain p where p: "omap_find e (rs_publishers st) = Some p" "pe_node_id p = n" by auto
  obtain topics names where step:
    "unadvertise connection n e st = Some (Ok, st\<lparr>rs_nodes := omap_modify n (\<lambda>node. node\<lparr>nr_publisher_endpoints :=
          nr_publisher_endpoints node - {e}\<rparr>) (rs_nodes st), rs_publishers := omap_erase e (rs_publishers st),
        rs_topics := topics, rs_topic_names := names\<rparr>)"
    "registry_inv (st\<lparr>rs_nodes := omap_modify n (\<lambda>node. node\<lparr>nr_publisher_endpoints :=
          nr_publisher_endpoints node - {e}\<rparr>) (rs_nodes st), rs_publishers := omap_erase e (rs_publishers st),
        rs_topics := topics, rs_topic_names := names\<rparr>)"
    by (rule unadvertise_effect [OF Cons.prems(1,2) p])
  let ?st = "st\<lparr>rs_nodes := omap_modify n (\<lambda>node. node\<lparr>nr_publisher_endpoints :=
          nr_publisher_endpoints node - {e}\<rparr>) (rs_nodes st), rs_publishers := omap_erase e (rs_publishers st),
        rs_topics := topics, rs_topic_names := names\<rparr>"
  have d: "detached n {e} {} st ?st" by (auto simp: detached_def intro!: option.map_cong)
  have sub: "set es \<subseteq> publishersWith pe_node_id n ?st" using Cons.prems(3,4) by auto
  obtain st' where st': "unadvertiseAll connection n es ?st = Some st'" "registry_inv st'" "detached n (set es) {} ?st st'"
    using Cons.IH [OF step(2) detached_owned [OF d Cons.prems(2)] _ sub] Cons.prems(3) by auto
  then show ?case using step(1) detached_trans [OF d st'(3)] by simp
qed (auto intro: detached_refl)

lemma unsubscribeAll_effect:
  assumes "registry_inv st" "ownedNode connection n st = Some node" "distinct es"
    "set es \<subseteq> subscribersWith se_node_id n st"
  shows "\<exists>st'. unsubscribeAll connection n es st = Some st' \<and> registry_inv st' \<and> detached n {} (set es) st st'"
  using assms
proof (induction es arbitrary: st node)
  case (Cons e es)
  then obtain s where s: "omap_find e (rs_subscribers st) = Some s" "se_node_id s = n" by auto
  obtain topics names where step:
    "unsubscribe connection n e st = Some (Ok, st\<lparr>rs_nodes := omap_modify n (\<lambda>node. node\<lparr>nr_subscriber_endpoints :=
          nr_subscriber_endpoints node - {e}\<rparr>) (rs_nodes st), rs_subscribers := omap_erase e (rs_subscribers st),
        rs_topics := topics, rs_topic_names := names\<rparr>)"
    "registry_inv (st\<lparr>rs_nodes := omap_modify n (\<lambda>node. node\<lparr>nr_subscriber_endpoints :=
          nr_subscriber_endpoints node - {e}\<rparr>) (rs_nodes st), rs_subscribers := omap_erase e (rs_subscribers st),
        rs_topics := topics, rs_topic_names := names\<rparr>)"
    by (rule unsubscribe_effect [OF Cons.prems(1,2) s])
  let ?st = "st\<lparr>rs_nodes := omap_modify n (\<lambda>node. node\<lparr>nr_subscriber_endpoints :=
          nr_subscriber_endpoints node - {e}\<rparr>) (rs_nodes st), rs_subscribers := omap_erase e (rs_subscribers st),
        rs_topics := topics, rs_topic_names := names\<rparr>"
  have d: "detached n {} {e} st ?st" by (auto simp: detached_def intro!: option.map_cong)
  have sub: "set es \<subseteq> subscribersWith se_node_id n ?st" using Cons.prems(3,4) by auto
  obtain st' where st': "unsubscribeAll connection n es ?st = Some st'" "registry_inv st'" "detached n {} (set es) ?st st'"
    using Cons.IH [OF step(2) detached_owned [OF d Cons.prems(2)] _ sub] Cons.prems(3) by auto
  then show ?case using step(1) detached_trans [OF d st'(3)] by simp
qed (auto intro: detached_refl)

lemma eraseNode_ok:
  assumes ok: "registry_inv st" and node: "omap_find n (rs_nodes st) = Some node"
    and none: "publishersWith pe_node_id n st = {}" "subscribersWith se_node_id n st = {}"
  shows "registry_inv (st\<lparr>rs_node_names := omap_erase (nr_node_name node) (rs_node_names st),
    rs_nodes := omap_erase n (rs_nodes st)\<rparr>)" (is "registry_inv ?st")
proof -
  have sizes: "topic_sizes ?st = topic_sizes st" by (simp add: topic_sizes_def fun_eq_iff)
  have named: "named_ok nr_node_id nr_node_name (rs_next_node_id ?st) (rs_nodes ?st) (rs_node_names ?st)"
    using named_ok_erase [OF registry_okD(1) [OF ok] node] by simp
  have nodes: "node_ok ?st k x" if "omap_find k (rs_nodes ?st) = Some x" for k x
    using that registry_okD(5) [OF ok, of k x] by (simp add: node_ok_def split: if_splits)
  have pub: "publisher_ok ?st p" if "omap_find e (rs_publishers ?st) = Some p" for e p
    using that none registry_okD(8) [OF ok, of e p] by (auto simp: publisher_ok_def)
  have sub: "subscriber_ok ?st s" if "omap_find e (rs_subscribers ?st) = Some s" for e s
    using that none registry_okD(9) [OF ok, of e s] by (auto simp: subscriber_ok_def)
  show ?thesis using ok named nodes pub sub unfolding registry_ok_def topic_ok_def sizes by simp
qed

text \<open>What remains of the tables.\<close>

definition withoutNodes :: "u64 set \<Rightarrow> RegistryState \<Rightarrow> RegistryState \<Rightarrow> bool" where
  "withoutNodes N st st' \<longleftrightarrow>
     (\<forall>k. omap_find k (rs_nodes st') = (if k \<in> N then None else omap_find k (rs_nodes st))) \<and>
     (\<forall>e. omap_find e (rs_publishers st') = (case omap_find e (rs_publishers st) of None \<Rightarrow> None
        | Some p \<Rightarrow> if pe_node_id p \<in> N then None else Some p)) \<and>
     (\<forall>e. omap_find e (rs_subscribers st') = (case omap_find e (rs_subscribers st) of None \<Rightarrow> None
        | Some s \<Rightarrow> if se_node_id s \<in> N then None else Some s)) \<and>
     rs_liveness st' = rs_liveness st \<and> rs_next_node_id st' = rs_next_node_id st \<and>
     rs_next_topic_id st' = rs_next_topic_id st \<and> rs_next_endpoint_id st' = rs_next_endpoint_id st"

lemma withoutNodes_refl: "withoutNodes {} st st"
  by (auto simp: withoutNodes_def split: option.split)

lemma withoutNodes_trans: "withoutNodes M st st1 \<Longrightarrow> withoutNodes N st1 st2 \<Longrightarrow> withoutNodes (M \<union> N) st st2"
  by (auto simp: withoutNodes_def split: option.splits)

lemma unregisterNode_effect:
  assumes ok: "registry_inv st" and owned: "ownedNode connection n st = Some node"
  obtains st' where "unregisterNode connection n st = Some (Ok, st')" "registry_inv st'"
    "withoutNodes {n} st st'" "rs_metrics st' = rs_metrics st"
proof -
  have found: "omap_find n (rs_nodes st) = Some node" using owned by (simp add: ownedNode_Some)
  note sets = registry_okD(5) [OF ok found, unfolded node_ok_def]
  let ?E = "publishersWith pe_node_id n st" and ?F = "subscribersWith se_node_id n st"
  obtain st1 where st1: "unadvertiseAll connection n (sorted_list_of_set ?E) st = Some st1"
    "registry_inv st1" "detached n ?E {} st st1"
    using unadvertiseAll_effect [OF ok owned, of "sorted_list_of_set ?E"] by auto
  have F: "set (sorted_list_of_set ?F) \<subseteq> subscribersWith se_node_id n st1"
    using st1(3) by (auto simp: detached_def)
  obtain st2 where st2: "unsubscribeAll connection n (sorted_list_of_set ?F) st1 = Some st2"
    "registry_inv st2" "detached n {} ?F st1 st2"
    using unsubscribeAll_effect [OF st1(2) detached_owned [OF st1(3) owned] _ F] by auto
  have d: "detached n ?E ?F st st2" using detached_trans [OF st1(3) st2(3)] by simp
  let ?st = "st2\<lparr>rs_node_names := omap_erase (nr_node_name node) (rs_node_names st2),
    rs_nodes := omap_erase n (rs_nodes st2)\<rparr>"
  have eq: "unregisterNode connection n st = Some (Ok, ?st)"
    using owned sets st1(1) st2(1) by (simp add: unregisterNode_def)
  obtain node2 where node2: "omap_find n (rs_nodes st2) = Some node2" "nr_node_name node2 = nr_node_name node"
    using d found by (auto simp: detached_def)
  have inv: "registry_inv ?st"
    using eraseNode_ok [OF st2(2) node2(1)] d unfolding node2(2) by (auto simp: detached_def)
  have "withoutNodes {n} st ?st" unfolding withoutNodes_def using d
    by (auto simp: detached_def split: option.split)
  then show ?thesis using that [OF eq inv] d by (simp add: detached_def)
qed

section \<open>The report about a dead node\<close>

lemma publisherDeadEvents_eq:
  assumes "\<forall>s \<in> set ss. omap_find s (rs_subscribers st) \<noteq> None"
  shows "publisherDeadEvents ss e p st =
    map (\<lambda>s. \<lparr>pv_kind = PublisherDead, pv_target_node_id = se_node_id (the (omap_find s (rs_subscribers st))),
      pv_target_endpoint_id = s, pv_dead_endpoint_id = e, pv_topic_id = pe_topic_id p,
      pv_resource_id = spm_pool_id (pe_pool p)\<rparr>) ss"
  using assms by (induction ss) auto

lemma cleanupPublishers_eq:
  assumes ok: "registry_ok X st" and es: "\<forall>e \<in> set es. omap_find e (rs_publishers st) \<noteq> None"
  shows "\<exists>events. cleanupPublishers es st c =
      Some (c\<lparr>dn_pools := dn_pools c @ filter (\<lambda>pool. spm_shm_name pool \<noteq> [])
          (map (\<lambda>e. pe_pool (the (omap_find e (rs_publishers st)))) es),
        dn_peer_events := dn_peer_events c @ events\<rparr>) \<and>
    set events = {\<lparr>pv_kind = PublisherDead, pv_target_node_id = se_node_id s, pv_target_endpoint_id = k,
        pv_dead_endpoint_id = e, pv_topic_id = pe_topic_id p, pv_resource_id = spm_pool_id (pe_pool p)\<rparr> | e p k s.
      e \<in> set es \<and> omap_find e (rs_publishers st) = Some p \<and> omap_find k (rs_subscribers st) = Some s \<and>
      se_topic_id s = pe_topic_id p}"
  using es
proof (induction es arbitrary: c)
  case (Cons e es)
  then obtain p where p: "omap_find e (rs_publishers st) = Some p" by auto
  then obtain r where r: "omap_find (pe_topic_id p) (rs_topics st) = Some r"
    using registry_okD(8) [OF ok] by (auto simp: publisher_ok_def)
  have subs: "tr_subscriber_endpoints r = subscribersWith se_topic_id (pe_topic_id p) st"
    using registry_okD(6) [OF ok r] by (simp add: topic_ok_def)
  let ?new = "publisherDeadEvents (sorted_list_of_set (tr_subscriber_endpoints r)) e p st"
  let ?c = "(if spm_shm_name (pe_pool p) \<noteq> [] then c\<lparr>dn_pools := dn_pools c @ [pe_pool p]\<rparr> else c)"
  obtain events where events: "cleanupPublishers es st (?c\<lparr>dn_peer_events := dn_peer_events ?c @ ?new\<rparr>) =
      Some (?c\<lparr>dn_pools := dn_pools ?c @ filter (\<lambda>pool. spm_shm_name pool \<noteq> [])
          (map (\<lambda>e. pe_pool (the (omap_find e (rs_publishers st)))) es),
        dn_peer_events := (dn_peer_events ?c @ ?new) @ events\<rparr>)"
    "set events = {\<lparr>pv_kind = PublisherDead, pv_target_node_id = se_node_id s, pv_target_endpoint_id = k,
        pv_dead_endpoint_id = e, pv_topic_id = pe_topic_id p, pv_resource_id = spm_pool_id (pe_pool p)\<rparr> | e p k s.
      e \<in> set es \<and> omap_find e (rs_publishers st) = Some p \<and> omap_find k (rs_subscribers st) = Some s \<and>
      se_topic_id s = pe_topic_id p}"
    using Cons.IH [of "?c\<lparr>dn_peer_events := dn_peer_events ?c @ ?new\<rparr>"] Cons.prems by auto
  have "set ?new = {\<lparr>pv_kind = PublisherDead, pv_target_node_id = se_node_id s, pv_target_endpoint_id = k,
        pv_dead_endpoint_id = e, pv_topic_id = pe_topic_id p, pv_resource_id = spm_pool_id (pe_pool p)\<rparr> | k s.
      omap_find k (rs_subscribers st) = Some s \<and> se_topic_id s = pe_topic_id p}"
    unfolding subs by (subst publisherDeadEvents_eq) (auto simp: image_iff)
  then have "set (?new @ events) = {\<lparr>pv_kind = PublisherDead, pv_target_node_id = se_node_id s, pv_target_endpoint_id = k,
        pv_dead_endpoint_id = e', pv_topic_id = pe_topic_id p, pv_resource_id = spm_pool_id (pe_pool p)\<rparr> | e' p k s.
      e' \<in> set (e # es) \<and> omap_find e' (rs_publishers st) = Some p \<and> omap_find k (rs_subscribers st) = Some s \<and>
      se_topic_id s = pe_topic_id p}"
    unfolding set_append events(2) using p by auto
  then show ?case using events(1) p r by (intro exI [of _ "?new @ events"]) (auto simp: Let_def)
qed auto

lemma subscriberDeadEvents_set:
  assumes ok: "registry_ok X st" and r: "omap_find (se_topic_id s) (rs_topics st) = Some r"
  shows "set (subscriberDeadEvents e s r st) =
    {\<lparr>pv_kind = SubscriberDead, pv_target_node_id = pe_node_id p, pv_target_endpoint_id = k,
        pv_dead_endpoint_id = e, pv_topic_id = se_topic_id s, pv_resource_id = sqm_queue_id (se_queue s)\<rparr> | k p.
      omap_find k (rs_publishers st) = Some p \<and> pe_topic_id p = se_topic_id s}"
proof -
  have pubs: "set_option (tr_publisher_endpoint r) = publishersWith pe_topic_id (se_topic_id s) st"
    using registry_okD(6) [OF ok r] by (simp add: topic_ok_def)
  show ?thesis
  proof (cases "tr_publisher_endpoint r")
    case None
    then show ?thesis using pubs by (auto simp: subscriberDeadEvents_def)
  next
    case (Some a)
    then have a: "publishersWith pe_topic_id (se_topic_id s) st = {a}" using pubs by simp
    then obtain q where q: "omap_find a (rs_publishers st) = Some q" "pe_topic_id q = se_topic_id s" by blast
    have iff: "omap_find k (rs_publishers st) = Some p \<and> pe_topic_id p = se_topic_id s \<longleftrightarrow> k = a \<and> p = q" for k p
    proof
      assume *: "omap_find k (rs_publishers st) = Some p \<and> pe_topic_id p = se_topic_id s"
      then have "k \<in> publishersWith pe_topic_id (se_topic_id s) st" by blast
      then have "k = a" unfolding a by simp
      then show "k = a \<and> p = q" using * q(1) by simp
    qed (simp add: q)
    have "pe_endpoint_id q = a" using registry_okD(3) [OF ok] q(1) by (auto simp: table_ok_def)
    then show ?thesis unfolding iff using Some q by (simp add: subscriberDeadEvents_def)
  qed
qed

lemma cleanupSubscribers_eq:
  assumes ok: "registry_ok X st" and es: "\<forall>e \<in> set es. omap_find e (rs_subscribers st) \<noteq> None"
  shows "\<exists>events. cleanupSubscribers es st c =
      Some (c\<lparr>dn_queues := dn_queues c @ filter (\<lambda>queue. sqm_shm_name queue \<noteq> [])
          (map (\<lambda>e. se_queue (the (omap_find e (rs_subscribers st)))) es),
        dn_socket_paths := dn_socket_paths c @
          map (\<lambda>e. se_data_socket_path (the (omap_find e (rs_subscribers st)))) es,
        dn_peer_events := dn_peer_events c @ events\<rparr>) \<and>
    set events = {\<lparr>pv_kind = SubscriberDead, pv_target_node_id = pe_node_id p, pv_target_endpoint_id = k,
        pv_dead_endpoint_id = e, pv_topic_id = se_topic_id s, pv_resource_id = sqm_queue_id (se_queue s)\<rparr> | e s k p.
      e \<in> set es \<and> omap_find e (rs_subscribers st) = Some s \<and> omap_find k (rs_publishers st) = Some p \<and>
      pe_topic_id p = se_topic_id s}"
  using es
proof (induction es arbitrary: c)
  case (Cons e es)
  then obtain s where s: "omap_find e (rs_subscribers st) = Some s" by auto
  then obtain r where r: "omap_find (se_topic_id s) (rs_topics st) = Some r"
    using registry_okD(9) [OF ok] by (auto simp: subscriber_ok_def)
  let ?new = "subscriberDeadEvents e s r st"
  let ?c = "(if sqm_shm_name (se_queue s) \<noteq> [] then c\<lparr>dn_queues := dn_queues c @ [se_queue s]\<rparr> else c)"
  let ?c' = "?c\<lparr>dn_socket_paths := dn_socket_paths ?c @ [se_data_socket_path s]\<rparr>"
  obtain events where events: "cleanupSubscribers es st (?c'\<lparr>dn_peer_events := dn_peer_events ?c' @ ?new\<rparr>) =
      Some (?c'\<lparr>dn_queues := dn_queues ?c' @ filter (\<lambda>queue. sqm_shm_name queue \<noteq> [])
          (map (\<lambda>e. se_queue (the (omap_find e (rs_subscribers st)))) es),
        dn_socket_paths := dn_socket_paths ?c' @
          map (\<lambda>e. se_data_socket_path (the (omap_find e (rs_subscribers st)))) es,
        dn_peer_events := (dn_peer_events ?c' @ ?new) @ events\<rparr>)"
    "set events = {\<lparr>pv_kind = SubscriberDead, pv_target_node_id = pe_node_id p, pv_target_endpoint_id = k,
        pv_dead_endpoint_id = e, pv_topic_id = se_topic_id s, pv_resource_id = sqm_queue_id (se_queue s)\<rparr> | e s k p.
      e \<in> set es \<and> omap_find e (rs_subscribers st) = Some s \<and> omap_find k (rs_publishers st) = Some p \<and>
      pe_topic_id p = se_topic_id s}"
    using Cons.IH [of "?c'\<lparr>dn_peer_events := dn_peer_events ?c' @ ?new\<rparr>"] Cons.prems by auto
  have "set ?new = {\<lparr>pv_kind = SubscriberDead, pv_target_node_id = pe_node_id p, pv_target_endpoint_id = k,
        pv_dead_endpoint_id = e, pv_topic_id = se_topic_id s, pv_resource_id = sqm_queue_id (se_queue s)\<rparr> | k p.
      omap_find k (rs_publishers st) = Some p \<and> pe_topic_id p = se_topic_id s}"
    by (rule subscriberDeadEvents_set [OF ok r])
  then have "set (?new @ events) = {\<lparr>pv_kind = SubscriberDead, pv_target_node_id = pe_node_id p, pv_target_endpoint_id = k,
        pv_dead_endpoint_id = e', pv_topic_id = se_topic_id s, pv_resource_id = sqm_queue_id (se_queue s)\<rparr> | e' s k p.
      e' \<in> set (e # es) \<and> omap_find e' (rs_subscribers st) = Some s \<and> omap_find k (rs_publishers st) = Some p \<and>
      pe_topic_id p = se_topic_id s}"
    unfolding set_append events(2) using s by auto
  then show ?case using events(1) s r by (intro exI [of _ "?new @ events"]) (auto simp: Let_def)
qed auto

text \<open>What the report has to contain: the node's own identity, the shared memory of its endpoints, its
  sockets, and an event for the other end of every topic it took part in.\<close>

definition deadReport :: "NodeRecord \<Rightarrow> RegistryState \<Rightarrow> DeadNodeCleanup \<Rightarrow> bool" where
  "deadReport node st c \<longleftrightarrow>
     (let n = nr_node_id node;
          E = sorted_list_of_set (publishersWith pe_node_id n st);
          F = sorted_list_of_set (subscribersWith se_node_id n st) in
      dn_node_id c = n \<and> dn_session_id c = nr_session_id node \<and>
      dn_control_connection c = nr_control_connection node \<and>
      dn_heartbeat_connection c = nr_heartbeat_connection node \<and>
      dn_pools c = filter (\<lambda>pool. spm_shm_name pool \<noteq> [])
        (map (\<lambda>e. pe_pool (the (omap_find e (rs_publishers st)))) E) \<and>
      dn_queues c = filter (\<lambda>queue. sqm_shm_name queue \<noteq> [])
        (map (\<lambda>e. se_queue (the (omap_find e (rs_subscribers st)))) F) \<and>
      dn_socket_paths c = map (\<lambda>e. se_data_socket_path (the (omap_find e (rs_subscribers st)))) F \<and>
      set (dn_peer_events c) =
        {\<lparr>pv_kind = PublisherDead, pv_target_node_id = se_node_id s, pv_target_endpoint_id = k,
           pv_dead_endpoint_id = e, pv_topic_id = pe_topic_id p, pv_resource_id = spm_pool_id (pe_pool p)\<rparr> | e p k s.
         e \<in> set E \<and> omap_find e (rs_publishers st) = Some p \<and>
         omap_find k (rs_subscribers st) = Some s \<and> se_topic_id s = pe_topic_id p} \<union>
        {\<lparr>pv_kind = SubscriberDead, pv_target_node_id = pe_node_id p, pv_target_endpoint_id = k,
           pv_dead_endpoint_id = e, pv_topic_id = se_topic_id s, pv_resource_id = sqm_queue_id (se_queue s)\<rparr> | e s k p.
         e \<in> set F \<and> omap_find e (rs_subscribers st) = Some s \<and>
         omap_find k (rs_publishers st) = Some p \<and> pe_topic_id p = se_topic_id s})"

lemma cleanup_report:
  assumes ok: "registry_inv st" and node: "omap_find n (rs_nodes st) = Some node"
  obtains c1 c where
    "cleanupPublishers (sorted_list_of_set (nr_publisher_endpoints node)) st
       \<lparr>dn_node_id = nr_node_id node, dn_session_id = nr_session_id node,
        dn_control_connection = nr_control_connection node,
        dn_heartbeat_connection = nr_heartbeat_connection node, dn_pools = [],
        dn_queues = [], dn_socket_paths = [], dn_peer_events = []\<rparr> = Some c1"
    "cleanupSubscribers (sorted_list_of_set (nr_subscriber_endpoints node)) st c1 = Some c"
    "deadReport node st c"
proof -
  have id: "nr_node_id node = n" by (rule registry_node_id [OF ok node])
  note sets = registry_okD(5) [OF ok node, unfolded node_ok_def]
  let ?E = "sorted_list_of_set (publishersWith pe_node_id n st)"
    and ?F = "sorted_list_of_set (subscribersWith se_node_id n st)"
  define c0 where "c0 = \<lparr>dn_node_id = nr_node_id node, dn_session_id = nr_session_id node,
    dn_control_connection = nr_control_connection node,
    dn_heartbeat_connection = nr_heartbeat_connection node, dn_pools = [],
    dn_queues = [], dn_socket_paths = [], dn_peer_events = []\<rparr>"
  have E: "\<forall>e \<in> set ?E. omap_find e (rs_publishers st) \<noteq> None"
    and F: "\<forall>e \<in> set ?F. omap_find e (rs_subscribers st) \<noteq> None" by auto
  from cleanupPublishers_eq [OF ok E, of c0] obtain ev1 c1
    where c1: "cleanupPublishers ?E st c0 = Some c1"
      "c1 = c0\<lparr>dn_pools := dn_pools c0 @ filter (\<lambda>pool. spm_shm_name pool \<noteq> [])
          (map (\<lambda>e. pe_pool (the (omap_find e (rs_publishers st)))) ?E),
        dn_peer_events := dn_peer_events c0 @ ev1\<rparr>"
      "set ev1 = {\<lparr>pv_kind = PublisherDead, pv_target_node_id = se_node_id s, pv_target_endpoint_id = k,
        pv_dead_endpoint_id = e, pv_topic_id = pe_topic_id p, pv_resource_id = spm_pool_id (pe_pool p)\<rparr> | e p k s.
      e \<in> set ?E \<and> omap_find e (rs_publishers st) = Some p \<and> omap_find k (rs_subscribers st) = Some s \<and>
      se_topic_id s = pe_topic_id p}" by blast
  from cleanupSubscribers_eq [OF ok F, of c1] obtain ev2 c
    where c: "cleanupSubscribers ?F st c1 = Some c"
      "c = c1\<lparr>dn_queues := dn_queues c1 @ filter (\<lambda>queue. sqm_shm_name queue \<noteq> [])
          (map (\<lambda>e. se_queue (the (omap_find e (rs_subscribers st)))) ?F),
        dn_socket_paths := dn_socket_paths c1 @
          map (\<lambda>e. se_data_socket_path (the (omap_find e (rs_subscribers st)))) ?F,
        dn_peer_events := dn_peer_events c1 @ ev2\<rparr>"
      "set ev2 = {\<lparr>pv_kind = SubscriberDead, pv_target_node_id = pe_node_id p, pv_target_endpoint_id = k,
        pv_dead_endpoint_id = e, pv_topic_id = se_topic_id s, pv_resource_id = sqm_queue_id (se_queue s)\<rparr> | e s k p.
      e \<in> set ?F \<and> omap_find e (rs_subscribers st) = Some s \<and> omap_find k (rs_publishers st) = Some p \<and>
      pe_topic_id p = se_topic_id s}" by blast
  have "deadReport node st c"
    unfolding deadReport_def Let_def id c(2) c1(2) c0_def using c1(3) c(3)
    by (simp add: id del: set_sorted_list_of_set)
  then show ?thesis using that [of c1 c] c1(1) c(1) sets by (simp add: c0_def)
qed

lemma cleanupDeadNode_effect:
  assumes ok: "registry_inv st" and node: "omap_find n (rs_nodes st) = Some node"
  obtains c st' where "cleanupDeadNode n st = Some (Some c, st')" "registry_inv st'"
    "withoutNodes {n} st st'" "deadReport node st c"
    "rs_metrics st' = (rs_metrics st)\<lparr>rm_dead_node_count := rm_dead_node_count (rs_metrics st) + 1\<rparr>"
proof -
  have id: "nr_node_id node = n" by (rule registry_node_id [OF ok node])
  have "ownedNode (nr_control_connection node) n st = Some node" using node by (simp add: ownedNode_Some)
  from unregisterNode_effect [OF ok this] obtain st1 where
    st1: "unregisterNode (nr_control_connection node) n st = Some (Ok, st1)" "registry_inv st1"
      "withoutNodes {n} st st1" "rs_metrics st1 = rs_metrics st" .
  from cleanup_report [OF ok node] obtain c1 c where c:
    "cleanupPublishers (sorted_list_of_set (nr_publisher_endpoints node)) st
       \<lparr>dn_node_id = nr_node_id node, dn_session_id = nr_session_id node,
        dn_control_connection = nr_control_connection node,
        dn_heartbeat_connection = nr_heartbeat_connection node, dn_pools = [],
        dn_queues = [], dn_socket_paths = [], dn_peer_events = []\<rparr> = Some c1"
    "cleanupSubscribers (sorted_list_of_set (nr_subscriber_endpoints node)) st c1 = Some c"
    "deadReport node st c" .
  let ?st = "st1\<lparr>rs_metrics := (rs_metrics st1)\<lparr>rm_dead_node_count := rm_dead_node_count (rs_metrics st1) + 1\<rparr>\<rparr>"
  have "cleanupDeadNode n st = Some (Some c, ?st)"
    using node st1(1) c(1,2) by (simp add: cleanupDeadNode_def id)
  moreover have "registry_inv ?st" using st1(2) by (simp add: registry_ok_metrics)
  moreover have "withoutNodes {n} st ?st" using st1(3) by (simp add: withoutNodes_def)
  ultimately show ?thesis using that c(3) st1(4) by simp
qed

section \<open>Several nodes\<close>

lemma cleanupAll_effect:
  assumes "registry_inv st" "distinct ns" "\<forall>n \<in> set ns. omap_find n (rs_nodes st) \<noteq> None"
  shows "\<exists>cs st'. cleanupAll ns st = Some (cs, st') \<and> registry_inv st' \<and> withoutNodes (set ns) st st' \<and>
    map dn_node_id cs = ns \<and>
    rs_metrics st' = (rs_metrics st)\<lparr>rm_dead_node_count :=
      rm_dead_node_count (rs_metrics st) + of_nat (length ns)\<rparr>"
  using assms
proof (induction ns arbitrary: st)
  case (Cons n ns)
  then obtain node where node: "omap_find n (rs_nodes st) = Some node" by auto
  obtain c st1 where c: "cleanupDeadNode n st = Some (Some c, st1)" "registry_inv st1"
    "withoutNodes {n} st st1" "deadReport node st c"
    "rs_metrics st1 = (rs_metrics st)\<lparr>rm_dead_node_count := rm_dead_node_count (rs_metrics st) + 1\<rparr>"
    by (rule cleanupDeadNode_effect [OF Cons.prems(1) node])
  have "\<forall>k \<in> set ns. omap_find k (rs_nodes st1) \<noteq> None"
    using c(3) Cons.prems(2,3) by (auto simp: withoutNodes_def)
  then obtain cs st' where cs: "cleanupAll ns st1 = Some (cs, st')" "registry_inv st'"
    "withoutNodes (set ns) st1 st'" "map dn_node_id cs = ns"
    "rs_metrics st' = (rs_metrics st1)\<lparr>rm_dead_node_count :=
      rm_dead_node_count (rs_metrics st1) + of_nat (length ns)\<rparr>"
    using Cons.IH [OF c(2)] Cons.prems(2) by auto
  have "dn_node_id c = n"
    using c(4) registry_node_id [OF Cons.prems(1) node] by (simp add: deadReport_def Let_def)
  then show ?case using c(1,5) cs withoutNodes_trans [OF c(3) cs(3)] by (simp add: add_ac)
qed (simp add: withoutNodes_refl)

section \<open>Liveness\<close>

text \<open>The two decisions of \<open>evaluateLiveness\<close> about a node.\<close>

definition timedOut :: "LivenessConfig \<Rightarrow> int \<Rightarrow> NodeRecord \<Rightarrow> bool" where
  "timedOut config now node \<longleftrightarrow> now - nr_last_seen node \<ge> dead_timeout config * 1000000"

definition newlySuspect :: "LivenessConfig \<Rightarrow> int \<Rightarrow> NodeRecord \<Rightarrow> bool" where
  "newlySuspect config now node \<longleftrightarrow>
     now - nr_last_seen node \<ge> suspect_timeout config * 1000000 \<and> nr_liveness node = Alive"

lemma livenessPass_eq:
  "livenessPass config now nodes count =
     (map (\<lambda>(k, node). (k, if newlySuspect config now node then node\<lparr>nr_liveness := Suspected\<rparr> else node)) nodes,
      count + of_nat (length (filter (newlySuspect config now) (map snd nodes))),
      map nr_node_id (filter (\<lambda>node. newlySuspect config now node \<and> \<not> timedOut config now node) (map snd nodes)),
      map nr_node_id (filter (timedOut config now) (map snd nodes)))"
  by (induction config now nodes count rule: livenessPass.induct)
    (auto simp: newlySuspect_def timedOut_def Let_def split: prod.splits)

lemma livenessPass_ok:
  assumes ok: "registry_ok X st"
    and pass: "livenessPass config now (rs_nodes st) count = (nodes, rest)"
  shows "registry_ok X (st\<lparr>rs_nodes := nodes, rs_metrics := m\<rparr>)"
    "omap_find n nodes = map_option (\<lambda>node. if newlySuspect config now node
       then node\<lparr>nr_liveness := Suspected\<rparr> else node) (omap_find n (rs_nodes st))"
proof -
  define f where "f node = (if newlySuspect config now node
    then node\<lparr>nr_liveness := Suspected\<rparr> else node)" for node
  have nodes: "nodes = map (\<lambda>(k, node). (k, f node)) (rs_nodes st)"
    using pass by (simp add: livenessPass_eq f_def)
  show find: "omap_find n nodes = map_option (\<lambda>node. if newlySuspect config now node
       then node\<lparr>nr_liveness := Suspected\<rparr> else node) (omap_find n (rs_nodes st))" for n
    unfolding nodes by (simp add: map_of_map f_def [abs_def])
  show "registry_ok X (st\<lparr>rs_nodes := nodes, rs_metrics := m\<rparr>)"
  proof (rule registry_ok_nodes_sim [OF ok])
    show "rel_option same_node (omap_find n (rs_nodes st)) (omap_find n nodes)" for n
      by (cases "omap_find n (rs_nodes st)") (auto simp: find same_node_def)
  qed (simp add: nodes split_def)
qed

lemma node_ids:
  assumes ok: "registry_ok X st"
  shows "map nr_node_id (filter P (map snd (rs_nodes st))) = map fst (filter (P \<circ> snd) (rs_nodes st))"
    "distinct (map fst (filter (P \<circ> snd) (rs_nodes st)))"
    "set (map fst (filter (P \<circ> snd) (rs_nodes st))) =
       {n. \<exists>node. omap_find n (rs_nodes st) = Some node \<and> P node}"
proof -
  have "\<forall>(k, node) \<in> set (rs_nodes st). nr_node_id node = k"
    using omap_find_set [OF registry_maps_ok(1) [OF ok]] registry_node_id [OF ok] by auto
  then show "map nr_node_id (filter P (map snd (rs_nodes st))) = map fst (filter (P \<circ> snd) (rs_nodes st))"
    by (induction "rs_nodes st" arbitrary: st) (auto simp: filter_map comp_def)
  have "distinct (map fst (rs_nodes st))"
    using registry_maps_ok(1) [OF ok] by (simp add: omap_ok_def strict_sorted_iff)
  then show "distinct (map fst (filter (P \<circ> snd) (rs_nodes st)))" by (rule distinct_map_filter)
  show "set (map fst (filter (P \<circ> snd) (rs_nodes st))) =
      {n. \<exists>node. omap_find n (rs_nodes st) = Some node \<and> P node}"
    using omap_find_set [OF registry_maps_ok(1) [OF ok]] by force
qed

lemma evaluateLiveness_effect:
  assumes ok: "registry_inv st"
  shows "\<exists>u st'. evaluateLiveness now st = Some (u, st') \<and> registry_inv st' \<and>
    map dn_node_id (lu_dead_nodes u) = map nr_node_id (filter (timedOut (rs_liveness st) now) (map snd (rs_nodes st))) \<and>
    lu_suspected_nodes u = map nr_node_id (filter (\<lambda>node. newlySuspect (rs_liveness st) now node \<and>
      \<not> timedOut (rs_liveness st) now node) (map snd (rs_nodes st))) \<and>
    (\<forall>n. omap_find n (rs_nodes st') = (case omap_find n (rs_nodes st) of None \<Rightarrow> None
       | Some node \<Rightarrow> if timedOut (rs_liveness st) now node then None
           else Some (if newlySuspect (rs_liveness st) now node then node\<lparr>nr_liveness := Suspected\<rparr> else node))) \<and>
    rs_next_node_id st' = rs_next_node_id st \<and> rs_next_topic_id st' = rs_next_topic_id st \<and>
    rs_next_endpoint_id st' = rs_next_endpoint_id st \<and> rs_liveness st' = rs_liveness st"
proof -
  let ?dead = "timedOut (rs_liveness st) now" and ?count = "rm_suspected_count (rs_metrics st)"
  obtain nodes count suspected dead where
    pass: "livenessPass (rs_liveness st) now (rs_nodes st) ?count = (nodes, count, suspected, dead)"
    by (metis prod_cases4)
  define st1 where "st1 = st\<lparr>rs_nodes := nodes, rs_metrics := (rs_metrics st)\<lparr>rm_suspected_count := count\<rparr>\<rparr>"
  have ok1: "registry_inv st1" unfolding st1_def by (rule livenessPass_ok(1) [OF ok pass])
  have find: "omap_find n (rs_nodes st1) = map_option (\<lambda>node. if newlySuspect (rs_liveness st) now node
      then node\<lparr>nr_liveness := Suspected\<rparr> else node) (omap_find n (rs_nodes st))" for n
    unfolding st1_def using livenessPass_ok(2) [OF ok pass] by simp
  have dead: "dead = map fst (filter (?dead \<circ> snd) (rs_nodes st))"
    using pass unfolding node_ids(1) [OF ok, symmetric] by (simp add: livenessPass_eq)
  have set: "set dead = {n. \<exists>node. omap_find n (rs_nodes st) = Some node \<and> ?dead node}"
    unfolding dead by (rule node_ids(3) [OF ok])
  have "\<forall>n \<in> set dead. omap_find n (rs_nodes st1) \<noteq> None" unfolding set by (auto simp: find)
  moreover have "distinct dead" unfolding dead by (rule node_ids(2) [OF ok])
  ultimately obtain cs st' where cs: "cleanupAll dead st1 = Some (cs, st')" "registry_inv st'"
    "withoutNodes (set dead) st1 st'" "map dn_node_id cs = dead"
    using cleanupAll_effect [OF ok1] by blast
  have eq: "evaluateLiveness now st = Some (\<lparr>lu_suspected_nodes = suspected, lu_dead_nodes = cs\<rparr>, st')"
    using cs(1) unfolding st1_def by (simp add: evaluateLiveness_def pass)
  have nodes: "omap_find n (rs_nodes st') = (case omap_find n (rs_nodes st) of None \<Rightarrow> None
       | Some node \<Rightarrow> if ?dead node then None
           else Some (if newlySuspect (rs_liveness st) now node then node\<lparr>nr_liveness := Suspected\<rparr> else node))" for n
    using cs(3) unfolding withoutNodes_def find set by (auto split: option.split)
  have frame: "rs_next_node_id st' = rs_next_node_id st" "rs_next_topic_id st' = rs_next_topic_id st"
    "rs_next_endpoint_id st' = rs_next_endpoint_id st" "rs_liveness st' = rs_liveness st"
    using cs(3) by (simp_all add: withoutNodes_def st1_def)
  show ?thesis
    using eq cs(2,4) pass nodes frame by (simp add: livenessPass_eq)
qed

lemma disconnectConnection_effect:
  assumes ok: "registry_inv st"
  shows "\<exists>cs st'. disconnectConnection connection st = Some (cs, st') \<and> registry_inv st' \<and>
    rs_next_node_id st' = rs_next_node_id st \<and> rs_next_topic_id st' = rs_next_topic_id st \<and>
    rs_next_endpoint_id st' = rs_next_endpoint_id st"
proof -
  let ?P = "\<lambda>node. nr_control_connection node = connection"
  let ?ns = "map fst (filter (?P \<circ> snd) (rs_nodes st))"
  have "\<forall>n \<in> set ?ns. omap_find n (rs_nodes st) \<noteq> None" unfolding node_ids(3) [OF ok] by auto
  then obtain cs st' where cs: "cleanupAll ?ns st = Some (cs, st')" "registry_inv st'"
    "withoutNodes (set ?ns) st st'"
    using cleanupAll_effect [OF ok node_ids(2) [OF ok]] by blast
  then have "disconnectConnection connection st =
      Some (cs, if cs = [] then detachHeartbeatConnection connection st' else st')"
    by (simp add: disconnectConnection_def split_def comp_def)
  then show ?thesis using cs(2,3) detachHeartbeatConnection_ok [OF cs(2)]
    by (auto simp: withoutNodes_def detachHeartbeatConnection_def)
qed

section \<open>Runs of the registry\<close>

datatype RegistryCall =
  RegisterNodeCall ConnectionId string int
| UnregisterNodeCall ConnectionId u64
| AttachHeartbeatCall ConnectionId u64 u64
| HeartbeatCall ConnectionId u64 u64 int
| EvaluateLivenessCall int
| DisconnectConnectionCall ConnectionId
| DetachHeartbeatCall ConnectionId
| AdvertiseCall ConnectionId u64 string string string size_t TransportType SharedPoolMetadata
| UnadvertiseCall ConnectionId u64 u64
| SubscribeCall ConnectionId u64 string string string size_t string TransportType SharedQueueMetadata
| UnsubscribeCall ConnectionId u64 u64

fun registry_call :: "RegistryCall \<Rightarrow> RegistryState \<Rightarrow> RegistryState option" where
  "registry_call (RegisterNodeCall c name now) st = Some (snd (registerNode c name now st))"
| "registry_call (UnregisterNodeCall c n) st = map_option snd (unregisterNode c n st)"
| "registry_call (AttachHeartbeatCall c n s) st = Some (snd (attachHeartbeat c n s st))"
| "registry_call (HeartbeatCall c n s now) st = Some (snd (heartbeat c n s now st))"
| "registry_call (EvaluateLivenessCall now) st = map_option snd (evaluateLiveness now st)"
| "registry_call (DisconnectConnectionCall c) st = map_option snd (disconnectConnection c st)"
| "registry_call (DetachHeartbeatCall c) st = Some (detachHeartbeatConnection c st)"
| "registry_call (AdvertiseCall c n name tn th m tp pool) st =
     map_option snd (advertise c n name tn th m tp pool st)"
| "registry_call (UnadvertiseCall c n e) st = map_option snd (unadvertise c n e st)"
| "registry_call (SubscribeCall c n name tn th m path tp queue) st =
     map_option snd (subscribe c n name tn th m path tp queue st)"
| "registry_call (UnsubscribeCall c n e) st = map_option snd (unsubscribe c n e st)"

fun registry_run :: "RegistryCall list \<Rightarrow> RegistryState \<Rightarrow> RegistryState option" where
  "registry_run [] st = Some st"
| "registry_run (c # cs) st = do { st \<leftarrow> registry_call c st; registry_run cs st }"

text \<open>A state after at most \<open>k\<close> calls: the counters have advanced by at most one for each.\<close>

definition registry_after :: "nat \<Rightarrow> RegistryState \<Rightarrow> bool" where
  "registry_after k st \<longleftrightarrow> registry_inv st \<and> unat (rs_next_node_id st) \<le> Suc k \<and>
     unat (rs_next_topic_id st) \<le> Suc k \<and> unat (rs_next_endpoint_id st) \<le> Suc k"

text \<open>
  The contract of a component that counts: while fewer than \<open>limit\<close> calls were made, every call
  returns and keeps the invariant of its number.
\<close>

locale counted_calls =
  fixes step :: "'c \<Rightarrow> 's \<Rightarrow> 's option" and inv :: "nat \<Rightarrow> 's \<Rightarrow> bool" and limit :: nat
  assumes step_ok: "inv k s \<Longrightarrow> k < limit \<Longrightarrow> \<exists>s'. step c s = Some s' \<and> inv (Suc k) s'"
begin

fun steps :: "'c list \<Rightarrow> 's \<Rightarrow> 's option" where
  "steps [] s = Some s"
| "steps (c # cs) s = do { s \<leftarrow> step c s; steps cs s }"

lemma steps_ok: "inv k s \<Longrightarrow> k + length cs \<le> limit \<Longrightarrow> \<exists>s'. steps cs s = Some s' \<and> inv (k + length cs) s'"
proof (induction cs arbitrary: k s)
  case (Cons c cs)
  then obtain s1 where s1: "step c s = Some s1" "inv (Suc k) s1" using step_ok [of k s c] by auto
  then show ?case using Cons.IH [of "Suc k" s1] Cons.prems by auto
qed simp

end

lemma registry_after_Suc:
  assumes "registry_inv st'" "registry_after k st" "k < 2 ^ 64 - 2"
    "rs_next_node_id st' = rs_next_node_id st \<or> rs_next_node_id st' = rs_next_node_id st + 1"
    "rs_next_topic_id st' = rs_next_topic_id st \<or> rs_next_topic_id st' = rs_next_topic_id st + 1"
    "rs_next_endpoint_id st' = rs_next_endpoint_id st \<or> rs_next_endpoint_id st' = rs_next_endpoint_id st + 1"
  shows "registry_after (Suc k) st'"
proof -
  have "unat (x + 1) \<le> Suc (Suc k)" if "unat x \<le> Suc k" for x :: u64
    using that assms(3) by (simp add: unat_word_ariths)
  then show ?thesis using assms unfolding registry_after_def by (elim disjE) auto
qed

lemma registry_after_no_wrap:
  assumes "registry_after k st" "k < 2 ^ 64 - 2"
  shows "rs_next_node_id st \<noteq> - 1" "rs_next_topic_id st \<noteq> - 1" "rs_next_endpoint_id st \<noteq> - 1"
proof -
  have "x \<noteq> - 1" if "unat x \<le> Suc k" for x :: u64
  proof -
    have "unat (x + 1) = Suc (unat x)" using that assms(2) by (simp add: unat_word_ariths)
    then show ?thesis by auto
  qed
  then show "rs_next_node_id st \<noteq> - 1" "rs_next_topic_id st \<noteq> - 1" "rs_next_endpoint_id st \<noteq> - 1"
    using assms(1) by (auto simp: registry_after_def)
qed

lemma counters_unregister:
  assumes ok: "registry_inv st"
  shows "\<exists>e st'. unregisterNode c n st = Some (e, st') \<and> registry_inv st' \<and>
    rs_next_node_id st' = rs_next_node_id st \<and> rs_next_topic_id st' = rs_next_topic_id st \<and>
    rs_next_endpoint_id st' = rs_next_endpoint_id st"
proof (cases "ownedNode c n st")
  case None
  then show ?thesis using ok by (simp add: unregisterNode_def)
next
  case (Some node)
  from unregisterNode_effect [OF ok this] show ?thesis unfolding withoutNodes_def by metis
qed

lemma counters_unadvertise:
  assumes ok: "registry_inv st"
  shows "\<exists>err st'. unadvertise c n e st = Some (err, st') \<and> registry_inv st' \<and>
    rs_next_node_id st' = rs_next_node_id st \<and> rs_next_topic_id st' = rs_next_topic_id st \<and>
    rs_next_endpoint_id st' = rs_next_endpoint_id st"
proof (cases "ownedNode c n st = None \<or> e \<notin> publishersWith pe_node_id n st")
  case True
  then show ?thesis using ok by (simp only: unadvertise_fails) simp
next
  case False
  then obtain node p where "ownedNode c n st = Some node"
    "omap_find e (rs_publishers st) = Some p" "pe_node_id p = n" by auto
  note found = this
  show ?thesis by (rule unadvertise_effect [OF ok found]) (intro exI conjI, assumption, simp_all)
qed

lemma counters_unsubscribe:
  assumes ok: "registry_inv st"
  shows "\<exists>err st'. unsubscribe c n e st = Some (err, st') \<and> registry_inv st' \<and>
    rs_next_node_id st' = rs_next_node_id st \<and> rs_next_topic_id st' = rs_next_topic_id st \<and>
    rs_next_endpoint_id st' = rs_next_endpoint_id st"
proof (cases "ownedNode c n st = None \<or> e \<notin> subscribersWith se_node_id n st")
  case True
  then show ?thesis using ok by (simp only: unsubscribe_fails) simp
next
  case False
  then obtain node p where "ownedNode c n st = Some node"
    "omap_find e (rs_subscribers st) = Some p" "se_node_id p = n" by auto
  note found = this
  show ?thesis by (rule unsubscribe_effect [OF ok found]) (intro exI conjI, assumption, simp_all)
qed

lemma counters_advertise:
  assumes "registry_inv st" "advertise c n name tn th m tp pool st = Some (res, st')"
  shows "rs_next_node_id st' = rs_next_node_id st"
    "rs_next_topic_id st' = rs_next_topic_id st \<or> rs_next_topic_id st' = rs_next_topic_id st + 1"
    "rs_next_endpoint_id st' = rs_next_endpoint_id st \<or> rs_next_endpoint_id st' = rs_next_endpoint_id st + 1"
  using assms(2)
  by (auto simp: advertise_def findOrCreateTopic_def Let_def split: option.splits if_splits Option.bind_splits)

lemma counters_subscribe:
  assumes "registry_inv st" "subscribe c n name tn th m path tp queue st = Some (res, st')"
  shows "rs_next_node_id st' = rs_next_node_id st"
    "rs_next_topic_id st' = rs_next_topic_id st \<or> rs_next_topic_id st' = rs_next_topic_id st + 1"
    "rs_next_endpoint_id st' = rs_next_endpoint_id st \<or> rs_next_endpoint_id st' = rs_next_endpoint_id st + 1"
  using assms(2)
  by (auto simp: subscribe_def findOrCreateTopic_def Let_def split: option.splits if_splits Option.bind_splits)

lemma counters_simple:
  "rs_next_node_id (snd (registerNode c name now st)) = rs_next_node_id st \<or>
   rs_next_node_id (snd (registerNode c name now st)) = rs_next_node_id st + 1"
  "rs_next_topic_id (snd (registerNode c name now st)) = rs_next_topic_id st"
  "rs_next_endpoint_id (snd (registerNode c name now st)) = rs_next_endpoint_id st"
  "rs_next_node_id (snd (attachHeartbeat c n s st)) = rs_next_node_id st"
  "rs_next_topic_id (snd (attachHeartbeat c n s st)) = rs_next_topic_id st"
  "rs_next_endpoint_id (snd (attachHeartbeat c n s st)) = rs_next_endpoint_id st"
  "rs_next_node_id (snd (heartbeat c n s now st)) = rs_next_node_id st"
  "rs_next_topic_id (snd (heartbeat c n s now st)) = rs_next_topic_id st"
  "rs_next_endpoint_id (snd (heartbeat c n s now st)) = rs_next_endpoint_id st"
  by (auto simp: registerNode_def attachHeartbeat_def heartbeat_def Let_def split: option.split)

lemma registry_call_ok:
  assumes after: "registry_after k st" and k: "k < 2 ^ 64 - 2"
  shows "\<exists>st'. registry_call c st = Some st' \<and> registry_after (Suc k) st'"
proof -
  note wrap = registry_after_no_wrap [OF after k]
  have ok: "registry_inv st" using after by (simp add: registry_after_def)
  note step = registry_after_Suc [OF _ after k]
  show ?thesis
  proof (cases c)
    case (RegisterNodeCall x1 x2 x3)
    then show ?thesis using registerNode_ok [OF ok wrap(1)] counters_simple(1-3) [of x1 x2 x3 st]
      by (auto intro!: step)
  next
    case (UnregisterNodeCall x1 x2)
    then show ?thesis using counters_unregister [OF ok, of x1 x2] by (auto intro!: step)
  next
    case (AttachHeartbeatCall x1 x2 x3)
    then show ?thesis using attachHeartbeat_ok [OF ok] counters_simple(4-6) [of x1 x2 x3 st]
      by (auto intro!: step)
  next
    case (HeartbeatCall x1 x2 x3 x4)
    then show ?thesis using heartbeat_ok [OF ok] counters_simple(7-9) [of x1 x2 x3 x4 st]
      by (auto intro!: step)
  next
    case (EvaluateLivenessCall x)
    then show ?thesis using evaluateLiveness_effect [OF ok, of x] by (auto intro!: step)
  next
    case (DisconnectConnectionCall x)
    then show ?thesis using disconnectConnection_effect [OF ok, of x] by (auto intro!: step)
  next
    case (DetachHeartbeatCall x)
    then show ?thesis using detachHeartbeatConnection_ok [OF ok]
      by (auto intro!: step simp: detachHeartbeatConnection_def)
  next
    case (AdvertiseCall x1 x2 x3 x4 x5 x6 x7 x8)
    obtain res st' where "advertise x1 x2 x3 x4 x5 x6 x7 x8 st = Some (res, st')" "registry_inv st'"
      using advertise_ok [OF ok wrap(2,3)] by blast
    note res = this
    then show ?thesis using AdvertiseCall counters_advertise [OF ok res(1)] by (auto intro!: step)
  next
    case (UnadvertiseCall x1 x2 x3)
    then show ?thesis using counters_unadvertise [OF ok, of x1 x2 x3] by (auto intro!: step)
  next
    case (SubscribeCall x1 x2 x3 x4 x5 x6 x7 x8 x9)
    obtain res st' where "subscribe x1 x2 x3 x4 x5 x6 x7 x8 x9 st = Some (res, st')" "registry_inv st'"
      using subscribe_ok [OF ok wrap(2,3)] by blast
    note res = this
    then show ?thesis using SubscribeCall counters_subscribe [OF ok res(1)] by (auto intro!: step)
  next
    case (UnsubscribeCall x1 x2 x3)
    then show ?thesis using counters_unsubscribe [OF ok, of x1 x2 x3] by (auto intro!: step)
  qed
qed

interpretation registry: counted_calls registry_call registry_after "2 ^ 64 - 2"
  by unfold_locales (rule registry_call_ok)

lemma registry_run_steps: "registry_run cs st = registry.steps cs st"
  by (induction cs arbitrary: st) (simp_all cong: Option.bind_cong)

lemma registry_run_ok:
  assumes "RegistryState_new liveness = Some st0" "length cs \<le> 2 ^ 64 - 2"
  shows "\<exists>st. registry_run cs st0 = Some st \<and> registry_after (length cs) st"
proof -
  have "registry_after 0 st0"
    using assms(1) registry_ok_new [of liveness]
    by (auto simp: RegistryState_new_def registry_after_def newRegistryState_def split: if_splits)
  then show ?thesis using registry.steps_ok [of 0 st0 cs] assms(2) by (simp add: registry_run_steps)
qed

end
