(* ===== verification/MW_Registry_Properties.thy ===== *)
theory MW_Registry_Properties
  imports MW_Registry_Lifecycle
begin

text \<open>
  The properties of the registry state: its tables stay consistent over any sequence of calls, what
  \<open>advertise\<close>, \<open>subscribe\<close> and \<open>resolve\<close> answer, when a node is suspected or removed, and what the
  report about a dead node contains.
\<close>

section \<open>A registry to instantiate the properties with\<close>

definition demoLiveness :: LivenessConfig where
  "demoLiveness = \<lparr>heartbeat_interval = 100, suspect_timeout = 300, dead_timeout = 1000\<rparr>"

definition demoQueue :: SharedQueueMetadata where
  "demoQueue = \<lparr>sqm_shm_name = ''/q'', sqm_queue_id = 9, sqm_segment_size = 4096, sqm_capacity = 8,
     sqm_layout_version = 3, sqm_overflow_policy = 1, sqm_block_timeout_ms = 5\<rparr>"

definition demoPool :: SharedPoolMetadata where
  "demoPool = \<lparr>spm_shm_name = ''/p'', spm_pool_id = 7, spm_segment_size = 4096, spm_layout_version = 1\<rparr>"

text \<open>Node 1 publishes a topic that node 2 subscribes to.\<close>

definition demoCalls :: "RegistryCall list" where
  "demoCalls =
     [RegisterNodeCall 1 ''a'' 0, RegisterNodeCall 2 ''b'' 0,
      AdvertiseCall 1 1 ''t'' ''T'' ''h'' 100 SharedMemory demoPool,
      SubscribeCall 2 2 ''t'' ''T'' ''h'' 64 ''/tmp/s'' SharedMemory demoQueue]"

definition demoRegistry :: RegistryState where
  "demoRegistry = the (registry_run demoCalls (newRegistryState demoLiveness))"

lemma demo_new: "RegistryState_new demoLiveness = Some (newRegistryState demoLiveness)"
  by (simp add: RegistryState_new_def validLivenessConfig_def demoLiveness_def)

lemma demo_run: "registry_run demoCalls (newRegistryState demoLiveness) = Some demoRegistry"
proof -
  have "registry_run demoCalls (newRegistryState demoLiveness) \<noteq> None" by code_simp
  then show ?thesis by (auto simp: demoRegistry_def)
qed

lemma demo_inv: "registry_inv demoRegistry"
  using registry_run_ok [OF demo_new, of demoCalls] demo_run
  by (simp add: demoCalls_def registry_after_def)

lemma demo_counters: "rs_next_topic_id demoRegistry \<noteq> - 1" "rs_next_endpoint_id demoRegistry \<noteq> - 1"
  by code_simp+

lemma demo_owned: "ownedNode 1 1 demoRegistry = omap_find 1 (rs_nodes demoRegistry)"
  "omap_find 1 (rs_nodes demoRegistry) \<noteq> None" "omap_find 2 (rs_nodes demoRegistry) \<noteq> None"
  by code_simp+

section \<open>Consistency\<close>

text \<open>
  (C25) The tables of the registry stay consistent and \<open>std::map::at\<close> never throws: from a fresh
  registry, any sequence of at most \<open>2 ^ 64 - 2\<close> calls (registrations, heartbeats, liveness
  evaluations, disconnects, advertisements, subscriptions and their withdrawals, by any connection
  with any arguments) returns, and afterwards node and topic names and identifiers determine each
  other, every endpoint belongs to an existing node and topic of its transport, the endpoint sets of
  nodes and topics are exactly the endpoints that name them, and no topic is without endpoints.
\<close>

theorem registry_invariant_reachable:
  assumes "RegistryState_new liveness = Some st0" "length calls \<le> 2 ^ 64 - 2"
  shows "\<exists>st. registry_run calls st0 = Some st \<and> registry_inv st \<and>
    (\<forall>t r. omap_find t (rs_topics st) = Some r \<longrightarrow>
       tr_publisher_endpoint r \<noteq> None \<or> tr_subscriber_endpoints r \<noteq> {})"
proof -
  obtain st where st: "registry_run calls st0 = Some st" "registry_inv st"
    using registry_run_ok [OF assms] by (auto simp: registry_after_def)
  have "tr_publisher_endpoint r \<noteq> None \<or> tr_subscriber_endpoints r \<noteq> {}"
    if "omap_find t (rs_topics st) = Some r" for t r
    using topic_sizes_empty [OF registry_okD(6) [OF st(2) that]] registry_okD(7) [OF st(2) that] by auto
  then show ?thesis using st by blast
qed

theorem registry_invariant_reachable_witness:
  "length demoCalls \<le> 2 ^ 64 - 2 \<and> (\<exists>st. registry_run demoCalls (newRegistryState demoLiveness) = Some st \<and>
     registry_inv st)"
  using registry_invariant_reachable [OF demo_new, of demoCalls] by (auto simp: demoCalls_def)

text \<open>
  (C26) The size that is negotiated incrementally is the one that is computed from scratch: in every
  reachable state \<open>recomputeTopicMaxMessageSize\<close> changes nothing, and the size of a topic is the
  minimum over its publisher and its subscribers, also after endpoints have left.
\<close>

theorem negotiated_size_is_minimum:
  assumes "RegistryState_new liveness = Some st0" "length calls \<le> 2 ^ 64 - 2"
    "registry_run calls st0 = Some st" "omap_find t (rs_topics st) = Some r"
  shows "recomputeTopicMaxMessageSize t st = Some st \<and> tr_max_message_size r = Min (topic_sizes st t)"
proof -
  have inv: "registry_inv st" using registry_run_ok [OF assms(1,2)] assms(3) by (auto simp: registry_after_def)
  obtain m where m: "recomputeTopicMaxMessageSize t st =
      Some (if topic_sizes st t = {} then st
        else st\<lparr>rs_topics := omap_modify t (\<lambda>topic. topic\<lparr>tr_max_message_size := m\<rparr>) (rs_topics st)\<rparr>)"
    "\<forall>x \<in> topic_sizes st t. m \<le> x" "topic_sizes st t \<noteq> {} \<longrightarrow> m \<in> topic_sizes st t"
    by (rule recomputeTopicMaxMessageSize_min [OF inv assms(4)])
  have mem: "tr_max_message_size r \<in> topic_sizes st t" using registry_okD(7) [OF inv assms(4)] by simp
  have low: "\<forall>x \<in> topic_sizes st t. tr_max_message_size r \<le> x"
    using registry_okD(6) [OF inv assms(4)] by (simp add: topic_ok_def)
  have eq: "m = tr_max_message_size r" using m(2,3) mem low by (metis antisym empty_iff)
  have "omap_modify t (\<lambda>topic. topic\<lparr>tr_max_message_size := m\<rparr>) (rs_topics st) = rs_topics st"
    using assms(4) omap_find_set [OF registry_maps_ok(3) [OF inv]]
    by (auto simp: omap_modify_def eq intro!: map_idI)
  moreover have "finite (topic_sizes st t)" by (rule finite_subset [of _ UNIV]) auto
  ultimately show ?thesis using m(1) mem low by (auto intro!: Min_eqI [symmetric])
qed

theorem negotiated_size_is_minimum_witness:
  "\<exists>r. omap_find 1 (rs_topics demoRegistry) = Some r \<and>
     recomputeTopicMaxMessageSize 1 demoRegistry = Some demoRegistry \<and> tr_max_message_size r = 64"
proof -
  have "map_option tr_max_message_size (omap_find 1 (rs_topics demoRegistry)) = Some 64" by code_simp
  then obtain r where r: "omap_find 1 (rs_topics demoRegistry) = Some r" "tr_max_message_size r = 64" by auto
  then show ?thesis using negotiated_size_is_minimum [OF demo_new _ demo_run r(1)] by (simp add: demoCalls_def)
qed

section \<open>Requests\<close>

text \<open>The documented order of the checks of a request.\<close>

definition requestVerdict ::
  "bool \<Rightarrow> ConnectionId \<Rightarrow> u64 \<Rightarrow> string \<Rightarrow> string \<Rightarrow> string \<Rightarrow> TransportType \<Rightarrow> bool \<Rightarrow> RegistryState \<Rightarrow> ErrorCode" where
  "requestVerdict publishing connection n name tn th tp argumentsOk st =
     (if ownedNode connection n st = None then NotRegistered
      else if \<not> argumentsOk then InvalidArgument
      else case omap_find name (rs_topic_names st) of None \<Rightarrow> Ok
        | Some t \<Rightarrow> (case omap_find t (rs_topics st) of None \<Rightarrow> Ok
            | Some r \<Rightarrow> topicVerdict tn th tp publishing r))"

text \<open>
  (C27) \<open>advertise\<close> answers with the first failed check of: the node belongs to the connection, the
  arguments are valid, the type agrees with the topic, the transport agrees, the topic has no
  publisher yet.  A refused request changes nothing.  An accepted one yields an identifier that no
  endpoint has, and makes that endpoint the only publisher of the topic of that name.
\<close>

theorem advertise_outcome:
  fixes connection :: ConnectionId and n :: u64 and name tn th :: string and m :: size_t
    and tp :: TransportType and pool :: SharedPoolMetadata
  assumes inv: "registry_inv st" and wrap: "rs_next_topic_id st \<noteq> - 1" "rs_next_endpoint_id st \<noteq> - 1"
  defines "verdict \<equiv> requestVerdict True connection n name tn th tp
    (advertiseArgumentsOk name tn th m tp pool) st"
  shows "\<exists>res st'. advertise connection n name tn th m tp pool st = Some (res, st') \<and> epr_error res = verdict \<and>
    (verdict \<noteq> Ok \<longrightarrow> st' = st) \<and>
    (verdict = Ok \<longrightarrow>
       omap_find (epr_endpoint_id res) (rs_publishers st) = None \<and>
       omap_find (epr_endpoint_id res) (rs_subscribers st) = None \<and>
       omap_find name (rs_topic_names st') = Some (epr_topic_id res) \<and>
       publishersWith pe_topic_id (epr_topic_id res) st' = {epr_endpoint_id res})"
proof (cases "ownedNode connection n st = None \<or> \<not> advertiseArgumentsOk name tn th m tp pool")
  case True
  then show ?thesis using advertise_rejected
    by (cases "ownedNode connection n st") (auto simp: verdict_def requestVerdict_def endpointError_def)
next
  case False
  then obtain node where owned: "ownedNode connection n st = Some node"
    and args: "advertiseArgumentsOk name tn th m tp pool" by auto
  note fresh = registry_fresh_endpoint [OF inv]
  show ?thesis
  proof (cases "omap_find name (rs_topic_names st)")
    case None
    let ?st1 = "withTopic name tn th m tp st"
    note ok1 = withTopic_ok [OF inv None wrap(1), of tn th m tp]
    have "rs_next_endpoint_id ?st1 = rs_next_endpoint_id st" "rs_publishers ?st1 = rs_publishers st"
      by (simp_all add: withTopic_def)
    then have "publishersWith pe_topic_id (rs_next_topic_id st)
        (withPublisher n (rs_next_topic_id st) m tp pool ?st1) = {rs_next_endpoint_id st}"
      using registry_fresh_topic(2) [OF inv] unfolding withPublisher_sets(2) [OF ok1] by auto
    moreover have "omap_find name (rs_topic_names (withPublisher n (rs_next_topic_id st) m tp pool ?st1)) =
        Some (rs_next_topic_id st)"
      using None by (simp add: withPublisher_def withTopic_def omap_find_emplace registry_maps_ok [OF inv])
    ultimately show ?thesis using advertise_created [OF inv None owned args] fresh owned args None
      by (simp add: verdict_def requestVerdict_def)
  next
    case found: (Some t)
    then obtain r where r: "omap_find t (rs_topics st) = Some r" by (rule registry_topic_named [OF inv])
    have verdict: "verdict = topicVerdict tn th tp True r"
      using owned args found r by (simp add: verdict_def requestVerdict_def)
    have "publishersWith pe_topic_id t (withPublisher n t m tp pool st) = {rs_next_endpoint_id st}"
      if "topicVerdict tn th tp True r = Ok"
      using that registry_okD(6) [OF inv r] unfolding withPublisher_sets(2) [OF inv]
      by (auto simp: topic_ok_def topicVerdict_def split: if_splits)
    moreover have "omap_find name (rs_topic_names (withPublisher n t m tp pool st)) = Some t"
      using found by (simp add: withPublisher_def)
    ultimately show ?thesis
      using advertise_existing [OF inv found r owned args] fresh unfolding verdict
      by (simp add: endpointError_def)
  qed
qed

theorem advertise_outcome_witness:
  "\<exists>res. advertise 1 1 ''t'' ''T'' ''h'' 100 SharedMemory demoPool demoRegistry = Some (res, demoRegistry) \<and>
     epr_error res = DuplicatePublisher"
proof -
  have "requestVerdict True 1 1 ''t'' ''T'' ''h'' SharedMemory
      (advertiseArgumentsOk ''t'' ''T'' ''h'' 100 SharedMemory demoPool) demoRegistry = DuplicatePublisher"
    by code_simp
  then show ?thesis using advertise_outcome [OF demo_inv demo_counters,
      where connection = 1 and n = 1 and name = "''t''" and tn = "''T''" and th = "''h''" and m = 100 and
        tp = SharedMemory and pool = demoPool] by auto
qed

definition discovered :: "u64 \<Rightarrow> SubscriberEndpoint \<Rightarrow> DiscoveredSubscriber" where
  "discovered k s = \<lparr>ds_endpoint_id = k, ds_data_socket_path = se_data_socket_path s,
     ds_max_message_size = se_max_message_size s, ds_queue = se_queue s\<rparr>"

text \<open>
  (C28) \<open>resolve\<close> tells a publisher exactly its subscribers: for a publisher endpoint of a node of the
  asking connection it lists, in the order of their identifiers, all subscribers of its topic with
  their socket, size limit and queue, which all use its transport, and its own pool;
  \<open>TopicNotFound\<close> says that there are none.  Any other request gets \<open>EndpointNotFound\<close>.
\<close>

theorem resolve_exact:
  assumes inv: "registry_inv st"
  shows "(case (ownedNode connection n st, omap_find e (rs_publishers st)) of
      (Some node, Some p) \<Rightarrow>
        if pe_node_id p = n then
          (let subs = sorted_list_of_set (subscribersWith se_topic_id (pe_topic_id p) st) in
           resolve connection n e st = Some
             \<lparr>dr_error = (if subs = [] then TopicNotFound else Ok), dr_topic_id = pe_topic_id p,
              dr_transport = pe_transport p, dr_pool = pe_pool p,
              dr_subscribers = map (\<lambda>k. discovered k (the (omap_find k (rs_subscribers st)))) subs\<rparr> \<and>
           (\<forall>k \<in> set subs. \<exists>s. omap_find k (rs_subscribers st) = Some s \<and> se_transport s = pe_transport p))
        else map_option dr_error (resolve connection n e st) = Some EndpointNotFound
    | _ \<Rightarrow> map_option dr_error (resolve connection n e st) = Some EndpointNotFound)"
proof (cases "ownedNode connection n st = None \<or> e \<notin> publishersWith pe_node_id n st")
  case True
  then show ?thesis by (auto simp: resolve_def split: option.split)
next
  case False
  then obtain node p where p: "ownedNode connection n st = Some node"
    "omap_find e (rs_publishers st) = Some p" "pe_node_id p = n" by auto
  obtain r where r: "omap_find (pe_topic_id p) (rs_topics st) = Some r" "tr_transport r = pe_transport p"
    using registry_okD(8) [OF inv p(2)] by (auto simp: publisher_ok_def)
  note topic = registry_okD(6) [OF inv r(1), unfolded topic_ok_def]
  let ?F = "subscribersWith se_topic_id (pe_topic_id p) st"
  have "discoveredSubscribers ks (rs_subscribers st) = Some (map (\<lambda>k. discovered k (the (omap_find k (rs_subscribers st)))) ks)"
    if "set ks \<subseteq> ?F" for ks
    using that registry_okD(4) [OF inv] by (induction ks) (auto simp: table_ok_def discovered_def)
  then have "discoveredSubscribers (sorted_list_of_set ?F) (rs_subscribers st) =
      Some (map (\<lambda>k. discovered k (the (omap_find k (rs_subscribers st)))) (sorted_list_of_set ?F))"
    by simp
  moreover have "\<exists>s. omap_find k (rs_subscribers st) = Some s \<and> se_transport s = pe_transport p" if "k \<in> ?F" for k
    using that registry_okD(9) [OF inv] r by (fastforce simp: subscriber_ok_def)
  moreover have "tr_pool r = pe_pool p" using topic p(2) by blast
  ultimately show ?thesis
    using p r topic registry_topic_id [OF inv r(1)] by (simp add: resolve_def Let_def)
qed

theorem resolve_exact_witness:
  "\<exists>d. resolve 1 1 1 demoRegistry = Some d \<and> dr_error d = Ok \<and> map ds_endpoint_id (dr_subscribers d) = [2]"
proof -
  have "map_option pe_node_id (omap_find 1 (rs_publishers demoRegistry)) = Some 1"
    "map_option (\<lambda>d. (dr_error d, map ds_endpoint_id (dr_subscribers d))) (resolve 1 1 1 demoRegistry) = Some (Ok, [2])"
    by code_simp+
  then show ?thesis using resolve_exact [OF demo_inv, of 1 1 1] by auto
qed

section \<open>Liveness and clean-up\<close>

text \<open>
  (C29) A node is removed exactly when its last heartbeat is at least the dead timeout ago, and newly
  suspected exactly when it was alive and its last heartbeat is at least the suspect timeout ago.
  \<open>evaluateLiveness\<close> reports the removed nodes, and the newly suspected ones that are not removed,
  each once and in the order of their identifiers, and leaves every other node as it was.
\<close>

theorem evaluateLiveness_exact:
  assumes inv: "registry_inv st"
  shows "\<exists>u st'. evaluateLiveness now st = Some (u, st') \<and> registry_inv st' \<and>
    (\<forall>n. omap_find n (rs_nodes st') = (case omap_find n (rs_nodes st) of None \<Rightarrow> None
       | Some node \<Rightarrow>
           if now - nr_last_seen node \<ge> dead_timeout (rs_liveness st) * 1000000 then None
           else if now - nr_last_seen node \<ge> suspect_timeout (rs_liveness st) * 1000000 \<and> nr_liveness node = Alive
           then Some (node\<lparr>nr_liveness := Suspected\<rparr>) else Some node)) \<and>
    sorted_wrt (<) (map dn_node_id (lu_dead_nodes u)) \<and>
    set (map dn_node_id (lu_dead_nodes u)) = {n. \<exists>node. omap_find n (rs_nodes st) = Some node \<and>
      now - nr_last_seen node \<ge> dead_timeout (rs_liveness st) * 1000000} \<and>
    sorted_wrt (<) (lu_suspected_nodes u) \<and>
    set (lu_suspected_nodes u) = {n. \<exists>node. omap_find n (rs_nodes st) = Some node \<and> nr_liveness node = Alive \<and>
      now - nr_last_seen node \<ge> suspect_timeout (rs_liveness st) * 1000000 \<and>
      now - nr_last_seen node < dead_timeout (rs_liveness st) * 1000000}"
proof -
  obtain u st' where u: "evaluateLiveness now st = Some (u, st')" "registry_inv st'"
    "map dn_node_id (lu_dead_nodes u) = map nr_node_id (filter (timedOut (rs_liveness st) now) (map snd (rs_nodes st)))"
    "lu_suspected_nodes u = map nr_node_id (filter (\<lambda>node. newlySuspect (rs_liveness st) now node \<and>
      \<not> timedOut (rs_liveness st) now node) (map snd (rs_nodes st)))"
    "\<forall>n. omap_find n (rs_nodes st') = (case omap_find n (rs_nodes st) of None \<Rightarrow> None
       | Some node \<Rightarrow> if timedOut (rs_liveness st) now node then None
           else Some (if newlySuspect (rs_liveness st) now node then node\<lparr>nr_liveness := Suspected\<rparr> else node))"
    using evaluateLiveness_effect [OF inv, of now] by blast
  have sorted: "sorted_wrt (<) (map fst (filter P (rs_nodes st)))" for P
    using registry_maps_ok(1) [OF inv] by (simp add: omap_ok_def sorted_wrt_map sorted_wrt_filter)
  note ids = u(3,4) [unfolded node_ids(1) [OF inv]]
  have dead: "set (map dn_node_id (lu_dead_nodes u)) = {n. \<exists>node. omap_find n (rs_nodes st) = Some node \<and>
      now - nr_last_seen node \<ge> dead_timeout (rs_liveness st) * 1000000}"
    unfolding ids(1) node_ids(3) [OF inv] by (simp add: timedOut_def)
  have suspected: "set (lu_suspected_nodes u) = {n. \<exists>node. omap_find n (rs_nodes st) = Some node \<and>
      nr_liveness node = Alive \<and> now - nr_last_seen node \<ge> suspect_timeout (rs_liveness st) * 1000000 \<and>
      now - nr_last_seen node < dead_timeout (rs_liveness st) * 1000000}"
    unfolding ids(2) node_ids(3) [OF inv] by (auto simp: timedOut_def newlySuspect_def)
  have nodes: "omap_find n (rs_nodes st') = (case omap_find n (rs_nodes st) of None \<Rightarrow> None
       | Some node \<Rightarrow>
           if now - nr_last_seen node \<ge> dead_timeout (rs_liveness st) * 1000000 then None
           else if now - nr_last_seen node \<ge> suspect_timeout (rs_liveness st) * 1000000 \<and> nr_liveness node = Alive
           then Some (node\<lparr>nr_liveness := Suspected\<rparr>) else Some node)" for n
    using u(5) by (simp add: timedOut_def newlySuspect_def split: option.split)
  show ?thesis
    by (intro exI [of _ u] exI [of _ st'] conjI allI u(1,2) nodes dead suspected) (simp_all only: ids sorted)
qed

theorem evaluateLiveness_exact_witness:
  "\<exists>u st'. evaluateLiveness 500000000 demoRegistry = Some (u, st') \<and> registry_inv st' \<and>
     set (lu_suspected_nodes u) = {1, 2} \<and> lu_dead_nodes u = []"
proof -
  have "map_option (\<lambda>(u, st'). (lu_suspected_nodes u, map dn_node_id (lu_dead_nodes u)))
      (evaluateLiveness 500000000 demoRegistry) = Some ([1, 2], [])" by code_simp
  then show ?thesis using evaluateLiveness_exact [OF demo_inv, of 500000000] by auto
qed



text \<open>
  (C31) The clean-up of a dead node is complete: the node and all its endpoints disappear, nothing
  else does, and the report contains the shared memory of each of its publishers and subscribers that
  has one, all its data sockets, and a peer event for exactly every pair of a dead endpoint and a
  registered endpoint at the other end of its topic.
\<close>

theorem cleanupDeadNode_complete:
  assumes inv: "registry_inv st" and node: "omap_find n (rs_nodes st) = Some node"
  shows "\<exists>c st'. cleanupDeadNode n st = Some (Some c, st') \<and> registry_inv st' \<and>
    withoutNodes {n} st st' \<and> deadReport node st c \<and>
    publishersWith pe_node_id n st' = {} \<and> subscribersWith se_node_id n st' = {}"
proof -
  obtain c st' where c: "cleanupDeadNode n st = Some (Some c, st')" "registry_inv st'"
    "withoutNodes {n} st st'" "deadReport node st c"
    by (rule cleanupDeadNode_effect [OF inv node])
  then show ?thesis by (auto simp: withoutNodes_def split: option.splits)
qed

theorem cleanupDeadNode_complete_witness:
  "\<exists>c st'. cleanupDeadNode 1 demoRegistry = Some (Some c, st') \<and> dn_pools c = [demoPool] \<and>
     map pv_target_endpoint_id (dn_peer_events c) = [2] \<and> publishersWith pe_node_id 1 st' = {}"
proof -
  have "map_option (\<lambda>(c, st'). map_option (\<lambda>c. (dn_pools c, map pv_target_endpoint_id (dn_peer_events c))) c)
      (cleanupDeadNode 1 demoRegistry) = Some (Some ([demoPool], [2]))" by code_simp
  moreover obtain node where "omap_find 1 (rs_nodes demoRegistry) = Some node" using demo_owned by auto
  ultimately show ?thesis using cleanupDeadNode_complete [OF demo_inv, of 1 node] by auto
qed

end
