(* ===== verification/MW_Unix_Socket.thy ===== *)
theory MW_Unix_Socket
  imports MW_Config MW_Socket_IO
begin

text \<open>
  Creation of Unix domain sockets (\<open>src/middleware/src/detail/unix_socket.cpp\<close>).  The system calls'
  results are the record \<open>SocketEnv\<close>; their effects are the open descriptors and the socket paths
  in \<open>SocketOs\<close>.  \<open>UniqueFd\<close> closes its descriptor where it goes out of scope.
\<close>

text \<open>What a \<open>throw\<close> carries: a middleware error, a system error, or another standard exception.\<close>

datatype Exception =
  MiddlewareException ErrorCode string | SystemException int string | InvalidArgumentException string
| OtherException string

definition bindE :: "'e + 'a \<Rightarrow> ('a \<Rightarrow> 'e + 'b) \<Rightarrow> 'e + 'b" where
  "bindE m f = (case m of Inl e \<Rightarrow> Inl e | Inr x \<Rightarrow> f x)"

lemma bindE_simps [simp]: "bindE (Inl e) f = Inl e" "bindE (Inr x) f = f x"
  by (simp_all add: bindE_def)

text \<open>\<open>sizeof(sockaddr_un::sun_path)\<close> on Linux.\<close>

definition sunPathSize :: nat where "sunPathSize = 108"

definition makeAddress :: "string \<Rightarrow> Exception + string" where
  "makeAddress socket_path =
     (if socket_path = [] then Inl (InvalidArgumentException ''Unix socket path must not be empty'')
      else if length socket_path \<ge> sunPathSize
      then Inl (InvalidArgumentException ''Unix socket path is too long'')
      else Inr socket_path)"

record SocketEnv =
  sk_socket :: "int + int"
  sk_bind :: "int option"
  sk_listen :: "int option"
  sk_connect :: "int option"

record SocketOs =
  so_fds :: "int set"
  so_paths :: "string set"

definition createSocket :: "SocketEnv \<Rightarrow> SocketOs \<Rightarrow> (Exception + int) \<times> SocketOs" where
  "createSocket env os =
     (case sk_socket env of
        Inl errno \<Rightarrow> (Inl (SystemException errno ''socket(AF_UNIX)''), os)
      | Inr fd \<Rightarrow> (Inr fd, os\<lparr>so_fds := insert fd (so_fds os)\<rparr>))"

definition closeFd :: "int \<Rightarrow> SocketOs \<Rightarrow> SocketOs" where
  "closeFd fd os = os\<lparr>so_fds := so_fds os - {fd}\<rparr>"

text \<open>\<open>UniqueFd\<close>: an optional descriptor.\<close>

definition UniqueFd_release :: "int option \<Rightarrow> int option \<times> int option" where
  "UniqueFd_release fd = (fd, None)"

definition UniqueFd_reset :: "int option \<Rightarrow> int option \<Rightarrow> SocketOs \<Rightarrow> int option \<times> SocketOs" where
  "UniqueFd_reset new fd os = (new, case fd of None \<Rightarrow> os | Some old \<Rightarrow> closeFd old os)"

definition UniqueFd_moveAssign ::
  "int option \<Rightarrow> int option \<Rightarrow> SocketOs \<Rightarrow> int option \<times> int option \<times> SocketOs" where
  "UniqueFd_moveAssign self other os =
     (case UniqueFd_release other of (released, other) \<Rightarrow>
      case UniqueFd_reset released self os of (self, os) \<Rightarrow> (self, other, os))"

definition unlinkPath :: "string \<Rightarrow> SocketOs \<Rightarrow> SocketOs" where
  "unlinkPath path os = os\<lparr>so_paths := so_paths os - {path}\<rparr>"

record UnixListener =
  ul_fd :: "int option"
  ul_socket_path :: string
  ul_owns_path :: bool

definition UnixListener_create ::
  "string \<Rightarrow> int \<Rightarrow> SocketEnv \<Rightarrow> SocketOs \<Rightarrow> (Exception + UnixListener) \<times> SocketOs" where
  "UnixListener_create socket_path backlog env os =
     (case makeAddress socket_path of
        Inl e \<Rightarrow> (Inl e, os)
      | Inr address \<Rightarrow>
          (case createSocket env os of
             (Inl e, os) \<Rightarrow> (Inl e, os)
           | (Inr fd, os) \<Rightarrow>
               (case sk_bind env of
                  Some errno \<Rightarrow>
                    (Inl (SystemException errno (''bind('' @ socket_path @ '')'')), closeFd fd os)
                | None \<Rightarrow>
                    let os = os\<lparr>so_paths := insert socket_path (so_paths os)\<rparr> in
                    if backlog \<le> 0
                    then (Inl (InvalidArgumentException ''Unix socket listen backlog must be positive''),
                          closeFd fd (unlinkPath socket_path os))
                    else
                      (case sk_listen env of
                         Some errno \<Rightarrow>
                           (Inl (SystemException errno (''listen('' @ socket_path @ '')'')),
                            closeFd fd (unlinkPath socket_path os))
                       | None \<Rightarrow>
                           (Inr \<lparr>ul_fd = Some fd, ul_socket_path = socket_path, ul_owns_path = True\<rparr>,
                            os)))))"

definition UnixListener_cleanup :: "UnixListener \<Rightarrow> SocketOs \<Rightarrow> UnixListener \<times> SocketOs" where
  "UnixListener_cleanup listener os =
     (let (fd, os) = UniqueFd_reset None (ul_fd listener) os;
          listener = listener\<lparr>ul_fd := fd\<rparr> in
      if ul_owns_path listener
      then (listener\<lparr>ul_owns_path := False\<rparr>, unlinkPath (ul_socket_path listener) os)
      else (listener, os))"

text \<open>The moved-from listener no longer owns the path, and its descriptor is empty.\<close>

definition UnixListener_move :: "UnixListener \<Rightarrow> UnixListener \<times> UnixListener" where
  "UnixListener_move other =
     (other, \<lparr>ul_fd = None, ul_socket_path = [], ul_owns_path = False\<rparr>)"

text \<open>Move assignment cleans up what the target held before.\<close>

definition UnixListener_moveAssign ::
  "UnixListener \<Rightarrow> UnixListener \<Rightarrow> SocketOs \<Rightarrow> UnixListener \<times> UnixListener \<times> SocketOs" where
  "UnixListener_moveAssign self other os =
     (case UnixListener_cleanup self os of (self, os) \<Rightarrow>
      case UnixListener_move other of (self, other) \<Rightarrow> (self, other, os))"

definition EAGAIN :: int where "EAGAIN = 11"

text \<open>The argument is the result of \<open>accept4\<close>; no connection is \<open>Inr None\<close>.\<close>

definition UnixListener_accept :: "int + int \<Rightarrow> SocketOs \<Rightarrow> (Exception + int option) \<times> SocketOs" where
  "UnixListener_accept fdOrErrno os =
     (case fdOrErrno of
        Inr fd \<Rightarrow> (Inr (Some fd), os\<lparr>so_fds := insert fd (so_fds os)\<rparr>)
      | Inl errno \<Rightarrow>
          if errno = EAGAIN then (Inr None, os)
          else if errno = EINTR then (Inr None, os)
          else (Inl (SystemException errno ''accept4(AF_UNIX)''), os))"

definition connectUnixSocket :: "string \<Rightarrow> SocketEnv \<Rightarrow> SocketOs \<Rightarrow> (Exception + int) \<times> SocketOs" where
  "connectUnixSocket socket_path env os =
     (case makeAddress socket_path of
        Inl e \<Rightarrow> (Inl e, os)
      | Inr address \<Rightarrow>
          (case createSocket env os of
             (Inl e, os) \<Rightarrow> (Inl e, os)
           | (Inr fd, os) \<Rightarrow>
               (case sk_connect env of
                  Some errno \<Rightarrow>
                    (Inl (SystemException errno (''connect('' @ socket_path @ '')'')), closeFd fd os)
                | None \<Rightarrow> (Inr fd, os))))"

section \<open>Nothing leaks\<close>

text \<open>The kernel hands out a descriptor that is not open, and \<open>bind\<close> fails on an existing path.\<close>

definition socketEnvOk :: "string \<Rightarrow> SocketEnv \<Rightarrow> SocketOs \<Rightarrow> bool" where
  "socketEnvOk path env os \<longleftrightarrow>
     (\<forall>fd. sk_socket env = Inr fd \<longrightarrow> fd \<notin> so_fds os) \<and> (sk_bind env = None \<longrightarrow> path \<notin> so_paths os)"

lemma UnixListener_create_leak_free:
  assumes "socketEnvOk path env os" "UnixListener_create path backlog env os = (Inl e, os')"
  shows "os' = os"
  using assms
  by (auto simp: UnixListener_create_def createSocket_def socketEnvOk_def closeFd_def unlinkPath_def Let_def
      split: sum.splits option.splits if_splits)

lemma UnixListener_cleanup_restores:
  assumes "socketEnvOk path env os" "UnixListener_create path backlog env os = (Inr l, os')"
  shows "snd (UnixListener_cleanup l os') = os"
  using assms
  by (auto simp: UnixListener_create_def UnixListener_cleanup_def UniqueFd_reset_def createSocket_def socketEnvOk_def
      closeFd_def unlinkPath_def Let_def split: sum.splits option.splits if_splits)

lemma connectUnixSocket_leak_free:
  assumes "socketEnvOk path env os" "connectUnixSocket path env os = (Inl e, os')"
  shows "os' = os"
  using assms
  by (auto simp: connectUnixSocket_def createSocket_def socketEnvOk_def closeFd_def
      split: sum.splits option.splits if_splits)

end
