(* ===== verification/MW_Registry_Client.thy ===== *)
theory MW_Registry_Client
  imports MW_Unix_Socket MW_Control_Protocol MW_Pool_Layout "HOL-Library.Monad_Syntax"
begin

text \<open>
  The client side of the control protocol: \<open>src/middleware/src/detail/registry_client.cpp\<close> and its
  header.  A request is the payload its \<open>PayloadWriter\<close> builds, the exchange of one frame for another
  over the socket, and the parser of the response body.  What the socket and the clock do during the
  exchange is the record \<open>RequestEnv\<close>; an exchange whose listed results are used up while it still
  waits has the value \<open>None\<close>.
\<close>

section \<open>Data\<close>

record RegistryEndpoint =
  rep_topic_id :: u64
  rep_endpoint_id :: u64
  rep_pool :: PoolDescriptor

record RegistrySubscriber =
  rsu_endpoint_id :: u64
  rsu_data_socket_path :: string
  rsu_max_message_size :: size_t
  rsu_queue :: QueueDescriptor

record RegistryDiscovery =
  rdi_topic_id :: u64
  rdi_transport :: TransportType
  rdi_pool :: PoolDescriptor
  rdi_subscribers :: "RegistrySubscriber list"

record RegistryNodeInfo =
  rni_node_id :: u64
  rni_node_name :: string
  rni_liveness :: LivenessState

record RegistryRegistration =
  rrg_node_id :: u64
  rrg_session_id :: u64

datatype ClientPeerEventKind = ClientPublisherDead | ClientSubscriberDead

record RegistryPeerEvent =
  rpe_kind :: ClientPeerEventKind
  rpe_target_endpoint_id :: u64
  rpe_dead_endpoint_id :: u64
  rpe_topic_id :: u64
  rpe_resource_id :: u64

record HeartbeatResponse =
  hbr_state :: LivenessState
  hbr_events :: "RegistryPeerEvent list"

record RegistryTopicInfo =
  rti_topic_id :: u64
  rti_topic_name :: string
  rti_type_name :: string
  rti_type_hash :: string
  rti_transport :: TransportType
  rti_max_message_size :: size_t
  rti_publisher_count :: size_t
  rti_subscriber_count :: size_t
  rti_pool :: PoolDescriptor

record RegistryStatsInfo =
  rsi_node_count :: u64
  rsi_topic_count :: u64
  rsi_publisher_count :: u64
  rsi_subscriber_count :: u64
  rsi_heartbeat_received :: u64
  rsi_suspected_count :: u64
  rsi_dead_node_count :: u64

record RegistryClient =
  rcl_socket :: "int option"
  rcl_request_timeout :: int
  rcl_next_request_id :: u32

definition emptyPoolDescriptor :: PoolDescriptor where
  "emptyPoolDescriptor = \<lparr>pd_shm_name = [], pd_pool_id = 0, pd_segment_size = 0, pd_topic_id = 0,
     pd_layout_version = 0\<rparr>"

abbreviation malformed :: "string \<Rightarrow> Exception" where
  "malformed message \<equiv> MiddlewareException InvalidControlMessage message"

definition orMalformed :: "string \<Rightarrow> 'a option \<Rightarrow> Exception + 'a" where
  "orMalformed message result = (case result of None \<Rightarrow> Inl (malformed message) | Some x \<Rightarrow> Inr x)"

section \<open>Reading with a deadline\<close>

text \<open>Times are in nanoseconds, timeouts in milliseconds.\<close>

definition remainingPollTimeout :: "int \<Rightarrow> int \<Rightarrow> int \<Rightarrow> int" where
  "remainingPollTimeout deadline timeout now =
     (if timeout < 0 then - 1
      else if now \<ge> deadline then 0
      else
        let remaining = deadline - now;
            rounded_up = (remaining + 1000000 - 1) div 1000000 in
        min rounded_up 2147483647)"

datatype PollOutcome = PollZero | PollErrno int | PollReady bool

record DeadlineStep =
  dl_now :: int
  dl_poll :: "int \<Rightarrow> PollOutcome"
  dl_recv :: RecvResult

text \<open>
  One iteration is one \<open>DeadlineStep\<close>.  The flag of \<open>PollReady\<close> is \<open>POLLNVAL\<close>; \<open>recv\<close> stores at
  most the bytes asked for.
\<close>

fun readWithDeadline ::
  "nat \<Rightarrow> int \<Rightarrow> int \<Rightarrow> bytes \<Rightarrow> DeadlineStep list
     \<Rightarrow> ((Exception + bytes) \<times> DeadlineStep list) option" where
  "readWithDeadline want deadline timeout buffer [] =
     (if length buffer < want then None else Some (Inr buffer, []))"
| "readWithDeadline want deadline timeout buffer (step # steps) =
     (if length buffer < want
      then (case dl_poll step (remainingPollTimeout deadline timeout (dl_now step)) of
          PollZero \<Rightarrow> Some (Inl (MiddlewareException Timeout ''registry response timed out''), steps)
        | PollErrno e \<Rightarrow>
            if e = EINTR then readWithDeadline want deadline timeout buffer steps
            else Some (Inl (MiddlewareException IoError ''registry poll failed''), steps)
        | PollReady invalid \<Rightarrow>
            if invalid
            then Some (Inl (MiddlewareException ConnectionLost ''registry connection is invalid''), steps)
            else
              (case dl_recv step of
                 RecvData bs \<Rightarrow>
                   if bs \<noteq> []
                   then readWithDeadline want deadline timeout
                          (buffer @ take (want - length buffer) bs) steps
                   else Some (Inl (MiddlewareException ConnectionLost ''registry connection closed''), steps)
               | RecvErrno e \<Rightarrow>
                   if e = EINTR \<or> e = EAGAIN
                   then readWithDeadline want deadline timeout buffer steps
                   else if e = ECONNRESET \<or> e = ENOTCONN
                   then Some (Inl (MiddlewareException ConnectionLost ''registry connection lost''), steps)
                   else Some (Inl (MiddlewareException IoError ''registry receive failed''), steps)))
      else Some (Inr buffer, step # steps))"

text \<open>The deadline: a negative timeout is a century.\<close>

definition readDeadline :: "int \<Rightarrow> int \<Rightarrow> int" where
  "readDeadline now timeout =
     now + (if timeout < 0 then 24 * 365 * 100 * 3600 * 1000000000 else timeout * 1000000)"

section \<open>Bodies of responses\<close>

text \<open>\<open>std::size_t\<close> has 64 bits: the check never fails.\<close>

definition checkedSize :: "u64 \<Rightarrow> Exception + size_t" where
  "checkedSize v =
     (if v > SIZE_MAX then Inl (malformed ''registry size does not fit this process'') else Inr v)"

definition readRegistration :: "bytes \<Rightarrow> Exception + RegistryRegistration" where
  "readRegistration body =
     orMalformed ''registry response has an invalid registration payload''
       (do { (node_id, reader) \<leftarrow> readU64 (newReader body);
             (session_id, reader) \<leftarrow> readU64 reader;
             if node_id = 0 \<or> session_id = 0 \<or> \<not> rd_empty reader then None
             else Some \<lparr>rrg_node_id = node_id, rrg_session_id = session_id\<rparr> })"

definition readEndpoint :: "bytes \<Rightarrow> Exception + RegistryEndpoint" where
  "readEndpoint body =
     orMalformed ''registry response has an invalid endpoint payload''
       (do { (topic_id, reader) \<leftarrow> readU64 (newReader body);
             (endpoint_id, reader) \<leftarrow> readU64 reader;
             (shm_name, reader) \<leftarrow> readString reader;
             (pool_id, reader) \<leftarrow> readU64 reader;
             (segment_size, reader) \<leftarrow> readU64 reader;
             (layout_version, reader) \<leftarrow> readU16 reader;
             if \<not> rd_empty reader then None
             else Some \<lparr>rep_topic_id = topic_id, rep_endpoint_id = endpoint_id,
                rep_pool = \<lparr>pd_shm_name = shm_name, pd_pool_id = pool_id,
                  pd_segment_size = segment_size, pd_topic_id = topic_id,
                  pd_layout_version = layout_version\<rparr>\<rparr> })"

fun readPeerEvents :: "nat \<Rightarrow> PayloadReader \<Rightarrow> Exception + RegistryPeerEvent list \<times> PayloadReader" where
  "readPeerEvents 0 reader = Inr ([], reader)"
| "readPeerEvents (Suc count) reader =
     bindE (orMalformed ''registry heartbeat event is malformed''
         (do { (kind, reader) \<leftarrow> readU16 reader;
               (target, reader) \<leftarrow> readU64 reader;
               (dead, reader) \<leftarrow> readU64 reader;
               (topic, reader) \<leftarrow> readU64 reader;
               (resource, reader) \<leftarrow> readU64 reader;
               Some (kind, target, dead, topic, resource, reader) }))
       (\<lambda>(kind, target, dead, topic, resource, reader).
          if kind \<noteq> 1 \<and> kind \<noteq> 2
          then Inl (malformed ''registry heartbeat event kind is invalid'')
          else
            bindE (readPeerEvents count reader) (\<lambda>(events, reader).
              Inr (\<lparr>rpe_kind = (if kind = 1 then ClientPublisherDead else ClientSubscriberDead),
                     rpe_target_endpoint_id = target, rpe_dead_endpoint_id = dead,
                     rpe_topic_id = topic, rpe_resource_id = resource\<rparr> # events, reader)))"

definition readHeartbeat :: "bytes \<Rightarrow> Exception + HeartbeatResponse" where
  "readHeartbeat body =
     bindE (orMalformed ''registry heartbeat response is malformed''
         (do { (state, reader) \<leftarrow> readU16 (newReader body);
               (count, reader) \<leftarrow> readU32 reader;
               Some (state, count, reader) }))
       (\<lambda>(state, count, reader).
          let state = livenessCastOf state in
          if state \<noteq> Alive \<and> state \<noteq> Suspected
          then Inl (malformed ''registry heartbeat response has invalid state'')
          else
            bindE (readPeerEvents (unat count) reader) (\<lambda>(events, reader).
              if \<not> rd_empty reader
              then Inl (malformed ''registry heartbeat response has trailing data'')
              else Inr \<lparr>hbr_state = state, hbr_events = events\<rparr>))"

fun readSubscribers :: "nat \<Rightarrow> PayloadReader \<Rightarrow> Exception + RegistrySubscriber list \<times> PayloadReader" where
  "readSubscribers 0 reader = Inr ([], reader)"
| "readSubscribers (Suc count) reader =
     bindE (orMalformed ''registry response has invalid subscriber discovery data''
         (do { (endpoint_id, reader) \<leftarrow> readU64 reader;
               (path, reader) \<leftarrow> readString reader;
               (max_message_size, reader) \<leftarrow> readU64 reader;
               (shm_name, reader) \<leftarrow> readString reader;
               (queue_id, reader) \<leftarrow> readU64 reader;
               (segment_size, reader) \<leftarrow> readU64 reader;
               (capacity, reader) \<leftarrow> readU32 reader;
               (layout_version, reader) \<leftarrow> readU16 reader;
               Some (endpoint_id, path, max_message_size, shm_name, queue_id, segment_size, capacity,
                 layout_version, reader) }))
       (\<lambda>(endpoint_id, path, max_message_size, shm_name, queue_id, segment_size, capacity,
            layout_version, reader).
          bindE (orMalformed ''registry response has invalid subscriber queue data''
              (do { (policy, reader) \<leftarrow> readU16 reader;
                    (timeout, reader) \<leftarrow> readU64 reader;
                    Some (policy, timeout, reader) }))
            (\<lambda>(policy, timeout, reader).
               bindE (checkedSize max_message_size) (\<lambda>size.
                 bindE (readSubscribers count reader) (\<lambda>(subscribers, reader).
                   Inr (\<lparr>rsu_endpoint_id = endpoint_id, rsu_data_socket_path = path,
                          rsu_max_message_size = size,
                          rsu_queue = \<lparr>qd_shm_name = shm_name, qd_queue_id = queue_id,
                            qd_segment_size = segment_size, qd_capacity = capacity,
                            qd_layout_version = layout_version,
                            qd_overflow_policy = overflowPolicyCastOf policy,
                            qd_block_timeout_ms = timeout\<rparr>\<rparr> # subscribers, reader)))))"

definition readDiscovery :: "bytes \<Rightarrow> Exception + RegistryDiscovery" where
  "readDiscovery body =
     bindE (orMalformed ''registry response has invalid discovery data''
         (do { (topic_id, reader) \<leftarrow> readU64 (newReader body);
               (transport, reader) \<leftarrow> readU16 reader;
               (shm_name, reader) \<leftarrow> readString reader;
               (pool_id, reader) \<leftarrow> readU64 reader;
               (segment_size, reader) \<leftarrow> readU64 reader;
               (layout_version, reader) \<leftarrow> readU16 reader;
               (count, reader) \<leftarrow> readU32 reader;
               Some (topic_id, transport, shm_name, pool_id, segment_size, layout_version, count, reader) }))
       (\<lambda>(topic_id, transport, shm_name, pool_id, segment_size, layout_version, count, reader).
          bindE (readSubscribers (unat count) reader) (\<lambda>(subscribers, reader).
            if subscribers = [] \<or> \<not> rd_empty reader
            then Inl (malformed ''registry response has no subscriber discovery data'')
            else Inr \<lparr>rdi_topic_id = topic_id, rdi_transport = transportCastOf transport,
                   rdi_pool = \<lparr>pd_shm_name = shm_name, pd_pool_id = pool_id,
                     pd_segment_size = segment_size, pd_topic_id = topic_id,
                     pd_layout_version = layout_version\<rparr>,
                   rdi_subscribers = subscribers\<rparr>))"

fun readNodes :: "nat \<Rightarrow> PayloadReader \<Rightarrow> Exception + RegistryNodeInfo list \<times> PayloadReader" where
  "readNodes 0 reader = Inr ([], reader)"
| "readNodes (Suc count) reader =
     bindE (orMalformed ''invalid node list entry''
         (do { (node_id, reader) \<leftarrow> readU64 reader;
               (name, reader) \<leftarrow> readString reader;
               (liveness, reader) \<leftarrow> readU16 reader;
               Some (node_id, name, livenessCastOf liveness, reader) }))
       (\<lambda>(node_id, name, liveness, reader).
          if liveness \<noteq> Alive \<and> liveness \<noteq> Suspected
          then Inl (malformed ''invalid node liveness state'')
          else
            bindE (readNodes count reader) (\<lambda>(nodes, reader).
              Inr (\<lparr>rni_node_id = node_id, rni_node_name = name, rni_liveness = liveness\<rparr> # nodes, reader)))"

definition readNodeList :: "bytes \<Rightarrow> Exception + RegistryNodeInfo list" where
  "readNodeList body =
     bindE (orMalformed ''invalid node list response'' (readU32 (newReader body))) (\<lambda>(count, reader).
       bindE (readNodes (unat count) reader) (\<lambda>(nodes, reader).
         if \<not> rd_empty reader then Inl (malformed ''trailing node list data'') else Inr nodes))"

fun readTopics :: "nat \<Rightarrow> PayloadReader \<Rightarrow> Exception + RegistryTopicInfo list \<times> PayloadReader" where
  "readTopics 0 reader = Inr ([], reader)"
| "readTopics (Suc count) reader =
     bindE (orMalformed ''invalid topic list entry''
         (do { (topic_id, reader) \<leftarrow> readU64 reader;
               (name, reader) \<leftarrow> readString reader;
               Some (topic_id, name, reader) }))
       (\<lambda>(topic_id, name, reader).
          bindE (readTopics count reader) (\<lambda>(topics, reader).
            Inr (\<lparr>rti_topic_id = topic_id, rti_topic_name = name, rti_type_name = [],
                   rti_type_hash = [], rti_transport = UnixDomainSocket, rti_max_message_size = 0,
                   rti_publisher_count = 0, rti_subscriber_count = 0,
                   rti_pool = emptyPoolDescriptor\<rparr> # topics, reader)))"

definition readTopicList :: "bytes \<Rightarrow> Exception + RegistryTopicInfo list" where
  "readTopicList body =
     bindE (orMalformed ''invalid topic list response'' (readU32 (newReader body))) (\<lambda>(count, reader).
       bindE (readTopics (unat count) reader) (\<lambda>(topics, reader).
         if \<not> rd_empty reader then Inl (malformed ''trailing topic list data'') else Inr topics))"

definition readTopicInfo :: "bytes \<Rightarrow> Exception + RegistryTopicInfo" where
  "readTopicInfo body =
     bindE (orMalformed ''invalid topic info response''
         (do { (topic_id, reader) \<leftarrow> readU64 (newReader body);
               (topic_name, reader) \<leftarrow> readString reader;
               (type_name, reader) \<leftarrow> readString reader;
               (type_hash, reader) \<leftarrow> readString reader;
               (transport, reader) \<leftarrow> readU16 reader;
               (max_message_size, reader) \<leftarrow> readU64 reader;
               (publisher_count, reader) \<leftarrow> readU64 reader;
               (subscriber_count, reader) \<leftarrow> readU64 reader;
               (shm_name, reader) \<leftarrow> readString reader;
               (pool_id, reader) \<leftarrow> readU64 reader;
               (segment_size, reader) \<leftarrow> readU64 reader;
               (layout_version, reader) \<leftarrow> readU16 reader;
               if \<not> rd_empty reader then None
               else Some (topic_id, topic_name, type_name, type_hash, transport, max_message_size,
                 publisher_count, subscriber_count,
                 \<lparr>pd_shm_name = shm_name, pd_pool_id = pool_id, pd_segment_size = segment_size,
                  pd_topic_id = topic_id, pd_layout_version = layout_version\<rparr>) }))
       (\<lambda>(topic_id, topic_name, type_name, type_hash, transport, max_message_size, publisher_count,
            subscriber_count, pool).
          bindE (checkedSize max_message_size) (\<lambda>max_message_size.
            bindE (checkedSize publisher_count) (\<lambda>publisher_count.
              bindE (checkedSize subscriber_count) (\<lambda>subscriber_count.
                Inr \<lparr>rti_topic_id = topic_id, rti_topic_name = topic_name, rti_type_name = type_name,
                     rti_type_hash = type_hash, rti_transport = transportCastOf transport,
                     rti_max_message_size = max_message_size, rti_publisher_count = publisher_count,
                     rti_subscriber_count = subscriber_count, rti_pool = pool\<rparr>))))"

definition readStats :: "bytes \<Rightarrow> Exception + RegistryStatsInfo" where
  "readStats body =
     orMalformed ''invalid registry stats response''
       (do { (nodes, reader) \<leftarrow> readU64 (newReader body);
             (topics, reader) \<leftarrow> readU64 reader;
             (publishers, reader) \<leftarrow> readU64 reader;
             (subscribers, reader) \<leftarrow> readU64 reader;
             (heartbeats, reader) \<leftarrow> readU64 reader;
             (suspected, reader) \<leftarrow> readU64 reader;
             (dead, reader) \<leftarrow> readU64 reader;
             if \<not> rd_empty reader then None
             else Some \<lparr>rsi_node_count = nodes, rsi_topic_count = topics,
                rsi_publisher_count = publishers, rsi_subscriber_count = subscribers,
                rsi_heartbeat_received = heartbeats, rsi_suspected_count = suspected,
                rsi_dead_node_count = dead\<rparr> })"

section \<open>Payloads of requests\<close>

text \<open>\<open>None\<close> is the \<open>std::length_error\<close> of \<open>writeString\<close>.\<close>

definition registerNodePayload :: "string \<Rightarrow> bytes option" where
  "registerNodePayload node_name = writeString [] node_name"

definition nodePayload :: "u64 \<Rightarrow> bytes" where
  "nodePayload node_id = writeU64 [] node_id"

definition pairPayload :: "u64 \<Rightarrow> u64 \<Rightarrow> bytes" where
  "pairPayload first second = writeU64 (writeU64 [] first) second"

definition advertisePayload ::
  "u64 \<Rightarrow> string \<Rightarrow> string \<Rightarrow> string \<Rightarrow> size_t \<Rightarrow> TransportType \<Rightarrow> PoolDescriptor \<Rightarrow> bytes option" where
  "advertisePayload node_id topic_name type_name type_hash max_message_size transport pool =
     do { writer \<leftarrow> writeString (writeU64 [] node_id) topic_name;
          writer \<leftarrow> writeString writer type_name;
          writer \<leftarrow> writeString writer type_hash;
          let writer = writeU64 writer max_message_size;
          let writer = writeU16 writer (transportValue transport);
          writer \<leftarrow> writeString writer (pd_shm_name pool);
          let writer = writeU64 writer (pd_pool_id pool);
          let writer = writeU64 writer (pd_segment_size pool);
          Some (writeU16 writer (pd_layout_version pool)) }"

definition subscribePayload ::
  "u64 \<Rightarrow> string \<Rightarrow> string \<Rightarrow> string \<Rightarrow> size_t \<Rightarrow> string \<Rightarrow> TransportType \<Rightarrow> QueueDescriptor \<Rightarrow> bytes option" where
  "subscribePayload node_id topic_name type_name type_hash max_message_size data_socket_path transport queue =
     do { writer \<leftarrow> writeString (writeU64 [] node_id) topic_name;
          writer \<leftarrow> writeString writer type_name;
          writer \<leftarrow> writeString writer type_hash;
          let writer = writeU64 writer max_message_size;
          writer \<leftarrow> writeString writer data_socket_path;
          let writer = writeU16 writer (transportValue transport);
          writer \<leftarrow> writeString writer (qd_shm_name queue);
          let writer = writeU64 writer (qd_queue_id queue);
          let writer = writeU64 writer (qd_segment_size queue);
          let writer = writeU32 writer (qd_capacity queue);
          let writer = writeU16 writer (qd_layout_version queue);
          let writer = writeU16 writer (overflowPolicyValue (qd_overflow_policy queue));
          Some (writeU64 writer (qd_block_timeout_ms queue)) }"

section \<open>One exchange\<close>

record RequestEnv =
  rq_sends :: "SendResult list"
  rq_header_now :: int
  rq_payload_now :: int
  rq_steps :: "DeadlineStep list"

text \<open>The frame header and its validation, then the payload with a deadline of its own.\<close>

definition receiveFrame :: "int \<Rightarrow> RequestEnv \<Rightarrow> (Exception + ControlFrame) option" where
  "receiveFrame timeout env =
     do { (encoded, steps) \<leftarrow> readWithDeadline kControlHeaderSize (readDeadline (rq_header_now env) timeout)
            timeout [] (rq_steps env);
          (case encoded of
             Inl e \<Rightarrow> Some (Inl e)
           | Inr encoded \<Rightarrow>
               (case decodeControlHeader (Some encoded) of
                  None \<Rightarrow> Some (Inl (malformed ''invalid registry header size''))
                | Some header \<Rightarrow>
                    (case validateControlHeader header of
                       ControlBadMagic \<Rightarrow> Some (Inl (malformed ''invalid registry magic''))
                     | ControlUnsupportedVersion \<Rightarrow>
                         Some (Inl (MiddlewareException UnsupportedProtocolVersion
                           ''unsupported registry protocol version''))
                     | ControlPayloadTooLarge \<Rightarrow>
                         Some (Inl (MiddlewareException MessageTooLarge ''registry response is too large''))
                     | ControlValid \<Rightarrow>
                         do { (payload, steps) \<leftarrow> readWithDeadline (unat (ctl_payload_size header))
                                (readDeadline (rq_payload_now env) timeout) timeout [] steps;
                              (case payload of
                                 Inl e \<Rightarrow> Some (Inl e)
                               | Inr payload \<Rightarrow>
                                   Some (Inr \<lparr>cf_header = header, cf_payload = payload\<rparr>)) }))) }"

text \<open>What \<open>request\<close> makes of the frame it received.\<close>

definition responseBody :: "u32 \<Rightarrow> ControlFrame \<Rightarrow> Exception + bytes" where
  "responseBody request_id response =
     (if ctl_opcode (cf_header response) \<noteq> OpResponse
      then Inl (malformed ''registry sent a non-response opcode'')
      else if ctl_request_id (cf_header response) \<noteq> request_id
      then Inl (MiddlewareException InvalidRequestId ''registry response ID mismatch'')
      else
        (case decodeResponsePayload (cf_payload response) of
           None \<Rightarrow> Inl (malformed ''invalid registry response body'')
         | Some envelope \<Rightarrow>
             if re_error envelope \<noteq> Ok
             then Inl (MiddlewareException (re_error envelope)
                    (if re_message envelope = [] then errorMessage (re_error envelope)
                     else re_message envelope))
             else Inr (re_body envelope)))"

definition client_request ::
  "Opcode \<Rightarrow> bytes \<Rightarrow> int \<Rightarrow> RequestEnv \<Rightarrow> RegistryClient \<Rightarrow> ((Exception + bytes) \<times> RegistryClient) option" where
  "client_request opcode payload timeout env c =
     (if rcl_socket c = None
      then Some (Inl (MiddlewareException ConnectionLost ''registry connection is closed''), c)
      else if rcl_next_request_id c = 0
      then Some (Inl (MiddlewareException InvalidState ''registry request ID space exhausted''), c)
      else
        let request_id = rcl_next_request_id c;
            c = c\<lparr>rcl_next_request_id := request_id + 1\<rparr> in
        (case encodeControlFrame opcode request_id payload of
           None \<Rightarrow> Some (Inl (OtherException ''length_error''), c)
         | Some frame \<Rightarrow>
             do { (result, _) \<leftarrow> writeAll frame (rq_sends env);
                  if io_status result \<noteq> IoComplete
                  then Some (Inl (MiddlewareException
                           (if io_status result = IoClosed then ConnectionLost else IoError)
                           ''failed to send registry request''), c\<lparr>rcl_socket := None\<rparr>)
                  else do { response \<leftarrow> receiveFrame timeout env;
                            Some (bindE response (responseBody request_id), c) } }))"

text \<open>A call: build the payload, exchange, parse the body.\<close>

definition client_call ::
  "Opcode \<Rightarrow> bytes option \<Rightarrow> int \<Rightarrow> (bytes \<Rightarrow> Exception + 'a) \<Rightarrow> RequestEnv \<Rightarrow> RegistryClient
     \<Rightarrow> ((Exception + 'a) \<times> RegistryClient) option" where
  "client_call opcode payload timeout parse env c =
     (case payload of
        None \<Rightarrow> Some (Inl (OtherException ''length_error''), c)
      | Some payload \<Rightarrow>
          do { (body, c) \<leftarrow> client_request opcode payload timeout env c; Some (bindE body parse, c) })"

definition noBody :: "bytes \<Rightarrow> Exception + unit" where
  "noBody body = Inr ()"

section \<open>The client\<close>

definition RegistryClient_new ::
  "RegistryConfig \<Rightarrow> SocketEnv \<Rightarrow> SocketOs \<Rightarrow> (Exception + RegistryClient) \<times> SocketOs" where
  "RegistryClient_new config env os =
     (if rc_socket_path config = []
      then (Inl (MiddlewareException InvalidArgument ''registry socket path must not be empty''), os)
      else if rc_request_timeout config \<le> 0
      then (Inl (MiddlewareException InvalidArgument ''registry request timeout must be positive''), os)
      else if \<not> validLivenessConfig (rc_liveness config)
      then (Inl (MiddlewareException InvalidArgument ''registry liveness timing is invalid''), os)
      else
        (case connectUnixSocket (rc_socket_path config) env os of
           (Inl (SystemException errno what), os) \<Rightarrow>
             (Inl (MiddlewareException RegistryUnavailable what), os)
         | (Inl e, os) \<Rightarrow> (Inl e, os)
         | (Inr fd, os) \<Rightarrow>
             (Inr \<lparr>rcl_socket = Some fd, rcl_request_timeout = rc_request_timeout config,
                   rcl_next_request_id = 1\<rparr>, os)))"

definition client_registerNode ::
  "string \<Rightarrow> RequestEnv \<Rightarrow> RegistryClient \<Rightarrow> ((Exception + RegistryRegistration) \<times> RegistryClient) option" where
  "client_registerNode node_name env c =
     client_call OpRegisterNode (registerNodePayload node_name) (rcl_request_timeout c) readRegistration env c"

definition client_unregisterNode ::
  "u64 \<Rightarrow> RequestEnv \<Rightarrow> RegistryClient \<Rightarrow> ((Exception + unit) \<times> RegistryClient) option" where
  "client_unregisterNode node_id env c =
     client_call OpUnregisterNode (Some (nodePayload node_id)) (rcl_request_timeout c) noBody env c"

definition client_attachHeartbeat ::
  "u64 \<Rightarrow> u64 \<Rightarrow> RequestEnv \<Rightarrow> RegistryClient \<Rightarrow> ((Exception + unit) \<times> RegistryClient) option" where
  "client_attachHeartbeat node_id session_id env c =
     client_call OpAttachHeartbeat (Some (pairPayload node_id session_id)) (rcl_request_timeout c) noBody env c"

definition client_heartbeat ::
  "u64 \<Rightarrow> u64 \<Rightarrow> RequestEnv \<Rightarrow> RegistryClient \<Rightarrow> ((Exception + HeartbeatResponse) \<times> RegistryClient) option" where
  "client_heartbeat node_id session_id env c =
     client_call OpHeartbeat (Some (pairPayload node_id session_id)) (rcl_request_timeout c) readHeartbeat env c"

definition client_advertise ::
  "u64 \<Rightarrow> string \<Rightarrow> string \<Rightarrow> string \<Rightarrow> size_t \<Rightarrow> TransportType \<Rightarrow> PoolDescriptor \<Rightarrow> RequestEnv \<Rightarrow> RegistryClient
     \<Rightarrow> ((Exception + RegistryEndpoint) \<times> RegistryClient) option" where
  "client_advertise node_id topic_name type_name type_hash max_message_size transport pool env c =
     client_call OpAdvertiseTopic
       (advertisePayload node_id topic_name type_name type_hash max_message_size transport pool)
       (rcl_request_timeout c) readEndpoint env c"

definition client_unadvertise ::
  "u64 \<Rightarrow> u64 \<Rightarrow> RequestEnv \<Rightarrow> RegistryClient \<Rightarrow> ((Exception + unit) \<times> RegistryClient) option" where
  "client_unadvertise node_id endpoint_id env c =
     client_call OpUnadvertiseTopic (Some (pairPayload node_id endpoint_id)) (rcl_request_timeout c) noBody env c"

definition client_subscribe ::
  "u64 \<Rightarrow> string \<Rightarrow> string \<Rightarrow> string \<Rightarrow> size_t \<Rightarrow> string \<Rightarrow> TransportType \<Rightarrow> QueueDescriptor \<Rightarrow> RequestEnv
     \<Rightarrow> RegistryClient \<Rightarrow> ((Exception + RegistryEndpoint) \<times> RegistryClient) option" where
  "client_subscribe node_id topic_name type_name type_hash max_message_size path transport queue env c =
     client_call OpSubscribeTopic
       (subscribePayload node_id topic_name type_name type_hash max_message_size path transport queue)
       (rcl_request_timeout c) readEndpoint env c"

definition client_unsubscribe ::
  "u64 \<Rightarrow> u64 \<Rightarrow> RequestEnv \<Rightarrow> RegistryClient \<Rightarrow> ((Exception + unit) \<times> RegistryClient) option" where
  "client_unsubscribe node_id endpoint_id env c =
     client_call OpUnsubscribeTopic (Some (pairPayload node_id endpoint_id)) (rcl_request_timeout c) noBody env c"

text \<open>\<open>resolve\<close> waits without a limit: the registry answers when a subscriber appears.\<close>

definition client_resolve ::
  "u64 \<Rightarrow> u64 \<Rightarrow> RequestEnv \<Rightarrow> RegistryClient \<Rightarrow> ((Exception + RegistryDiscovery) \<times> RegistryClient) option" where
  "client_resolve node_id endpoint_id env c =
     client_call OpResolveEndpoint (Some (pairPayload node_id endpoint_id)) (- 1) readDiscovery env c"

definition client_listNodes ::
  "RequestEnv \<Rightarrow> RegistryClient \<Rightarrow> ((Exception + RegistryNodeInfo list) \<times> RegistryClient) option" where
  "client_listNodes env c = client_call OpListNodes (Some []) (rcl_request_timeout c) readNodeList env c"

definition client_listTopics ::
  "RequestEnv \<Rightarrow> RegistryClient \<Rightarrow> ((Exception + RegistryTopicInfo list) \<times> RegistryClient) option" where
  "client_listTopics env c = client_call OpListTopics (Some []) (rcl_request_timeout c) readTopicList env c"

definition client_queryTopic ::
  "string \<Rightarrow> RequestEnv \<Rightarrow> RegistryClient \<Rightarrow> ((Exception + RegistryTopicInfo) \<times> RegistryClient) option" where
  "client_queryTopic topic_name env c =
     client_call OpQueryTopic (registerNodePayload topic_name) (rcl_request_timeout c) readTopicInfo env c"

definition client_queryStats ::
  "RequestEnv \<Rightarrow> RegistryClient \<Rightarrow> ((Exception + RegistryStatsInfo) \<times> RegistryClient) option" where
  "client_queryStats env c = client_call OpQueryStats (Some []) (rcl_request_timeout c) readStats env c"

end
