(* ===== verification/MW_Registry_Server.thy ===== *)
theory MW_Registry_Server
  imports MW_Registry_Lifecycle MW_Registry_Client
begin

text \<open>
  The registry daemon: \<open>src/registry/src/registry_server.cpp\<close>.  One call of \<open>pollOnce\<close> handles the
  events \<open>epoll_wait\<close> reported and then expires dead nodes.  The server is single threaded.

  What the system answers is a parameter: the results of \<open>accept4\<close>, \<open>recv\<close> and \<open>send\<close> are lists, and
  a list that is used up means \<open>EAGAIN\<close>, since all of these calls are non-blocking; the clock, the
  results of \<open>EPOLL_CTL_MOD\<close> and of \<open>lstat\<close> are functions of the number of such calls made before,
  which the state counts.  What the server does to shared memory and to the file system is the list
  of its actions.
\<close>

section \<open>State\<close>

record ClientConnection =
  cc_connection_id :: ConnectionId
  cc_input :: bytes
  cc_output :: bytes
  cc_output_offset :: nat
  cc_close_after_write :: bool

record PendingDiscovery =
  pdy_fd :: int
  pdy_connection_id :: ConnectionId
  pdy_node_id :: u64
  pdy_publisher_endpoint_id :: u64
  pdy_request_id :: u32

datatype ServerAction = RecoverAndClose QueueDescriptor | UnlinkSharedMemory string | UnlinkSocket string

record RegistryServer =
  sv_state :: RegistryState
  sv_liveness :: LivenessConfig
  sv_next_connection_id :: ConnectionId
  sv_clients :: "(int, ClientConnection) omap"
  sv_pending :: "(u64, PendingDiscovery) omap"
  sv_peer_events :: "(u64, PeerEventRecord list) omap"
  sv_actions :: "ServerAction list"
  sv_tick :: nat

record ServerEnv =
  ev_clock :: "nat \<Rightarrow> int"
  ev_mod :: "nat \<Rightarrow> bool"
  ev_is_socket :: "nat \<Rightarrow> string \<Rightarrow> bool"

text \<open>
  A handler that does not return normally: it uses a reference into \<open>clients\<close> or an iterator into
  \<open>pending\<close> whose element is gone, or an exception leaves it.
\<close>

datatype ServerFault = DanglingReference | Thrown Exception

definition orThrown :: "string \<Rightarrow> 'a option \<Rightarrow> ServerFault + 'a" where
  "orThrown what result = (case result of None \<Rightarrow> Inl (Thrown (OtherException what)) | Some x \<Rightarrow> Inr x)"

definition tick :: "RegistryServer \<Rightarrow> RegistryServer" where
  "tick s = s\<lparr>sv_tick := Suc (sv_tick s)\<rparr>"

section \<open>Bodies of responses\<close>

definition endpointBody :: "EndpointResult \<Rightarrow> bytes option" where
  "endpointBody result =
     do { writer \<leftarrow> writeString (writeU64 (writeU64 [] (epr_topic_id result)) (epr_endpoint_id result))
            (spm_shm_name (epr_pool result));
          let writer = writeU64 writer (spm_pool_id (epr_pool result));
          let writer = writeU64 writer (spm_segment_size (epr_pool result));
          Some (writeU16 writer (spm_layout_version (epr_pool result))) }"

fun writeSubscribers :: "PayloadWriter \<Rightarrow> DiscoveredSubscriber list \<Rightarrow> bytes option" where
  "writeSubscribers writer [] = Some writer"
| "writeSubscribers writer (subscriber # subscribers) =
     do { writer \<leftarrow> writeString (writeU64 writer (ds_endpoint_id subscriber)) (ds_data_socket_path subscriber);
          writer \<leftarrow> writeString (writeU64 writer (ds_max_message_size subscriber))
            (sqm_shm_name (ds_queue subscriber));
          let writer = writeU64 writer (sqm_queue_id (ds_queue subscriber));
          let writer = writeU64 writer (sqm_segment_size (ds_queue subscriber));
          let writer = writeU32 writer (sqm_capacity (ds_queue subscriber));
          let writer = writeU16 writer (sqm_layout_version (ds_queue subscriber));
          let writer = writeU16 writer (sqm_overflow_policy (ds_queue subscriber));
          writeSubscribers (writeU64 writer (sqm_block_timeout_ms (ds_queue subscriber))) subscribers }"

definition discoveryBody :: "DiscoveryResult \<Rightarrow> bytes option" where
  "discoveryBody result =
     do { writer \<leftarrow> writeString (writeU16 (writeU64 [] (dr_topic_id result)) (transportValue (dr_transport result)))
            (spm_shm_name (dr_pool result));
          let writer = writeU64 writer (spm_pool_id (dr_pool result));
          let writer = writeU64 writer (spm_segment_size (dr_pool result));
          let writer = writeU16 writer (spm_layout_version (dr_pool result));
          writeSubscribers (writeU32 writer (word_of_nat (length (dr_subscribers result)))) (dr_subscribers result) }"

fun writeNodes :: "PayloadWriter \<Rightarrow> NodeRecord list \<Rightarrow> bytes option" where
  "writeNodes writer [] = Some writer"
| "writeNodes writer (node # nodes) =
     do { writer \<leftarrow> writeString (writeU64 writer (nr_node_id node)) (nr_node_name node);
          writeNodes (writeU16 writer (livenessValue (nr_liveness node))) nodes }"

definition nodesBody :: "NodeRecord list \<Rightarrow> bytes option" where
  "nodesBody nodes = writeNodes (writeU32 [] (word_of_nat (length nodes))) nodes"

fun writeTopics :: "PayloadWriter \<Rightarrow> TopicRecord list \<Rightarrow> bytes option" where
  "writeTopics writer [] = Some writer"
| "writeTopics writer (topic # topics) =
     do { writer \<leftarrow> writeString (writeU64 writer (tr_topic_id topic)) (tr_topic_name topic);
          writeTopics writer topics }"

definition topicsBody :: "TopicRecord list \<Rightarrow> bytes option" where
  "topicsBody topics = writeTopics (writeU32 [] (word_of_nat (length topics))) topics"

definition topicBody :: "TopicRecord \<Rightarrow> bytes option" where
  "topicBody topic =
     do { body \<leftarrow> writeString (writeU64 [] (tr_topic_id topic)) (tr_topic_name topic);
          body \<leftarrow> writeString body (tr_type_name topic);
          body \<leftarrow> writeString body (tr_type_hash topic);
          let body = writeU16 body (transportValue (tr_transport topic));
          let body = writeU64 body (tr_max_message_size topic);
          let body = writeU64 body (if tr_publisher_endpoint topic \<noteq> None then 1 else 0);
          let body = writeU64 body (word_of_nat (card (tr_subscriber_endpoints topic)));
          body \<leftarrow> writeString body (spm_shm_name (tr_pool topic));
          let body = writeU64 body (spm_pool_id (tr_pool topic));
          let body = writeU64 body (spm_segment_size (tr_pool topic));
          Some (writeU16 body (spm_layout_version (tr_pool topic))) }"

definition statsBody :: "RegistryStatsSnapshot \<Rightarrow> bytes" where
  "statsBody stats =
     writeU64 (writeU64 (writeU64 (writeU64 (writeU64 (writeU64 (writeU64 []
       (rss_node_count stats)) (rss_topic_count stats)) (rss_publisher_count stats))
       (rss_subscriber_count stats)) (rss_heartbeat_received stats)) (rss_suspected_count stats))
       (rss_dead_node_count stats)"

definition peerEventValue :: "PeerEventKind \<Rightarrow> u16" where
  "peerEventValue kind = (case kind of PublisherDead \<Rightarrow> 1 | SubscriberDead \<Rightarrow> 2)"

fun writePeerEvents :: "PayloadWriter \<Rightarrow> PeerEventRecord list \<Rightarrow> bytes" where
  "writePeerEvents body [] = body"
| "writePeerEvents body (event # events) =
     writePeerEvents (writeU64 (writeU64 (writeU64 (writeU64 (writeU16 body
       (peerEventValue (pv_kind event))) (pv_target_endpoint_id event)) (pv_dead_endpoint_id event))
       (pv_topic_id event)) (pv_resource_id event)) events"

definition heartbeatBody :: "LivenessState \<Rightarrow> PeerEventRecord list \<Rightarrow> bytes" where
  "heartbeatBody liveness events =
     writePeerEvents (writeU32 (writeU16 [] (livenessValue liveness)) (word_of_nat (length events))) events"

section \<open>Clean-up and connections\<close>

definition cleanupPending :: "RegistryServer \<Rightarrow> RegistryServer" where
  "cleanupPending s =
     s\<lparr>sv_pending := filter (\<lambda>(endpoint_id, _). publisherEndpoint endpoint_id (sv_state s) \<noteq> None) (sv_pending s)\<rparr>"

definition queueDescriptor :: "SharedQueueMetadata \<Rightarrow> QueueDescriptor" where
  "queueDescriptor metadata =
     \<lparr>qd_shm_name = sqm_shm_name metadata, qd_queue_id = sqm_queue_id metadata,
      qd_segment_size = sqm_segment_size metadata, qd_capacity = sqm_capacity metadata,
      qd_layout_version = sqm_layout_version metadata,
      qd_overflow_policy = overflowPolicyCastOf (sqm_overflow_policy metadata),
      qd_block_timeout_ms = sqm_block_timeout_ms metadata\<rparr>"

definition act :: "ServerAction list \<Rightarrow> RegistryServer \<Rightarrow> RegistryServer" where
  "act actions s = s\<lparr>sv_actions := sv_actions s @ actions\<rparr>"

definition unlinkSocketPath :: "ServerEnv \<Rightarrow> string \<Rightarrow> RegistryServer \<Rightarrow> RegistryServer" where
  "unlinkSocketPath env path s =
     (if ev_is_socket env (sv_tick s) path then act [UnlinkSocket path] (tick s) else tick s)"

definition kMaxEventsPerNode :: nat where "kMaxEventsPerNode = 1024"

definition recordPeerEvent :: "PeerEventRecord \<Rightarrow> RegistryServer \<Rightarrow> RegistryServer" where
  "recordPeerEvent event s =
     (if registry_node (pv_target_node_id event) (sv_state s) = None then s
      else
        let events = (case omap_find (pv_target_node_id event) (sv_peer_events s) of
                        None \<Rightarrow> [] | Some events \<Rightarrow> events);
            events = (if length events = kMaxEventsPerNode then tl events else events) in
        s\<lparr>sv_peer_events := omap_assign (pv_target_node_id event) (events @ [event]) (sv_peer_events s)\<rparr>)"

definition applyCleanup :: "ServerEnv \<Rightarrow> DeadNodeCleanup \<Rightarrow> RegistryServer \<Rightarrow> RegistryServer" where
  "applyCleanup env cleanup s =
     (let s = fold (\<lambda>queue. act [RecoverAndClose (queueDescriptor queue), UnlinkSharedMemory (sqm_shm_name queue)])
                (dn_queues cleanup) s;
          s = fold (\<lambda>pool. act [UnlinkSharedMemory (spm_shm_name pool)]) (dn_pools cleanup) s;
          s = fold (unlinkSocketPath env) (dn_socket_paths cleanup) s;
          s = fold recordPeerEvent (dn_peer_events cleanup) s;
          s = s\<lparr>sv_peer_events := omap_erase (dn_node_id cleanup) (sv_peer_events s)\<rparr> in
      cleanupPending s)"

definition fdForConnection :: "ConnectionId \<Rightarrow> RegistryServer \<Rightarrow> int option" where
  "fdForConnection connection_id s =
     map_option fst (find (\<lambda>(_, client). cc_connection_id client = connection_id) (sv_clients s))"

text \<open>\<open>removeClient(fd, false)\<close>.\<close>

definition dropClient :: "int \<Rightarrow> RegistryServer \<Rightarrow> RegistryServer" where
  "dropClient fd s =
     (if omap_find fd (sv_clients s) = None then s
      else s\<lparr>sv_pending := filter (\<lambda>(_, request). pdy_fd request \<noteq> fd) (sv_pending s),
             sv_clients := omap_erase fd (sv_clients s)\<rparr>)"

definition closeCleanupConnections :: "DeadNodeCleanup \<Rightarrow> int option \<Rightarrow> RegistryServer \<Rightarrow> RegistryServer" where
  "closeCleanupConnections cleanup except_fd s =
     fold (\<lambda>connection_id s.
         if connection_id = 0 then s
         else (case fdForConnection connection_id s of
                 None \<Rightarrow> s
               | Some fd \<Rightarrow> if Some fd \<noteq> except_fd then dropClient fd s else s))
       [dn_control_connection cleanup, dn_heartbeat_connection cleanup] s"

definition cleanupNodes :: "ServerEnv \<Rightarrow> int option \<Rightarrow> DeadNodeCleanup list \<Rightarrow> RegistryServer \<Rightarrow> RegistryServer" where
  "cleanupNodes env except_fd cleanups s =
     fold (\<lambda>cleanup s. closeCleanupConnections cleanup except_fd (applyCleanup env cleanup s)) cleanups s"

definition expireDeadNodes :: "ServerEnv \<Rightarrow> RegistryServer \<Rightarrow> ServerFault + RegistryServer" where
  "expireDeadNodes env s =
     bindE (orThrown ''out_of_range'' (evaluateLiveness (ev_clock env (sv_tick s)) (sv_state s)))
       (\<lambda>(update, state). Inr (cleanupNodes env None (lu_dead_nodes update) (tick s\<lparr>sv_state := state\<rparr>)))"

text \<open>\<open>removeClient(fd, true)\<close>.\<close>

definition removeClient :: "ServerEnv \<Rightarrow> int \<Rightarrow> RegistryServer \<Rightarrow> ServerFault + RegistryServer" where
  "removeClient env fd s =
     (case omap_find fd (sv_clients s) of
        None \<Rightarrow> Inr s
      | Some client \<Rightarrow>
          bindE (orThrown ''out_of_range'' (disconnectConnection (cc_connection_id client) (sv_state s)))
            (\<lambda>(cleanups, state). Inr (cleanupNodes env (Some fd) cleanups ((dropClient fd s)\<lparr>sv_state := state\<rparr>))))"

definition modifyClient :: "int \<Rightarrow> (ClientConnection \<Rightarrow> ClientConnection) \<Rightarrow> RegistryServer \<Rightarrow> RegistryServer" where
  "modifyClient fd f s = s\<lparr>sv_clients := omap_modify fd f (sv_clients s)\<rparr>"

definition updateInterest :: "ServerEnv \<Rightarrow> int \<Rightarrow> RegistryServer \<Rightarrow> ServerFault + RegistryServer" where
  "updateInterest env fd s =
     (if omap_find fd (sv_clients s) = None then Inr s
      else if ev_mod env (sv_tick s) then Inr (tick s)
      else removeClient env fd (tick s))"

text \<open>The frame of a response, or of \<open>MessageTooLarge\<close> when the body does not fit.\<close>

definition responseFrame :: "u32 \<Rightarrow> ErrorCode \<Rightarrow> bytes \<Rightarrow> bytes option" where
  "responseFrame request_id error body =
     do { payload \<leftarrow> encodeResponsePayload error (if error = Ok then [] else errorMessage error) body;
          encodeControlFrame OpResponse request_id payload }"

definition queueResponse ::
  "ServerEnv \<Rightarrow> int \<Rightarrow> u32 \<Rightarrow> ErrorCode \<Rightarrow> bytes \<Rightarrow> RegistryServer \<Rightarrow> ServerFault + RegistryServer" where
  "queueResponse env fd request_id error body s =
     (if omap_find fd (sv_clients s) = None then Inr s
      else
        bindE (case responseFrame request_id error body of
                 Some frame \<Rightarrow> Inr frame
               | None \<Rightarrow> orThrown ''length_error'' (responseFrame request_id MessageTooLarge []))
          (\<lambda>frame. updateInterest env fd
             (modifyClient fd (\<lambda>client. client\<lparr>cc_output := cc_output client @ frame\<rparr>) s)))"

text \<open>
  The loop over \<open>pending\<close>: an element that \<open>queueResponse\<close> erased leaves the iterator dangling; the
  other elements that are erased meanwhile are not visited.
\<close>

fun completeRequests :: "ServerEnv \<Rightarrow> u64 list \<Rightarrow> RegistryServer \<Rightarrow> ServerFault + RegistryServer" where
  "completeRequests env [] s = Inr s"
| "completeRequests env (endpoint_id # rest) s =
     (case omap_find endpoint_id (sv_pending s) of
        None \<Rightarrow> completeRequests env rest s
      | Some request \<Rightarrow>
          bindE (orThrown ''out_of_range''
              (resolve (pdy_connection_id request) (pdy_node_id request)
                 (pdy_publisher_endpoint_id request) (sv_state s)))
            (\<lambda>result.
               if dr_error result = TopicNotFound then completeRequests env rest s
               else
                 bindE (if omap_find (pdy_fd request) (sv_clients s) \<noteq> None
                        then bindE (orThrown ''length_error'' (discoveryBody result))
                          (\<lambda>body. queueResponse env (pdy_fd request) (pdy_request_id request)
                             (dr_error result) body s)
                        else Inr s)
                   (\<lambda>s.
                      if omap_find endpoint_id (sv_pending s) = None then Inl DanglingReference
                      else completeRequests env rest
                        (s\<lparr>sv_pending := omap_erase endpoint_id (sv_pending s)\<rparr>))))"

definition completePending :: "ServerEnv \<Rightarrow> RegistryServer \<Rightarrow> ServerFault + RegistryServer" where
  "completePending env s = completeRequests env (map fst (sv_pending s)) s"

section \<open>Requests\<close>

text \<open>
  Each handler parses its payload; a malformed payload gets \<open>InvalidControlMessage\<close>.  \<open>connection\<close> is
  the \<open>connection_id\<close> of the client that sent the request.
\<close>

definition answer ::
  "ServerEnv \<Rightarrow> int \<Rightarrow> u32 \<Rightarrow> ErrorCode \<Rightarrow> bytes option \<Rightarrow> RegistryServer \<Rightarrow> ServerFault + RegistryServer" where
  "answer env fd request_id error body s =
     bindE (orThrown ''length_error'' body) (\<lambda>body. queueResponse env fd request_id error body s)"

abbreviation reject :: "ServerEnv \<Rightarrow> int \<Rightarrow> u32 \<Rightarrow> ErrorCode \<Rightarrow> RegistryServer \<Rightarrow> ServerFault + RegistryServer" where
  "reject env fd request_id error s \<equiv> queueResponse env fd request_id error [] s"

definition parseString :: "bytes \<Rightarrow> string option" where
  "parseString payload =
     do { (value, reader) \<leftarrow> readString (newReader payload); if rd_empty reader then Some value else None }"

definition parseU64 :: "bytes \<Rightarrow> u64 option" where
  "parseU64 payload =
     do { (value, reader) \<leftarrow> readU64 (newReader payload); if rd_empty reader then Some value else None }"

definition parsePair :: "bytes \<Rightarrow> (u64 \<times> u64) option" where
  "parsePair payload =
     do { (first, reader) \<leftarrow> readU64 (newReader payload);
          (second, reader) \<leftarrow> readU64 reader;
          if rd_empty reader then Some (first, second) else None }"

record AdvertiseRequest =
  ar_node_id :: u64
  ar_topic_name :: string
  ar_type_name :: string
  ar_type_hash :: string
  ar_max_message_size :: u64
  ar_transport :: u16
  ar_pool :: SharedPoolMetadata

definition parseAdvertise :: "bytes \<Rightarrow> AdvertiseRequest option" where
  "parseAdvertise payload =
     do { (node_id, reader) \<leftarrow> readU64 (newReader payload);
          (topic_name, reader) \<leftarrow> readString reader;
          (type_name, reader) \<leftarrow> readString reader;
          (type_hash, reader) \<leftarrow> readString reader;
          (max_message_size, reader) \<leftarrow> readU64 reader;
          (transport, reader) \<leftarrow> readU16 reader;
          (shm_name, reader) \<leftarrow> readString reader;
          (pool_id, reader) \<leftarrow> readU64 reader;
          (segment_size, reader) \<leftarrow> readU64 reader;
          (layout_version, reader) \<leftarrow> readU16 reader;
          if rd_empty reader
          then Some \<lparr>ar_node_id = node_id, ar_topic_name = topic_name, ar_type_name = type_name,
                 ar_type_hash = type_hash, ar_max_message_size = max_message_size,
                 ar_transport = transport,
                 ar_pool = \<lparr>spm_shm_name = shm_name, spm_pool_id = pool_id,
                   spm_segment_size = segment_size, spm_layout_version = layout_version\<rparr>\<rparr>
          else None }"

record SubscribeRequest =
  sr_node_id :: u64
  sr_topic_name :: string
  sr_type_name :: string
  sr_type_hash :: string
  sr_max_message_size :: u64
  sr_data_socket_path :: string
  sr_transport :: u16
  sr_queue :: SharedQueueMetadata

definition parseSubscribe :: "bytes \<Rightarrow> SubscribeRequest option" where
  "parseSubscribe payload =
     do { (node_id, reader) \<leftarrow> readU64 (newReader payload);
          (topic_name, reader) \<leftarrow> readString reader;
          (type_name, reader) \<leftarrow> readString reader;
          (type_hash, reader) \<leftarrow> readString reader;
          (max_message_size, reader) \<leftarrow> readU64 reader;
          (data_socket_path, reader) \<leftarrow> readString reader;
          (transport, reader) \<leftarrow> readU16 reader;
          (shm_name, reader) \<leftarrow> readString reader;
          (queue_id, reader) \<leftarrow> readU64 reader;
          (segment_size, reader) \<leftarrow> readU64 reader;
          (capacity, reader) \<leftarrow> readU32 reader;
          (layout_version, reader) \<leftarrow> readU16 reader;
          (overflow_policy, reader) \<leftarrow> readU16 reader;
          (block_timeout_ms, reader) \<leftarrow> readU64 reader;
          if rd_empty reader
          then Some \<lparr>sr_node_id = node_id, sr_topic_name = topic_name, sr_type_name = type_name,
                 sr_type_hash = type_hash, sr_max_message_size = max_message_size,
                 sr_data_socket_path = data_socket_path, sr_transport = transport,
                 sr_queue = \<lparr>sqm_shm_name = shm_name, sqm_queue_id = queue_id,
                   sqm_segment_size = segment_size, sqm_capacity = capacity,
                   sqm_layout_version = layout_version, sqm_overflow_policy = overflow_policy,
                   sqm_block_timeout_ms = block_timeout_ms\<rparr>\<rparr>
          else None }"

definition handleRegisterNode where
  "handleRegisterNode env fd connection request_id payload s =
     (case parseString payload of
        None \<Rightarrow> reject env fd request_id InvalidControlMessage s
      | Some node_name \<Rightarrow>
          (case registerNode connection node_name (ev_clock env (sv_tick s)) (sv_state s) of (result, state) \<Rightarrow>
             queueResponse env fd request_id (ir_error result)
               (pairPayload (ir_id result) (ir_session_id result)) (tick s\<lparr>sv_state := state\<rparr>)))"

definition handleUnregisterNode where
  "handleUnregisterNode env fd connection request_id payload s =
     (case parseU64 payload of
        None \<Rightarrow> reject env fd request_id InvalidControlMessage s
      | Some node_id \<Rightarrow>
          bindE (orThrown ''out_of_range'' (unregisterNode connection node_id (sv_state s)))
            (\<lambda>(error, state).
               let s = s\<lparr>sv_state := state\<rparr>;
                   s = (if error = Ok then s\<lparr>sv_peer_events := omap_erase node_id (sv_peer_events s)\<rparr> else s) in
               queueResponse env fd request_id error [] (cleanupPending s)))"

definition UINT32_MAX_64 :: u64 where "UINT32_MAX_64 = 0xFFFFFFFF"

definition handleAdvertiseTopic where
  "handleAdvertiseTopic env fd connection request_id payload s =
     (case parseAdvertise payload of
        None \<Rightarrow> reject env fd request_id InvalidControlMessage s
      | Some r \<Rightarrow>
          if ar_max_message_size r > UINT32_MAX_64 then reject env fd request_id InvalidArgument s
          else
            bindE (orThrown ''out_of_range''
                (advertise connection (ar_node_id r) (ar_topic_name r) (ar_type_name r) (ar_type_hash r)
                   (ar_max_message_size r) (transportCastOf (ar_transport r)) (ar_pool r) (sv_state s)))
              (\<lambda>(result, state).
                 answer env fd request_id (epr_error result) (endpointBody result) (s\<lparr>sv_state := state\<rparr>)))"

definition handleUnadvertiseTopic where
  "handleUnadvertiseTopic env fd connection request_id payload s =
     (case parsePair payload of
        None \<Rightarrow> reject env fd request_id InvalidControlMessage s
      | Some (node_id, endpoint_id) \<Rightarrow>
          bindE (orThrown ''out_of_range'' (unadvertise connection node_id endpoint_id (sv_state s)))
            (\<lambda>(error, state).
               queueResponse env fd request_id error []
                 (s\<lparr>sv_state := state, sv_pending := omap_erase endpoint_id (sv_pending s)\<rparr>)))"

definition handleSubscribeTopic where
  "handleSubscribeTopic env fd connection request_id payload s =
     (case parseSubscribe payload of
        None \<Rightarrow> reject env fd request_id InvalidControlMessage s
      | Some r \<Rightarrow>
          if sr_max_message_size r > UINT32_MAX_64 then reject env fd request_id InvalidArgument s
          else
            bindE (orThrown ''out_of_range''
                (subscribe connection (sr_node_id r) (sr_topic_name r) (sr_type_name r) (sr_type_hash r)
                   (sr_max_message_size r) (sr_data_socket_path r) (transportCastOf (sr_transport r))
                   (sr_queue r) (sv_state s)))
              (\<lambda>(result, state).
                 bindE (answer env fd request_id (epr_error result) (endpointBody result) (s\<lparr>sv_state := state\<rparr>))
                   (\<lambda>s. if epr_error result = Ok then completePending env s else Inr s)))"

definition handleUnsubscribeTopic where
  "handleUnsubscribeTopic env fd connection request_id payload s =
     (case parsePair payload of
        None \<Rightarrow> reject env fd request_id InvalidControlMessage s
      | Some (node_id, endpoint_id) \<Rightarrow>
          bindE (orThrown ''out_of_range'' (unsubscribe connection node_id endpoint_id (sv_state s)))
            (\<lambda>(error, state). queueResponse env fd request_id error [] (s\<lparr>sv_state := state\<rparr>)))"

definition handleResolveEndpoint where
  "handleResolveEndpoint env fd connection request_id payload s =
     (case parsePair payload of
        None \<Rightarrow> reject env fd request_id InvalidControlMessage s
      | Some (node_id, endpoint_id) \<Rightarrow>
          bindE (orThrown ''out_of_range'' (resolve connection node_id endpoint_id (sv_state s)))
            (\<lambda>result.
               if dr_error result = TopicNotFound
               then Inr (s\<lparr>sv_pending := omap_assign endpoint_id
                      \<lparr>pdy_fd = fd, pdy_connection_id = connection, pdy_node_id = node_id,
                       pdy_publisher_endpoint_id = endpoint_id, pdy_request_id = request_id\<rparr> (sv_pending s)\<rparr>)
               else answer env fd request_id (dr_error result) (discoveryBody result) s))"

definition handleListNodes where
  "handleListNodes env fd request_id payload s =
     (if \<not> rd_empty (newReader payload) then reject env fd request_id InvalidControlMessage s
      else answer env fd request_id Ok (nodesBody (listNodes (sv_state s))) s)"

definition handleListTopics where
  "handleListTopics env fd request_id payload s =
     (if \<not> rd_empty (newReader payload) then reject env fd request_id InvalidControlMessage s
      else answer env fd request_id Ok (topicsBody (listTopics (sv_state s))) s)"

definition handleQueryTopic where
  "handleQueryTopic env fd request_id payload s =
     (case parseString payload of
        None \<Rightarrow> reject env fd request_id InvalidControlMessage s
      | Some topic_name \<Rightarrow>
          bindE (orThrown ''out_of_range'' (queryTopic topic_name (sv_state s)))
            (\<lambda>topic.
               (case topic of
                  None \<Rightarrow> reject env fd request_id TopicNotFound s
                | Some topic \<Rightarrow> answer env fd request_id Ok (topicBody topic) s)))"

definition handleQueryStats where
  "handleQueryStats env fd request_id payload s =
     (if \<not> rd_empty (newReader payload) then reject env fd request_id InvalidControlMessage s
      else queueResponse env fd request_id Ok (statsBody (statsSnapshot (sv_state s))) s)"

definition handleAttachHeartbeat where
  "handleAttachHeartbeat env fd connection request_id payload s =
     (case parsePair payload of
        None \<Rightarrow> reject env fd request_id InvalidControlMessage s
      | Some (node_id, session_id) \<Rightarrow>
          (case attachHeartbeat connection node_id session_id (sv_state s) of (error, state) \<Rightarrow>
             queueResponse env fd request_id error [] (s\<lparr>sv_state := state\<rparr>)))"

definition handleHeartbeat where
  "handleHeartbeat env fd connection request_id payload s =
     (case parsePair payload of
        None \<Rightarrow> reject env fd request_id InvalidControlMessage s
      | Some (node_id, session_id) \<Rightarrow>
          (case heartbeat connection node_id session_id (ev_clock env (sv_tick s)) (sv_state s) of (result, state) \<Rightarrow>
             let s = tick s\<lparr>sv_state := state\<rparr>;
                 events = (if hr_error result = Ok
                           then (case omap_find node_id (sv_peer_events s) of None \<Rightarrow> [] | Some events \<Rightarrow> events)
                           else []);
                 s = (if hr_error result = Ok
                      then s\<lparr>sv_peer_events := omap_erase node_id (sv_peer_events s)\<rparr> else s) in
             queueResponse env fd request_id (hr_error result) (heartbeatBody (hr_state result) events) s))"

text \<open>\<open>clients.at(fd)\<close> throws when there is no such client.\<close>

definition dispatch ::
  "ServerEnv \<Rightarrow> int \<Rightarrow> ControlHeader \<Rightarrow> bytes \<Rightarrow> RegistryServer \<Rightarrow> ServerFault + RegistryServer" where
  "dispatch env fd header payload s =
     bindE (orThrown ''out_of_range'' (omap_find fd (sv_clients s)))
       (\<lambda>client.
          let connection = cc_connection_id client; request_id = ctl_request_id header in
          (case ctl_opcode header of
             OpRegisterNode \<Rightarrow> handleRegisterNode env fd connection request_id payload s
           | OpUnregisterNode \<Rightarrow> handleUnregisterNode env fd connection request_id payload s
           | OpAdvertiseTopic \<Rightarrow> handleAdvertiseTopic env fd connection request_id payload s
           | OpUnadvertiseTopic \<Rightarrow> handleUnadvertiseTopic env fd connection request_id payload s
           | OpSubscribeTopic \<Rightarrow> handleSubscribeTopic env fd connection request_id payload s
           | OpUnsubscribeTopic \<Rightarrow> handleUnsubscribeTopic env fd connection request_id payload s
           | OpResolveEndpoint \<Rightarrow> handleResolveEndpoint env fd connection request_id payload s
           | OpListNodes \<Rightarrow> handleListNodes env fd request_id payload s
           | OpListTopics \<Rightarrow> handleListTopics env fd request_id payload s
           | OpQueryTopic \<Rightarrow> handleQueryTopic env fd request_id payload s
           | OpQueryStats \<Rightarrow> handleQueryStats env fd request_id payload s
           | OpAttachHeartbeat \<Rightarrow> handleAttachHeartbeat env fd connection request_id payload s
           | OpHeartbeat \<Rightarrow> handleHeartbeat env fd connection request_id payload s
           | _ \<Rightarrow> reject env fd request_id UnknownOpcode s))"

section \<open>Input and output\<close>

definition headerError :: "ControlHeaderValidation \<Rightarrow> ErrorCode" where
  "headerError validation =
     (if validation = ControlUnsupportedVersion then UnsupportedProtocolVersion
      else if validation = ControlPayloadTooLarge then MessageTooLarge
      else InvalidControlMessage)"

text \<open>After the answer to a bad frame the reference to the client is used again.\<close>

definition closeAfterError ::
  "ServerEnv \<Rightarrow> int \<Rightarrow> u32 \<Rightarrow> ErrorCode \<Rightarrow> RegistryServer \<Rightarrow> ServerFault + RegistryServer" where
  "closeAfterError env fd request_id error s =
     bindE (queueResponse env fd request_id error [] s)
       (\<lambda>s. if omap_find fd (sv_clients s) = None then Inl DanglingReference
            else Inr (modifyClient fd (\<lambda>client. client\<lparr>cc_close_after_write := True, cc_input := []\<rparr>) s))"

text \<open>
  The loop of \<open>parseFrames\<close>.  Every iteration takes at least a header from the input, so that one
  unit of fuel for each byte is enough.
\<close>

fun parseLoop :: "ServerEnv \<Rightarrow> int \<Rightarrow> nat \<Rightarrow> RegistryServer \<Rightarrow> ServerFault + RegistryServer" where
  "parseLoop env fd 0 s = Inr s"
| "parseLoop env fd (Suc fuel) s =
     (case omap_find fd (sv_clients s) of
        None \<Rightarrow> Inl DanglingReference
      | Some client \<Rightarrow>
          if length (cc_input client) < kControlHeaderSize then Inr s
          else
            (case decodeControlHeader (Some (take kControlHeaderSize (cc_input client))) of
               None \<Rightarrow> closeAfterError env fd 0 InvalidControlMessage s
             | Some header \<Rightarrow>
                 if validateControlHeader header \<noteq> ControlValid
                 then closeAfterError env fd (ctl_request_id header) (headerError (validateControlHeader header)) s
                 else
                   let frame_size = kControlHeaderSize + unat (ctl_payload_size header) in
                   if length (cc_input client) < frame_size then Inr s
                   else
                     let payload = take (unat (ctl_payload_size header)) (drop kControlHeaderSize (cc_input client));
                         s = modifyClient fd (\<lambda>client. client\<lparr>cc_input := drop frame_size (cc_input client)\<rparr>) s in
                     if \<not> isKnownRequestOpcode (ctl_opcode header)
                     then bindE (queueResponse env fd (ctl_request_id header) UnknownOpcode [] s)
                            (parseLoop env fd fuel)
                     else bindE (dispatch env fd header payload s) (parseLoop env fd fuel)))"

definition parseFrames :: "ServerEnv \<Rightarrow> int \<Rightarrow> RegistryServer \<Rightarrow> ServerFault + RegistryServer" where
  "parseFrames env fd s =
     bindE (orThrown ''out_of_range'' (omap_find fd (sv_clients s)))
       (\<lambda>client. parseLoop env fd (Suc (length (cc_input client))) s)"

definition kMaxInputSize :: nat where "kMaxInputSize = kControlHeaderSize + kMaxControlPayloadSize"

definition kReadBufferSize :: nat where "kReadBufferSize = 4096"

fun readLoop :: "ServerEnv \<Rightarrow> int \<Rightarrow> RecvResult list \<Rightarrow> RegistryServer \<Rightarrow> ServerFault + RegistryServer" where
  "readLoop env fd [] s = Inr s"
| "readLoop env fd (RecvErrno e # results) s =
     (if e = EINTR then readLoop env fd results s
      else if e = EAGAIN then Inr s
      else removeClient env fd s)"
| "readLoop env fd (RecvData data # results) s =
     (case omap_find fd (sv_clients s) of
        None \<Rightarrow> Inl DanglingReference
      | Some client \<Rightarrow>
          let received = take kReadBufferSize data in
          if received = []
          then
            if cc_output_offset client < length (cc_output client)
            then updateInterest env fd (modifyClient fd (\<lambda>client. client\<lparr>cc_close_after_write := True\<rparr>) s)
            else removeClient env fd s
          else
            let s = modifyClient fd (\<lambda>client. client\<lparr>cc_input := cc_input client @ received\<rparr>) s in
            if length (cc_input client) + length received > kMaxInputSize
            then closeAfterError env fd 0 MessageTooLarge s
            else
              bindE (parseFrames env fd s)
                (\<lambda>s. (case omap_find fd (sv_clients s) of
                        None \<Rightarrow> Inr s
                      | Some client \<Rightarrow> if cc_close_after_write client then Inr s else readLoop env fd results s)))"

definition readClient :: "ServerEnv \<Rightarrow> int \<Rightarrow> RecvResult list \<Rightarrow> RegistryServer \<Rightarrow> ServerFault + RegistryServer" where
  "readClient env fd results s =
     (if omap_find fd (sv_clients s) = None then Inr s else readLoop env fd results s)"

text \<open>\<open>send\<close> takes at most the bytes it is given.\<close>

fun writeLoop :: "ServerEnv \<Rightarrow> int \<Rightarrow> SendResult list \<Rightarrow> RegistryServer \<Rightarrow> ServerFault + RegistryServer" where
  "writeLoop env fd results s =
     (case omap_find fd (sv_clients s) of
        None \<Rightarrow> Inr s
      | Some client \<Rightarrow>
          if cc_output_offset client < length (cc_output client)
          then
            (case results of
               [] \<Rightarrow> Inr s
             | SendErrno e # results \<Rightarrow>
                 if e = EINTR then writeLoop env fd results s
                 else if e = EAGAIN then Inr s
                 else removeClient env fd s
             | SendCount n # results \<Rightarrow>
                 if n = 0 then removeClient env fd s
                 else writeLoop env fd results (modifyClient fd (\<lambda>client. client\<lparr>cc_output_offset :=
                        min (cc_output_offset client + n) (length (cc_output client))\<rparr>) s))
          else
            let s = modifyClient fd (\<lambda>client. client\<lparr>cc_output := [], cc_output_offset := 0\<rparr>) s in
            if cc_close_after_write client then removeClient env fd s else updateInterest env fd s)"

definition writeClient :: "ServerEnv \<Rightarrow> int \<Rightarrow> SendResult list \<Rightarrow> RegistryServer \<Rightarrow> ServerFault + RegistryServer" where
  "writeClient env fd results s = writeLoop env fd results s"

text \<open>
  The loop of \<open>acceptConnections\<close>, over the result of each \<open>accept4\<close> and of the \<open>EPOLL_CTL_ADD\<close> that
  follows it.
\<close>

fun acceptConnections :: "((int + int) \<times> int option) list \<Rightarrow> RegistryServer \<Rightarrow> ServerFault + RegistryServer" where
  "acceptConnections [] s = Inr s"
| "acceptConnections ((Inl errno, _) # results) s =
     (if errno = EAGAIN \<or> errno = EINTR then Inr s
      else Inl (Thrown (SystemException errno ''accept4(AF_UNIX)'')))"
| "acceptConnections ((Inr fd, added) # results) s =
     (let connection = \<lparr>cc_connection_id = sv_next_connection_id s, cc_input = [], cc_output = [],
            cc_output_offset = 0, cc_close_after_write = False\<rparr>;
          s = s\<lparr>sv_next_connection_id := sv_next_connection_id s + 1,
                sv_clients := omap_emplace fd connection (sv_clients s)\<rparr> in
      case added of
        Some errno \<Rightarrow> Inl (Thrown (SystemException errno ''epoll_ctl(client add)''))
      | None \<Rightarrow> acceptConnections results s)"

section \<open>The event loop\<close>

text \<open>The flags stand for \<open>EPOLLIN\<close>, \<open>EPOLLOUT\<close> and any of \<open>EPOLLERR\<close>, \<open>EPOLLHUP\<close>, \<open>EPOLLRDHUP\<close>.\<close>

datatype ServerEvent =
  ListenerReady "((int + int) \<times> int option) list"
| ClientReady int bool bool bool "RecvResult list" "SendResult list"

fun handleEvent :: "ServerEnv \<Rightarrow> ServerEvent \<Rightarrow> RegistryServer \<Rightarrow> ServerFault + RegistryServer" where
  "handleEvent env (ListenerReady results) s = acceptConnections results s"
| "handleEvent env (ClientReady fd readable writable hangup recvs sends) s =
     (if omap_find fd (sv_clients s) = None then Inr s
      else
        bindE (if readable then readClient env fd recvs s else Inr s) (\<lambda>s.
        bindE (if omap_find fd (sv_clients s) \<noteq> None \<and> writable then writeClient env fd sends s else Inr s) (\<lambda>s.
        if omap_find fd (sv_clients s) \<noteq> None \<and> hangup \<and> \<not> readable then removeClient env fd s else Inr s)))"

fun handleEvents :: "ServerEnv \<Rightarrow> ServerEvent list \<Rightarrow> RegistryServer \<Rightarrow> ServerFault + RegistryServer" where
  "handleEvents env [] s = Inr s"
| "handleEvents env (event # events) s = bindE (handleEvent env event s) (handleEvents env events)"

definition boundedTimeout :: "int \<Rightarrow> LivenessConfig \<Rightarrow> int" where
  "boundedTimeout timeout_ms liveness =
     (let liveness_poll_ms = max 1 (min 100 (suspect_timeout liveness div 2)) in
      if timeout_ms < 0 then liveness_poll_ms else min timeout_ms liveness_poll_ms)"

text \<open>
  \<open>epoll_wait\<close> is called again while it fails with \<open>EINTR\<close>; \<open>wait\<close> gives the result of the first call
  that does not, for the timeout it is given.
\<close>

definition server_pollOnce ::
  "ServerEnv \<Rightarrow> int \<Rightarrow> (int \<Rightarrow> int + ServerEvent list) \<Rightarrow> RegistryServer \<Rightarrow> ServerFault + RegistryServer" where
  "server_pollOnce env timeout_ms wait s =
     (case wait (boundedTimeout timeout_ms (sv_liveness s)) of
        Inl errno \<Rightarrow> Inl (Thrown (SystemException errno ''epoll_wait''))
      | Inr events \<Rightarrow> bindE (handleEvents env events s) (expireDeadNodes env))"

definition RegistryServer_new ::
  "string \<Rightarrow> LivenessConfig \<Rightarrow> SocketEnv \<Rightarrow> int + int \<Rightarrow> int option \<Rightarrow> SocketOs
     \<Rightarrow> (Exception + UnixListener \<times> int \<times> RegistryServer) \<times> SocketOs" where
  "RegistryServer_new path liveness env epoll added os =
     (case UnixListener_create path 64 env os of
        (Inl e, os) \<Rightarrow> (Inl e, os)
      | (Inr listener, os) \<Rightarrow>
          (case RegistryState_new liveness of
             None \<Rightarrow> (Inl (InvalidArgumentException ''invalid registry liveness timing''),
                      snd (UnixListener_cleanup listener os))
           | Some state \<Rightarrow>
               (case epoll of
                  Inl errno \<Rightarrow> (Inl (SystemException errno ''epoll_create1''),
                                snd (UnixListener_cleanup listener os))
                | Inr epoll_fd \<Rightarrow>
                    let os = os\<lparr>so_fds := insert epoll_fd (so_fds os)\<rparr> in
                    (case added of
                       Some errno \<Rightarrow> (Inl (SystemException errno ''epoll_ctl(listener)''),
                                      snd (UnixListener_cleanup listener (closeFd epoll_fd os)))
                     | None \<Rightarrow>
                         (Inr (listener, epoll_fd,
                            \<lparr>sv_state = state, sv_liveness = liveness, sv_next_connection_id = 1,
                             sv_clients = [], sv_pending = [], sv_peer_events = [], sv_actions = [],
                             sv_tick = 0\<rparr>), os)))))"

end
