(* ===== verification/MW_Registry_Effects.thy ===== *)
theory MW_Registry_Effects
  imports MW_Registry_Lifecycle
begin

text \<open>
  What the registry daemon needs to know of the operations on the registry's tables besides their
  invariant: the strings stored in the tables are no longer than the strings of the requests, and no
  operation but \<open>subscribe\<close> makes a publisher resolvable that was waiting for its first subscriber.
\<close>

section \<open>Strings\<close>

definition omap_all :: "('v \<Rightarrow> bool) \<Rightarrow> ('k, 'v) omap \<Rightarrow> bool" where
  "omap_all P m \<longleftrightarrow> (\<forall>(k, v) \<in> set m. P v)"

lemma omap_all_Nil [simp]: "omap_all P []"
  by (simp add: omap_all_def)

lemma omap_all_find: "omap_all P m \<Longrightarrow> omap_find k m = Some v \<Longrightarrow> P v"
  by (auto simp: omap_all_def dest: map_of_SomeD)

lemma omap_all_emplace [intro!]: "omap_all P m \<Longrightarrow> P v \<Longrightarrow> omap_all P (omap_emplace k v m)"
  by (induction k v m rule: omap_emplace.induct) (auto simp: omap_all_def)

lemma omap_all_modify [intro!]: "omap_all P m \<Longrightarrow> (\<And>v. P v \<Longrightarrow> P (f v)) \<Longrightarrow> omap_all P (omap_modify k f m)"
  by (induction m) (auto simp: omap_all_def omap_modify_def split: if_splits)

lemma omap_all_erase [intro!]: "omap_all P m \<Longrightarrow> omap_all P (omap_erase k m)"
  by (auto simp: omap_all_def omap_erase_def)

abbreviation short :: "string \<Rightarrow> bool" where
  "short s \<equiv> length s \<le> 0xFFFFFFFF"

definition topicShort :: "TopicRecord \<Rightarrow> bool" where
  "topicShort topic \<longleftrightarrow> short (tr_topic_name topic) \<and> short (tr_type_name topic) \<and>
     short (tr_type_hash topic) \<and> short (spm_shm_name (tr_pool topic))"

definition publisherShort :: "PublisherEndpoint \<Rightarrow> bool" where
  "publisherShort p \<longleftrightarrow> short (spm_shm_name (pe_pool p))"

definition subscriberShort :: "SubscriberEndpoint \<Rightarrow> bool" where
  "subscriberShort s \<longleftrightarrow> short (se_data_socket_path s) \<and> short (sqm_shm_name (se_queue s))"

definition nodeShort :: "NodeRecord \<Rightarrow> bool" where
  "nodeShort node \<longleftrightarrow> short (nr_node_name node)"

lemmas short_defs = topicShort_def publisherShort_def subscriberShort_def nodeShort_def

definition strings_ok :: "RegistryState \<Rightarrow> bool" where
  "strings_ok st \<longleftrightarrow> omap_all nodeShort (rs_nodes st) \<and> omap_all topicShort (rs_topics st) \<and>
     omap_all publisherShort (rs_publishers st) \<and> omap_all subscriberShort (rs_subscribers st)"

lemma strings_ok_new: "strings_ok (newRegistryState liveness)"
  by (simp add: strings_ok_def newRegistryState_def)

lemma short_emptyPool [simp]: "short (spm_shm_name emptyPool)"
  by (simp add: emptyPool_def)

lemma strings_registerNode:
  "strings_ok st \<Longrightarrow> short name \<Longrightarrow> strings_ok (snd (registerNode c name now st))"
  by (auto simp: registerNode_def strings_ok_def short_defs Let_def)

lemma strings_attachHeartbeat: "strings_ok st \<Longrightarrow> strings_ok (snd (attachHeartbeat c n s st))"
  by (auto simp: attachHeartbeat_def strings_ok_def short_defs split: option.split)

lemma strings_heartbeat: "strings_ok st \<Longrightarrow> strings_ok (snd (heartbeat c n s now st))"
  by (auto simp: heartbeat_def strings_ok_def short_defs split: option.split)

lemma strings_findOrCreateTopic:
  assumes "findOrCreateTopic name tn th m tp st = Some (kt, st')" "strings_ok st" "short name" "short tn" "short th"
  shows "strings_ok st'"
  using assms by (auto simp: findOrCreateTopic_def strings_ok_def short_defs Let_def split: option.splits Option.bind_splits)

lemma strings_advertise:
  assumes "advertise c n name tn th m tp pool st = Some (result, st')" "strings_ok st"
    "short name" "short tn" "short th" "short (spm_shm_name pool)"
  shows "strings_ok st'"
proof -
  have "strings_ok st1 \<Longrightarrow> strings_ok (st1\<lparr>rs_next_endpoint_id := e, rs_publishers := omap_emplace k
      \<lparr>pe_endpoint_id = k, pe_node_id = n, pe_topic_id = t, pe_max_message_size = m,
       pe_transport = tp, pe_pool = pool\<rparr> (rs_publishers st1),
      rs_topics := omap_modify key (\<lambda>topic. topic\<lparr>tr_publisher_endpoint := Some k, tr_pool := pool,
        tr_max_message_size := min (tr_max_message_size topic) m\<rparr>) (rs_topics st1),
      rs_nodes := omap_modify n (\<lambda>node. node\<lparr>nr_publisher_endpoints :=
        insert k (nr_publisher_endpoints node)\<rparr>) (rs_nodes st1)\<rparr>)" for st1 e k t key
    using assms(6) by (auto simp: strings_ok_def short_defs)
  then show ?thesis using assms strings_findOrCreateTopic [of name tn th m tp st]
    by (auto simp: advertise_def Let_def split: option.splits if_splits Option.bind_splits)
qed

lemma strings_subscribe:
  assumes "subscribe c n name tn th m path tp queue st = Some (result, st')" "strings_ok st"
    "short name" "short tn" "short th" "short path" "short (sqm_shm_name queue)"
  shows "strings_ok st'"
proof -
  have "strings_ok st1 \<Longrightarrow> strings_ok (st1\<lparr>rs_next_endpoint_id := e, rs_subscribers := omap_emplace k
      \<lparr>se_endpoint_id = k, se_node_id = n, se_topic_id = t, se_data_socket_path = path,
       se_max_message_size = m, se_transport = tp, se_queue = queue\<rparr> (rs_subscribers st1),
      rs_topics := omap_modify key (\<lambda>topic. topic\<lparr>tr_subscriber_endpoints :=
        insert k (tr_subscriber_endpoints topic),
        tr_max_message_size := min (tr_max_message_size topic) m\<rparr>) (rs_topics st1),
      rs_nodes := omap_modify n (\<lambda>node. node\<lparr>nr_subscriber_endpoints :=
        insert k (nr_subscriber_endpoints node)\<rparr>) (rs_nodes st1)\<rparr>)" for st1 e k t key
    using assms(6,7) by (auto simp: strings_ok_def short_defs)
  then show ?thesis using assms strings_findOrCreateTopic [of name tn th m tp st]
    by (auto simp: subscribe_def Let_def split: option.splits if_splits Option.bind_splits)
qed

lemma strings_settle:
  "recomputeTopicMaxMessageSize t st = Some st' \<Longrightarrow> strings_ok st \<Longrightarrow> strings_ok st'"
  "strings_ok st \<Longrightarrow> strings_ok (eraseTopicIfEmpty t st)"
  by (auto simp: recomputeTopicMaxMessageSize_def eraseTopicIfEmpty_def strings_ok_def short_defs Let_def
      split: option.splits Option.bind_splits if_splits)

lemma strings_unadvertise:
  assumes "unadvertise c n e st = Some (err, st')" "strings_ok st"
  shows "strings_ok st'"
proof -
  have "strings_ok (st\<lparr>rs_nodes := omap_modify n (\<lambda>node. node\<lparr>nr_publisher_endpoints :=
        nr_publisher_endpoints node - {e}\<rparr>) (rs_nodes st), rs_publishers := omap_erase e (rs_publishers st),
      rs_topics := omap_modify t (\<lambda>topic. topic\<lparr>tr_publisher_endpoint := None, tr_pool := emptyPool\<rparr>)
        (rs_topics st)\<rparr>)" for t
    using assms(2) by (auto simp: strings_ok_def short_defs)
  then show ?thesis using assms strings_settle
    by (auto simp: unadvertise_def Let_def split: option.splits if_splits Option.bind_splits)
qed

lemma strings_unsubscribe:
  assumes "unsubscribe c n e st = Some (err, st')" "strings_ok st"
  shows "strings_ok st'"
proof -
  have "strings_ok (st\<lparr>rs_nodes := omap_modify n (\<lambda>node. node\<lparr>nr_subscriber_endpoints :=
        nr_subscriber_endpoints node - {e}\<rparr>) (rs_nodes st), rs_subscribers := omap_erase e (rs_subscribers st),
      rs_topics := omap_modify t (\<lambda>topic. topic\<lparr>tr_subscriber_endpoints :=
        tr_subscriber_endpoints topic - {e}\<rparr>) (rs_topics st)\<rparr>)" for t
    using assms(2) by (auto simp: strings_ok_def short_defs)
  then show ?thesis using assms strings_settle
    by (auto simp: unsubscribe_def Let_def split: option.splits if_splits Option.bind_splits)
qed

lemma strings_unadvertiseAll: "unadvertiseAll c n es st = Some st' \<Longrightarrow> strings_ok st \<Longrightarrow> strings_ok st'"
  by (induction es arbitrary: st) (auto split: Option.bind_splits dest!: strings_unadvertise)

lemma strings_unsubscribeAll: "unsubscribeAll c n es st = Some st' \<Longrightarrow> strings_ok st \<Longrightarrow> strings_ok st'"
  by (induction es arbitrary: st) (auto split: Option.bind_splits dest!: strings_unsubscribe)

lemma strings_unregisterNode: "unregisterNode c n st = Some (err, st') \<Longrightarrow> strings_ok st \<Longrightarrow> strings_ok st'"
  by (auto simp: unregisterNode_def split: option.splits Option.bind_splits
      dest!: strings_unadvertiseAll strings_unsubscribeAll) (auto simp: strings_ok_def short_defs)

lemma strings_cleanupDeadNode: "cleanupDeadNode n st = Some (c, st') \<Longrightarrow> strings_ok st \<Longrightarrow> strings_ok st'"
  by (auto simp: cleanupDeadNode_def split: option.splits Option.bind_splits
      dest!: strings_unregisterNode) (auto simp: strings_ok_def short_defs)

lemma strings_cleanupAll: "cleanupAll ns st = Some (cs, st') \<Longrightarrow> strings_ok st \<Longrightarrow> strings_ok st'"
  by (induction ns arbitrary: st cs) (auto split: Option.bind_splits dest!: strings_cleanupDeadNode)

lemma omap_all_map: "omap_all P m \<Longrightarrow> (\<And>v. P v \<Longrightarrow> P (f v)) \<Longrightarrow> omap_all P (map (\<lambda>(k, v). (k, f v)) m)"
  by (induction m) (auto simp: omap_all_def)

lemma strings_evaluateLiveness:
  assumes "evaluateLiveness now st = Some (u, st')" "strings_ok st"
  shows "strings_ok st'"
proof -
  let ?f = "\<lambda>node. if newlySuspect (rs_liveness st) now node then node\<lparr>nr_liveness := Suspected\<rparr> else node"
  have "omap_all nodeShort (map (\<lambda>(k, node). (k, ?f node)) (rs_nodes st))"
    using assms(2) by (intro omap_all_map) (auto simp: strings_ok_def short_defs)
  then have "strings_ok (st\<lparr>rs_nodes := map (\<lambda>(k, node). (k, ?f node)) (rs_nodes st), rs_metrics := m\<rparr>)" for m
    using assms(2) by (simp add: strings_ok_def)
  then show ?thesis using assms(1)
    by (auto simp: evaluateLiveness_def livenessPass_eq Let_def split: Option.bind_splits dest!: strings_cleanupAll)
qed

lemma strings_disconnectConnection:
  assumes "disconnectConnection c st = Some (cs, st')" "strings_ok st"
  shows "strings_ok st'"
proof -
  have "strings_ok (detachHeartbeatConnection c st1)" if "strings_ok st1" for st1
    using that by (auto simp: strings_ok_def detachHeartbeatConnection_def nodeShort_def intro!: omap_all_map)
  then show ?thesis using assms
    by (auto simp: disconnectConnection_def Let_def split: Option.bind_splits if_splits dest!: strings_cleanupAll)
qed

section \<open>Waiting publishers\<close>

text \<open>A publisher whose \<open>resolve\<close> finds no subscriber.\<close>

definition waiting :: "ConnectionId \<Rightarrow> u64 \<Rightarrow> u64 \<Rightarrow> RegistryState \<Rightarrow> bool" where
  "waiting c n e st \<longleftrightarrow>
     (\<exists>node p. ownedNode c n st = Some node \<and> omap_find e (rs_publishers st) = Some p \<and>
        pe_node_id p = n \<and> subscribersWith se_topic_id (pe_topic_id p) st = {})"

lemma discoveredSubscribers_total:
  "\<forall>e \<in> set es. omap_find e subs \<noteq> None \<Longrightarrow> \<exists>ds. discoveredSubscribers es subs = Some ds \<and> length ds = length es"
  by (induction es) auto

lemma resolve_waiting:
  assumes ok: "registry_inv st"
  shows "\<exists>r. resolve c n e st = Some r \<and> (dr_error r = TopicNotFound \<longleftrightarrow> waiting c n e st)"
proof (cases "ownedNode c n st = None \<or> e \<notin> publishersWith pe_node_id n st")
  case True
  then have "\<not> waiting c n e st" by (auto simp: waiting_def)
  moreover have "resolve c n e st = Some \<lparr>dr_error = EndpointNotFound, dr_topic_id = 0,
      dr_transport = UnixDomainSocket, dr_pool = emptyPool, dr_subscribers = []\<rparr>"
    using True by (auto simp: resolve_def Let_def split: option.split)
  ultimately show ?thesis by simp
next
  case False
  then obtain node p where p: "ownedNode c n st = Some node" "omap_find e (rs_publishers st) = Some p"
    "pe_node_id p = n" by auto
  obtain t where t: "omap_find (pe_topic_id p) (rs_topics st) = Some t"
    using registry_okD(8) [OF ok p(2)] by (auto simp: publisher_ok_def)
  have subs: "tr_subscriber_endpoints t = subscribersWith se_topic_id (pe_topic_id p) st"
    using registry_okD(6) [OF ok t] by (simp add: topic_ok_def)
  have fin: "finite (tr_subscriber_endpoints t)" unfolding subs by (rule finite_endpoints)
  have w: "waiting c n e st \<longleftrightarrow> tr_subscriber_endpoints t = {}"
    using p by (simp add: waiting_def subs)
  show ?thesis
  proof (cases "tr_subscriber_endpoints t = {}")
    case True
    then show ?thesis using p t w by (simp add: resolve_def)
  next
    case some: False
    have "\<forall>k \<in> set (sorted_list_of_set (tr_subscriber_endpoints t)). omap_find k (rs_subscribers st) \<noteq> None"
      using fin by (auto simp: subs)
    from discoveredSubscribers_total [OF this] show ?thesis using p t w some by (auto simp: resolve_def)
  qed
qed

text \<open>A publisher that waits goes on waiting or is gone.\<close>

definition keepsWaiting :: "RegistryState \<Rightarrow> RegistryState \<Rightarrow> bool" where
  "keepsWaiting st st' \<longleftrightarrow>
     (\<forall>c n e. waiting c n e st \<longrightarrow> waiting c n e st' \<or> omap_find e (rs_publishers st') = None)"

lemma keepsWaiting_refl [simp]: "keepsWaiting st st"
  by (simp add: keepsWaiting_def)

lemma keepsWaitingI:
  assumes subs: "\<And>e s. omap_find e (rs_subscribers st') = Some s \<Longrightarrow> omap_find e (rs_subscribers st) = Some s"
    and pubs: "\<And>e p. omap_find e (rs_publishers st) = Some p \<Longrightarrow>
      omap_find e (rs_publishers st') = None \<or> omap_find e (rs_publishers st') = Some p"
    and nodes: "\<And>n node e p. omap_find n (rs_nodes st) = Some node \<Longrightarrow> omap_find e (rs_publishers st) = Some p \<Longrightarrow>
      omap_find e (rs_publishers st') = Some p \<Longrightarrow> pe_node_id p = n \<Longrightarrow>
      \<exists>node'. omap_find n (rs_nodes st') = Some node' \<and> nr_control_connection node' = nr_control_connection node"
  shows "keepsWaiting st st'"
  unfolding keepsWaiting_def
proof (intro allI impI)
  fix c n e assume "waiting c n e st"
  then obtain node p where w: "omap_find n (rs_nodes st) = Some node" "nr_control_connection node = c"
    "omap_find e (rs_publishers st) = Some p" "pe_node_id p = n"
    "subscribersWith se_topic_id (pe_topic_id p) st = {}"
    by (auto simp: waiting_def ownedNode_Some)
  show "waiting c n e st' \<or> omap_find e (rs_publishers st') = None"
  proof (cases "omap_find e (rs_publishers st')")
    case (Some p')
    then have p': "omap_find e (rs_publishers st') = Some p" using pubs [OF w(3)] by auto
    obtain node' where "ownedNode c n st' = Some node'"
      using nodes [OF w(1,3) p' w(4)] w(2) by (auto simp: ownedNode_Some)
    moreover have "subscribersWith se_topic_id (pe_topic_id p) st' = {}" using w(5) subs by auto
    ultimately show ?thesis using p' w(4) by (auto simp: waiting_def)
  qed simp
qed

lemma waiting_registerNode:
  assumes "registry_inv st"
  shows "keepsWaiting st (snd (registerNode c name now st))"
  by (rule keepsWaitingI)
    (auto simp: registerNode_def Let_def omap_find_emplace registry_maps_ok [OF assms] split: if_splits)

lemma waiting_attachHeartbeat: "keepsWaiting st (snd (attachHeartbeat c n s st))"
  by (rule keepsWaitingI) (auto simp: attachHeartbeat_def split: option.splits if_splits)

lemma waiting_heartbeat: "keepsWaiting st (snd (heartbeat c n s now st))"
  by (rule keepsWaitingI) (auto simp: heartbeat_def split: option.splits if_splits)

lemma waiting_withPublisher:
  assumes ok: "registry_ok X st"
  shows "keepsWaiting st (withPublisher n t m tp pool st)"
proof (rule keepsWaitingI)
  show "omap_find e (rs_publishers (withPublisher n t m tp pool st)) = None \<or>
      omap_find e (rs_publishers (withPublisher n t m tp pool st)) = Some p"
    if "omap_find e (rs_publishers st) = Some p" for e p
    using that registry_fresh_endpoint(1) [OF ok] by (auto simp: withPublisher_find [OF ok])
qed (auto simp: withPublisher_def)

lemma waiting_withTopic: "keepsWaiting st st' \<Longrightarrow> keepsWaiting (withTopic name tn th m tp st) st'"
  "keepsWaiting (withTopic name tn th m tp st) st' \<Longrightarrow> keepsWaiting st st'"
  by (simp_all add: keepsWaiting_def waiting_def withTopic_def ownedNode_def)

lemma waiting_advertise:
  assumes ok: "registry_inv st" and wrap: "rs_next_topic_id st \<noteq> - 1"
    and adv: "advertise c n name tn th m tp pool st = Some (result, st')"
  shows "keepsWaiting st st'"
proof (cases "ownedNode c n st")
  case None
  then show ?thesis using adv by (simp add: advertise_rejected)
next
  case (Some node)
  show ?thesis
  proof (cases "advertiseArgumentsOk name tn th m tp pool")
    case valid: True
    show ?thesis
    proof (cases "omap_find name (rs_topic_names st)")
      case None
      have "keepsWaiting (withTopic name tn th m tp st) st'"
        using adv waiting_withPublisher [OF withTopic_ok [OF ok None wrap]]
        by (auto simp: advertise_created [OF ok None Some valid])
      then show ?thesis by (rule waiting_withTopic(2))
    next
      case found: (Some t)
      then obtain r where r: "omap_find t (rs_topics st) = Some r"
        using registry_topic_named [OF ok found] by auto
      then show ?thesis using adv waiting_withPublisher [OF ok]
        by (auto simp: advertise_existing [OF ok found r Some valid] split: if_splits)
    qed
  next
    case False
    then show ?thesis using adv Some by (simp add: advertise_rejected)
  qed
qed

lemma waiting_withoutNodes: "withoutNodes N st st' \<Longrightarrow> keepsWaiting st st'"
  by (rule keepsWaitingI) (auto simp: withoutNodes_def split: option.splits if_splits)

lemma waiting_unadvertise:
  assumes ok: "registry_inv st" and un: "unadvertise c n e st = Some (err, st')"
  shows "keepsWaiting st st'" "\<And>k. omap_find k (rs_publishers st') =
    (if k = e \<and> err = Ok then None else omap_find k (rs_publishers st))"
proof -
  have "keepsWaiting st st' \<and> (\<forall>k. omap_find k (rs_publishers st') =
    (if k = e \<and> err = Ok then None else omap_find k (rs_publishers st)))"
  proof (cases "ownedNode c n st = None \<or> e \<notin> publishersWith pe_node_id n st")
    case True
    then show ?thesis using un by (simp only: unadvertise_fails) auto
  next
    case False
    then obtain node p where p: "ownedNode c n st = Some node" "omap_find e (rs_publishers st) = Some p"
      "pe_node_id p = n" by auto
    obtain topics names where st': "err = Ok" "st' = st\<lparr>rs_nodes := omap_modify n (\<lambda>node. node\<lparr>nr_publisher_endpoints :=
          nr_publisher_endpoints node - {e}\<rparr>) (rs_nodes st), rs_publishers := omap_erase e (rs_publishers st),
        rs_topics := topics, rs_topic_names := names\<rparr>"
    proof (rule unadvertise_effect [OF ok p])
      fix topics names
      assume "unadvertise c n e st = Some (Ok, st\<lparr>rs_nodes := omap_modify n (\<lambda>node. node\<lparr>nr_publisher_endpoints :=
          nr_publisher_endpoints node - {e}\<rparr>) (rs_nodes st), rs_publishers := omap_erase e (rs_publishers st),
        rs_topics := topics, rs_topic_names := names\<rparr>)"
      then show thesis using un by (intro that [where topics = topics and names = names]) simp_all
    qed
    have "keepsWaiting st st'" by (rule keepsWaitingI) (auto simp: st'(2) split: if_splits)
    then show ?thesis by (simp add: st')
  qed
  then show "keepsWaiting st st'" "\<And>k. omap_find k (rs_publishers st') =
    (if k = e \<and> err = Ok then None else omap_find k (rs_publishers st))" by blast+
qed

lemma waiting_unsubscribe:
  assumes ok: "registry_inv st" and un: "unsubscribe c n e st = Some (err, st')"
  shows "keepsWaiting st st' \<and> rs_publishers st' = rs_publishers st"
proof (cases "ownedNode c n st = None \<or> e \<notin> subscribersWith se_node_id n st")
  case True
  then show ?thesis using un by (simp only: unsubscribe_fails) simp
next
  case False
  then obtain node s where s: "ownedNode c n st = Some node" "omap_find e (rs_subscribers st) = Some s"
    "se_node_id s = n" by auto
  obtain topics names where st': "st' = st\<lparr>rs_nodes := omap_modify n (\<lambda>node. node\<lparr>nr_subscriber_endpoints :=
          nr_subscriber_endpoints node - {e}\<rparr>) (rs_nodes st), rs_subscribers := omap_erase e (rs_subscribers st),
        rs_topics := topics, rs_topic_names := names\<rparr>"
  proof (rule unsubscribe_effect [OF ok s])
    fix topics names
    assume "unsubscribe c n e st = Some (Ok, st\<lparr>rs_nodes := omap_modify n (\<lambda>node. node\<lparr>nr_subscriber_endpoints :=
          nr_subscriber_endpoints node - {e}\<rparr>) (rs_nodes st), rs_subscribers := omap_erase e (rs_subscribers st),
        rs_topics := topics, rs_topic_names := names\<rparr>)"
    then show thesis using un by (intro that [where topics = topics and names = names]) simp_all
  qed
  have "keepsWaiting st st'" by (rule keepsWaitingI) (auto simp: st' split: if_splits)
  then show ?thesis by (simp add: st')
qed

section \<open>Removal of dead nodes\<close>

definition cleanedUp :: "DeadNodeCleanup list \<Rightarrow> RegistryState \<Rightarrow> RegistryState \<Rightarrow> bool" where
  "cleanedUp cs st st' \<longleftrightarrow>
     registry_inv st' \<and> keepsWaiting st st' \<and> rs_next_node_id st' = rs_next_node_id st \<and>
     rs_next_topic_id st' = rs_next_topic_id st \<and> rs_next_endpoint_id st' = rs_next_endpoint_id st \<and>
     (\<forall>n. omap_find n (rs_nodes st') = None \<longleftrightarrow> omap_find n (rs_nodes st) = None \<or> n \<in> dn_node_id ` set cs) \<and>
     (cs = [] \<longrightarrow> (\<forall>e. omap_find e (rs_publishers st') = omap_find e (rs_publishers st)))"

lemma cleanupAll_cleanedUp:
  assumes "registry_inv st" "distinct ns" "\<forall>n \<in> set ns. omap_find n (rs_nodes st) \<noteq> None"
  obtains cs st' where "cleanupAll ns st = Some (cs, st')" "cleanedUp cs st st'"
proof -
  obtain cs st' where cs: "cleanupAll ns st = Some (cs, st')" "registry_inv st'" "withoutNodes (set ns) st st'"
    "map dn_node_id cs = ns"
    using cleanupAll_effect [OF assms] by blast
  have ns: "set ns = dn_node_id ` set cs" using cs(4) by auto
  have "\<forall>e. omap_find e (rs_publishers st') = omap_find e (rs_publishers st)" if "cs = []"
    using cs(3) that by (auto simp: withoutNodes_def ns split: option.splits)
  moreover have "omap_find n (rs_nodes st') = None \<longleftrightarrow>
      omap_find n (rs_nodes st) = None \<or> n \<in> dn_node_id ` set cs" for n
    using cs(3) by (auto simp: withoutNodes_def ns)
  ultimately have "cleanedUp cs st st'"
    using cs(2,3) waiting_withoutNodes [OF cs(3)] by (simp add: cleanedUp_def withoutNodes_def)
  then show thesis using that cs(1) by blast
qed

text \<open>A change of the nodes' records that keeps their identity and their control connections.\<close>

lemma cleanedUp_nodes:
  assumes "rs_publishers st1 = rs_publishers st" "rs_subscribers st1 = rs_subscribers st"
    "\<And>n. rel_option (\<lambda>a b. nr_control_connection a = nr_control_connection b)
       (omap_find n (rs_nodes st)) (omap_find n (rs_nodes st1))"
    "rs_next_node_id st1 = rs_next_node_id st" "rs_next_topic_id st1 = rs_next_topic_id st"
    "rs_next_endpoint_id st1 = rs_next_endpoint_id st"
  shows "cleanedUp cs st1 st' \<Longrightarrow> cleanedUp cs st st'" "registry_inv st1 \<Longrightarrow> cleanedUp [] st st1"
proof -
  have none: "omap_find n (rs_nodes st1) = None \<longleftrightarrow> omap_find n (rs_nodes st) = None" for n
    using assms(3) [of n] by (auto simp: option.rel_sel)
  have "ownedNode c n st1 = None \<longleftrightarrow> ownedNode c n st = None" for c n
    using assms(3) [of n] by (auto simp: ownedNode_def option_rel_Some1 option_rel_Some2 split: option.splits)
  then have "(\<exists>node. ownedNode c n st1 = Some node) \<longleftrightarrow> (\<exists>node. ownedNode c n st = Some node)" for c n
    unfolding not_None_eq [symmetric] by simp
  then have "waiting c n e st1 \<longleftrightarrow> waiting c n e st" for c n e
    unfolding waiting_def assms(1,2) by blast
  then show "cleanedUp cs st1 st' \<Longrightarrow> cleanedUp cs st st'" "registry_inv st1 \<Longrightarrow> cleanedUp [] st st1"
    using assms none by (simp_all add: cleanedUp_def keepsWaiting_def)
qed

lemma evaluateLiveness_cleanedUp:
  assumes ok: "registry_inv st"
  obtains u st' where "evaluateLiveness now st = Some (u, st')" "cleanedUp (lu_dead_nodes u) st st'"
proof -
  let ?dead = "timedOut (rs_liveness st) now" and ?count = "rm_suspected_count (rs_metrics st)"
  obtain nodes count suspected dead where
    pass: "livenessPass (rs_liveness st) now (rs_nodes st) ?count = (nodes, count, suspected, dead)"
    by (metis prod_cases4)
  define st1 where "st1 = st\<lparr>rs_nodes := nodes, rs_metrics := (rs_metrics st)\<lparr>rm_suspected_count := count\<rparr>\<rparr>"
  have ok1: "registry_inv st1" unfolding st1_def by (rule livenessPass_ok(1) [OF ok pass])
  have find: "omap_find n (rs_nodes st1) = map_option (\<lambda>node. if newlySuspect (rs_liveness st) now node
      then node\<lparr>nr_liveness := Suspected\<rparr> else node) (omap_find n (rs_nodes st))" for n
    unfolding st1_def using livenessPass_ok(2) [OF ok pass] by simp
  have dead: "dead = map fst (filter (?dead \<circ> snd) (rs_nodes st))"
    using pass unfolding node_ids(1) [OF ok, symmetric] by (simp add: livenessPass_eq)
  have "\<forall>n \<in> set dead. omap_find n (rs_nodes st1) \<noteq> None"
    unfolding dead node_ids(3) [OF ok] by (auto simp: find)
  moreover have "distinct dead" unfolding dead by (rule node_ids(2) [OF ok])
  ultimately obtain cs st' where cs: "cleanupAll dead st1 = Some (cs, st')" "cleanedUp cs st1 st'"
    using cleanupAll_cleanedUp [OF ok1] by blast
  have "cleanedUp cs st st'"
    by (rule cleanedUp_nodes(1) [OF _ _ _ _ _ _ cs(2)])
      (simp_all add: st1_def [symmetric] find option.rel_map option.rel_refl, simp_all add: st1_def)
  then show thesis
    using that cs(1) unfolding st1_def by (simp add: evaluateLiveness_def pass)
qed

lemma disconnectConnection_cleanedUp:
  assumes ok: "registry_inv st"
  obtains cs st' where "disconnectConnection c st = Some (cs, st')" "cleanedUp cs st st'"
proof -
  let ?P = "\<lambda>node. nr_control_connection node = c"
  let ?ns = "map fst (filter (?P \<circ> snd) (rs_nodes st))"
  have found: "\<forall>n \<in> set ?ns. omap_find n (rs_nodes st) \<noteq> None" unfolding node_ids(3) [OF ok] by auto
  then obtain cs st' where cs: "cleanupAll ?ns st = Some (cs, st')" "cleanedUp cs st st'"
    using cleanupAll_cleanedUp [OF ok node_ids(2) [OF ok]] by blast
  have eq: "disconnectConnection c st = Some (cs, if cs = [] then detachHeartbeatConnection c st' else st')"
    using cs(1) by (simp add: disconnectConnection_def split_def comp_def)
  have "cleanedUp [] st (detachHeartbeatConnection c st)"
    using detachHeartbeatConnection_ok [OF ok]
    by (intro cleanedUp_nodes(2))
      (auto simp: detachHeartbeatConnection_def map_of_map option.rel_map intro!: option.rel_refl_strong)
  moreover have "st' = st" if "cs = []"
  proof -
    have "map dn_node_id cs = ?ns"
      using cs(1) cleanupAll_effect [OF ok node_ids(2) [OF ok] found] by auto
    then show ?thesis using cs(1) that by simp
  qed
  ultimately show thesis using that [OF eq] cs(2) by (cases "cs = []") simp_all
qed

section \<open>What stays\<close>

text \<open>No node and no publisher disappears.\<close>

definition keepsEntries :: "RegistryState \<Rightarrow> RegistryState \<Rightarrow> bool" where
  "keepsEntries st st' \<longleftrightarrow>
     (\<forall>n. omap_find n (rs_nodes st) \<noteq> None \<longrightarrow> omap_find n (rs_nodes st') \<noteq> None) \<and>
     (\<forall>e. omap_find e (rs_publishers st) \<noteq> None \<longrightarrow> omap_find e (rs_publishers st') \<noteq> None)"

lemma keepsEntries_refl [simp]: "keepsEntries st st"
  by (simp add: keepsEntries_def)

lemma advertise_forms:
  assumes ok: "registry_inv st" and adv: "advertise c n name tn th m tp pool st = Some (result, st')"
  shows "st' = st \<or> (\<exists>t. st' = withPublisher n t m tp pool st) \<or>
    omap_find name (rs_topic_names st) = None \<and>
    st' = withPublisher n (rs_next_topic_id st) m tp pool (withTopic name tn th m tp st)"
proof (cases "ownedNode c n st")
  case None
  then show ?thesis using adv by (simp add: advertise_rejected)
next
  case (Some node)
  show ?thesis
  proof (cases "advertiseArgumentsOk name tn th m tp pool")
    case valid: True
    show ?thesis
    proof (cases "omap_find name (rs_topic_names st)")
      case None
      then show ?thesis using adv by (auto simp: advertise_created [OF ok None Some valid])
    next
      case found: (Some t)
      then obtain r where r: "omap_find t (rs_topics st) = Some r"
        using registry_topic_named [OF ok found] by auto
      then show ?thesis using adv
        by (auto simp: advertise_existing [OF ok found r Some valid] split: if_splits)
    qed
  next
    case False
    then show ?thesis using adv Some by (simp add: advertise_rejected)
  qed
qed

lemma subscribe_forms:
  assumes ok: "registry_inv st" and sub: "subscribe c n name tn th m path tp queue st = Some (result, st')"
  shows "epr_error result \<noteq> Ok \<and> st' = st \<or> (\<exists>t. st' = withSubscriber n t m path tp queue st) \<or>
    omap_find name (rs_topic_names st) = None \<and>
    st' = withSubscriber n (rs_next_topic_id st) m path tp queue (withTopic name tn th m tp st)"
proof (cases "ownedNode c n st")
  case None
  then show ?thesis using sub by (auto simp: subscribe_rejected endpointError_def)
next
  case (Some node)
  show ?thesis
  proof (cases "subscribeArgumentsOk name tn th m path tp queue")
    case valid: True
    show ?thesis
    proof (cases "omap_find name (rs_topic_names st)")
      case None
      then show ?thesis using sub by (auto simp: subscribe_created [OF ok None Some valid])
    next
      case found: (Some t)
      then obtain r where r: "omap_find t (rs_topics st) = Some r"
        using registry_topic_named [OF ok found] by auto
      then show ?thesis using sub
        by (auto simp: subscribe_existing [OF ok found r Some valid] endpointError_def split: if_splits)
    qed
  next
    case False
    then show ?thesis using sub Some by (auto simp: subscribe_rejected endpointError_def)
  qed
qed

lemma emplace_keeps: "omap_find k m \<noteq> None \<Longrightarrow> omap_find k (omap_emplace j v m) \<noteq> None"
  by (induction j v m rule: omap_emplace.induct) (auto split: if_splits)

lemma entries_registerNode: "keepsEntries st (snd (registerNode c name now st))"
  unfolding keepsEntries_def registerNode_def Let_def by (simp add: emplace_keeps del: not_None_eq)

lemma entries_attachHeartbeat: "keepsEntries st (snd (attachHeartbeat c n s st))"
  by (auto simp: keepsEntries_def attachHeartbeat_def split: option.split)

lemma entries_heartbeat: "keepsEntries st (snd (heartbeat c n s now st))"
  by (auto simp: keepsEntries_def heartbeat_def split: option.split)

lemma entries_withPublisher:
  "keepsEntries st (withPublisher n t m tp pool st)"
  "keepsEntries st (withPublisher n t m tp pool (withTopic name tn th m tp st))"
  unfolding keepsEntries_def withPublisher_def withTopic_def by (simp_all add: emplace_keeps del: not_None_eq)

lemma entries_withSubscriber:
  "keepsEntries st (withSubscriber n t m path tp queue st)"
  "keepsEntries st (withSubscriber n t m path tp queue (withTopic name tn th m tp st))"
  unfolding keepsEntries_def withSubscriber_def withTopic_def by (simp_all del: not_None_eq)

lemma entries_advertise:
  "registry_inv st \<Longrightarrow> advertise c n name tn th m tp pool st = Some (result, st') \<Longrightarrow> keepsEntries st st'"
  using advertise_forms entries_withPublisher by (metis keepsEntries_refl)

lemma entries_subscribe:
  "registry_inv st \<Longrightarrow> subscribe c n name tn th m path tp queue st = Some (result, st') \<Longrightarrow> keepsEntries st st'"
  using subscribe_forms entries_withSubscriber by (metis keepsEntries_refl)

lemma nodes_recompute: "recomputeTopicMaxMessageSize t st = Some st' \<Longrightarrow> rs_nodes st' = rs_nodes st"
  "rs_nodes (eraseTopicIfEmpty t st) = rs_nodes st"
  by (auto simp: recomputeTopicMaxMessageSize_def eraseTopicIfEmpty_def Let_def
      split: option.splits Option.bind_splits if_splits)

lemma nodes_unadvertise:
  "unadvertise c n e st = Some (err, st') \<Longrightarrow> omap_find k (rs_nodes st') = None \<longleftrightarrow> omap_find k (rs_nodes st) = None"
  by (auto simp: unadvertise_def Let_def nodes_recompute split: option.splits if_splits Option.bind_splits)

lemma nodes_unsubscribe:
  "unsubscribe c n e st = Some (err, st') \<Longrightarrow> omap_find k (rs_nodes st') = None \<longleftrightarrow> omap_find k (rs_nodes st) = None"
  by (auto simp: unsubscribe_def Let_def nodes_recompute split: option.splits if_splits Option.bind_splits)

lemma registry_after_call:
  "registry_after k st \<Longrightarrow> k < 2 ^ 64 - 2 \<Longrightarrow> registry_call c st = Some st' \<Longrightarrow> registry_after (Suc k) st'"
  using registry_call_ok [of k st c] by auto

section \<open>Strings of results\<close>

lemma discoveredSubscribers_short:
  "omap_all subscriberShort subs \<Longrightarrow> discoveredSubscribers es subs = Some ds \<Longrightarrow> d \<in> set ds \<Longrightarrow>
     short (ds_data_socket_path d) \<and> short (sqm_shm_name (ds_queue d))"
  by (induction es arbitrary: ds)
    (auto split: Option.bind_splits dest!: omap_all_find [of subscriberShort subs] simp: subscriberShort_def)

lemma resolve_short:
  assumes "strings_ok st" "resolve c n e st = Some r"
  shows "short (spm_shm_name (dr_pool r))"
    "d \<in> set (dr_subscribers r) \<Longrightarrow> short (ds_data_socket_path d) \<and> short (sqm_shm_name (ds_queue d))"
proof -
  have topics: "omap_find t (rs_topics st) = Some topic \<Longrightarrow> short (spm_shm_name (tr_pool topic))" for t topic
    using assms(1) omap_all_find [of topicShort "rs_topics st"] by (auto simp: strings_ok_def topicShort_def)
  show "short (spm_shm_name (dr_pool r))"
    using assms(2) topics
    by (auto simp: resolve_def Let_def split: option.splits if_splits Option.bind_splits)
  show "short (ds_data_socket_path d) \<and> short (sqm_shm_name (ds_queue d))" if "d \<in> set (dr_subscribers r)"
    using assms(2) that discoveredSubscribers_short [of "rs_subscribers st" _ _ d] assms(1)
    by (auto simp: resolve_def Let_def strings_ok_def split: option.splits if_splits Option.bind_splits)
qed

lemma advertise_short:
  assumes "advertise c n name tn th m tp pool st = Some (result, st')" "short (spm_shm_name pool)"
  shows "short (spm_shm_name (epr_pool result))"
  using assms
  by (auto simp: advertise_def topicConflict_def endpointError_def Let_def split: option.splits if_splits Option.bind_splits)

lemma subscribe_short:
  assumes "registry_inv st" "strings_ok st"
    "subscribe c n name tn th m path tp queue st = Some (result, st')"
  shows "short (spm_shm_name (epr_pool result))"
proof -
  have topics: "omap_find t (rs_topics st) = Some topic \<Longrightarrow> short (spm_shm_name (tr_pool topic))" for t topic
    using assms(2) omap_all_find [of topicShort "rs_topics st"] by (auto simp: strings_ok_def topicShort_def)
  have created: "short (spm_shm_name (tr_pool topic))"
    if "findOrCreateTopic name tn th m tp st = Some ((key, topic), st1)" for key topic st1
    using that topics registry_fresh_topic(1) [OF assms(1)] registry_maps_ok(3) [OF assms(1)]
    by (auto simp: findOrCreateTopic_def Let_def omap_find_emplace split: option.splits Option.bind_splits if_splits)
  show ?thesis using assms(3) created
    by (auto simp: subscribe_def topicConflict_def endpointError_def Let_def split: option.splits if_splits Option.bind_splits)
qed

end
