(* ===== verification/MW_Registry_Server_Invariant.thy ===== *)
theory MW_Registry_Server_Invariant
  imports MW_Registry_Server MW_Registry_Effects
begin

text \<open>
  The invariant of the registry daemon (\<open>src/registry/src/registry_server.cpp\<close>) and its preservation
  by every handler.  Connections have distinct identifiers; a pending discovery belongs to a connected
  client and to a publisher that has no subscriber; peer events are kept for registered nodes only and
  their number is bounded.  The invariant counts the bytes received and the connections accepted, which
  bound the identifiers the registry has given out.
\<close>

section \<open>The invariant\<close>

definition clients_ok :: "RegistryServer \<Rightarrow> bool" where
  "clients_ok s \<longleftrightarrow> omap_ok (sv_clients s) \<and> sv_next_connection_id s \<noteq> 0 \<and>
     (\<forall>fd c. omap_find fd (sv_clients s) = Some c \<longrightarrow> cc_output_offset c \<le> length (cc_output c) \<and>
        cc_connection_id c \<noteq> 0 \<and> cc_connection_id c < sv_next_connection_id s) \<and>
     (\<forall>fd fd' c c'. omap_find fd (sv_clients s) = Some c \<longrightarrow> omap_find fd' (sv_clients s) = Some c' \<longrightarrow>
        cc_connection_id c = cc_connection_id c' \<longrightarrow> fd = fd')"

text \<open>
  A pending request names its publisher and the connection that asked.  Its publisher waits, except
  for those in \<open>K\<close>, which are still to be looked at, and when \<open>gone\<close> holds, for those removed
  from the registry.
\<close>

definition request_ok :: "bool \<Rightarrow> u64 set \<Rightarrow> RegistryServer \<Rightarrow> u64 \<Rightarrow> PendingDiscovery \<Rightarrow> bool" where
  "request_ok gone K s e p \<longleftrightarrow> pdy_publisher_endpoint_id p = e \<and>
     (\<exists>c. omap_find (pdy_fd p) (sv_clients s) = Some c \<and> cc_connection_id c = pdy_connection_id p) \<and>
     (e \<in> K \<or> waiting (pdy_connection_id p) (pdy_node_id p) e (sv_state s) \<or>
      gone \<and> omap_find e (rs_publishers (sv_state s)) = None)"

definition pending_ok :: "bool \<Rightarrow> u64 set \<Rightarrow> RegistryServer \<Rightarrow> bool" where
  "pending_ok gone K s \<longleftrightarrow> omap_ok (sv_pending s) \<and>
     (\<forall>e p. omap_find e (sv_pending s) = Some p \<longrightarrow> request_ok gone K s e p)"

definition events_ok :: "u64 set \<Rightarrow> RegistryServer \<Rightarrow> bool" where
  "events_ok N s \<longleftrightarrow> omap_ok (sv_peer_events s) \<and>
     (\<forall>n es. omap_find n (sv_peer_events s) = Some es \<longrightarrow>
        length es \<le> kMaxEventsPerNode \<and> (n \<in> N \<or> omap_find n (rs_nodes (sv_state s)) \<noteq> None))"

definition server_tables :: "bool \<Rightarrow> u64 set \<Rightarrow> u64 set \<Rightarrow> RegistryServer \<Rightarrow> bool" where
  "server_tables gone K N s \<longleftrightarrow> clients_ok s \<and> pending_ok gone K s \<and> events_ok N s"

definition buffered :: "RegistryServer \<Rightarrow> nat" where
  "buffered s = sum_list (map (\<lambda>(fd, c). length (cc_input c)) (sv_clients s))"

definition server_inv :: "u64 set \<Rightarrow> nat \<Rightarrow> nat \<Rightarrow> RegistryServer \<Rightarrow> bool" where
  "server_inv K a b s \<longleftrightarrow> server_tables False K {} s \<and> strings_ok (sv_state s) \<and>
     unat (sv_next_connection_id s) \<le> Suc a \<and>
     (\<exists>k. registry_after k (sv_state s) \<and> k + buffered s \<le> b)"

lemmas server_tables_defs = server_tables_def clients_ok_def pending_ok_def request_ok_def events_ok_def

section \<open>Frames\<close>

text \<open>What a handler that answers does to the clients: it may remove some and append to the output of others.\<close>

definition clients_sub :: "RegistryServer \<Rightarrow> RegistryServer \<Rightarrow> bool" where
  "clients_sub s s' \<longleftrightarrow> sv_next_connection_id s' = sv_next_connection_id s \<and> buffered s' \<le> buffered s \<and>
     (\<forall>fd c'. omap_find fd (sv_clients s') = Some c' \<longrightarrow>
        (\<exists>c. omap_find fd (sv_clients s) = Some c \<and> cc_connection_id c' = cc_connection_id c \<and>
           cc_input c' = cc_input c \<and> cc_close_after_write c' = cc_close_after_write c))"

lemma clients_sub_refl [simp]: "clients_sub s s"
  by (auto simp: clients_sub_def)

lemma clients_sub_trans: "clients_sub s s1 \<Longrightarrow> clients_sub s1 s2 \<Longrightarrow> clients_sub s s2"
  unfolding clients_sub_def by fastforce

lemma clients_sub_cong:
  "sv_clients s' = sv_clients s \<Longrightarrow> sv_next_connection_id s' = sv_next_connection_id s \<Longrightarrow> clients_sub s s'"
  by (auto simp: clients_sub_def buffered_def)

lemma buffered_erase: "sum_list (map (\<lambda>(fd, c). length (cc_input c)) (omap_erase fd m)) \<le>
  sum_list (map (\<lambda>(fd, c). length (cc_input c)) m)"
  by (induction m) (auto simp: omap_erase_def)

lemma buffered_modify:
  "(\<And>c. cc_input (f c) = cc_input c) \<Longrightarrow> buffered (modifyClient fd f s) = buffered s"
  unfolding buffered_def modifyClient_def omap_modify_def
  by (simp add: comp_def split_def if_distrib cong: if_cong)

lemma tick_sel [simp]:
  "sv_state (tick s) = sv_state s" "sv_clients (tick s) = sv_clients s" "sv_pending (tick s) = sv_pending s"
  "sv_peer_events (tick s) = sv_peer_events s" "sv_next_connection_id (tick s) = sv_next_connection_id s"
  by (simp_all add: tick_def)

lemma act_sel [simp]:
  "sv_state (act xs s) = sv_state s" "sv_clients (act xs s) = sv_clients s" "sv_pending (act xs s) = sv_pending s"
  "sv_peer_events (act xs s) = sv_peer_events s" "sv_next_connection_id (act xs s) = sv_next_connection_id s"
  by (simp_all add: act_def)

lemma modifyClient_sel [simp]:
  "sv_state (modifyClient fd f s) = sv_state s" "sv_pending (modifyClient fd f s) = sv_pending s"
  "sv_peer_events (modifyClient fd f s) = sv_peer_events s"
  "sv_next_connection_id (modifyClient fd f s) = sv_next_connection_id s"
  "omap_find k (sv_clients (modifyClient fd f s)) =
     (if k = fd then map_option f (omap_find fd (sv_clients s)) else omap_find k (sv_clients s))"
  by (simp_all add: modifyClient_def)

lemma tables_cong:
  assumes "sv_state s' = sv_state s" "sv_clients s' = sv_clients s" "sv_pending s' = sv_pending s"
    "sv_peer_events s' = sv_peer_events s" "sv_next_connection_id s' = sv_next_connection_id s"
  shows "server_tables gone K N s' = server_tables gone K N s"
  by (simp add: server_tables_defs assms)

lemma tables_tick [simp]: "server_tables gone K N (tick s) = server_tables gone K N s"
  by (rule tables_cong) simp_all

lemma tables_modifyClient:
  assumes "server_tables gone K N s" "\<And>c. cc_connection_id (f c) = cc_connection_id c"
    "\<And>c. omap_find fd (sv_clients s) = Some c \<Longrightarrow> cc_output_offset c \<le> length (cc_output c) \<Longrightarrow>
       cc_output_offset (f c) \<le> length (cc_output (f c))"
  shows "server_tables gone K N (modifyClient fd f s)"
proof -
  have "clients_ok (modifyClient fd f s)"
    using assms unfolding server_tables_def clients_ok_def
    by (auto simp: modifyClient_def split: if_splits)
  moreover have "request_ok gone K (modifyClient fd f s) e p" if "request_ok gone K s e p" for e p
    using that assms(2) by (auto simp: request_ok_def)
  ultimately show ?thesis using assms(1)
    by (auto simp: server_tables_def pending_ok_def events_ok_def)
qed

lemma tables_mono:
  "server_tables gone K N s \<Longrightarrow> (gone \<Longrightarrow> gone') \<Longrightarrow> K \<subseteq> K' \<Longrightarrow> N \<subseteq> N' \<Longrightarrow> server_tables gone' K' N' s"
  unfolding server_tables_def pending_ok_def request_ok_def events_ok_def by blast

section \<open>Clean-up\<close>

lemma dropClient_sel [simp]:
  "sv_state (dropClient fd s) = sv_state s" "sv_peer_events (dropClient fd s) = sv_peer_events s"
  "sv_next_connection_id (dropClient fd s) = sv_next_connection_id s"
  "omap_find k (sv_clients (dropClient fd s)) = (if k = fd then None else omap_find k (sv_clients s))"
  by (auto simp: dropClient_def)

lemma clients_sub_dropClient: "clients_sub s (dropClient fd s)"
  using buffered_erase [of fd "sv_clients s"] by (auto simp: clients_sub_def buffered_def dropClient_def)

lemma tables_dropClient:
  assumes "server_tables gone K N s"
  shows "server_tables gone K N (dropClient fd s)"
proof (cases "omap_find fd (sv_clients s) = None")
  case True
  then show ?thesis using assms by (simp add: dropClient_def)
next
  case False
  note parts = assms [unfolded server_tables_def]
  have pend: "omap_ok (sv_pending s)" using parts by (simp add: pending_ok_def)
  have "clients_ok (dropClient fd s)"
    using parts False unfolding clients_ok_def by (auto simp: dropClient_def)
  moreover have "pending_ok gone K (dropClient fd s)"
    using parts False pend unfolding pending_ok_def request_ok_def
    by (auto simp: dropClient_def omap_find_filter split: option.splits if_splits)
  ultimately show ?thesis using parts by (simp add: server_tables_def events_ok_def)
qed

lemma closeCleanupConnections_ok:
  assumes "server_tables gone K N s"
  shows "server_tables gone K N (closeCleanupConnections c x s)"
    "clients_sub s (closeCleanupConnections c x s)"
    "sv_state (closeCleanupConnections c x s) = sv_state s"
proof -
  define f where "f = (\<lambda>connection_id s.
         if connection_id = 0 then s
         else (case fdForConnection connection_id s of
                 None \<Rightarrow> s
               | Some fd \<Rightarrow> if Some fd \<noteq> x then dropClient fd s else s))"
  have f: "server_tables gone K N (f i t) \<and> clients_sub t (f i t) \<and> sv_state (f i t) = sv_state t"
    if "server_tables gone K N t" for i t
    using that tables_dropClient clients_sub_dropClient by (auto simp: f_def split: option.split)
  have "closeCleanupConnections c x s = f (dn_heartbeat_connection c) (f (dn_control_connection c) s)"
    by (simp add: closeCleanupConnections_def f_def)
  moreover have f1: "server_tables gone K N (f (dn_control_connection c) s)" using f [OF assms] by blast
  ultimately show "server_tables gone K N (closeCleanupConnections c x s)"
    "clients_sub s (closeCleanupConnections c x s)" "sv_state (closeCleanupConnections c x s) = sv_state s"
    using f [OF assms] f [OF f1] clients_sub_trans by metis+
qed

lemma recordPeerEvent_sel [simp]:
  "sv_state (recordPeerEvent e s) = sv_state s" "sv_clients (recordPeerEvent e s) = sv_clients s"
  "sv_pending (recordPeerEvent e s) = sv_pending s"
  "sv_next_connection_id (recordPeerEvent e s) = sv_next_connection_id s"
  by (auto simp: recordPeerEvent_def Let_def)

lemma tables_recordPeerEvent:
  assumes "server_tables gone K N s"
  shows "server_tables gone K N (recordPeerEvent e s)"
proof -
  let ?old = "case omap_find (pv_target_node_id e) (sv_peer_events s) of None \<Rightarrow> [] | Some events \<Rightarrow> events"
  let ?new = "(if length ?old = kMaxEventsPerNode then tl ?old else ?old) @ [e]"
  have ev: "omap_ok (sv_peer_events s)" and bound: "\<And>n es. omap_find n (sv_peer_events s) = Some es \<Longrightarrow>
      length es \<le> kMaxEventsPerNode \<and> (n \<in> N \<or> omap_find n (rs_nodes (sv_state s)) \<noteq> None)"
    using assms by (auto simp: server_tables_def events_ok_def)
  have "length ?old \<le> kMaxEventsPerNode" using bound by (auto split: option.split)
  then have new: "length ?new \<le> kMaxEventsPerNode" by (auto simp: kMaxEventsPerNode_def)
  have "events_ok N (recordPeerEvent e s)"
  proof (cases "registry_node (pv_target_node_id e) (sv_state s)")
    case None
    then show ?thesis using ev bound by (simp add: recordPeerEvent_def events_ok_def)
  next
    case (Some node)
    then have "sv_peer_events (recordPeerEvent e s) = omap_assign (pv_target_node_id e) ?new (sv_peer_events s)"
      by (simp add: recordPeerEvent_def Let_def)
    then show ?thesis using ev bound new Some by (auto simp: events_ok_def registry_node_def)
  qed
  then show ?thesis using assms
    by (simp add: server_tables_def clients_ok_def pending_ok_def request_ok_def)
qed

lemma fold_invariant: "P s \<Longrightarrow> (\<And>x t. P t \<Longrightarrow> P (f x t)) \<Longrightarrow> P (fold f xs s)"
  by (induction xs arbitrary: s) auto

lemma applyCleanup_ok:
  assumes "server_tables gone K (insert (dn_node_id c) N) s"
  shows "server_tables False K N (applyCleanup env c s)" "sv_clients (applyCleanup env c s) = sv_clients s"
    "sv_next_connection_id (applyCleanup env c s) = sv_next_connection_id s"
    "sv_state (applyCleanup env c s) = sv_state s"
proof -
  define same where "same t \<longleftrightarrow> server_tables gone K (insert (dn_node_id c) N) t \<and> sv_state t = sv_state s \<and>
    sv_clients t = sv_clients s \<and> sv_next_connection_id t = sv_next_connection_id s" for t
  have act: "same (act xs t)" if "same t" for xs t
    using that tables_cong [of "act xs t" t] by (simp add: same_def)
  have unlink: "same (unlinkSocketPath env p t)" if "same t" for p t
    using act [of "tick t"] that by (simp add: unlinkSocketPath_def same_def)
  have event: "same (recordPeerEvent e t)" if "same t" for e t
    using that tables_recordPeerEvent by (simp add: same_def)
  note folds = fold_invariant [where P = same]
  define sa where "sa = fold (\<lambda>queue. act [RecoverAndClose (queueDescriptor queue),
    UnlinkSharedMemory (sqm_shm_name queue)]) (dn_queues c) s"
  define sb where "sb = fold (\<lambda>pool. act [UnlinkSharedMemory (spm_shm_name pool)]) (dn_pools c) sa"
  define sc where "sc = fold (unlinkSocketPath env) (dn_socket_paths c) sb"
  define s1 where "s1 = fold recordPeerEvent (dn_peer_events c) sc"
  have "same s" using assms by (simp add: same_def)
  then have "same sa" unfolding sa_def by (rule folds [OF _ act])
  then have "same sb" unfolding sb_def by (rule folds [OF _ act])
  then have "same sc" unfolding sc_def by (rule folds [OF _ unlink])
  then have s1: "same s1" unfolding s1_def by (rule folds [OF _ event])
  define s2 where "s2 = s1\<lparr>sv_peer_events := omap_erase (dn_node_id c) (sv_peer_events s1)\<rparr>"
  have eq: "applyCleanup env c s = cleanupPending s2"
    by (simp add: applyCleanup_def Let_def s1_def s2_def sa_def sb_def sc_def)
  have "events_ok N (cleanupPending s2)"
    using s1 unfolding same_def server_tables_def events_ok_def
    by (fastforce simp: s2_def cleanupPending_def split: if_splits)
  moreover have "pending_ok False K (cleanupPending s2)"
    using s1 unfolding same_def server_tables_def pending_ok_def request_ok_def
    by (fastforce simp: s2_def cleanupPending_def publisherEndpoint_def omap_find_filter split: option.splits if_splits)
  moreover have "clients_ok s1" using s1 by (simp add: same_def server_tables_def)
  then have "clients_ok (cleanupPending s2)" by (simp add: clients_ok_def s2_def cleanupPending_def)
  ultimately show "server_tables False K N (applyCleanup env c s)"
    unfolding eq server_tables_def by blast
  show "sv_clients (applyCleanup env c s) = sv_clients s"
    "sv_next_connection_id (applyCleanup env c s) = sv_next_connection_id s"
    "sv_state (applyCleanup env c s) = sv_state s"
    using s1 by (simp_all add: eq s2_def cleanupPending_def same_def)
qed

lemma cleanupNodes_ok:
  assumes "server_tables gone K (dn_node_id ` set cs) s" "cs = [] \<Longrightarrow> \<not> gone"
  shows "server_tables False K {} (cleanupNodes env x cs s) \<and> clients_sub s (cleanupNodes env x cs s) \<and>
    sv_state (cleanupNodes env x cs s) = sv_state s"
  using assms
proof (induction cs arbitrary: s gone)
  case Nil
  then show ?case by (simp add: cleanupNodes_def)
next
  case (Cons c cs)
  let ?s1 = "applyCleanup env c s" and ?s2 = "closeCleanupConnections c x (applyCleanup env c s)"
  have "server_tables gone K (insert (dn_node_id c) (dn_node_id ` set cs)) s" using Cons.prems(1) by simp
  note s1 = applyCleanup_ok [OF this, of env]
  note s2 = closeCleanupConnections_ok [OF s1(1), of c x]
  have "clients_sub s ?s1" using s1 by (intro clients_sub_cong) simp_all
  then have sub: "clients_sub s ?s2" using s2(2) clients_sub_trans by blast
  have "cleanupNodes env x (c # cs) s = cleanupNodes env x cs ?s2" by (simp add: cleanupNodes_def)
  then show ?case using Cons.IH [OF s2(1)] sub s1(4) s2(3) clients_sub_trans by auto
qed

section \<open>Removing clients and answering\<close>

lemma server_inv_tables: "server_inv K a b s \<Longrightarrow> server_tables False K {} s"
  by (simp add: server_inv_def)

lemma server_inv_registry: "server_inv K a b s \<Longrightarrow> registry_inv (sv_state s)"
  by (auto simp: server_inv_def registry_after_def)

lemma waiting_publisher: "waiting c n e st \<Longrightarrow> omap_find e (rs_publishers st) \<noteq> None"
  by (auto simp: waiting_def)

lemma tables_cleanedUp:
  assumes "server_tables False K {} s" "cleanedUp cs (sv_state s) st'"
  shows "server_tables (cs \<noteq> []) K (dn_node_id ` set cs) (s\<lparr>sv_state := st'\<rparr>)"
proof -
  have "request_ok (cs \<noteq> []) K (s\<lparr>sv_state := st'\<rparr>) e p" if "request_ok False K s e p" for e p
  proof -
    have "waiting c n e st' \<or> cs \<noteq> [] \<and> omap_find e (rs_publishers st') = None" if "waiting c n e (sv_state s)" for c n
      using that assms(2) waiting_publisher [OF that] unfolding cleanedUp_def keepsWaiting_def by metis
    then show ?thesis using that by (auto simp: request_ok_def)
  qed
  moreover have "events_ok (dn_node_id ` set cs) (s\<lparr>sv_state := st'\<rparr>)"
    using assms by (fastforce simp: server_tables_def events_ok_def cleanedUp_def)
  ultimately show ?thesis using assms(1) by (auto simp: server_tables_def pending_ok_def clients_ok_def)
qed

lemma cleanedUp_after: "cleanedUp cs st st' \<Longrightarrow> registry_after k st \<Longrightarrow> registry_after k st'"
  by (simp add: cleanedUp_def registry_after_def)

text \<open>A step that keeps the state of the registry and only removes clients keeps the counters.\<close>

lemma server_inv_sub:
  assumes "server_inv K a b s" "server_tables False K {} s'" "clients_sub s s'" "sv_state s' = sv_state s"
  shows "server_inv K a b s'"
  using assms by (fastforce simp: server_inv_def clients_sub_def)

lemma server_inv_cleanup:
  assumes inv: "server_inv K a b s" and clean: "cleanedUp cs (sv_state s) st'" "strings_ok st'"
  shows "server_inv K a b (cleanupNodes env x cs (s\<lparr>sv_state := st'\<rparr>))"
    "clients_sub s (cleanupNodes env x cs (s\<lparr>sv_state := st'\<rparr>))"
proof -
  let ?s = "s\<lparr>sv_state := st'\<rparr>" and ?s' = "cleanupNodes env x cs (s\<lparr>sv_state := st'\<rparr>)"
  have ok: "server_tables False K {} ?s' \<and> clients_sub ?s ?s' \<and> sv_state ?s' = sv_state ?s"
    by (rule cleanupNodes_ok [OF tables_cleanedUp [OF server_inv_tables [OF inv] clean(1)]]) simp
  have "clients_sub s ?s" by (rule clients_sub_cong) simp_all
  then show sub: "clients_sub s ?s'" using ok clients_sub_trans by blast
  obtain k where k: "registry_after k st'" "k + buffered s \<le> b"
    using inv cleanedUp_after [OF clean(1)] by (auto simp: server_inv_def)
  have le: "buffered ?s' \<le> buffered s" "unat (sv_next_connection_id ?s') \<le> Suc a"
    using sub inv by (auto simp: clients_sub_def server_inv_def)
  have st: "sv_state ?s' = st'" using ok by simp
  show "server_inv K a b ?s'" unfolding server_inv_def st
    using ok clean(2) le(2) k le(1) by (intro conjI exI [of _ k]) simp_all
qed

lemma removeClient_ok:
  assumes inv: "server_inv K a b s"
  obtains s' where "removeClient env fd s = Inr s'" "server_inv K a b s'" "clients_sub s s'"
proof (cases "omap_find fd (sv_clients s)")
  case None
  then show thesis using inv by (intro that [of s]) (simp_all add: removeClient_def)
next
  case (Some c)
  obtain cs st' where cs: "disconnectConnection (cc_connection_id c) (sv_state s) = Some (cs, st')"
    "cleanedUp cs (sv_state s) st'"
    using disconnectConnection_cleanedUp [OF server_inv_registry [OF inv]] by blast
  have "strings_ok st'" using strings_disconnectConnection [OF cs(1)] inv by (simp add: server_inv_def)
  moreover have drop: "server_inv K a b (dropClient fd s)"
    by (rule server_inv_sub [OF inv tables_dropClient [OF server_inv_tables [OF inv]] clients_sub_dropClient]) simp
  moreover have "cleanedUp cs (sv_state (dropClient fd s)) st'" using cs(2) by simp
  ultimately show thesis
    using server_inv_cleanup [OF drop, of cs st' env "Some fd"] clients_sub_trans [OF clients_sub_dropClient]
    by (intro that [of "cleanupNodes env (Some fd) cs ((dropClient fd s)\<lparr>sv_state := st'\<rparr>)"])
      (auto simp: removeClient_def orThrown_def Some cs(1))
qed

lemma server_inv_tick [simp]: "server_inv K a b (tick s) = server_inv K a b s"
  by (simp add: server_inv_def buffered_def)

lemma expireDeadNodes_ok:
  assumes inv: "server_inv K a b s"
  obtains s' where "expireDeadNodes env s = Inr s'" "server_inv K a b s'" "clients_sub s s'"
proof -
  obtain u st' where u: "evaluateLiveness (ev_clock env (sv_tick s)) (sv_state s) = Some (u, st')"
    "cleanedUp (lu_dead_nodes u) (sv_state s) st'"
    using evaluateLiveness_cleanedUp [OF server_inv_registry [OF inv]] by blast
  have "strings_ok st'" using strings_evaluateLiveness [OF u(1)] inv by (simp add: server_inv_def)
  moreover have inv': "server_inv K a b (tick s)" using inv by simp
  moreover have "cleanedUp (lu_dead_nodes u) (sv_state (tick s)) st'" using u(2) by simp
  ultimately have clean: "server_inv K a b (cleanupNodes env None (lu_dead_nodes u) ((tick s)\<lparr>sv_state := st'\<rparr>))"
    "clients_sub (tick s) (cleanupNodes env None (lu_dead_nodes u) ((tick s)\<lparr>sv_state := st'\<rparr>))"
    using server_inv_cleanup [OF inv'] by blast+
  show thesis
  proof (rule that)
    show "expireDeadNodes env s = Inr (cleanupNodes env None (lu_dead_nodes u) ((tick s)\<lparr>sv_state := st'\<rparr>))"
      by (simp add: expireDeadNodes_def orThrown_def u(1) tick_def)
    show "clients_sub s (cleanupNodes env None (lu_dead_nodes u) ((tick s)\<lparr>sv_state := st'\<rparr>))"
      by (rule clients_sub_trans [OF _ clean(2)]) (simp add: clients_sub_cong)
  qed (rule clean(1))
qed

lemma updateInterest_ok:
  assumes inv: "server_inv K a b s"
  obtains s' where "updateInterest env fd s = Inr s'" "server_inv K a b s'" "clients_sub s s'"
    "\<forall>t. ev_mod env t \<Longrightarrow> s' = (if omap_find fd (sv_clients s) = None then s else tick s)"
proof (cases "omap_find fd (sv_clients s) = None \<or> ev_mod env (sv_tick s)")
  case True
  then show thesis using inv
    by (intro that [of "if omap_find fd (sv_clients s) = None then s else tick s"])
      (auto simp: updateInterest_def intro: clients_sub_cong)
next
  case False
  obtain s' where "removeClient env fd (tick s) = Inr s'" "server_inv K a b s'" "clients_sub (tick s) s'"
    using removeClient_ok [of K a b "tick s"] inv by auto
  moreover have "clients_sub s (tick s)" by (rule clients_sub_cong) simp_all
  ultimately show thesis using False clients_sub_trans
    by (intro that [of s']) (auto simp: updateInterest_def)
qed

lemma responseFrame_too_large: "responseFrame request_id MessageTooLarge [] \<noteq> None"
  by (simp add: responseFrame_def encodeResponsePayload_def writeString_def writeBytes_def writeU16_def
      writeU32_def appendBigEndian_def encodeControlFrame_def kMaxControlPayloadSize_def)

text \<open>What the answer appends to the output.\<close>

definition answerFrame :: "u32 \<Rightarrow> ErrorCode \<Rightarrow> bytes \<Rightarrow> bytes" where
  "answerFrame request_id error body =
     (case responseFrame request_id error body of
        Some frame \<Rightarrow> frame
      | None \<Rightarrow> the (responseFrame request_id MessageTooLarge []))"

definition queued :: "int \<Rightarrow> u32 \<Rightarrow> ErrorCode \<Rightarrow> bytes \<Rightarrow> RegistryServer \<Rightarrow> RegistryServer" where
  "queued fd request_id error body s =
     modifyClient fd (\<lambda>client. client\<lparr>cc_output := cc_output client @ answerFrame request_id error body\<rparr>) s"

lemma queueResponse_eq:
  "queueResponse env fd request_id error body s =
     (if omap_find fd (sv_clients s) = None then Inr s
      else updateInterest env fd (queued fd request_id error body s))"
  using responseFrame_too_large [of request_id]
  by (auto simp: queueResponse_def queued_def answerFrame_def orThrown_def split: option.split)

lemma server_inv_modifyClient:
  assumes "server_inv K a b s" "\<And>c. cc_connection_id (f c) = cc_connection_id c"
    "\<And>c. cc_input (f c) = cc_input c"
    "\<And>c. omap_find fd (sv_clients s) = Some c \<Longrightarrow> cc_output_offset c \<le> length (cc_output c) \<Longrightarrow>
       cc_output_offset (f c) \<le> length (cc_output (f c))"
  shows "server_inv K a b (modifyClient fd f s)"
  using assms(1) tables_modifyClient [OF server_inv_tables [OF assms(1)] assms(2,4)]
  by (auto simp: server_inv_def buffered_modify [OF assms(3)])

lemma clients_sub_modify:
  assumes "\<And>c. cc_connection_id (f c) = cc_connection_id c" "\<And>c. cc_input (f c) = cc_input c"
    "\<And>c. cc_close_after_write (f c) = cc_close_after_write c"
  shows "clients_sub s (modifyClient fd f s)"
  using assms buffered_modify [of f fd s] by (auto simp: clients_sub_def split: if_splits)

lemma queueResponse_ok:
  assumes inv: "server_inv K a b s"
  obtains s' where "queueResponse env fd request_id error body s = Inr s'" "server_inv K a b s'" "clients_sub s s'"
    "\<forall>t. ev_mod env t \<Longrightarrow>
       s' = (if omap_find fd (sv_clients s) = None then s else tick (queued fd request_id error body s))"
proof (cases "omap_find fd (sv_clients s) = None")
  case True
  then show thesis using inv by (intro that [of s]) (simp_all add: queueResponse_def)
next
  case False
  have sub: "clients_sub s (queued fd request_id error body s)"
    unfolding queued_def by (rule clients_sub_modify) simp_all
  have "server_inv K a b (queued fd request_id error body s)"
    unfolding queued_def by (rule server_inv_modifyClient [OF inv]) simp_all
  from updateInterest_ok [OF this, of env fd] obtain s' where s':
    "updateInterest env fd (queued fd request_id error body s) = Inr s'" "server_inv K a b s'"
    "clients_sub (queued fd request_id error body s) s'"
    "\<forall>t. ev_mod env t \<Longrightarrow> s' = tick (queued fd request_id error body s)"
    using False by (auto simp: queued_def split: if_splits)
  show thesis
  proof (rule that)
    show "queueResponse env fd request_id error body s = Inr s'" using s'(1) False by (auto simp: queueResponse_eq)
    show "clients_sub s s'" using sub s'(3) by (rule clients_sub_trans)
    show "s' = (if omap_find fd (sv_clients s) = None then s else tick (queued fd request_id error body s))"
      if "\<forall>t. ev_mod env t" using s'(4) [OF that] False by auto
  qed (rule s'(2))
qed

section \<open>Handlers\<close>

text \<open>
  A handler is safe when it ends in a state that satisfies its postcondition; it can leave a reference
  dangling only in an environment where \<open>EPOLL_CTL_MOD\<close> fails.
\<close>

definition safe :: "ServerEnv \<Rightarrow> (RegistryServer \<Rightarrow> bool) \<Rightarrow> ServerFault + RegistryServer \<Rightarrow> bool" where
  "safe env Q r \<longleftrightarrow> (case r of Inr s \<Rightarrow> Q s | Inl f \<Rightarrow> f = DanglingReference \<and> \<not> (\<forall>t. ev_mod env t))"

lemma safe_Inr [simp]: "safe env Q (Inr s) = Q s"
  by (simp add: safe_def)

lemma safe_dangling [simp]: "safe env Q (Inl DanglingReference) \<longleftrightarrow> \<not> (\<forall>t. ev_mod env t)"
  by (simp add: safe_def)

lemma safe_bind:
  assumes "safe env P r" "\<And>s. P s \<Longrightarrow> safe env Q (f s)"
  shows "safe env Q (bindE r f)"
  using assms by (cases r) (auto simp: safe_def)

lemma safe_mono: "safe env P r \<Longrightarrow> (\<And>s. P s \<Longrightarrow> Q s) \<Longrightarrow> safe env Q r"
  by (auto simp: safe_def split: sum.splits)

lemma orThrown_Some [simp]: "orThrown what (Some x) = Inr x"
  by (simp add: orThrown_def)

definition reaches :: "u64 set \<Rightarrow> nat \<Rightarrow> nat \<Rightarrow> RegistryServer \<Rightarrow> RegistryServer \<Rightarrow> bool" where
  "reaches K a b s s' \<longleftrightarrow> server_inv K a b s' \<and> clients_sub s s'"

lemma queueResponse_safe:
  "server_inv K a b s \<Longrightarrow> safe env (reaches K a b s) (queueResponse env fd request_id error body s)"
  by (rule queueResponse_ok [of K a b s env fd request_id error body]) (auto simp: reaches_def)

lemma answer_safe:
  "server_inv K a b s \<Longrightarrow> body \<noteq> None \<Longrightarrow> safe env (reaches K a b s) (answer env fd request_id error body s)"
  using queueResponse_safe by (auto simp: answer_def)

lemma server_inv_mono: "server_inv K a b s \<Longrightarrow> K \<subseteq> K' \<Longrightarrow> a \<le> a' \<Longrightarrow> b \<le> b' \<Longrightarrow> server_inv K' a' b' s"
  unfolding server_inv_def using tables_mono [of False K "{}" s False K' "{}"]
  by (meson Suc_le_mono le_refl order_trans order_refl)

lemma reaches_base: "reaches K a b s1 s' \<Longrightarrow> clients_sub s s1 \<Longrightarrow> reaches K a b s s'"
  using clients_sub_trans by (auto simp: reaches_def)

lemma safe_after:
  assumes "safe env (reaches K a b s1) r" "clients_sub s s1"
  shows "safe env (reaches K a b s) r"
  using assms(1) reaches_base [OF _ assms(2)] by (rule safe_mono)

subsection \<open>Pending discoveries\<close>

lemma writeSubscribers_total:
  "\<forall>d \<in> set ds. short (ds_data_socket_path d) \<and> short (sqm_shm_name (ds_queue d)) \<Longrightarrow>
     writeSubscribers writer ds \<noteq> None"
  by (induction ds arbitrary: writer) (auto simp: writeString_field Let_def)

lemma discoveryBody_total: "strings_ok st \<Longrightarrow> resolve c n e st = Some r \<Longrightarrow> discoveryBody r \<noteq> None"
  using resolve_short [of st c n e r] writeSubscribers_total [of "dr_subscribers r"]
  by (auto simp: discoveryBody_def writeString_field Let_def)

lemma server_inv_settle:
  assumes "server_inv (insert e K) a b s"
    "\<And>p. omap_find e (sv_pending s) = Some p \<Longrightarrow> waiting (pdy_connection_id p) (pdy_node_id p) e (sv_state s)"
  shows "server_inv K a b s"
  using assms unfolding server_inv_def server_tables_def pending_ok_def request_ok_def by blast

lemma server_inv_erase_pending:
  assumes "server_inv (insert e K) a b s"
  shows "server_inv K a b (s\<lparr>sv_pending := omap_erase e (sv_pending s)\<rparr>)"
proof -
  have "pending_ok False K (s\<lparr>sv_pending := omap_erase e (sv_pending s)\<rparr>)"
    using assms by (auto simp: server_inv_def server_tables_def pending_ok_def request_ok_def split: if_splits)
  then show ?thesis using assms
    by (simp add: server_inv_def server_tables_def clients_ok_def events_ok_def buffered_def)
qed

lemma completeRequests_safe:
  "server_inv (set es) a b s \<Longrightarrow> safe env (reaches {} a b s) (completeRequests env es s)"
proof (induction es arbitrary: s)
  case Nil
  then show ?case by (simp add: reaches_def)
next
  case (Cons e es)
  show ?case
  proof (cases "omap_find e (sv_pending s)")
    case None
    then have "server_inv (set es) a b s"
      using Cons.prems by (intro server_inv_settle [of e "set es"]) simp_all
    then show ?thesis using Cons.IH None by simp
  next
    case (Some p)
    have req: "pdy_publisher_endpoint_id p = e" "omap_find (pdy_fd p) (sv_clients s) \<noteq> None"
      using server_inv_tables [OF Cons.prems] Some
      unfolding server_tables_def pending_ok_def request_ok_def by (fastforce, fastforce)
    obtain r where r: "resolve (pdy_connection_id p) (pdy_node_id p) e (sv_state s) = Some r"
      "dr_error r = TopicNotFound \<longleftrightarrow> waiting (pdy_connection_id p) (pdy_node_id p) e (sv_state s)"
      using resolve_waiting [OF server_inv_registry [OF Cons.prems]] by blast
    obtain body where body: "discoveryBody r = Some body"
      using discoveryBody_total [OF _ r(1)] Cons.prems by (auto simp: server_inv_def)
    show ?thesis
    proof (cases "dr_error r = TopicNotFound")
      case True
      then have "server_inv (set es) a b s"
        using Cons.prems Some r(2) by (intro server_inv_settle [of e "set es"]) simp_all
      then show ?thesis using Cons.IH Some r(1) req True by simp
    next
      case False
      obtain s1 where s1: "queueResponse env (pdy_fd p) (pdy_request_id p) (dr_error r) body s = Inr s1"
        "server_inv (insert e (set es)) a b s1" "clients_sub s s1"
        "\<forall>t. ev_mod env t \<Longrightarrow> sv_pending s1 = sv_pending s"
        by (rule queueResponse_ok [OF Cons.prems, of env "pdy_fd p" "pdy_request_id p" "dr_error r" body])
          (auto simp: queued_def split: if_splits)
      let ?s2 = "s1\<lparr>sv_pending := omap_erase e (sv_pending s1)\<rparr>"
      have eq: "completeRequests env (e # es) s = (if omap_find e (sv_pending s1) = None then Inl DanglingReference
          else completeRequests env es ?s2)"
        using Some r(1) req False body s1(1) by simp
      show ?thesis
      proof (cases "omap_find e (sv_pending s1) = None")
        case True
        then have "\<not> (\<forall>t. ev_mod env t)" using s1(4) Some by (metis option.distinct(1))
        then show ?thesis using True unfolding eq by simp
      next
        case present: False
        have "clients_sub s ?s2" using s1(3) by (rule clients_sub_trans) (simp add: clients_sub_cong)
        then show ?thesis unfolding eq using present
          safe_after [OF Cons.IH [OF server_inv_erase_pending [OF s1(2)]]] by auto
      qed
    qed
  qed
qed

lemma completePending_safe:
  assumes "server_inv UNIV a b s"
  shows "safe env (reaches {} a b s) (completePending env s)"
proof -
  have "server_inv (set (map fst (sv_pending s))) a b s"
    using assms unfolding server_inv_def server_tables_def pending_ok_def request_ok_def
    by (auto dest!: map_of_SomeD intro: rev_image_eqI)
  then show ?thesis unfolding completePending_def by (rule completeRequests_safe)
qed

subsection \<open>Requests\<close>

lemma clients_sub_frames [simp]:
  "clients_sub s (s\<lparr>sv_state := st\<rparr>)" "clients_sub s (tick s)" "clients_sub s (cleanupPending s)"
  "clients_sub s (s\<lparr>sv_peer_events := ev\<rparr>)" "clients_sub s (s\<lparr>sv_pending := p\<rparr>)"
  by (simp_all add: clients_sub_cong cleanupPending_def)

lemma server_inv_state:
  assumes inv: "server_inv K a b s" and b: "b < 2 ^ 64 - 2"
    and call: "registry_call call (sv_state s) = Some st'" and strings: "strings_ok st'"
    and waits: "K = UNIV \<or> keepsWaiting (sv_state s) st'" and entries: "keepsEntries (sv_state s) st'"
  shows "server_inv K a (Suc b) (s\<lparr>sv_state := st'\<rparr>)"
proof -
  note tables = server_inv_tables [OF inv, unfolded server_tables_def]
  obtain k where k: "registry_after k (sv_state s)" "k + buffered s \<le> b" using inv by (auto simp: server_inv_def)
  have "registry_after (Suc k) st'" using registry_after_call [OF k(1) _ call] k(2) b by simp
  moreover have "request_ok False K (s\<lparr>sv_state := st'\<rparr>) e p" if "request_ok False K s e p" for e p
  proof -
    have "waiting c n e st'" if "waiting c n e (sv_state s)" "K \<noteq> UNIV" for c n
      using that waits entries waiting_publisher [OF that(1)] unfolding keepsWaiting_def keepsEntries_def by blast
    then show ?thesis using that by (cases "K = UNIV") (auto simp: request_ok_def)
  qed
  moreover have "events_ok {} (s\<lparr>sv_state := st'\<rparr>)"
    using tables entries unfolding events_ok_def keepsEntries_def by (simp del: not_None_eq)
  moreover have "clients_ok (s\<lparr>sv_state := st'\<rparr>)" using tables by (simp add: clients_ok_def)
  ultimately show ?thesis using inv strings k(2) tables
    unfolding server_inv_def server_tables_def pending_ok_def buffered_def
    by (auto intro!: exI [of _ "Suc k"])
qed

lemma readString_short: "readString r = Some (v, r') \<Longrightarrow> short v"
proof -
  assume "readString r = Some (v, r')"
  then obtain n :: u32 and r1 where "v = string_of_bytes (read_at (rd_offset r1) (unat n) (rd_data r1))"
    "unat n \<le> rd_remaining r1"
    by (auto simp: readString_def split: option.splits if_splits)
  then have "length v \<le> unat n" by (simp add: read_at_def)
  moreover have "unat n \<le> 0xFFFFFFFF" using unsigned_less [where w = n and 'a = nat] by simp
  ultimately show "short v" by linarith
qed

lemma parseString_short: "parseString payload = Some v \<Longrightarrow> short v"
  by (auto simp: parseString_def split: Option.bind_splits if_splits dest: readString_short)

lemma parseAdvertise_short:
  assumes "parseAdvertise payload = Some r"
  shows "short (ar_topic_name r)" "short (ar_type_name r)" "short (ar_type_hash r)" "short (spm_shm_name (ar_pool r))"
  using assms by (auto simp: parseAdvertise_def split: Option.bind_splits if_splits dest!: readString_short)

lemma parseSubscribe_short:
  assumes "parseSubscribe payload = Some r"
  shows "short (sr_topic_name r)" "short (sr_type_name r)" "short (sr_type_hash r)"
    "short (sr_data_socket_path r)" "short (sqm_shm_name (sr_queue r))"
  using assms by (auto simp: parseSubscribe_def split: Option.bind_splits if_splits dest!: readString_short)

lemma endpointBody_total: "short (spm_shm_name (epr_pool result)) \<Longrightarrow> endpointBody result \<noteq> None"
  by (simp add: endpointBody_def writeString_field Let_def)

lemma writeNodes_total: "\<forall>node \<in> set nodes. nodeShort node \<Longrightarrow> writeNodes writer nodes \<noteq> None"
  by (induction nodes arbitrary: writer) (auto simp: writeString_field nodeShort_def)

lemma writeTopics_total: "\<forall>topic \<in> set topics. topicShort topic \<Longrightarrow> writeTopics writer topics \<noteq> None"
  by (induction topics arbitrary: writer) (auto simp: writeString_field topicShort_def)

lemma query_bodies_total:
  assumes "strings_ok st"
  shows "nodesBody (listNodes st) \<noteq> None" "topicsBody (listTopics st) \<noteq> None"
    "queryTopic name st = Some (Some topic) \<Longrightarrow> topicBody topic \<noteq> None"
proof -
  show "nodesBody (listNodes st) \<noteq> None" unfolding nodesBody_def
    using assms by (intro writeNodes_total) (auto simp: listNodes_def strings_ok_def omap_all_def)
  show "topicsBody (listTopics st) \<noteq> None" unfolding topicsBody_def
    using assms by (intro writeTopics_total) (auto simp: listTopics_def strings_ok_def omap_all_def)
  show "topicBody topic \<noteq> None" if "queryTopic name st = Some (Some topic)"
  proof -
    have "topicShort topic"
      using that assms by (auto simp: queryTopic_def strings_ok_def split: option.splits Option.bind_splits
          dest: omap_all_find)
    then show ?thesis by (simp add: topicBody_def topicShort_def writeString_field Let_def)
  qed
qed

lemma queryTopic_total: "registry_inv st \<Longrightarrow> queryTopic name st \<noteq> None"
  by (cases "omap_find name (rs_topic_names st)")
    (auto simp: queryTopic_def elim: registry_topic_named)

text \<open>The answer after a call of the registry that keeps its entries.\<close>

lemma call_then_answer:
  assumes "server_inv {} a b s" "b < 2 ^ 64 - 2" "registry_call call (sv_state s) = Some st'" "strings_ok st'"
    "keepsWaiting (sv_state s) st'" "keepsEntries (sv_state s) st'" "body \<noteq> None"
  shows "safe env (reaches {} a (Suc b) s) (answer env fd request_id error body (s\<lparr>sv_state := st'\<rparr>))"
proof -
  have "server_inv {} a (Suc b) (s\<lparr>sv_state := st'\<rparr>)"
    by (rule server_inv_state [OF assms(1-4) disjI2 [OF assms(5)] assms(6)])
  from safe_after [OF answer_safe [OF this assms(7)]] show ?thesis by simp
qed

lemma answer_queue: "answer env fd request_id error (Some body) s = queueResponse env fd request_id error body s"
  by (simp add: answer_def)

lemma reject_safe:
  "server_inv {} a b s \<Longrightarrow> safe env (reaches {} a (Suc b) s) (queueResponse env fd request_id error body s)"
  by (rule queueResponse_safe) (auto elim: server_inv_mono)

lemma handleRegisterNode_safe:
  assumes inv: "server_inv {} a b s" and b: "b < 2 ^ 64 - 2"
  shows "safe env (reaches {} a (Suc b) s) (handleRegisterNode env fd c request_id payload s)"
proof (cases "parseString payload")
  case None
  then show ?thesis using reject_safe [OF inv] by (simp add: handleRegisterNode_def)
next
  case (Some name)
  let ?now = "ev_clock env (sv_tick s)"
  obtain result st' where r: "registerNode c name ?now (sv_state s) = (result, st')" by fastforce
  have st': "st' = snd (registerNode c name ?now (sv_state s))" by (simp add: r)
  have inv': "server_inv {} a b (tick s)" using inv by simp
  have "safe env (reaches {} a (Suc b) (tick s)) (answer env fd request_id (ir_error result)
      (Some (pairPayload (ir_id result) (ir_session_id result))) ((tick s)\<lparr>sv_state := st'\<rparr>))"
    using inv parseString_short [OF Some]
    by (intro call_then_answer [OF inv' b, where call = "RegisterNodeCall c name ?now"])
      (auto simp: st' strings_registerNode server_inv_def waiting_registerNode [OF server_inv_registry [OF inv]]
        entries_registerNode)
  from safe_after [OF this clients_sub_frames(2)] show ?thesis by (simp add: handleRegisterNode_def Some r answer_queue tick_def)
qed

lemma handleAdvertiseTopic_safe:
  assumes inv: "server_inv {} a b s" and b: "b < 2 ^ 64 - 2"
  shows "safe env (reaches {} a (Suc b) s) (handleAdvertiseTopic env fd c request_id payload s)"
proof (cases "parseAdvertise payload")
  case None
  then show ?thesis using reject_safe [OF inv] by (simp add: handleAdvertiseTopic_def)
next
  case (Some r)
  note short = parseAdvertise_short [OF Some]
  obtain k where k: "registry_after k (sv_state s)" "k < 2 ^ 64 - 2" using inv b by (auto simp: server_inv_def)
  note wrap = registry_after_no_wrap [OF k]
  note reg = server_inv_registry [OF inv]
  have strings: "strings_ok (sv_state s)" using inv by (simp add: server_inv_def)
  let ?adv = "advertise c (ar_node_id r) (ar_topic_name r) (ar_type_name r) (ar_type_hash r)
    (ar_max_message_size r) (transportCastOf (ar_transport r)) (ar_pool r) (sv_state s)"
  obtain result st' where adv: "?adv = Some (result, st')" using advertise_ok [OF reg wrap(2,3)] by blast
  have "safe env (reaches {} a (Suc b) s)
      (answer env fd request_id (epr_error result) (endpointBody result) (s\<lparr>sv_state := st'\<rparr>))"
    by (rule call_then_answer [OF inv b, where call = "AdvertiseCall c (ar_node_id r) (ar_topic_name r)
        (ar_type_name r) (ar_type_hash r) (ar_max_message_size r) (transportCastOf (ar_transport r)) (ar_pool r)"])
      (use adv short strings_advertise [OF adv strings short] waiting_advertise [OF reg wrap(2) adv]
        entries_advertise [OF reg adv] endpointBody_total [OF advertise_short [OF adv short(4)]] in simp_all)
  then show ?thesis using reject_safe [OF inv] by (simp add: handleAdvertiseTopic_def Some adv)
qed

lemma handleSubscribeTopic_safe:
  assumes inv: "server_inv {} a b s" and b: "b < 2 ^ 64 - 2"
  shows "safe env (reaches {} a (Suc b) s) (handleSubscribeTopic env fd c request_id payload s)"
proof (cases "parseSubscribe payload")
  case None
  then show ?thesis using reject_safe [OF inv] by (simp add: handleSubscribeTopic_def)
next
  case (Some r)
  note short = parseSubscribe_short [OF Some]
  obtain k where k: "registry_after k (sv_state s)" "k < 2 ^ 64 - 2" using inv b by (auto simp: server_inv_def)
  note wrap = registry_after_no_wrap [OF k]
  note reg = server_inv_registry [OF inv]
  have strings: "strings_ok (sv_state s)" using inv by (simp add: server_inv_def)
  let ?call = "SubscribeCall c (sr_node_id r) (sr_topic_name r) (sr_type_name r) (sr_type_hash r)
    (sr_max_message_size r) (sr_data_socket_path r) (transportCastOf (sr_transport r)) (sr_queue r)"
  let ?sub = "subscribe c (sr_node_id r) (sr_topic_name r) (sr_type_name r) (sr_type_hash r)
    (sr_max_message_size r) (sr_data_socket_path r) (transportCastOf (sr_transport r)) (sr_queue r) (sv_state s)"
  obtain result st' where sub: "?sub = Some (result, st')" using subscribe_ok [OF reg wrap(2,3)] by blast
  let ?s1 = "s\<lparr>sv_state := st'\<rparr>"
  have call: "registry_call ?call (sv_state s) = Some st'" using sub by simp
  note strings' = strings_subscribe [OF sub strings short]
  have body: "endpointBody result \<noteq> None" by (rule endpointBody_total [OF subscribe_short [OF reg strings sub]])
  have csub: "clients_sub s ?s1" by simp
  have "safe env (reaches {} a (Suc b) s)
    (bindE (answer env fd request_id (epr_error result) (endpointBody result) ?s1)
       (\<lambda>s. if epr_error result = Ok then completePending env s else Inr s))"
  proof (cases "epr_error result = Ok")
    case True
    have "server_inv UNIV a (Suc b) ?s1"
      by (rule server_inv_state [OF server_inv_mono [OF inv] b call strings'])
        (use entries_subscribe [OF reg sub] in simp_all)
    from safe_after [OF answer_safe [OF this body] csub]
    have "safe env (reaches UNIV a (Suc b) s) (answer env fd request_id (epr_error result) (endpointBody result) ?s1)" .
    then show ?thesis
    proof (rule safe_bind)
      fix s2 assume s2: "reaches UNIV a (Suc b) s s2"
      then show "safe env (reaches {} a (Suc b) s) (if epr_error result = Ok then completePending env s2 else Inr s2)"
        using True safe_after [OF completePending_safe] by (simp add: reaches_def)
    qed
  next
    case False
    then have "st' = sv_state s" using subscribe_forms [OF reg sub] sub
      by (auto simp: subscribe_def topicConflict_def endpointError_def Let_def split: option.splits if_splits Option.bind_splits)
    then have "server_inv {} a (Suc b) ?s1" using server_inv_mono [OF inv] by simp
    from safe_after [OF answer_safe [OF this body] csub] show ?thesis
      by (rule safe_bind) (simp add: False)
  qed
  then show ?thesis using reject_safe [OF inv] by (simp add: handleSubscribeTopic_def Some sub)
qed

lemma handleUnregisterNode_safe:
  assumes inv: "server_inv {} a b s"
  shows "safe env (reaches {} a (Suc b) s) (handleUnregisterNode env fd c request_id payload s)"
proof (cases "parseU64 payload")
  case None
  then show ?thesis using reject_safe [OF inv] by (simp add: handleUnregisterNode_def)
next
  case (Some n)
  note reg = server_inv_registry [OF inv]
  have strings: "strings_ok (sv_state s)" using inv by (simp add: server_inv_def)
  let ?done = "\<lambda>err st'. cleanupPending (if err = Ok
    then s\<lparr>sv_state := st', sv_peer_events := omap_erase n (sv_peer_events s)\<rparr> else s\<lparr>sv_state := st'\<rparr>)"
  have eq: "handleUnregisterNode env fd c request_id payload s = queueResponse env fd request_id err [] (?done err st')"
    if "unregisterNode c n (sv_state s) = Some (err, st')" for err st'
    using that Some by (simp add: handleUnregisterNode_def Let_def)
  have sub: "clients_sub s (?done err st')" for err st'
    by (rule clients_sub_cong) (simp_all add: cleanupPending_def)
  show ?thesis
  proof (cases "ownedNode c n (sv_state s)")
    case None
    then have un: "unregisterNode c n (sv_state s) = Some (NotRegistered, sv_state s)" by (simp add: unregisterNode_def)
    have "pending_ok False {} (cleanupPending s)"
      using server_inv_tables [OF inv] unfolding server_tables_def pending_ok_def request_ok_def
      by (auto simp: cleanupPending_def omap_find_filter split: option.splits if_splits)
    then have "server_tables False {} {} (cleanupPending s)"
      using server_inv_tables [OF inv] unfolding server_tables_def clients_ok_def events_ok_def
      by (simp add: cleanupPending_def)
    then have "server_inv {} a b (?done NotRegistered (sv_state s))"
      using server_inv_sub [OF inv _ clients_sub_frames(3)] by (simp add: cleanupPending_def)
    from safe_after [OF reject_safe [OF this] sub] show ?thesis unfolding eq [OF un] .
  next
    case owned: (Some node)
    obtain st' where st': "unregisterNode c n (sv_state s) = Some (Ok, st')" "registry_inv st'"
      "withoutNodes {n} (sv_state s) st'"
      using unregisterNode_effect [OF reg owned] by blast
    note keeps = waiting_withoutNodes [OF st'(3)]
    have "pending_ok False {} (?done Ok st')"
      using server_inv_tables [OF inv] keeps
      unfolding server_tables_def pending_ok_def request_ok_def keepsWaiting_def
      by (fastforce simp: cleanupPending_def publisherEndpoint_def omap_find_filter split: option.splits if_splits)
    moreover have "events_ok {} (?done Ok st')"
      using server_inv_tables [OF inv] st'(3) unfolding server_tables_def events_ok_def withoutNodes_def
      by (auto simp: cleanupPending_def split: if_splits)
    moreover have "clients_ok (?done Ok st')"
      using server_inv_tables [OF inv] unfolding server_tables_def clients_ok_def by (simp add: cleanupPending_def)
    ultimately have "server_tables False {} {} (?done Ok st')" by (simp add: server_tables_def)
    moreover obtain k where k: "registry_after k (sv_state s)" "k + buffered s \<le> b" using inv by (auto simp: server_inv_def)
    then have "registry_after k st'" using st'(2,3) by (simp add: registry_after_def withoutNodes_def)
    ultimately have "server_inv {} a b (?done Ok st')"
      using inv k(2) strings_unregisterNode [OF st'(1) strings] unfolding server_inv_def
      by (auto simp: cleanupPending_def buffered_def)
    from safe_after [OF reject_safe [OF this] sub] show ?thesis unfolding eq [OF st'(1)] .
  qed
qed

lemma handleUnadvertiseTopic_safe:
  assumes inv: "server_inv {} a b s" and b: "b < 2 ^ 64 - 2"
  shows "safe env (reaches {} a (Suc b) s) (handleUnadvertiseTopic env fd c request_id payload s)"
proof (cases "parsePair payload")
  case None
  then show ?thesis using reject_safe [OF inv] by (simp add: handleUnadvertiseTopic_def)
next
  case (Some pair)
  obtain n e where pair: "pair = (n, e)" by (cases pair)
  note reg = server_inv_registry [OF inv]
  have strings: "strings_ok (sv_state s)" using inv by (simp add: server_inv_def)
  obtain err st' where un: "unadvertise c n e (sv_state s) = Some (err, st')" "registry_inv st'"
    "rs_next_node_id st' = rs_next_node_id (sv_state s)" "rs_next_topic_id st' = rs_next_topic_id (sv_state s)"
    "rs_next_endpoint_id st' = rs_next_endpoint_id (sv_state s)"
    using counters_unadvertise [OF reg] by blast
  let ?s1 = "s\<lparr>sv_state := st', sv_pending := omap_erase e (sv_pending s)\<rparr>"
  note keeps = waiting_unadvertise [OF reg un(1)]
  have "request_ok False {} ?s1 k p" if "request_ok False {} s k p" "k \<noteq> e" for k p
  proof -
    have "waiting ci ni k st'" if "waiting ci ni k (sv_state s)" for ci ni
      using keeps(1) that keeps(2) [of k] waiting_publisher [OF that] \<open>k \<noteq> e\<close> unfolding keepsWaiting_def by metis
    then show ?thesis using that by (auto simp: request_ok_def)
  qed
  then have "pending_ok False {} ?s1"
    using server_inv_tables [OF inv] by (auto simp: server_tables_def pending_ok_def split: if_splits)
  moreover have "events_ok {} ?s1"
    using server_inv_tables [OF inv] nodes_unadvertise [OF un(1)] unfolding server_tables_def events_ok_def by simp
  moreover have "clients_ok ?s1" using server_inv_tables [OF inv] by (simp add: server_tables_def clients_ok_def)
  ultimately have "server_tables False {} {} ?s1" by (simp add: server_tables_def)
  moreover obtain k where k: "registry_after k (sv_state s)" "k + buffered s \<le> b" using inv by (auto simp: server_inv_def)
  then have "registry_after k st'" using un(2-5) by (simp add: registry_after_def)
  ultimately have "server_inv {} a b ?s1"
    using inv k(2) strings_unadvertise [OF un(1) strings] unfolding server_inv_def by (auto simp: buffered_def)
  from safe_after [OF reject_safe [OF this]] show ?thesis
    by (simp add: handleUnadvertiseTopic_def Some pair un(1) clients_sub_cong)
qed

lemma handleUnsubscribeTopic_safe:
  assumes inv: "server_inv {} a b s" and b: "b < 2 ^ 64 - 2"
  shows "safe env (reaches {} a (Suc b) s) (handleUnsubscribeTopic env fd c request_id payload s)"
proof (cases "parsePair payload")
  case None
  then show ?thesis using reject_safe [OF inv] by (simp add: handleUnsubscribeTopic_def)
next
  case (Some pair)
  obtain n e where pair: "pair = (n, e)" by (cases pair)
  note reg = server_inv_registry [OF inv]
  have strings: "strings_ok (sv_state s)" using inv by (simp add: server_inv_def)
  obtain err st' where un: "unsubscribe c n e (sv_state s) = Some (err, st')"
    using counters_unsubscribe [OF reg] by blast
  have "keepsEntries (sv_state s) st'"
    using waiting_unsubscribe [OF reg un] nodes_unsubscribe [OF un] by (simp add: keepsEntries_def del: not_None_eq)
  then have "safe env (reaches {} a (Suc b) s) (answer env fd request_id err (Some []) (s\<lparr>sv_state := st'\<rparr>))"
    using waiting_unsubscribe [OF reg un] strings_unsubscribe [OF un strings] un
    by (intro call_then_answer [OF inv b, where call = "UnsubscribeCall c n e"]) simp_all
  then show ?thesis by (simp add: handleUnsubscribeTopic_def Some pair un answer_queue)
qed

lemma handleResolveEndpoint_safe:
  assumes inv: "server_inv {} a b s"
    and client: "omap_find fd (sv_clients s) = Some client" "cc_connection_id client = c"
  shows "safe env (reaches {} a (Suc b) s) (handleResolveEndpoint env fd c request_id payload s)"
proof (cases "parsePair payload")
  case None
  then show ?thesis using reject_safe [OF inv] by (simp add: handleResolveEndpoint_def)
next
  case (Some pair)
  obtain n e where pair: "pair = (n, e)" by (cases pair)
  obtain r where r: "resolve c n e (sv_state s) = Some r" "dr_error r = TopicNotFound \<longleftrightarrow> waiting c n e (sv_state s)"
    using resolve_waiting [OF server_inv_registry [OF inv]] by blast
  show ?thesis
  proof (cases "dr_error r = TopicNotFound")
    case True
    let ?p = "\<lparr>pdy_fd = fd, pdy_connection_id = c, pdy_node_id = n, pdy_publisher_endpoint_id = e,
      pdy_request_id = request_id\<rparr>"
    let ?s1 = "s\<lparr>sv_pending := omap_assign e ?p (sv_pending s)\<rparr>"
    have "request_ok False {} ?s1 e ?p" using True r(2) client by (simp add: request_ok_def)
    then have "pending_ok False {} ?s1"
      using server_inv_tables [OF inv] by (auto simp: server_tables_def pending_ok_def request_ok_def split: if_splits)
    then have "server_inv {} a b ?s1"
      using inv by (simp add: server_inv_def server_tables_def clients_ok_def events_ok_def buffered_def)
    then have "server_inv {} a (Suc b) ?s1" by (rule server_inv_mono) simp_all
    then show ?thesis using True r(1) Some pair by (simp add: handleResolveEndpoint_def reaches_def)
  next
    case False
    have "discoveryBody r \<noteq> None" using discoveryBody_total [OF _ r(1)] inv by (simp add: server_inv_def)
    moreover have "server_inv {} a (Suc b) s" using inv by (rule server_inv_mono) simp_all
    ultimately show ?thesis using False r(1) Some pair answer_safe by (simp add: handleResolveEndpoint_def)
  qed
qed

lemma handleQueries_safe:
  assumes inv: "server_inv {} a b s"
  shows "safe env (reaches {} a (Suc b) s) (handleListNodes env fd request_id payload s)"
    "safe env (reaches {} a (Suc b) s) (handleListTopics env fd request_id payload s)"
    "safe env (reaches {} a (Suc b) s) (handleQueryTopic env fd request_id payload s)"
    "safe env (reaches {} a (Suc b) s) (handleQueryStats env fd request_id payload s)"
proof -
  have strings: "strings_ok (sv_state s)" using inv by (simp add: server_inv_def)
  have inv': "server_inv {} a (Suc b) s" using inv by (rule server_inv_mono) simp_all
  note total = query_bodies_total [OF strings]
  note answers = answer_safe [OF inv'] reject_safe [OF inv]
  show "safe env (reaches {} a (Suc b) s) (handleListNodes env fd request_id payload s)"
    using answers total(1) by (simp add: handleListNodes_def)
  show "safe env (reaches {} a (Suc b) s) (handleListTopics env fd request_id payload s)"
    using answers total(2) by (simp add: handleListTopics_def)
  show "safe env (reaches {} a (Suc b) s) (handleQueryStats env fd request_id payload s)"
    using answers by (simp add: handleQueryStats_def)
  show "safe env (reaches {} a (Suc b) s) (handleQueryTopic env fd request_id payload s)"
  proof (cases "parseString payload")
    case None
    then show ?thesis using answers by (simp add: handleQueryTopic_def)
  next
    case (Some name)
    obtain t where "queryTopic name (sv_state s) = Some t"
      using queryTopic_total [OF server_inv_registry [OF inv]] by blast
    then show ?thesis using Some answers total(3) by (cases t) (auto simp: handleQueryTopic_def)
  qed
qed

lemma handleAttachHeartbeat_safe:
  assumes inv: "server_inv {} a b s" and b: "b < 2 ^ 64 - 2"
  shows "safe env (reaches {} a (Suc b) s) (handleAttachHeartbeat env fd c request_id payload s)"
proof (cases "parsePair payload")
  case None
  then show ?thesis using reject_safe [OF inv] by (simp add: handleAttachHeartbeat_def)
next
  case (Some pair)
  obtain n i where pair: "pair = (n, i)" by (cases pair)
  obtain err st' where at: "attachHeartbeat c n i (sv_state s) = (err, st')" by fastforce
  then have st': "st' = snd (attachHeartbeat c n i (sv_state s))" by simp
  have "safe env (reaches {} a (Suc b) s) (answer env fd request_id err (Some []) (s\<lparr>sv_state := st'\<rparr>))"
    using inv by (intro call_then_answer [OF inv b, where call = "AttachHeartbeatCall c n i"])
      (auto simp: st' strings_attachHeartbeat server_inv_def waiting_attachHeartbeat entries_attachHeartbeat)
  then show ?thesis by (simp add: handleAttachHeartbeat_def Some pair at answer_queue)
qed

lemma handleHeartbeat_safe:
  assumes inv: "server_inv {} a b s" and b: "b < 2 ^ 64 - 2"
  shows "safe env (reaches {} a (Suc b) s) (handleHeartbeat env fd c request_id payload s)"
proof (cases "parsePair payload")
  case None
  then show ?thesis using reject_safe [OF inv] by (simp add: handleHeartbeat_def)
next
  case (Some pair)
  obtain n i where pair: "pair = (n, i)" by (cases pair)
  let ?now = "ev_clock env (sv_tick s)"
  obtain r st' where hb: "heartbeat c n i ?now (sv_state s) = (r, st')" by fastforce
  then have st': "st' = snd (heartbeat c n i ?now (sv_state s))" by simp
  let ?s1 = "(tick s)\<lparr>sv_state := st'\<rparr>"
  have inv1: "server_inv {} a (Suc b) ?s1"
  proof (rule server_inv_state [OF _ b, where call = "HeartbeatCall c n i ?now"])
    show "strings_ok st'" using inv unfolding st' by (simp add: strings_heartbeat server_inv_def)
    show "{} = UNIV \<or> keepsWaiting (sv_state (tick s)) st'" unfolding st' by (simp add: waiting_heartbeat)
    show "keepsEntries (sv_state (tick s)) st'" unfolding st' by (simp add: entries_heartbeat)
  qed (simp_all add: inv hb)
  have inv2: "server_inv {} a (Suc b) (?s1\<lparr>sv_peer_events := omap_erase n (sv_peer_events s)\<rparr>)"
    using inv1 by (auto simp: server_inv_def server_tables_defs buffered_def tick_def split: if_splits)
  let ?s2 = "if hr_error r = Ok then ?s1\<lparr>sv_peer_events := omap_erase n (sv_peer_events s)\<rparr> else ?s1"
  have "server_inv {} a (Suc b) ?s2" using inv1 inv2 by simp
  moreover have "clients_sub s ?s2" by (rule clients_sub_cong) (simp_all add: tick_def)
  moreover let ?ev = "if hr_error r = Ok
    then (case omap_find n (sv_peer_events s) of None \<Rightarrow> [] | Some events \<Rightarrow> events) else []"
  have "handleHeartbeat env fd c request_id payload s =
      queueResponse env fd request_id (hr_error r) (heartbeatBody (hr_state r) ?ev) ?s2"
    by (cases "hr_error r = Ok") (simp_all add: handleHeartbeat_def Let_def tick_def Some pair hb)
  ultimately show ?thesis using safe_after [OF queueResponse_safe] by metis
qed

lemma dispatch_safe:
  assumes inv: "server_inv {} a b s" and b: "b < 2 ^ 64 - 2" and fd: "omap_find fd (sv_clients s) \<noteq> None"
  shows "safe env (reaches {} a (Suc b) s) (dispatch env fd header payload s)"
proof -
  obtain client where client: "omap_find fd (sv_clients s) = Some client" using fd by auto
  note handlers = handleRegisterNode_safe [OF inv b] handleUnregisterNode_safe [OF inv]
    handleAdvertiseTopic_safe [OF inv b] handleUnadvertiseTopic_safe [OF inv b]
    handleSubscribeTopic_safe [OF inv b] handleUnsubscribeTopic_safe [OF inv b]
    handleResolveEndpoint_safe [OF inv client refl] handleQueries_safe [OF inv]
    handleAttachHeartbeat_safe [OF inv b] handleHeartbeat_safe [OF inv b] reject_safe [OF inv]
  show ?thesis
    unfolding dispatch_def client orThrown_Some bindE_simps Let_def
    by (cases "ctl_opcode header") (simp_all add: handlers)
qed

end
