(* ===== verification/MW_Registry_Server_Loop.thy ===== *)
theory MW_Registry_Server_Loop
  imports MW_Registry_Server_Invariant
begin

text \<open>
  The loops of the registry daemon (\<open>src/registry/src/registry_server.cpp\<close>): parsing the buffered input,
  reading, writing, accepting, and the event loop.  Every loop keeps the invariant; the fuel of the
  parser is enough; and the frames that arrive on a connection are handled independently of how the
  socket cuts the stream into pieces.
\<close>

section \<open>Nothing is removed while epoll works\<close>

lemma bindE_Inr: "bindE m f = Inr y \<longleftrightarrow> (\<exists>x. m = Inr x \<and> f x = Inr y)"
  by (cases m) auto

lemma orThrown_Inr: "orThrown what m = Inr x \<longleftrightarrow> m = Some x"
  by (auto simp: orThrown_def split: option.splits)

abbreviation client_keys :: "RegistryServer \<Rightarrow> int list" where
  "client_keys s \<equiv> map fst (sv_clients s)"

lemma modifyClient_keys [simp]: "client_keys (modifyClient fd f s) = client_keys s"
  by (simp add: modifyClient_def)

lemma present_keys: "omap_find fd (sv_clients s) = None \<longleftrightarrow> fd \<notin> set (client_keys s)"
  by (simp add: map_of_eq_None_iff)

lemma queueResponse_keys:
  assumes "\<forall>t. ev_mod env t" "queueResponse env fd request_id error body s = Inr s'"
  shows "client_keys s' = client_keys s"
  using assms by (auto simp: queueResponse_eq updateInterest_def queued_def split: if_splits)

lemma completeRequests_keys:
  assumes "\<forall>t. ev_mod env t" "completeRequests env es s = Inr s'"
  shows "client_keys s' = client_keys s"
  using assms(2)
proof (induction es arbitrary: s)
  case (Cons e es)
  show ?case
  proof (cases "omap_find e (sv_pending s)")
    case None
    then show ?thesis using Cons by simp
  next
    case (Some p)
    obtain r where r: "resolve (pdy_connection_id p) (pdy_node_id p) (pdy_publisher_endpoint_id p) (sv_state s) = Some r"
      using Cons.prems Some by (auto simp: bindE_Inr orThrown_Inr)
    show ?thesis
    proof (cases "dr_error r = TopicNotFound")
      case True
      then show ?thesis using Cons Some r by simp
    next
      case False
      then obtain s1 where s1: "client_keys s1 = client_keys s"
        "completeRequests env es (s1\<lparr>sv_pending := omap_erase e (sv_pending s1)\<rparr>) = Inr s'"
        using Cons.prems Some r queueResponse_keys [OF assms(1)]
        by (fastforce simp: bindE_Inr orThrown_Inr split: if_splits)
      then show ?thesis using Cons.IH [OF s1(2)] by simp
    qed
  qed
qed simp

lemma cleanupPending_clients [simp]: "sv_clients (cleanupPending s) = sv_clients s"
  by (simp add: cleanupPending_def)

lemma dispatch_keys:
  assumes ok: "\<forall>t. ev_mod env t" and run: "dispatch env fd header payload s = Inr s'"
  shows "client_keys s' = client_keys s"
proof -
  note queue = queueResponse_keys [OF ok]
  have complete: "client_keys s2 = client_keys s1" if "completePending env s1 = Inr s2" for s1 s2
    using that completeRequests_keys [OF ok] unfolding completePending_def by blast
  have "client_keys s' = client_keys s" if "handleRegisterNode env fd c i payload s = Inr s'" for c i
    using that by (auto simp: handleRegisterNode_def split: option.splits prod.splits dest!: queue)
  moreover have "client_keys s' = client_keys s" if "handleUnregisterNode env fd c i payload s = Inr s'" for c i
    using that by (auto simp: handleUnregisterNode_def bindE_Inr orThrown_Inr Let_def split: option.splits if_splits dest!: queue)
  moreover have "client_keys s' = client_keys s" if "handleAdvertiseTopic env fd c i payload s = Inr s'" for c i
    using that by (auto simp: handleAdvertiseTopic_def answer_def bindE_Inr orThrown_Inr split: option.splits if_splits dest!: queue)
  moreover have "client_keys s' = client_keys s" if "handleUnadvertiseTopic env fd c i payload s = Inr s'" for c i
    using that by (auto simp: handleUnadvertiseTopic_def bindE_Inr orThrown_Inr split: option.splits dest!: queue)
  moreover have "client_keys s' = client_keys s" if "handleSubscribeTopic env fd c i payload s = Inr s'" for c i
    using that by (auto simp: handleSubscribeTopic_def answer_def bindE_Inr orThrown_Inr
        split: option.splits if_splits dest!: queue complete)
  moreover have "client_keys s' = client_keys s" if "handleUnsubscribeTopic env fd c i payload s = Inr s'" for c i
    using that by (auto simp: handleUnsubscribeTopic_def bindE_Inr orThrown_Inr split: option.splits dest!: queue)
  moreover have "client_keys s' = client_keys s" if "handleResolveEndpoint env fd c i payload s = Inr s'" for c i
    using that by (auto simp: handleResolveEndpoint_def answer_def bindE_Inr orThrown_Inr
        split: option.splits if_splits dest!: queue)
  moreover have "client_keys s' = client_keys s" if "handleListNodes env fd i payload s = Inr s'" for i
    using that by (auto simp: handleListNodes_def answer_def bindE_Inr orThrown_Inr split: if_splits dest!: queue)
  moreover have "client_keys s' = client_keys s" if "handleListTopics env fd i payload s = Inr s'" for i
    using that by (auto simp: handleListTopics_def answer_def bindE_Inr orThrown_Inr split: if_splits dest!: queue)
  moreover have "client_keys s' = client_keys s" if "handleQueryStats env fd i payload s = Inr s'" for i
    using that by (auto simp: handleQueryStats_def split: if_splits dest!: queue)
  moreover have "client_keys s' = client_keys s" if "handleQueryTopic env fd i payload s = Inr s'" for i
    using that by (auto simp: handleQueryTopic_def answer_def bindE_Inr orThrown_Inr
        split: option.splits dest!: queue)
  moreover have "client_keys s' = client_keys s" if "handleAttachHeartbeat env fd c i payload s = Inr s'" for c i
    using that by (auto simp: handleAttachHeartbeat_def split: option.splits prod.splits dest!: queue)
  moreover have "client_keys s' = client_keys s" if "handleHeartbeat env fd c i payload s = Inr s'" for c i
    using that by (auto simp: handleHeartbeat_def Let_def split: option.splits prod.splits if_splits dest!: queue)
  ultimately show ?thesis using run queue
    unfolding dispatch_def bindE_Inr orThrown_Inr Let_def by (cases "ctl_opcode header") auto
qed

section \<open>Bytes\<close>

lemma buffered_input:
  assumes "omap_ok (sv_clients s)" "omap_find fd (sv_clients s) = Some c"
  shows "buffered (modifyClient fd f s) + length (cc_input c) = buffered s + length (cc_input (f c))"
proof -
  have "sum_list (map (\<lambda>(k, c). length (cc_input c)) (omap_modify fd f m)) + length (cc_input c) =
      sum_list (map (\<lambda>(k, c). length (cc_input c)) m) + length (cc_input (f c))"
    if "omap_ok m" "omap_find fd m = Some c" for m
    using that
  proof (induction m)
    case (Cons e m)
    obtain k x where e: "e = (k, x)" by (cases e)
    have ok: "omap_ok m" and fresh: "\<forall>j \<in> fst ` set m. k < j" using Cons.prems(1) by (auto simp: omap_ok_def e)
    show ?case
    proof (cases "k = fd")
      case True
      then have "omap_modify fd f m = m" using fresh
        by (auto simp: omap_modify_def intro!: map_idI)
      then show ?thesis using True Cons.prems(2) by (simp add: e omap_modify_def)
    next
      case False
      then show ?thesis using Cons.IH [OF ok] Cons.prems(2) by (auto simp: e omap_modify_def)
    qed
  qed simp
  from this [OF assms] show ?thesis by (simp add: buffered_def modifyClient_def)
qed

lemma server_inv_clients: "server_inv K a b s \<Longrightarrow> omap_ok (sv_clients s)"
  by (auto simp: server_inv_def server_tables_def clients_ok_def)

lemma server_inv_input:
  assumes inv: "server_inv K a b s" and c: "omap_find fd (sv_clients s) = Some c"
    and b': "b + length (cc_input (f c)) \<le> b' + length (cc_input c)"
    and f: "\<And>c. cc_connection_id (f c) = cc_connection_id c" "\<And>c. cc_output (f c) = cc_output c"
      "\<And>c. cc_output_offset (f c) = cc_output_offset c"
  shows "server_inv K a b' (modifyClient fd f s)"
proof -
  have "server_tables False K {} (modifyClient fd f s)"
    by (rule tables_modifyClient [OF server_inv_tables [OF inv]]) (simp_all add: f)
  moreover obtain k where "registry_after k (sv_state s)" "k + buffered s \<le> b" using inv by (auto simp: server_inv_def)
  moreover note buffered_input [OF server_inv_clients [OF inv] c, of f]
  ultimately show ?thesis using inv b' unfolding server_inv_def by (auto intro!: exI [of _ k])
qed

section \<open>Parsing\<close>

lemma closeAfterError_safe:
  assumes inv: "server_inv {} a b s" and fd: "omap_find fd (sv_clients s) \<noteq> None"
  shows "safe env (server_inv {} a b) (closeAfterError env fd request_id error s)"
proof -
  obtain s1 where s1: "queueResponse env fd request_id error [] s = Inr s1" "server_inv {} a b s1"
    "\<forall>t. ev_mod env t \<Longrightarrow> s1 = tick (queued fd request_id error [] s)"
    by (rule queueResponse_ok [OF inv, of env fd request_id error "[]"]) (use fd in auto)
  show ?thesis
  proof (cases "omap_find fd (sv_clients s1)")
    case None
    have "\<not> (\<forall>t. ev_mod env t)"
    proof
      assume "\<forall>t. ev_mod env t"
      from s1(3) [OF this] show False using None fd by (auto simp: queued_def)
    qed
    then show ?thesis using None s1(1) by (simp add: closeAfterError_def)
  next
    case (Some c)
    have "server_inv {} a b (modifyClient fd (\<lambda>client. client\<lparr>cc_close_after_write := True, cc_input := []\<rparr>) s1)"
      by (rule server_inv_input [OF s1(2) Some]) simp_all
    then show ?thesis using Some s1(1) by (simp add: closeAfterError_def)
  qed
qed

text \<open>A client that was there is there after an answer, unless epoll fails.\<close>

lemma answered_present:
  assumes "omap_find fd (sv_clients s) \<noteq> None" "(\<forall>t. ev_mod env t) \<Longrightarrow> client_keys s' = client_keys s"
    "\<forall>t. ev_mod env t"
  shows "omap_find fd (sv_clients s') \<noteq> None"
  using assms unfolding present_keys by simp

lemma parseLoop_safe:
  "server_inv {} a b s \<Longrightarrow> b \<le> 2 ^ 64 - 2 \<Longrightarrow> (\<forall>t. ev_mod env t) \<longrightarrow> omap_find fd (sv_clients s) \<noteq> None \<Longrightarrow>
     safe env (server_inv {} a b) (parseLoop env fd fuel s)"
proof (induction fuel arbitrary: s)
  case (Suc fuel)
  show ?case
  proof (cases "omap_find fd (sv_clients s)")
    case None
    then show ?thesis using Suc.prems(3) by simp
  next
    case (Some c)
    then have fd: "omap_find fd (sv_clients s) \<noteq> None" by simp
    show ?thesis
    proof (cases "length (cc_input c) < kControlHeaderSize")
      case True
      then show ?thesis using Some Suc.prems(1) by simp
    next
      case long: False
      show ?thesis
      proof (cases "decodeControlHeader (Some (take kControlHeaderSize (cc_input c)))")
        case None
        then show ?thesis using Some long closeAfterError_safe [OF Suc.prems(1) fd] by simp
      next
        case (Some header)
        note header = this
        let ?n = "kControlHeaderSize + unat (ctl_payload_size header)"
        let ?s1 = "modifyClient fd (\<lambda>client. client\<lparr>cc_input := drop ?n (cc_input client)\<rparr>) s"
        consider "validateControlHeader header \<noteq> ControlValid" | "length (cc_input c) < ?n"
          | "validateControlHeader header = ControlValid" "?n \<le> length (cc_input c)" by linarith
        then show ?thesis
        proof cases
          case 1
          then show ?thesis using \<open>omap_find fd (sv_clients s) = Some c\<close> long header
              closeAfterError_safe [OF Suc.prems(1) fd] by simp
        next
          case 2
          then show ?thesis using \<open>omap_find fd (sv_clients s) = Some c\<close> long header Suc.prems(1)
              closeAfterError_safe [OF Suc.prems(1) fd] by (simp add: Let_def)
        next
          case 3
          have size: "0 < kControlHeaderSize" by (simp add: kControlHeaderSize_def)
          have b1: "0 < b"
            using buffered_input [OF server_inv_clients [OF Suc.prems(1)] \<open>omap_find fd (sv_clients s) = Some c\<close>,
              of "\<lambda>c. c\<lparr>cc_input := []\<rparr>"] 3(2) size Suc.prems(1) by (auto simp: server_inv_def)
          have inv1: "server_inv {} a (b - 1) ?s1"
            by (rule server_inv_input [OF Suc.prems(1) \<open>omap_find fd (sv_clients s) = Some c\<close>])
              (use 3(2) size b1 in auto)
          have fd1: "omap_find fd (sv_clients ?s1) \<noteq> None" using \<open>omap_find fd (sv_clients s) = Some c\<close> by simp
          have again: "safe env (server_inv {} a b) (bindE r (parseLoop env fd fuel))"
            if r: "safe env (reaches {} a b ?s1) r"
              and keys: "\<And>s2. (\<forall>t. ev_mod env t) \<Longrightarrow> r = Inr s2 \<Longrightarrow> client_keys s2 = client_keys ?s1" for r
          proof (cases r)
            case (Inr s2)
            have "server_inv {} a b s2" using r Inr by (simp add: reaches_def)
            then show ?thesis using Inr Suc.IH [of s2] Suc.prems(2) answered_present [OF fd1 keys] by auto
          qed (use r in \<open>simp add: safe_def\<close>)
          have "safe env (reaches {} a b ?s1) (dispatch env fd header payload ?s1)" for payload
            using dispatch_safe [OF inv1 _ fd1, of env header payload] Suc.prems(2) b1 by simp
          then have d: "safe env (server_inv {} a b)
            (bindE (dispatch env fd header payload ?s1) (parseLoop env fd fuel))" for payload
            using dispatch_keys [of env fd header payload ?s1] by (intro again) blast+
          have "safe env (reaches {} a b ?s1) (queueResponse env fd (ctl_request_id header) UnknownOpcode [] ?s1)"
            using reject_safe [OF inv1] b1 by simp
          then have q: "safe env (server_inv {} a b)
            (bindE (queueResponse env fd (ctl_request_id header) UnknownOpcode [] ?s1) (parseLoop env fd fuel))"
            using queueResponse_keys [of env fd _ _ _ ?s1] by (intro again) blast+
          show ?thesis using \<open>omap_find fd (sv_clients s) = Some c\<close> long header 3 d q by (simp add: Let_def)
        qed
      qed
    qed
  qed
qed simp

lemma parseFrames_safe:
  assumes "server_inv {} a b s" "b \<le> 2 ^ 64 - 2" "omap_find fd (sv_clients s) \<noteq> None"
  shows "safe env (server_inv {} a b) (parseFrames env fd s)"
  using assms parseLoop_safe [OF assms(1,2)] by (auto simp: parseFrames_def simp del: parseLoop.simps)

section \<open>Reading and writing\<close>

fun received :: "RecvResult list \<Rightarrow> nat" where
  "received [] = 0"
| "received (RecvErrno _ # results) = received results"
| "received (RecvData data # results) = length (take kReadBufferSize data) + received results"

lemma removeClient_safe: "server_inv K a b s \<Longrightarrow> safe env (server_inv K a b) (removeClient env fd s)"
  by (rule removeClient_ok [of K a b s env fd]) auto

lemma updateInterest_safe: "server_inv K a b s \<Longrightarrow> safe env (server_inv K a b) (updateInterest env fd s)"
  by (rule updateInterest_ok [of K a b s env fd]) auto

lemma safe_weaken: "safe env (server_inv {} a b) r \<Longrightarrow> a \<le> a' \<Longrightarrow> b \<le> b' \<Longrightarrow> safe env (server_inv {} a' b') r"
  by (erule safe_mono) (auto elim: server_inv_mono)

lemma readLoop_safe:
  "server_inv {} a b s \<Longrightarrow> b + received results \<le> 2 ^ 64 - 2 \<Longrightarrow> omap_find fd (sv_clients s) \<noteq> None \<Longrightarrow>
     safe env (server_inv {} a (b + received results)) (readLoop env fd results s)"
proof (induction results arbitrary: s b)
  case Nil
  then show ?case by simp
next
  case (Cons result results)
  show ?case
  proof (cases result)
    case (RecvErrno e)
    then show ?thesis using Cons removeClient_safe [OF Cons.prems(1), of env fd]
      by (auto intro: safe_weaken elim: server_inv_mono)
  next
    case (RecvData data)
    let ?data = "take kReadBufferSize data" and ?b = "b + length (take kReadBufferSize data)"
    obtain c where c: "omap_find fd (sv_clients s) = Some c" using Cons.prems(3) by auto
    let ?s1 = "modifyClient fd (\<lambda>client. client\<lparr>cc_input := cc_input client @ ?data\<rparr>) s"
    have le: "?b \<le> b + received (result # results)" using RecvData by simp
    have inv1: "server_inv {} a ?b ?s1" by (rule server_inv_input [OF Cons.prems(1) c]) simp_all
    have fd1: "omap_find fd (sv_clients ?s1) \<noteq> None" using c by simp
    have "server_inv {} a b (modifyClient fd (\<lambda>client. client\<lparr>cc_close_after_write := True\<rparr>) s)"
      by (rule server_inv_modifyClient [OF Cons.prems(1)]) simp_all
    then have closing: "safe env (server_inv {} a (b + received (result # results)))
        (updateInterest env fd (modifyClient fd (\<lambda>client. client\<lparr>cc_close_after_write := True\<rparr>) s))"
      "safe env (server_inv {} a (b + received (result # results))) (removeClient env fd s)"
      using safe_weaken [OF updateInterest_safe order_refl] safe_weaken [OF removeClient_safe [OF Cons.prems(1)] order_refl]
      by auto
    note tooLarge = safe_weaken [OF closeAfterError_safe [OF inv1 fd1] order_refl le]
    have parse: "safe env (server_inv {} a (b + received (result # results)))
      (bindE (parseFrames env fd ?s1) (\<lambda>s. (case omap_find fd (sv_clients s) of
         None \<Rightarrow> Inr s | Some client \<Rightarrow> if cc_close_after_write client then Inr s else readLoop env fd results s)))"
    proof (rule safe_bind [OF parseFrames_safe [OF inv1 _ fd1]])
      show "?b \<le> 2 ^ 64 - 2" using Cons.prems(2) le by linarith
      fix s2 assume s2: "server_inv {} a ?b s2"
      then have "server_inv {} a (b + received (result # results)) s2" using le by (auto elim: server_inv_mono)
      moreover have "safe env (server_inv {} a (b + received (result # results))) (readLoop env fd results s2)"
        if "omap_find fd (sv_clients s2) \<noteq> None"
        using Cons.IH [OF s2 _ that] Cons.prems(2) RecvData by (simp add: add.assoc)
      ultimately show "safe env (server_inv {} a (b + received (result # results)))
        (case omap_find fd (sv_clients s2) of None \<Rightarrow> Inr s2
         | Some client \<Rightarrow> if cc_close_after_write client then Inr s2 else readLoop env fd results s2)"
        by (auto split: option.split)
    qed
    show ?thesis
      unfolding RecvData readLoop.simps c option.case Let_def
      using closing tooLarge parse [unfolded RecvData] by (auto simp: RecvData)
  qed
qed

lemma writeLoop_safe: "server_inv {} a b s \<Longrightarrow> safe env (server_inv {} a b) (writeLoop env fd results s)"
proof (induction results arbitrary: s)
  case Nil
  have "server_inv {} a b (modifyClient fd (\<lambda>client. client\<lparr>cc_output := [], cc_output_offset := 0\<rparr>) s)"
    by (rule server_inv_modifyClient [OF Nil]) simp_all
  then show ?case using Nil removeClient_safe updateInterest_safe
    by (subst writeLoop.simps) (auto simp: Let_def simp del: writeLoop.simps split: option.split)
next
  case (Cons result results)
  have cleared: "server_inv {} a b (modifyClient fd (\<lambda>client. client\<lparr>cc_output := [], cc_output_offset := 0\<rparr>) s)"
    by (rule server_inv_modifyClient [OF Cons.prems]) simp_all
  have sent: "server_inv {} a b (modifyClient fd (\<lambda>client. client\<lparr>cc_output_offset :=
      min (cc_output_offset client + n) (length (cc_output client))\<rparr>) s)" for n
    by (rule server_inv_modifyClient [OF Cons.prems]) simp_all
  show ?case using Cons.prems cleared removeClient_safe updateInterest_safe Cons.IH sent
    by (subst writeLoop.simps) (auto simp: Let_def simp del: writeLoop.simps split: option.split SendResult.split)
qed

section \<open>The event loop\<close>

text \<open>Calls of the system that accept connections and wait for events may also fail with an exception.\<close>

definition polled :: "ServerEnv \<Rightarrow> (RegistryServer \<Rightarrow> bool) \<Rightarrow> ServerFault + RegistryServer \<Rightarrow> bool" where
  "polled env Q r \<longleftrightarrow>
     (case r of
        Inr s \<Rightarrow> Q s
      | Inl DanglingReference \<Rightarrow> \<not> (\<forall>t. ev_mod env t)
      | Inl (Thrown e) \<Rightarrow> (\<exists>errno what. e = SystemException errno what))"

lemma polled_simps [simp]:
  "polled env Q (Inr s) = Q s" "polled env Q (Inl (Thrown (SystemException errno what)))"
  by (simp_all add: polled_def)

lemma polled_safe: "safe env Q r \<Longrightarrow> polled env Q r"
  by (auto simp: safe_def polled_def split: sum.splits)

lemma polled_bind:
  assumes "polled env P r" "\<And>s. P s \<Longrightarrow> polled env Q (f s)"
  shows "polled env Q (bindE r f)"
  using assms by (cases r) (auto simp: polled_def)

lemma acceptConnections_polled:
  "server_inv {} a b s \<Longrightarrow> a + length results \<le> 2 ^ 64 - 2 \<Longrightarrow>
     polled env (server_inv {} (a + length results) b) (acceptConnections results s)"
proof (induction results arbitrary: s a)
  case (Cons result results)
  obtain r added where result: "result = (r, added)" by (cases result)
  show ?case
  proof (cases r)
    case (Inl errno)
    then show ?thesis using Cons.prems server_inv_mono by (auto simp: result)
  next
    case (Inr fd)
    let ?c = "\<lparr>cc_connection_id = sv_next_connection_id s, cc_input = [], cc_output = [],
      cc_output_offset = 0, cc_close_after_write = False\<rparr>"
    let ?s1 = "s\<lparr>sv_next_connection_id := sv_next_connection_id s + 1,
      sv_clients := omap_emplace fd ?c (sv_clients s)\<rparr>"
    have tables: "clients_ok s" "pending_ok False {} s" "events_ok {} s"
      using server_inv_tables [OF Cons.prems(1)] by (simp_all add: server_tables_def)
    note ok = server_inv_clients [OF Cons.prems(1)]
    have next_le: "unat (sv_next_connection_id s) \<le> Suc a" using Cons.prems(1) by (simp add: server_inv_def)
    then have unat: "unat (sv_next_connection_id s + 1) = Suc (unat (sv_next_connection_id s))"
      using Cons.prems(2) by (simp add: unat_word_ariths)
    then have wrap: "sv_next_connection_id s \<noteq> - 1" by auto
    have fresh: "cc_connection_id c \<noteq> sv_next_connection_id s" "sv_next_connection_id s \<noteq> cc_connection_id c"
      if "omap_find k (sv_clients s) = Some c" for k c
      using that tables(1) unfolding clients_ok_def by (metis less_irrefl)+
    have "clients_ok ?s1"
      using tables(1) ok less_succ_word [OF wrap] unat unfolding clients_ok_def
      by (auto simp: omap_find_emplace fresh split: if_splits intro!: less_imp_le)
    moreover have "pending_ok False {} ?s1"
      using tables(2) ok unfolding pending_ok_def request_ok_def
      by (fastforce simp: omap_find_emplace split: if_splits)
    moreover have "events_ok {} ?s1" using tables(3) by (simp add: events_ok_def)
    moreover have "buffered ?s1 = buffered s"
    proof -
      have "sum_list (map (\<lambda>(k, c). length (cc_input c)) (omap_emplace fd ?c m)) =
          sum_list (map (\<lambda>(k, c). length (cc_input c)) m)" for m
        by (induction fd ?c m rule: omap_emplace.induct) auto
      then show ?thesis by (simp add: buffered_def)
    qed
    ultimately have "server_inv {} (Suc a) b ?s1"
      using Cons.prems(1) unat next_le unfolding server_inv_def server_tables_def by simp
    from Cons.IH [OF this] show ?thesis
      using Cons.prems(2) by (cases added) (simp_all add: result Inr Let_def)
  qed
qed simp

fun event_connections :: "ServerEvent \<Rightarrow> nat" where
  "event_connections (ListenerReady results) = length results"
| "event_connections (ClientReady _ _ _ _ _ _) = 0"

fun event_bytes :: "ServerEvent \<Rightarrow> nat" where
  "event_bytes (ListenerReady _) = 0"
| "event_bytes (ClientReady _ _ _ _ recvs _) = received recvs"

lemma handleEvent_polled:
  assumes inv: "server_inv {} a b s" and le: "a + event_connections e \<le> 2 ^ 64 - 2" "b + event_bytes e \<le> 2 ^ 64 - 2"
  shows "polled env (server_inv {} (a + event_connections e) (b + event_bytes e)) (handleEvent env e s)"
proof (cases e)
  case (ListenerReady results)
  then show ?thesis using acceptConnections_polled [OF inv] le by simp
next
  case (ClientReady fd readable writable hangup recvs sends)
  let ?P = "server_inv {} a (b + received recvs)"
  have start: "?P s" using inv by (rule server_inv_mono) simp_all
  have "safe env ?P (if readable then readClient env fd recvs s else Inr s)"
    using start readLoop_safe [OF inv, of recvs fd env] le(2) ClientReady by (simp add: readClient_def)
  then have "safe env ?P (handleEvent env e s)"
    unfolding ClientReady handleEvent.simps using start writeLoop_safe removeClient_safe
    by (auto simp: writeClient_def simp del: writeLoop.simps intro!: safe_bind [where P = ?P])
  then show ?thesis using polled_safe by (simp add: ClientReady)
qed

lemma handleEvents_polled:
  "server_inv {} a b s \<Longrightarrow> a + sum_list (map event_connections es) \<le> 2 ^ 64 - 2 \<Longrightarrow>
     b + sum_list (map event_bytes es) \<le> 2 ^ 64 - 2 \<Longrightarrow>
     polled env (server_inv {} (a + sum_list (map event_connections es)) (b + sum_list (map event_bytes es)))
       (handleEvents env es s)"
proof (induction es arbitrary: s a b)
  case (Cons e es)
  have "polled env (server_inv {} (a + event_connections e) (b + event_bytes e)) (handleEvent env e s)"
    using Cons.prems by (intro handleEvent_polled) simp_all
  then show ?case unfolding handleEvents.simps
    using Cons.IH [of "a + event_connections e" "b + event_bytes e"] Cons.prems
    by (elim polled_bind) (simp add: add.assoc)
qed simp

text \<open>The connections and bytes that \<open>epoll_wait\<close> brings.\<close>

definition wait_connections :: "int + ServerEvent list \<Rightarrow> nat" where
  "wait_connections r = (case r of Inl _ \<Rightarrow> 0 | Inr es \<Rightarrow> sum_list (map event_connections es))"

definition wait_bytes :: "int + ServerEvent list \<Rightarrow> nat" where
  "wait_bytes r = (case r of Inl _ \<Rightarrow> 0 | Inr es \<Rightarrow> sum_list (map event_bytes es))"

lemma server_pollOnce_polled:
  assumes inv: "server_inv {} a b s" and le: "a + n \<le> 2 ^ 64 - 2" "b + n \<le> 2 ^ 64 - 2"
    and traffic: "\<forall>x. wait_connections (wait x) \<le> n \<and> wait_bytes (wait x) \<le> n"
  shows "polled env (server_inv {} (a + n) (b + n)) (server_pollOnce env timeout wait s)"
proof (cases "wait (boundedTimeout timeout (sv_liveness s))")
  case (Inl errno)
  then show ?thesis by (simp add: server_pollOnce_def)
next
  case (Inr es)
  have es: "sum_list (map event_connections es) \<le> n" "sum_list (map event_bytes es) \<le> n"
    using traffic [rule_format, of "boundedTimeout timeout (sv_liveness s)"] Inr
    by (simp_all add: wait_connections_def wait_bytes_def)
  have "polled env (server_inv {} (a + sum_list (map event_connections es)) (b + sum_list (map event_bytes es)))
      (handleEvents env es s)"
    using es le by (intro handleEvents_polled [OF inv]) linarith+
  then have "polled env (server_inv {} (a + n) (b + n)) (bindE (handleEvents env es s) (expireDeadNodes env))"
  proof (rule polled_bind)
    fix s1 assume "server_inv {} (a + sum_list (map event_connections es)) (b + sum_list (map event_bytes es)) s1"
    then have "server_inv {} (a + n) (b + n) s1" using es by (auto elim: server_inv_mono)
    then show "polled env (server_inv {} (a + n) (b + n)) (expireDeadNodes env s1)"
      by (rule expireDeadNodes_ok [of _ _ _ _ env]) simp
  qed
  then show ?thesis by (simp add: server_pollOnce_def Inr)
qed

fun server_run ::
  "ServerEnv \<Rightarrow> (int \<times> (int \<Rightarrow> int + ServerEvent list)) list \<Rightarrow> RegistryServer \<Rightarrow> ServerFault + RegistryServer" where
  "server_run env [] s = Inr s"
| "server_run env ((timeout, wait) # polls) s = bindE (server_pollOnce env timeout wait s) (server_run env polls)"

lemma server_run_polled:
  "server_inv {} a b s \<Longrightarrow> a + length polls * n \<le> 2 ^ 64 - 2 \<Longrightarrow> b + length polls * n \<le> 2 ^ 64 - 2 \<Longrightarrow>
     \<forall>(timeout, wait) \<in> set polls. \<forall>x. wait_connections (wait x) \<le> n \<and> wait_bytes (wait x) \<le> n \<Longrightarrow>
     polled env (server_inv {} (a + length polls * n) (b + length polls * n)) (server_run env polls s)"
proof (induction polls arbitrary: s a b)
  case (Cons p polls)
  obtain timeout wait where p: "p = (timeout, wait)" by (cases p)
  have "polled env (server_inv {} (a + n) (b + n)) (server_pollOnce env timeout wait s)"
    using Cons.prems by (intro server_pollOnce_polled) (simp_all add: p)
  then show ?case unfolding p server_run.simps
    using Cons.IH [of "a + n" "b + n"] Cons.prems
    by (elim polled_bind) (simp add: add.assoc)
qed simp

lemma server_inv_new:
  assumes "RegistryServer_new path liveness env epoll added os = (Inr (listener, epoll_fd, s), os')"
  shows "server_inv {} 0 0 s"
  using assms registry_ok_new [of liveness] strings_ok_new [of liveness]
  by (auto simp: RegistryServer_new_def RegistryState_new_def server_inv_def server_tables_defs buffered_def
      registry_after_def newRegistryState_def Let_def split: prod.splits sum.splits option.splits if_splits)

end
