(* ===== verification/MW_Registry_Session.thy ===== *)
theory MW_Registry_Session
  imports MW_Registry_Client
begin

text \<open>
  \<open>RegistrySession\<close> of \<open>src/middleware/src/detail/registry_client.cpp\<close>: the registration of a node, the
  second connection that carries its heartbeats, and the buffer of peer events the heartbeats fill and
  the endpoints empty.  The two mutexes make the body of a heartbeat and \<open>takePeerEvents\<close> atomic
  steps on that buffer.
\<close>

section \<open>The session\<close>

record RegistrySession =
  rse_client :: RegistryClient
  rse_config :: RegistryConfig
  rse_node_id :: u64
  rse_session_id :: u64
  rse_heartbeat_client :: "RegistryClient option"
  rse_stop_heartbeat :: bool
  rse_peer_events :: "RegistryPeerEvent list"

text \<open>The destructor of a client closes the socket it still holds.\<close>

definition RegistryClient_destroy :: "RegistryClient \<Rightarrow> SocketOs \<Rightarrow> SocketOs" where
  "RegistryClient_destroy c os = (case rcl_socket c of None \<Rightarrow> os | Some fd \<Rightarrow> closeFd fd os)"

record SessionEnv =
  sn_connect :: SocketEnv
  sn_register :: RequestEnv
  sn_heartbeat_connect :: SocketEnv
  sn_attach :: RequestEnv
  sn_thread :: "int option"
  sn_unregister :: RequestEnv

text \<open>
  The \<open>try\<close> block of the constructor; \<open>sn_thread\<close> is the error of \<open>std::thread\<close>, if it has one.
\<close>

definition openHeartbeat ::
  "u64 \<Rightarrow> u64 \<Rightarrow> RegistryConfig \<Rightarrow> SessionEnv \<Rightarrow> SocketOs \<Rightarrow> ((Exception + RegistryClient) \<times> SocketOs) option" where
  "openHeartbeat node_id session_id config env os =
     (case RegistryClient_new config (sn_heartbeat_connect env) os of
        (Inl e, os) \<Rightarrow> Some (Inl e, os)
      | (Inr hb, os) \<Rightarrow>
          do { (attached, hb) \<leftarrow> client_attachHeartbeat node_id session_id (sn_attach env) hb;
               (case attached of
                  Inl e \<Rightarrow> Some (Inl e, RegistryClient_destroy hb os)
                | Inr _ \<Rightarrow>
                    (case sn_thread env of
                       Some errno \<Rightarrow>
                         Some (Inl (SystemException errno ''thread''), RegistryClient_destroy hb os)
                     | None \<Rightarrow> Some (Inr hb, os))) })"

definition RegistrySession_new ::
  "string \<Rightarrow> RegistryConfig \<Rightarrow> SessionEnv \<Rightarrow> SocketOs \<Rightarrow> ((Exception + RegistrySession) \<times> SocketOs) option" where
  "RegistrySession_new node_name config env os =
     (case RegistryClient_new config (sn_connect env) os of
        (Inl e, os) \<Rightarrow> Some (Inl e, os)
      | (Inr c, os) \<Rightarrow>
          do { (registration, c) \<leftarrow> client_registerNode node_name (sn_register env) c;
               (case registration of
                  Inl e \<Rightarrow> Some (Inl e, RegistryClient_destroy c os)
                | Inr r \<Rightarrow>
                    do { (heartbeat, os) \<leftarrow> openHeartbeat (rrg_node_id r) (rrg_session_id r) config env os;
                         (case heartbeat of
                            Inl e \<Rightarrow>
                              do { (_, c) \<leftarrow> client_unregisterNode (rrg_node_id r) (sn_unregister env) c;
                                   Some (Inl e, RegistryClient_destroy c os) }
                          | Inr hb \<Rightarrow>
                              Some (Inr \<lparr>rse_client = c, rse_config = config, rse_node_id = rrg_node_id r,
                                rse_session_id = rrg_session_id r, rse_heartbeat_client = Some hb,
                                rse_stop_heartbeat = False, rse_peer_events = []\<rparr>, os)) }) })"

text \<open>The destructor: stop and join the heartbeat thread, close its connection, unregister.\<close>

definition RegistrySession_destroy :: "RequestEnv \<Rightarrow> RegistrySession \<Rightarrow> SocketOs \<Rightarrow> SocketOs option" where
  "RegistrySession_destroy env s os =
     (let os = (case rse_heartbeat_client s of None \<Rightarrow> os | Some hb \<Rightarrow> RegistryClient_destroy hb os) in
      if rse_node_id s \<noteq> 0
      then do { (_, c) \<leftarrow> client_unregisterNode (rse_node_id s) env (rse_client s);
                Some (RegistryClient_destroy c os) }
      else Some (RegistryClient_destroy (rse_client s) os))"

definition session_advertise ::
  "string \<Rightarrow> PublisherConfig \<Rightarrow> PoolDescriptor \<Rightarrow> RequestEnv \<Rightarrow> RegistrySession
     \<Rightarrow> ((Exception + RegistryEndpoint) \<times> RegistrySession) option" where
  "session_advertise topic_name config pool env s =
     do { (r, c) \<leftarrow> client_advertise (rse_node_id s) topic_name (pc_type_name config) (pc_type_hash config)
            (pc_max_message_size config) (pc_transport config) pool env (rse_client s);
          Some (r, s\<lparr>rse_client := c\<rparr>) }"

definition session_unadvertise :: "u64 \<Rightarrow> RequestEnv \<Rightarrow> RegistrySession \<Rightarrow> RegistrySession option" where
  "session_unadvertise endpoint_id env s =
     do { (_, c) \<leftarrow> client_unadvertise (rse_node_id s) endpoint_id env (rse_client s);
          Some (s\<lparr>rse_client := c\<rparr>) }"

definition session_subscribe ::
  "string \<Rightarrow> SubscriberConfig \<Rightarrow> QueueDescriptor \<Rightarrow> RequestEnv \<Rightarrow> RegistrySession
     \<Rightarrow> ((Exception + RegistryEndpoint) \<times> RegistrySession) option" where
  "session_subscribe topic_name config queue env s =
     do { (r, c) \<leftarrow> client_subscribe (rse_node_id s) topic_name (sc_type_name config) (sc_type_hash config)
            (sc_max_message_size config) (sc_socket_path config) (sc_transport config) queue env (rse_client s);
          Some (r, s\<lparr>rse_client := c\<rparr>) }"

definition session_unsubscribe :: "u64 \<Rightarrow> RequestEnv \<Rightarrow> RegistrySession \<Rightarrow> RegistrySession option" where
  "session_unsubscribe endpoint_id env s =
     do { (_, c) \<leftarrow> client_unsubscribe (rse_node_id s) endpoint_id env (rse_client s);
          Some (s\<lparr>rse_client := c\<rparr>) }"

definition session_resolve ::
  "u64 \<Rightarrow> RequestEnv \<Rightarrow> RegistrySession \<Rightarrow> ((Exception + RegistryDiscovery) \<times> RegistrySession) option" where
  "session_resolve endpoint_id env s =
     do { (r, c) \<leftarrow> client_resolve (rse_node_id s) endpoint_id env (rse_client s);
          Some (r, s\<lparr>rse_client := c\<rparr>) }"

section \<open>Peer events\<close>

definition kMaxPendingPeerEvents :: nat where "kMaxPendingPeerEvents = 4096"

fun takeEventsFor :: "u64 \<Rightarrow> RegistryPeerEvent list \<Rightarrow> RegistryPeerEvent list \<times> RegistryPeerEvent list" where
  "takeEventsFor target [] = ([], [])"
| "takeEventsFor target (event # events) =
     (case takeEventsFor target events of (selected, kept) \<Rightarrow>
        if rpe_target_endpoint_id event = target then (event # selected, kept)
        else (selected, event # kept))"

definition takePeerEvents :: "u64 \<Rightarrow> RegistrySession \<Rightarrow> RegistryPeerEvent list \<times> RegistrySession" where
  "takePeerEvents target s =
     (case takeEventsFor target (rse_peer_events s) of (selected, kept) \<Rightarrow>
        (selected, s\<lparr>rse_peer_events := kept\<rparr>))"

definition sameEvent :: "RegistryPeerEvent \<Rightarrow> RegistryPeerEvent \<Rightarrow> bool" where
  "sameEvent existing event \<longleftrightarrow>
     rpe_kind existing = rpe_kind event \<and>
     rpe_target_endpoint_id existing = rpe_target_endpoint_id event \<and>
     rpe_dead_endpoint_id existing = rpe_dead_endpoint_id event"

fun mergePeerEvents :: "RegistryPeerEvent list \<Rightarrow> RegistryPeerEvent list \<Rightarrow> RegistryPeerEvent list" where
  "mergePeerEvents pending [] = pending"
| "mergePeerEvents pending (event # events) =
     (if find (\<lambda>existing. sameEvent existing event) pending = None
      then
        let pending = (if length pending = kMaxPendingPeerEvents then tl pending else pending) in
        mergePeerEvents (pending @ [event]) events
      else mergePeerEvents pending events)"

text \<open>
  The loop of the heartbeat thread, over what each wait returns: \<open>Inl ()\<close> when the session stops,
  \<open>Inr env\<close> when the interval passed and a heartbeat is due.  A failed heartbeat ends the thread.
\<close>

fun heartbeatLoop :: "(unit + RequestEnv) list \<Rightarrow> RegistrySession \<Rightarrow> RegistrySession option" where
  "heartbeatLoop [] s = (if rse_stop_heartbeat s then Some s else None)"
| "heartbeatLoop (wake # wakes) s =
     (if rse_stop_heartbeat s then Some s
      else
        (case wake of
           Inl _ \<Rightarrow> Some (s\<lparr>rse_stop_heartbeat := True\<rparr>)
         | Inr env \<Rightarrow>
             (case rse_heartbeat_client s of
                None \<Rightarrow> None
              | Some hb \<Rightarrow>
                  do { (response, hb) \<leftarrow> client_heartbeat (rse_node_id s) (rse_session_id s) env hb;
                       let s = s\<lparr>rse_heartbeat_client := Some hb\<rparr>;
                       (case response of
                          Inl _ \<Rightarrow> Some s
                        | Inr response \<Rightarrow>
                            heartbeatLoop wakes
                              (s\<lparr>rse_peer_events := mergePeerEvents (rse_peer_events s) (hbr_events response)\<rparr>)) })))"

section \<open>The buffer of peer events\<close>

definition eventKey :: "RegistryPeerEvent \<Rightarrow> ClientPeerEventKind \<times> u64 \<times> u64" where
  "eventKey event = (rpe_kind event, rpe_target_endpoint_id event, rpe_dead_endpoint_id event)"

definition peerEvents_ok :: "RegistryPeerEvent list \<Rightarrow> bool" where
  "peerEvents_ok events \<longleftrightarrow> distinct (map eventKey events) \<and> length events \<le> kMaxPendingPeerEvents"

lemma sameEvent_key: "sameEvent a b \<longleftrightarrow> eventKey a = eventKey b"
  by (auto simp: sameEvent_def eventKey_def)

lemma find_sameEvent_None:
  "find (\<lambda>existing. sameEvent existing event) pending = None \<longleftrightarrow> eventKey event \<notin> eventKey ` set pending"
  by (auto simp: find_None_iff sameEvent_key image_iff)

lemma takeEventsFor_filter:
  "takeEventsFor target events =
     (filter (\<lambda>e. rpe_target_endpoint_id e = target) events,
      filter (\<lambda>e. rpe_target_endpoint_id e \<noteq> target) events)"
  by (induction events) auto

lemma distinct_map_key_filter: "distinct (map eventKey events) \<Longrightarrow> distinct (map eventKey (filter P events))"
  by (induction events) auto

lemma takeEventsFor_ok: "peerEvents_ok events \<Longrightarrow> peerEvents_ok (snd (takeEventsFor target events))"
  unfolding peerEvents_ok_def takeEventsFor_filter snd_conv
  by (meson distinct_map_key_filter length_filter_le order_trans)

lemma mergePeerEvents_ok: "peerEvents_ok pending \<Longrightarrow> peerEvents_ok (mergePeerEvents pending events)"
proof (induction pending events rule: mergePeerEvents.induct)
  case (2 pending event events)
  show ?case
  proof (cases "eventKey event \<in> eventKey ` set pending")
    case True
    then have "mergePeerEvents pending (event # events) = mergePeerEvents pending events"
      by (simp add: find_sameEvent_None)
    then show ?thesis using 2 True by (simp add: find_sameEvent_None)
  next
    case False
    define kept where "kept = (if length pending = kMaxPendingPeerEvents then tl pending else pending)"
    have sub: "set kept \<subseteq> set pending" by (cases pending) (auto simp: kept_def)
    have "peerEvents_ok (kept @ [event])"
      using \<open>peerEvents_ok pending\<close> False sub
      by (cases pending) (auto simp: peerEvents_ok_def kept_def kMaxPendingPeerEvents_def)
    then show ?thesis using 2 False
      by (simp add: find_sameEvent_None kept_def Let_def split: if_splits)
  qed
qed simp

text \<open>Nothing is dropped while the buffer has room.\<close>

lemma mergePeerEvents_keys:
  "length pending + length events \<le> kMaxPendingPeerEvents \<Longrightarrow>
     eventKey ` set (mergePeerEvents pending events) = eventKey ` set pending \<union> eventKey ` set events
   \<and> length (mergePeerEvents pending events) \<le> length pending + length events"
proof (induction pending events rule: mergePeerEvents.induct)
  case (2 pending event events)
  then show ?case
    by (cases "eventKey event \<in> eventKey ` set pending")
      (auto simp: find_sameEvent_None Let_def insert_absorb)
qed simp

lemma mergePeerEvents_subset: "set (mergePeerEvents pending events) \<subseteq> set pending \<union> set events"
proof (induction events arbitrary: pending)
  case (Cons event events)
  define kept where "kept = (if length pending = kMaxPendingPeerEvents then tl pending else pending)"
  have sub: "set kept \<subseteq> set pending" by (cases pending) (auto simp: kept_def)
  consider "mergePeerEvents pending (event # events) = mergePeerEvents pending events"
    | "mergePeerEvents pending (event # events) = mergePeerEvents (kept @ [event]) events"
    unfolding mergePeerEvents.simps kept_def Let_def by argo
  then show ?case
  proof cases
    case 1
    then show ?thesis using Cons.IH [of pending] by auto
  next
    case 2
    then show ?thesis using Cons.IH [of "kept @ [event]"] sub by auto
  qed
qed simp

text \<open>A session's history: the events of each heartbeat, and the endpoints' calls of \<open>takePeerEvents\<close>.\<close>

datatype SessionStep = HeartbeatEvents "RegistryPeerEvent list" | TakeFor u64

fun session_step :: "SessionStep \<Rightarrow> RegistrySession \<Rightarrow> RegistryPeerEvent list \<times> RegistrySession" where
  "session_step (HeartbeatEvents events) s =
     ([], s\<lparr>rse_peer_events := mergePeerEvents (rse_peer_events s) events\<rparr>)"
| "session_step (TakeFor target) s = takePeerEvents target s"

fun session_run :: "SessionStep list \<Rightarrow> RegistrySession \<Rightarrow> RegistryPeerEvent list \<times> RegistrySession" where
  "session_run [] s = ([], s)"
| "session_run (st # steps) s =
     (case session_step st s of (taken, s) \<Rightarrow>
      case session_run steps s of (later, s) \<Rightarrow> (taken @ later, s))"

fun reportedEvents :: "SessionStep list \<Rightarrow> RegistryPeerEvent list" where
  "reportedEvents [] = []"
| "reportedEvents (HeartbeatEvents events # steps) = events @ reportedEvents steps"
| "reportedEvents (TakeFor _ # steps) = reportedEvents steps"

lemma session_run_ok:
  "peerEvents_ok (rse_peer_events s) \<Longrightarrow> peerEvents_ok (rse_peer_events (snd (session_run steps s)))"
proof (induction steps arbitrary: s)
  case (Cons st steps)
  have "peerEvents_ok (rse_peer_events (snd (session_step st s)))"
    using takeEventsFor_ok [OF Cons.prems] mergePeerEvents_ok [OF Cons.prems]
    by (cases st) (simp_all add: takePeerEvents_def case_prod_beta)
  then show ?case using Cons.IH [of "snd (session_step st s)"] by (simp add: case_prod_beta)
qed simp

lemma session_run_sound:
  "set (fst (session_run steps s)) \<union> set (rse_peer_events (snd (session_run steps s)))
     \<subseteq> set (rse_peer_events s) \<union> set (reportedEvents steps)"
proof (induction steps arbitrary: s)
  case (Cons st steps)
  obtain taken s' where s': "session_step st s = (taken, s')" by fastforce
  have "set taken \<union> set (rse_peer_events s') \<subseteq>
      set (rse_peer_events s) \<union> set (reportedEvents [st])"
  proof (cases st)
    case (HeartbeatEvents events)
    then show ?thesis using s' mergePeerEvents_subset [of "rse_peer_events s" events] by auto
  next
    case (TakeFor t)
    then show ?thesis using s' by (auto simp: takePeerEvents_def takeEventsFor_filter)
  qed
  moreover have "set (reportedEvents (st # steps)) = set (reportedEvents [st]) \<union> set (reportedEvents steps)"
    by (cases st) auto
  ultimately show ?case using Cons.IH [of s'] s' by (auto split: prod.splits)
qed simp

lemma session_run_complete:
  "length (rse_peer_events s) + length (reportedEvents steps) \<le> kMaxPendingPeerEvents \<Longrightarrow>
     eventKey ` set (rse_peer_events s) \<union> eventKey ` set (reportedEvents steps)
       \<subseteq> eventKey ` (set (fst (session_run steps s)) \<union> set (rse_peer_events (snd (session_run steps s))))"
proof (induction steps arbitrary: s)
  case (Cons st steps)
  obtain taken s' where s': "session_step st s = (taken, s')" by fastforce
  have run: "fst (session_run (st # steps) s) = taken @ fst (session_run steps s')"
    "snd (session_run (st # steps) s) = snd (session_run steps s')"
    using s' by (simp_all add: case_prod_beta)
  show ?case
  proof (cases st)
    case (HeartbeatEvents events)
    have keys: "eventKey ` set (rse_peer_events s') = eventKey ` set (rse_peer_events s) \<union> eventKey ` set events"
      "length (rse_peer_events s') \<le> length (rse_peer_events s) + length events"
      using mergePeerEvents_keys [of "rse_peer_events s" events] Cons.prems HeartbeatEvents s' by auto
    then have "length (rse_peer_events s') + length (reportedEvents steps) \<le> kMaxPendingPeerEvents"
      using Cons.prems HeartbeatEvents by simp
    note IH = Cons.IH [OF this]
    have "set (reportedEvents (st # steps)) = set events \<union> set (reportedEvents steps)" "taken = []"
      using HeartbeatEvents s' by simp_all
    then show ?thesis using IH by (simp only: run keys(1) append_Nil image_Un Un_assoc)
  next
    case (TakeFor t)
    have split: "taken = filter (\<lambda>e. rpe_target_endpoint_id e = t) (rse_peer_events s)"
      "rse_peer_events s' = filter (\<lambda>e. rpe_target_endpoint_id e \<noteq> t) (rse_peer_events s)"
      using s' TakeFor by (auto simp: takePeerEvents_def takeEventsFor_filter)
    have "length (rse_peer_events s') \<le> length (rse_peer_events s)" by (simp add: split(2))
    then have "length (rse_peer_events s') + length (reportedEvents steps) \<le> kMaxPendingPeerEvents"
      using Cons.prems TakeFor by simp
    then have IH: "eventKey ` set (rse_peer_events s') \<union> eventKey ` set (reportedEvents steps)
       \<subseteq> eventKey ` (set (fst (session_run steps s')) \<union> set (rse_peer_events (snd (session_run steps s'))))"
      by (rule Cons.IH)
    have "eventKey ` set (rse_peer_events s) = eventKey ` set taken \<union> eventKey ` set (rse_peer_events s')"
      by (auto simp: split)
    moreover have "reportedEvents (st # steps) = reportedEvents steps" using TakeFor by simp
    ultimately show ?thesis using IH unfolding run image_Un set_append by auto
  qed
qed (auto simp: image_Un)

end
