(* ===== verification/MW_Rpc.thy ===== *)
theory MW_Rpc
  imports MW_Registry_Server
begin

text \<open>
  One remote call between a registry client (\<open>src/middleware/src/detail/registry_client.cpp\<close>) and the
  registry daemon (\<open>src/registry/src/registry_server.cpp\<close>): every payload one side writes is read back by
  the other side, and frames survive being cut into pieces by the socket in both directions.
\<close>

section \<open>Reading at a position\<close>

definition reader_at :: "bytes \<Rightarrow> bytes \<Rightarrow> PayloadReader" where
  "reader_at pre post = \<lparr>rd_data = pre @ post, rd_offset = length pre\<rparr>"

lemma newReader_at: "newReader bs = reader_at [] bs"
  by (simp add: newReader_def reader_at_def)

lemma reader_at_parts [simp]:
  "rd_ok (reader_at pre post)" "rd_rest (reader_at pre post) = post" "rd_data (reader_at pre post) = pre @ post"
  "rd_empty (reader_at pre post) \<longleftrightarrow> post = []"
  by (simp_all add: reader_at_def rd_ok_def rd_rest_def rd_empty_def)

lemma reader_at_unique:
  assumes "rd_ok r" "rd_rest r = post" "rd_data r = pre @ mid @ post"
  shows "r = reader_at (pre @ mid) post"
proof -
  have "length (rd_rest r) = length (rd_data r) - rd_offset r" by (simp add: rd_rest_def)
  then have "rd_offset r = length (pre @ mid)" using assms by (simp add: rd_ok_def)
  then show ?thesis using assms(3) by (cases r) (simp add: reader_at_def)
qed

context payload_field
begin

lemma read_at_front:
  assumes "good v"
  shows "rd (reader_at pre (enc v @ post)) = Some (v, reader_at (pre @ enc v) post)"
proof -
  obtain r where "rd (reader_at pre (enc v @ post)) = Some (v, r)" "rd_ok r" "rd_rest r = post"
    "rd_data r = pre @ enc v @ post"
    using read_front [OF _ assms, of "reader_at pre (enc v @ post)" post] by auto
  then show ?thesis using reader_at_unique by simp
qed

lemma read_at_end: "good v \<Longrightarrow> rd (reader_at pre (enc v)) = Some (v, reader_at (pre @ enc v) [])"
  using read_at_front [of v pre "[]"] by simp

end

lemmas read_fields =
  u16_field.read_at_front u32_field.read_at_front u64_field.read_at_front string_field.read_at_front
  u16_field.read_at_end u32_field.read_at_end u64_field.read_at_end string_field.read_at_end

lemmas write_fields = writeU16_def writeU32_def writeU64_def appendBigEndian_def

text \<open>The strings of a message that was written are short enough to be read.\<close>

lemma writeString_eq:
  "writeString data s = (if length s \<le> 0xFFFFFFFF then Some (data @ stringField s) else None)"
  by (simp add: writeString_field) (simp add: writeString_def)

section \<open>Payloads of requests\<close>

lemma parseString_registerNodePayload:
  "registerNodePayload name = Some payload \<Longrightarrow> parseString payload = Some name"
  by (auto simp: registerNodePayload_def parseString_def writeString_eq newReader_at read_fields split: if_splits)

lemma parsePair_pairPayload: "parsePair (pairPayload a b) = Some (a, b)"
  by (simp add: parsePair_def pairPayload_def write_fields newReader_at read_fields)

lemma parseU64_nodePayload: "parseU64 (nodePayload a) = Some a"
  by (simp add: parseU64_def nodePayload_def write_fields newReader_at read_fields)

definition poolMetadata :: "PoolDescriptor \<Rightarrow> SharedPoolMetadata" where
  "poolMetadata pool = \<lparr>spm_shm_name = pd_shm_name pool, spm_pool_id = pd_pool_id pool,
     spm_segment_size = pd_segment_size pool, spm_layout_version = pd_layout_version pool\<rparr>"

definition queueMetadata :: "QueueDescriptor \<Rightarrow> SharedQueueMetadata" where
  "queueMetadata queue = \<lparr>sqm_shm_name = qd_shm_name queue, sqm_queue_id = qd_queue_id queue,
     sqm_segment_size = qd_segment_size queue, sqm_capacity = qd_capacity queue,
     sqm_layout_version = qd_layout_version queue,
     sqm_overflow_policy = overflowPolicyValue (qd_overflow_policy queue),
     sqm_block_timeout_ms = qd_block_timeout_ms queue\<rparr>"

lemma parseAdvertise_advertisePayload:
  "advertisePayload node_id topic type_name type_hash n transport pool = Some payload \<Longrightarrow>
     parseAdvertise payload = Some \<lparr>ar_node_id = node_id, ar_topic_name = topic, ar_type_name = type_name,
       ar_type_hash = type_hash, ar_max_message_size = n, ar_transport = transportValue transport,
       ar_pool = poolMetadata pool\<rparr>"
  by (auto simp: advertisePayload_def parseAdvertise_def writeString_eq write_fields newReader_at read_fields
      poolMetadata_def split: if_splits)

lemma parseSubscribe_subscribePayload:
  "subscribePayload node_id topic type_name type_hash n path transport queue = Some payload \<Longrightarrow>
     parseSubscribe payload = Some \<lparr>sr_node_id = node_id, sr_topic_name = topic, sr_type_name = type_name,
       sr_type_hash = type_hash, sr_max_message_size = n, sr_data_socket_path = path,
       sr_transport = transportValue transport, sr_queue = queueMetadata queue\<rparr>"
  by (auto simp: subscribePayload_def parseSubscribe_def writeString_eq write_fields newReader_at read_fields
      queueMetadata_def split: if_splits)

section \<open>Bodies of responses\<close>

definition poolDescriptor :: "u64 \<Rightarrow> SharedPoolMetadata \<Rightarrow> PoolDescriptor" where
  "poolDescriptor topic_id pool = \<lparr>pd_shm_name = spm_shm_name pool, pd_pool_id = spm_pool_id pool,
     pd_segment_size = spm_segment_size pool, pd_topic_id = topic_id, pd_layout_version = spm_layout_version pool\<rparr>"

lemma readEndpoint_endpointBody:
  "endpointBody result = Some body \<Longrightarrow> readEndpoint body = Inr \<lparr>rep_topic_id = epr_topic_id result,
     rep_endpoint_id = epr_endpoint_id result, rep_pool = poolDescriptor (epr_topic_id result) (epr_pool result)\<rparr>"
  by (auto simp: endpointBody_def readEndpoint_def writeString_eq write_fields newReader_at read_fields
      poolDescriptor_def orMalformed_def split: if_splits)

lemma readRegistration_pairPayload:
  "node_id \<noteq> 0 \<Longrightarrow> session_id \<noteq> 0 \<Longrightarrow>
     readRegistration (pairPayload node_id session_id) = Inr \<lparr>rrg_node_id = node_id, rrg_session_id = session_id\<rparr>"
  by (simp add: readRegistration_def pairPayload_def write_fields newReader_at read_fields orMalformed_def)

definition clientSubscriber :: "DiscoveredSubscriber \<Rightarrow> RegistrySubscriber" where
  "clientSubscriber subscriber = \<lparr>rsu_endpoint_id = ds_endpoint_id subscriber,
     rsu_data_socket_path = ds_data_socket_path subscriber, rsu_max_message_size = ds_max_message_size subscriber,
     rsu_queue = queueDescriptor (ds_queue subscriber)\<rparr>"

lemma checkedSize_Inr [simp]: "checkedSize v = Inr v"
proof -
  have "unat v < 2 ^ 64" using unsigned_less [of v] by simp
  then show ?thesis by (simp add: checkedSize_def SIZE_MAX_def word_less_nat_alt)
qed

text \<open>A list in a body: writing appends the fields of the elements, reading takes them off again.\<close>

lemma writeSubscribers_eq:
  "writeSubscribers writer subscribers = Some body \<Longrightarrow> \<exists>fields. body = writer @ fields \<and>
     (\<forall>pre post. readSubscribers (length subscribers) (reader_at pre (fields @ post)) =
        Inr (map clientSubscriber subscribers, reader_at (pre @ fields) post))"
proof (induction subscribers arbitrary: writer)
  case (Cons subscriber subscribers)
  define queue where "queue = ds_queue subscriber"
  define field where "field = encodeBigEndian (ds_endpoint_id subscriber) @
    stringField (ds_data_socket_path subscriber) @ encodeBigEndian (ds_max_message_size subscriber) @
    stringField (sqm_shm_name queue) @ encodeBigEndian (sqm_queue_id queue) @ encodeBigEndian (sqm_segment_size queue) @
    encodeBigEndian (sqm_capacity queue) @ encodeBigEndian (sqm_layout_version queue) @
    encodeBigEndian (sqm_overflow_policy queue) @ encodeBigEndian (sqm_block_timeout_ms queue)"
  have short: "length (ds_data_socket_path subscriber) \<le> 0xFFFFFFFF" "length (sqm_shm_name queue) \<le> 0xFFFFFFFF"
    and rest: "writeSubscribers (writer @ field) subscribers = Some body"
    using Cons.prems by (auto simp: writeString_eq write_fields queue_def field_def split: if_splits)
  obtain fields where fields: "body = (writer @ field) @ fields"
    "\<And>pre post. readSubscribers (length subscribers) (reader_at pre (fields @ post)) =
       Inr (map clientSubscriber subscribers, reader_at (pre @ fields) post)"
    using Cons.IH [OF rest] by blast
  have "readSubscribers (length (subscriber # subscribers)) (reader_at pre ((field @ fields) @ post)) =
      Inr (map clientSubscriber (subscriber # subscribers), reader_at (pre @ field @ fields) post)" for pre post
    using short fields(2) [of "pre @ field" post]
    by (simp add: field_def read_fields orMalformed_def clientSubscriber_def queueDescriptor_def queue_def)
  then show ?case using fields(1) by (intro exI [of _ "field @ fields"]) simp
qed simp

lemma unat_length: "length xs < 2 ^ 32 \<Longrightarrow> unat (word_of_nat (length xs) :: u32) = length xs"
  by (simp add: unsigned_of_nat take_bit_nat_eq_self)

lemma readDiscovery_discoveryBody:
  assumes body: "discoveryBody result = Some body" and listed: "transportListed (dr_transport result)"
    and subs: "dr_subscribers result \<noteq> []" "length (dr_subscribers result) < 2 ^ 32"
  shows "readDiscovery body = Inr \<lparr>rdi_topic_id = dr_topic_id result, rdi_transport = dr_transport result,
    rdi_pool = poolDescriptor (dr_topic_id result) (dr_pool result),
    rdi_subscribers = map clientSubscriber (dr_subscribers result)\<rparr>"
proof -
  define pool where "pool = dr_pool result"
  define front where "front = encodeBigEndian (dr_topic_id result) @
    encodeBigEndian (transportValue (dr_transport result)) @ stringField (spm_shm_name pool) @
    encodeBigEndian (spm_pool_id pool) @ encodeBigEndian (spm_segment_size pool) @
    encodeBigEndian (spm_layout_version pool) @
    encodeBigEndian (word_of_nat (length (dr_subscribers result)) :: u32)"
  have short: "length (spm_shm_name pool) \<le> 0xFFFFFFFF"
    and rest: "writeSubscribers front (dr_subscribers result) = Some body"
    using body by (auto simp: discoveryBody_def writeString_eq write_fields pool_def front_def split: if_splits)
  obtain fields where "body = front @ fields"
    "\<And>pre post. readSubscribers (length (dr_subscribers result)) (reader_at pre (fields @ post)) =
       Inr (map clientSubscriber (dr_subscribers result), reader_at (pre @ fields) post)"
    using writeSubscribers_eq [OF rest] by blast
  from this(1) this(2) [of front "[]"] show ?thesis
    using short subs
    by (simp add: readDiscovery_def front_def newReader_at read_fields orMalformed_def unat_length
        poolDescriptor_def transport_type.cast_value [OF listed] pool_def)
qed

definition clientEventKind :: "PeerEventKind \<Rightarrow> ClientPeerEventKind" where
  "clientEventKind kind = (case kind of PublisherDead \<Rightarrow> ClientPublisherDead | SubscriberDead \<Rightarrow> ClientSubscriberDead)"

definition clientEvent :: "PeerEventRecord \<Rightarrow> RegistryPeerEvent" where
  "clientEvent event = \<lparr>rpe_kind = clientEventKind (pv_kind event),
     rpe_target_endpoint_id = pv_target_endpoint_id event, rpe_dead_endpoint_id = pv_dead_endpoint_id event,
     rpe_topic_id = pv_topic_id event, rpe_resource_id = pv_resource_id event\<rparr>"

lemma writePeerEvents_eq:
  "\<exists>fields. writePeerEvents writer events = writer @ fields \<and>
     (\<forall>pre post. readPeerEvents (length events) (reader_at pre (fields @ post)) =
        Inr (map clientEvent events, reader_at (pre @ fields) post))"
proof (induction events arbitrary: writer)
  case (Cons event events)
  define field where "field = encodeBigEndian (peerEventValue (pv_kind event)) @
    encodeBigEndian (pv_target_endpoint_id event) @ encodeBigEndian (pv_dead_endpoint_id event) @
    encodeBigEndian (pv_topic_id event) @ encodeBigEndian (pv_resource_id event)"
  obtain fields where fields: "writePeerEvents (writer @ field) events = (writer @ field) @ fields"
    "\<And>pre post. readPeerEvents (length events) (reader_at pre (fields @ post)) =
       Inr (map clientEvent events, reader_at (pre @ fields) post)"
    using Cons.IH [of "writer @ field"] by blast
  have "readPeerEvents (length (event # events)) (reader_at pre ((field @ fields) @ post)) =
      Inr (map clientEvent (event # events), reader_at (pre @ field @ fields) post)" for pre post
    using fields(2) [of "pre @ field" post]
    by (cases "pv_kind event") (simp_all add: field_def read_fields orMalformed_def peerEventValue_def
        clientEvent_def clientEventKind_def)
  moreover have "writePeerEvents writer (event # events) = writer @ field @ fields"
    using fields(1) by (simp add: field_def write_fields)
  ultimately show ?case by blast
qed simp

lemma readHeartbeat_heartbeatBody:
  assumes "liveness = Alive \<or> liveness = Suspected" "length events < 2 ^ 32"
  shows "readHeartbeat (heartbeatBody liveness events) = Inr \<lparr>hbr_state = liveness, hbr_events = map clientEvent events\<rparr>"
proof -
  define front where "front = encodeBigEndian (livenessValue liveness) @
    encodeBigEndian (word_of_nat (length events) :: u32)"
  obtain fields where "writePeerEvents front events = front @ fields"
    "\<And>pre post. readPeerEvents (length events) (reader_at pre (fields @ post)) =
       Inr (map clientEvent events, reader_at (pre @ fields) post)"
    using writePeerEvents_eq [of front events] by blast
  from this(1) this(2) [of front "[]"] show ?thesis
    using assms liveness_state.cast_value [of liveness]
    by (auto simp: readHeartbeat_def heartbeatBody_def front_def write_fields newReader_at read_fields
        orMalformed_def unat_length)
qed

definition clientNode :: "NodeRecord \<Rightarrow> RegistryNodeInfo" where
  "clientNode node = \<lparr>rni_node_id = nr_node_id node, rni_node_name = nr_node_name node, rni_liveness = nr_liveness node\<rparr>"

lemma writeNodes_eq:
  "writeNodes writer nodes = Some body \<Longrightarrow> \<forall>node \<in> set nodes. nr_liveness node = Alive \<or> nr_liveness node = Suspected \<Longrightarrow>
     \<exists>fields. body = writer @ fields \<and> (\<forall>pre post. readNodes (length nodes) (reader_at pre (fields @ post)) =
        Inr (map clientNode nodes, reader_at (pre @ fields) post))"
proof (induction nodes arbitrary: writer)
  case (Cons node nodes)
  define field where "field = encodeBigEndian (nr_node_id node) @ stringField (nr_node_name node) @
    encodeBigEndian (livenessValue (nr_liveness node))"
  have short: "length (nr_node_name node) \<le> 0xFFFFFFFF"
    and rest: "writeNodes (writer @ field) nodes = Some body"
    using Cons.prems(1) by (auto simp: writeString_eq write_fields field_def split: if_splits)
  obtain fields where fields: "body = (writer @ field) @ fields"
    "\<And>pre post. readNodes (length nodes) (reader_at pre (fields @ post)) =
       Inr (map clientNode nodes, reader_at (pre @ fields) post)"
    using Cons.IH [OF rest] Cons.prems(2) by auto
  have live: "livenessCastOf (livenessValue (nr_liveness node)) = nr_liveness node"
    "nr_liveness node = Alive \<or> nr_liveness node = Suspected"
    using Cons.prems(2) liveness_state.cast_value [of "nr_liveness node"] by auto
  have "readNodes (length (node # nodes)) (reader_at pre ((field @ fields) @ post)) =
      Inr (map clientNode (node # nodes), reader_at (pre @ field @ fields) post)" for pre post
    using short live fields(2) [of "pre @ field" post]
    by (auto simp: field_def read_fields orMalformed_def clientNode_def)
  then show ?case using fields(1) by (intro exI [of _ "field @ fields"]) simp
qed simp

lemma readNodeList_nodesBody:
  assumes "nodesBody nodes = Some body" "\<forall>node \<in> set nodes. nr_liveness node = Alive \<or> nr_liveness node = Suspected"
    "length nodes < 2 ^ 32"
  shows "readNodeList body = Inr (map clientNode nodes)"
proof -
  obtain fields where "body = encodeBigEndian (word_of_nat (length nodes) :: u32) @ fields"
    "\<And>pre post. readNodes (length nodes) (reader_at pre (fields @ post)) =
       Inr (map clientNode nodes, reader_at (pre @ fields) post)"
    using writeNodes_eq [of "writeU32 [] (word_of_nat (length nodes))" nodes body] assms(1,2)
    by (auto simp: nodesBody_def write_fields)
  from this(1) this(2) [of "encodeBigEndian (word_of_nat (length nodes) :: u32)" "[]"] show ?thesis
    using assms(3) by (simp add: readNodeList_def newReader_at read_fields orMalformed_def unat_length)
qed

definition clientTopicInfo :: "TopicRecord \<Rightarrow> RegistryTopicInfo" where
  "clientTopicInfo topic = \<lparr>rti_topic_id = tr_topic_id topic, rti_topic_name = tr_topic_name topic,
     rti_type_name = tr_type_name topic, rti_type_hash = tr_type_hash topic, rti_transport = tr_transport topic,
     rti_max_message_size = tr_max_message_size topic,
     rti_publisher_count = (if tr_publisher_endpoint topic \<noteq> None then 1 else 0),
     rti_subscriber_count = word_of_nat (card (tr_subscriber_endpoints topic)),
     rti_pool = poolDescriptor (tr_topic_id topic) (tr_pool topic)\<rparr>"

lemma readTopicInfo_topicBody:
  "topicBody topic = Some body \<Longrightarrow> transportListed (tr_transport topic) \<Longrightarrow>
     readTopicInfo body = Inr (clientTopicInfo topic)"
  by (auto simp: topicBody_def readTopicInfo_def writeString_eq write_fields newReader_at read_fields
      orMalformed_def clientTopicInfo_def poolDescriptor_def transport_type.cast_value split: if_splits)

lemma readStats_statsBody:
  "readStats (statsBody stats) = Inr \<lparr>rsi_node_count = rss_node_count stats, rsi_topic_count = rss_topic_count stats,
     rsi_publisher_count = rss_publisher_count stats, rsi_subscriber_count = rss_subscriber_count stats,
     rsi_heartbeat_received = rss_heartbeat_received stats, rsi_suspected_count = rss_suspected_count stats,
     rsi_dead_node_count = rss_dead_node_count stats\<rparr>"
  by (simp add: statsBody_def readStats_def write_fields newReader_at read_fields orMalformed_def)

section \<open>The client's side of an exchange\<close>

text \<open>
  The steps of a read that receives exactly \<open>bs\<close>, in pieces and with interruptions, before its deadline.
\<close>

inductive delivers :: "bytes \<Rightarrow> DeadlineStep list \<Rightarrow> bool" where
  delivered: "delivers [] []"
| poll_interrupted: "bs \<noteq> [] \<Longrightarrow> (\<And>t. dl_poll step t = PollErrno EINTR) \<Longrightarrow> delivers bs steps \<Longrightarrow> delivers bs (step # steps)"
| recv_interrupted: "bs \<noteq> [] \<Longrightarrow> (\<And>t. dl_poll step t = PollReady False) \<Longrightarrow> dl_recv step = RecvErrno e \<Longrightarrow>
    e = EINTR \<or> e = EAGAIN \<Longrightarrow> delivers bs steps \<Longrightarrow> delivers bs (step # steps)"
| piece: "(\<And>t. dl_poll step t = PollReady False) \<Longrightarrow> dl_recv step = RecvData p \<Longrightarrow> p \<noteq> [] \<Longrightarrow>
    delivers bs steps \<Longrightarrow> delivers (p @ bs) (step # steps)"

lemma readWithDeadline_delivers:
  "delivers bs steps \<Longrightarrow> readWithDeadline (length buffer + length bs) deadline timeout buffer (steps @ rest) =
     Some (Inr (buffer @ bs), rest)"
proof (induction bs steps arbitrary: buffer rule: delivers.induct)
  case delivered
  show ?case by (cases rest) simp_all
next
  case (piece step p bs steps)
  then show ?case using piece.IH [of "buffer @ p"] by (simp add: add.assoc)
qed auto

definition replies :: "bytes \<Rightarrow> RequestEnv \<Rightarrow> bool" where
  "replies frame env \<longleftrightarrow> (\<exists>header_steps payload_steps rest. rq_steps env = header_steps @ payload_steps @ rest \<and>
     delivers (take 16 frame) header_steps \<and> delivers (drop 16 frame) payload_steps)"

lemma receiveFrame_replies:
  assumes frame: "encodeControlFrame opcode request_id payload = Some frame" "opcodeListed opcode"
    and replies: "replies frame env"
  shows "\<exists>header. receiveFrame timeout env = Some (Inr \<lparr>cf_header = header, cf_payload = payload\<rparr>) \<and>
    ctl_opcode header = opcode \<and> ctl_request_id header = request_id"
proof -
  obtain header where header: "decodeControlHeader (Some (take 16 frame)) = Some header"
    "validateControlHeader header = ControlValid" "ctl_opcode header = opcode" "ctl_request_id header = request_id"
    "unat (ctl_payload_size header) = length payload" "drop 16 frame = payload"
    using encodeControlFrame_split [OF frame] by blast
  obtain header_steps payload_steps rest where steps: "rq_steps env = header_steps @ payload_steps @ rest"
    "delivers (take 16 frame) header_steps" "delivers payload payload_steps"
    using replies header(6) by (auto simp: replies_def)
  have "length (take 16 frame) = 16"
    using frame(1) by (auto simp: encodeControlFrame_def split: if_splits)
  then show ?thesis
    using readWithDeadline_delivers [OF steps(2), of "[]"] readWithDeadline_delivers [OF steps(3), of "[]"] header
    by (simp add: receiveFrame_def steps(1) kControlHeaderSize_def)
qed

lemma client_call_replies:
  assumes c: "rcl_socket c \<noteq> None" "rcl_next_request_id c = request_id" "request_id \<noteq> 0"
    and sent: "encodeControlFrame opcode request_id payload = Some request"
      "writeAll request (rq_sends env) = Some (result, rest)" "io_status result = IoComplete"
    and reply: "responseFrame request_id error body = Some frame" "errorCodeListed error" "replies frame env"
  shows "client_call opcode (Some payload) timeout parse env c =
    Some (if error = Ok then parse body else Inl (MiddlewareException error (errorMessage error)),
          c\<lparr>rcl_next_request_id := request_id + 1\<rparr>)"
proof -
  obtain response where response: "encodeResponsePayload error (if error = Ok then [] else errorMessage error) body =
      Some response" "encodeControlFrame OpResponse request_id response = Some frame"
    using reply(1) by (auto simp: responseFrame_def split: bind_splits)
  have "length (if error = Ok then [] else errorMessage error) \<le> 0xFFFFFFFF"
    using response(1) by (simp add: encodeResponsePayload_def writeString_eq split: if_splits)
  then have decoded: "decodeResponsePayload response = Some \<lparr>re_error = error,
      re_message = (if error = Ok then [] else errorMessage error), re_body = body\<rparr>"
    using decode_encodeResponsePayload [OF reply(2)] response(1) by (metis option.inject)
  obtain header where "receiveFrame timeout env = Some (Inr \<lparr>cf_header = header, cf_payload = response\<rparr>)"
    "ctl_opcode header = OpResponse" "ctl_request_id header = request_id"
    using receiveFrame_replies [OF response(2) _ reply(3)] by auto
  then show ?thesis
    using c sent decoded by (auto simp: client_call_def client_request_def responseBody_def Let_def)
qed

section \<open>The registry's side of an exchange\<close>

text \<open>The server with other input in the buffer of one client.\<close>

definition withInput :: "int \<Rightarrow> ClientConnection \<Rightarrow> bytes \<Rightarrow> RegistryServer \<Rightarrow> RegistryServer" where
  "withInput fd client xs s = modifyClient fd (\<lambda>_. client\<lparr>cc_input := xs\<rparr>) s"

lemma omap_modify_twice: "omap_modify k f (omap_modify k g m) = omap_modify k (f \<circ> g) m"
  by (induction m) (auto simp: omap_modify_def)

lemma modifyClient_withInput [simp]:
  "modifyClient fd (\<lambda>client. client\<lparr>cc_input := cc_input client @ ys\<rparr>) (withInput fd client xs s) =
     withInput fd client (xs @ ys) s"
  "modifyClient fd (\<lambda>client. client\<lparr>cc_input := drop n (cc_input client)\<rparr>) (withInput fd client xs s) =
     withInput fd client (drop n xs) s"
  by (simp_all add: withInput_def modifyClient_def omap_modify_twice comp_def)

lemma withInput_find [simp]:
  "omap_find fd (sv_clients s) \<noteq> None \<Longrightarrow> omap_find fd (sv_clients (withInput fd client xs s)) = Some (client\<lparr>cc_input := xs\<rparr>)"
  by (auto simp: withInput_def modifyClient_def)

lemma withInput_same:
  assumes "omap_ok (sv_clients s)" "omap_find fd (sv_clients s) = Some client" "cc_input client = xs"
  shows "withInput fd client xs s = s"
proof -
  have "b = client" if "(fd, b) \<in> set (sv_clients s)" for b
    using that assms(1,2) by (simp add: omap_find_set)
  then have "omap_modify fd (\<lambda>_. client) (sv_clients s) = sv_clients s"
    by (auto simp: omap_modify_def intro!: map_idI)
  moreover have "client\<lparr>cc_input := xs\<rparr> = client" using assms(3) by simp
  ultimately show ?thesis by (simp add: withInput_def modifyClient_def)
qed

text \<open>
  A complete frame for the client \<open>fd\<close>, and what the handler makes of it; the handler leaves the input
  of the client alone.
\<close>

definition request_frame ::
  "ServerEnv \<Rightarrow> int \<Rightarrow> ClientConnection \<Rightarrow> ControlHeader \<Rightarrow> bytes \<Rightarrow> RegistryServer \<Rightarrow> RegistryServer \<Rightarrow> bool" where
  "request_frame env fd client header frame s t \<longleftrightarrow>
     omap_ok (sv_clients s) \<and> omap_find fd (sv_clients s) = Some client \<and>
     cc_input client = [] \<and> \<not> cc_close_after_write client \<and>
     decodeControlHeader (Some (take 16 frame)) = Some header \<and> validateControlHeader header = ControlValid \<and>
     length frame = 16 + unat (ctl_payload_size header) \<and> isKnownRequestOpcode (ctl_opcode header) \<and>
     dispatch env fd header (drop 16 frame) s = Inr t \<and>
     (\<exists>client'. omap_find fd (sv_clients t) = Some client' \<and> cc_input client' = [])"

lemma request_frameD:
  assumes "request_frame env fd client header frame s t"
  shows "omap_ok (sv_clients s)" "omap_find fd (sv_clients s) = Some client" "cc_input client = []"
    "\<not> cc_close_after_write client"
    "decodeControlHeader (Some (take 16 frame)) = Some header" "validateControlHeader header = ControlValid"
    "length frame = 16 + unat (ctl_payload_size header)" "isKnownRequestOpcode (ctl_opcode header)"
    "dispatch env fd header (drop 16 frame) s = Inr t"
    "\<exists>client'. omap_find fd (sv_clients t) = Some client' \<and> cc_input client' = []"
  using assms by (simp_all add: request_frame_def)

text \<open>A frame that is not complete waits for the rest; a complete one is dispatched.\<close>

lemma parseFrames_waits:
  assumes req: "request_frame env fd client header frame s t" and "frame = xs @ ys" "ys \<noteq> []"
  shows "parseFrames env fd (withInput fd client xs s) = Inr (withInput fd client xs s)"
proof -
  note r = request_frameD [OF req]
  have "take 16 xs = take 16 frame" if "16 \<le> length xs" using that assms(2) by simp
  moreover have "length xs < length frame" using assms by simp
  ultimately show ?thesis
    using r by (auto simp: parseFrames_def orThrown_def kControlHeaderSize_def Let_def)
qed

lemma parseFrames_complete:
  assumes req: "request_frame env fd client header frame s t"
  shows "parseFrames env fd (withInput fd client frame s) = Inr t"
proof -
  note r = request_frameD [OF req]
  obtain n where n: "length frame = Suc n" using r(7) by (cases "length frame") auto
  have "parseLoop env fd m t = Inr t" for m
    using r(10) by (cases m) (auto simp: kControlHeaderSize_def)
  moreover have "modifyClient fd (\<lambda>client. client\<lparr>cc_input := drop (length frame) (cc_input client)\<rparr>)
      (withInput fd client frame s) = s"
    using withInput_same [OF r(1-3)] by simp
  ultimately show ?thesis
    using r
    by (simp add: parseFrames_def orThrown_def kControlHeaderSize_def Let_def n)
qed

lemma readLoop_pieces:
  assumes req: "request_frame env fd client header frame s t"
  shows "xs @ concat pieces = frame \<Longrightarrow> pieces \<noteq> [] \<Longrightarrow> \<forall>p \<in> set pieces. p \<noteq> [] \<and> length p \<le> kReadBufferSize \<Longrightarrow>
     readLoop env fd (map RecvData pieces) (withInput fd client xs s) = Inr t"
proof (induction pieces arbitrary: xs)
  case (Cons p pieces)
  note r = request_frameD [OF req]
  have size: "length (xs @ p) \<le> kMaxInputSize"
    using Cons.prems(1) r(6,7)
    by (auto simp: validateControlHeader_def kMaxInputSize_def kControlHeaderSize_def split: if_splits)
  have step: "readLoop env fd (map RecvData (p # pieces)) (withInput fd client xs s) =
      bindE (parseFrames env fd (withInput fd client (xs @ p) s))
        (\<lambda>s. (case omap_find fd (sv_clients s) of None \<Rightarrow> Inr s
              | Some client \<Rightarrow> if cc_close_after_write client then Inr s else readLoop env fd (map RecvData pieces) s))"
    using Cons.prems(3) r(1-4) size by simp
  show ?case
  proof (cases "pieces = []")
    case True
    then show ?thesis
      using Cons.prems(1) parseFrames_complete [OF req] r(10) step by auto
  next
    case False
    then have "concat pieces \<noteq> []" using Cons.prems(3) by (cases pieces) auto
    then have waits: "parseFrames env fd (withInput fd client (xs @ p) s) = Inr (withInput fd client (xs @ p) s)"
      using Cons.prems(1) by (intro parseFrames_waits [OF req, of _ "concat pieces"]) simp_all
    show ?thesis unfolding step waits
      using Cons.IH [of "xs @ p"] Cons.prems False r(2,4) by simp
  qed
qed simp

lemma queueResponse_queued:
  assumes "omap_find fd (sv_clients s) \<noteq> None" "responseFrame request_id error body = Some frame" "ev_mod env (sv_tick s)"
  shows "queueResponse env fd request_id error body s =
    Inr (tick (modifyClient fd (\<lambda>client. client\<lparr>cc_output := cc_output client @ frame\<rparr>) s))"
  using assms by (auto simp: queueResponse_def updateInterest_def modifyClient_def)

text \<open>Every answer of \<open>advertise\<close> fits into one frame.\<close>

lemma length_errorMessage: "errorCodeListed error \<Longrightarrow> length (errorMessage error) \<le> 100"
  by (cases error) simp_all

lemma responseFrame_small:
  assumes "errorCodeListed error" "length body \<le> 65000"
  shows "\<exists>frame. responseFrame request_id error body = Some frame"
  using assms length_errorMessage [OF assms(1)]
  by (cases "error = Ok") (auto simp: responseFrame_def encodeResponsePayload_def writeString_eq write_fields writeBytes_def stringField_def
      encodeControlFrame_def kMaxControlPayloadSize_def Let_def)

lemma advertise_small:
  "advertise connection node_id topic type_name type_hash n transport pool st = Some (result, st') \<Longrightarrow>
     errorCodeListed (epr_error result) \<and> length (spm_shm_name (epr_pool result)) \<le> 192"
  by (auto simp: advertise_def topicConflict_def endpointError_def emptyPool_def validPoolMetadata_def Let_def
      split: option.splits if_splits bind_splits)

lemma endpointBody_small:
  assumes "length (spm_shm_name (epr_pool result)) \<le> 192"
  obtains body where "endpointBody result = Some body" "length body \<le> 1000"
  using assms by (auto simp: endpointBody_def writeString_eq write_fields stringField_def)

lemma handleAdvertiseTopic_answers:
  assumes client: "omap_find fd (sv_clients s) \<noteq> None" and env: "ev_mod env (sv_tick s)"
    and payload: "advertisePayload node_id topic type_name type_hash n transport pool = Some payload"
      "transportListed transport" "n \<le> 0xFFFFFFFF"
    and local: "advertise connection node_id topic type_name type_hash n transport (poolMetadata pool) (sv_state s) =
      Some (result, state)"
  obtains body frame where "endpointBody result = Some body"
    "responseFrame request_id (epr_error result) body = Some frame"
    "handleAdvertiseTopic env fd connection request_id payload s =
       Inr (tick (modifyClient fd (\<lambda>client. client\<lparr>cc_output := cc_output client @ frame\<rparr>) (s\<lparr>sv_state := state\<rparr>)))"
proof -
  note small = advertise_small [OF local]
  obtain body where body: "endpointBody result = Some body" "length body \<le> 1000"
    using endpointBody_small small by blast
  obtain frame where frame: "responseFrame request_id (epr_error result) body = Some frame"
    using responseFrame_small [of "epr_error result" body request_id] small body(2) by auto
  have "queueResponse env fd request_id (epr_error result) body (s\<lparr>sv_state := state\<rparr>) =
      Inr (tick (modifyClient fd (\<lambda>client. client\<lparr>cc_output := cc_output client @ frame\<rparr>) (s\<lparr>sv_state := state\<rparr>)))"
    using client env by (intro queueResponse_queued [OF _ frame]) simp_all
  then have "handleAdvertiseTopic env fd connection request_id payload s =
      Inr (tick (modifyClient fd (\<lambda>client. client\<lparr>cc_output := cc_output client @ frame\<rparr>) (s\<lparr>sv_state := state\<rparr>)))"
    using leD [OF payload(3)] local body(1)
    by (simp add: handleAdvertiseTopic_def parseAdvertise_advertisePayload [OF payload(1)] answer_def orThrown_def
        transport_type.cast_value [OF payload(2)] UINT32_MAX_64_def)
  then show thesis by (rule that [OF body(1) frame])
qed

end
