(* ===== verification/MW_Server_Properties.thy ===== *)
theory MW_Server_Properties
  imports MW_Registry_Server_Loop MW_Registry_Session MW_Rpc "HOL-Library.Code_Target_Nat"
begin

text \<open>
  Properties of the registry daemon (\<open>src/registry/src/registry_server.cpp\<close>), of its wire format as
  the client reads and writes it (\<open>src/middleware/src/detail/registry_client.cpp\<close>), and of the buffer of
  peer events of a session.
\<close>

section \<open>The event loop\<close>

definition demoServerEnv :: ServerEnv where
  "demoServerEnv = \<lparr>ev_clock = (\<lambda>t. int t), ev_mod = (\<lambda>_. True), ev_is_socket = (\<lambda>_ _. True)\<rparr>"

definition demoListen :: SocketEnv where
  "demoListen = \<lparr>sk_socket = Inr 3, sk_bind = None, sk_listen = None, sk_connect = None\<rparr>"

definition demoSockets :: SocketOs where
  "demoSockets = \<lparr>so_fds = {}, so_paths = {}\<rparr>"

text \<open>A client connects and registers a node, in one frame cut into two pieces.\<close>

definition demoRegister :: bytes where
  "demoRegister = the (encodeControlFrame OpRegisterNode 1 (the (registerNodePayload ''n'')))"

definition demoPolls :: "(int \<times> (int \<Rightarrow> int + ServerEvent list)) list" where
  "demoPolls =
     [(100, \<lambda>_. Inr [ListenerReady [(Inr 7, None)]]),
      (100, \<lambda>_. Inr [ClientReady 7 True False False [RecvData (take 10 demoRegister), RecvErrno EINTR,
         RecvData (drop 10 demoRegister)] []]),
      (100, \<lambda>_. Inr [ClientReady 7 False True False [] [SendCount 100]])]"

text \<open>
  (C32) The registry daemon keeps its tables consistent over every sequence of polls, whatever clients
  send and however the socket cuts it, as long as fewer than \<open>2^64 - 1\<close> connections and bytes arrive.
  The registry satisfies its invariant; connections have distinct identifiers; every pending discovery
  belongs to the connection that asked for it and its publisher still has no subscriber, so that no
  request that could be answered waits; peer events are kept for registered nodes only, at most 1024
  each.  The loop fails only with a system error of \<open>accept4\<close>, \<open>epoll_ctl\<close> or \<open>epoll_wait\<close>, or, where
  \<open>EPOLL_CTL_MOD\<close> fails for some client, by using a client that was removed.
\<close>

theorem server_invariant_reachable:
  assumes new: "RegistryServer_new path liveness senv epoll added os = (Inr (listener, epoll_fd, s0), os')"
    and traffic: "\<forall>(timeout, wait) \<in> set polls. \<forall>x. wait_connections (wait x) \<le> n \<and> wait_bytes (wait x) \<le> n"
    and bound: "length polls * n \<le> 2 ^ 64 - 2"
  shows "case server_run env polls s0 of
      Inl DanglingReference \<Rightarrow> (\<exists>t. \<not> ev_mod env t)
    | Inl (Thrown e) \<Rightarrow> (\<exists>errno what. e = SystemException errno what)
    | Inr s \<Rightarrow> registry_inv (sv_state s) \<and>
        (\<forall>fd fd' c c'. omap_find fd (sv_clients s) = Some c \<longrightarrow> omap_find fd' (sv_clients s) = Some c' \<longrightarrow>
           cc_connection_id c = cc_connection_id c' \<longrightarrow> fd = fd') \<and>
        (\<forall>e p. omap_find e (sv_pending s) = Some p \<longrightarrow>
           (\<exists>c. omap_find (pdy_fd p) (sv_clients s) = Some c \<and> cc_connection_id c = pdy_connection_id p) \<and>
           (\<exists>r. resolve (pdy_connection_id p) (pdy_node_id p) e (sv_state s) = Some r \<and> dr_error r = TopicNotFound)) \<and>
        (\<forall>node es. omap_find node (sv_peer_events s) = Some es \<longrightarrow>
           length es \<le> 1024 \<and> omap_find node (rs_nodes (sv_state s)) \<noteq> None)"
proof -
  have run: "polled env (server_inv {} (length polls * n) (length polls * n)) (server_run env polls s0)"
    using server_run_polled [OF server_inv_new [OF new], of polls n env] traffic bound by simp
  show ?thesis
  proof (cases "server_run env polls s0")
    case (Inl fault)
    then show ?thesis using run by (cases fault) (auto simp: polled_def)
  next
    case (Inr s)
    then have inv: "server_inv {} (length polls * n) (length polls * n) s" using run by simp
    then have reg: "registry_inv (sv_state s)" by (auto simp: server_inv_def registry_after_def)
    have tables: "clients_ok s" "pending_ok False {} s" "events_ok {} s"
      using inv by (simp_all add: server_inv_def server_tables_def)
    have "(\<exists>c. omap_find (pdy_fd p) (sv_clients s) = Some c \<and> cc_connection_id c = pdy_connection_id p) \<and>
        (\<exists>r. resolve (pdy_connection_id p) (pdy_node_id p) e (sv_state s) = Some r \<and> dr_error r = TopicNotFound)"
      if "omap_find e (sv_pending s) = Some p" for e p
      using tables(2) that resolve_waiting [OF reg] unfolding pending_ok_def request_ok_def by blast
    then show ?thesis
      using reg tables(1,3) unfolding clients_ok_def events_ok_def by (auto simp: Inr kMaxEventsPerNode_def)
  qed
qed

lemma demo_server:
  "case RegistryServer_new ''/r'' defaultLivenessConfig demoListen (Inr 4) None demoSockets of
     (Inr (_, _, s0), _) \<Rightarrow> (case server_run demoServerEnv demoPolls s0 of
        Inr s \<Rightarrow> length (sv_clients s) = 1 \<and> length (rs_nodes (sv_state s)) = 1 | Inl _ \<Rightarrow> False)
   | _ \<Rightarrow> False"
  by code_simp

lemma demo_traffic:
  "\<forall>(timeout, wait) \<in> set demoPolls. \<forall>x. wait_connections (wait x) \<le> 100 \<and> wait_bytes (wait x) \<le> 100"
proof -
  have "length demoRegister = 21" by code_simp
  then show ?thesis by (simp add: demoPolls_def wait_connections_def wait_bytes_def)
qed

theorem server_invariant_reachable_witness:
  "\<exists>listener epoll_fd s0 os' s.
     RegistryServer_new ''/r'' defaultLivenessConfig demoListen (Inr 4) None demoSockets =
       (Inr (listener, epoll_fd, s0), os') \<and>
     server_run demoServerEnv demoPolls s0 = Inr s \<and> length (rs_nodes (sv_state s)) = 1 \<and>
     registry_inv (sv_state s)"
proof -
  obtain listener epoll_fd s0 os' where new:
    "RegistryServer_new ''/r'' defaultLivenessConfig demoListen (Inr 4) None demoSockets =
       (Inr (listener, epoll_fd, s0), os')"
    using demo_server by (auto split: prod.split_asm sum.split_asm)
  then obtain s where run: "server_run demoServerEnv demoPolls s0 = Inr s" "length (rs_nodes (sv_state s)) = 1"
    using demo_server by (cases "server_run demoServerEnv demoPolls s0") auto
  have "registry_inv (sv_state s)"
    using server_invariant_reachable [OF new demo_traffic, of demoServerEnv] run(1) by (simp add: demoPolls_def)
  then show ?thesis using new run by blast
qed

section \<open>A remote call\<close>

text \<open>
  (C33) Advertising a topic over the wire is advertising it in the registry: however the socket cuts
  the request into pieces, the daemon performs exactly the \<open>advertise\<close> of its state with the client's
  arguments and queues one answer behind the output of that client; and a client that receives this
  answer, in any pieces and with any interruptions before its deadline, returns the topic, the
  endpoint and the pool of the result, or throws the error code with its message.
\<close>

theorem remote_advertise:
  assumes server: "omap_ok (sv_clients s)" "omap_find fd (sv_clients s) = Some client" "cc_input client = []"
      "\<not> cc_close_after_write client" "ev_mod env (sv_tick s)"
    and request: "advertisePayload node_id topic type_name type_hash n transport pool = Some payload"
      "encodeControlFrame OpAdvertiseTopic request_id payload = Some request" "transportListed transport" "n \<le> 0xFFFFFFFF"
    and pieces: "concat pieces = request" "\<forall>p \<in> set pieces. p \<noteq> [] \<and> length p \<le> kReadBufferSize"
    and local: "advertise (cc_connection_id client) node_id topic type_name type_hash n transport (poolMetadata pool)
      (sv_state s) = Some (result, state)"
  shows "\<exists>t reply. readLoop env fd (map RecvData pieces) s = Inr t \<and> sv_state t = state \<and>
    omap_find fd (sv_clients t) = Some (client\<lparr>cc_output := cc_output client @ reply\<rparr>) \<and>
    (\<forall>c renv sent rest. rcl_socket c \<noteq> None \<longrightarrow> rcl_next_request_id c = request_id \<longrightarrow> request_id \<noteq> 0 \<longrightarrow>
       writeAll request (rq_sends renv) = Some (sent, rest) \<longrightarrow> io_status sent = IoComplete \<longrightarrow> replies reply renv \<longrightarrow>
       client_advertise node_id topic type_name type_hash n transport pool renv c =
         Some (if epr_error result = Ok
               then Inr \<lparr>rep_topic_id = epr_topic_id result, rep_endpoint_id = epr_endpoint_id result,
                         rep_pool = poolDescriptor (epr_topic_id result) (epr_pool result)\<rparr>
               else Inl (MiddlewareException (epr_error result) (errorMessage (epr_error result))),
               c\<lparr>rcl_next_request_id := request_id + 1\<rparr>))"
proof -
  have present: "omap_find fd (sv_clients s) \<noteq> None" using server(2) by simp
  obtain body reply where answer: "endpointBody result = Some body"
    "responseFrame request_id (epr_error result) body = Some reply"
    "handleAdvertiseTopic env fd (cc_connection_id client) request_id payload s = Inr (tick (modifyClient fd
       (\<lambda>client. client\<lparr>cc_output := cc_output client @ reply\<rparr>) (s\<lparr>sv_state := state\<rparr>)))"
    by (rule handleAdvertiseTopic_answers [OF present server(5) request(1,3,4) local])
  define t where "t = tick (modifyClient fd (\<lambda>client. client\<lparr>cc_output := cc_output client @ reply\<rparr>)
    (s\<lparr>sv_state := state\<rparr>))"
  obtain header where header: "decodeControlHeader (Some (take 16 request)) = Some header"
    "validateControlHeader header = ControlValid" "ctl_opcode header = OpAdvertiseTopic"
    "ctl_request_id header = request_id" "unat (ctl_payload_size header) = length payload" "drop 16 request = payload"
    using encodeControlFrame_split [OF request(2)] by auto
  have size: "length request = 16 + length payload"
    using request(2) by (auto simp: encodeControlFrame_def split: if_splits)
  have t: "sv_state t = state" "omap_find fd (sv_clients t) = Some (client\<lparr>cc_output := cc_output client @ reply\<rparr>)"
    using server(2) by (simp_all add: t_def tick_def modifyClient_def)
  have "request_frame env fd client header request s t"
    using server header size t answer(3) by (simp add: request_frame_def dispatch_def orThrown_def t_def)
  moreover have "pieces \<noteq> []" using pieces(1) size by auto
  ultimately have "readLoop env fd (map RecvData pieces) (withInput fd client [] s) = Inr t"
    using pieces by (intro readLoop_pieces) simp_all
  then have "readLoop env fd (map RecvData pieces) s = Inr t"
    using withInput_same [OF server(1-3)] by simp
  moreover have listed: "errorCodeListed (epr_error result)" using advertise_small [OF local] by simp
  have "client_advertise node_id topic type_name type_hash n transport pool renv c =
      Some (if epr_error result = Ok
            then Inr \<lparr>rep_topic_id = epr_topic_id result, rep_endpoint_id = epr_endpoint_id result,
                      rep_pool = poolDescriptor (epr_topic_id result) (epr_pool result)\<rparr>
            else Inl (MiddlewareException (epr_error result) (errorMessage (epr_error result))),
            c\<lparr>rcl_next_request_id := request_id + 1\<rparr>)"
    if "rcl_socket c \<noteq> None" "rcl_next_request_id c = request_id" "request_id \<noteq> 0"
      "writeAll request (rq_sends renv) = Some (sent, rest)" "io_status sent = IoComplete" "replies reply renv"
    for c renv sent rest
    unfolding client_advertise_def request(1)
      client_call_replies [OF that(1-3) request(2) that(4,5) answer(2) listed that(6)]
    by (simp add: readEndpoint_endpointBody [OF answer(1)])
  ultimately show ?thesis using t by blast
qed

definition demoConnection :: ClientConnection where
  "demoConnection = \<lparr>cc_connection_id = 1, cc_input = [], cc_output = [], cc_output_offset = 0,
     cc_close_after_write = False\<rparr>"

definition demoRegistered :: RegistryServer where
  "demoRegistered = \<lparr>sv_state = snd (registerNode 1 ''n'' 0 (the (RegistryState_new defaultLivenessConfig))),
     sv_liveness = defaultLivenessConfig, sv_next_connection_id = 2,
     sv_clients = [(7, demoConnection)], sv_pending = [], sv_peer_events = [], sv_actions = [], sv_tick = 0\<rparr>"

lemma demo_advertise:
  "case advertise 1 1 ''t'' ''u'' ''v'' 16 UnixDomainSocket (poolMetadata emptyPoolDescriptor) (sv_state demoRegistered) of
     Some (r, state) \<Rightarrow> epr_error r = Ok \<and> length (rs_publishers state) = 1 | None \<Rightarrow> False"
  by code_simp

theorem remote_advertise_witness:
  "\<exists>request t reply. encodeControlFrame OpAdvertiseTopic 2
       (the (advertisePayload 1 ''t'' ''u'' ''v'' 16 UnixDomainSocket emptyPoolDescriptor)) = Some request \<and>
     readLoop demoServerEnv 7 (map RecvData [take 10 request, drop 10 request]) demoRegistered = Inr t \<and>
     map_option cc_output (omap_find 7 (sv_clients t)) = Some reply \<and> length (rs_publishers (sv_state t)) = 1"
proof -
  obtain payload where payload: "advertisePayload 1 ''t'' ''u'' ''v'' 16 UnixDomainSocket emptyPoolDescriptor = Some payload"
    "length payload = 55"
    by (simp add: advertisePayload_def writeString_eq write_fields stringField_def emptyPoolDescriptor_def)
  obtain request where request: "encodeControlFrame OpAdvertiseTopic 2 payload = Some request" "length request = 71"
    by (simp add: encodeControlFrame_def payload(2) kMaxControlPayloadSize_def)
  obtain r state where r: "advertise 1 1 ''t'' ''u'' ''v'' 16 UnixDomainSocket (poolMetadata emptyPoolDescriptor)
      (sv_state demoRegistered) = Some (r, state)" "length (rs_publishers state) = 1"
    using demo_advertise by (auto split: option.split_asm)
  have server: "omap_ok (sv_clients demoRegistered)" "omap_find 7 (sv_clients demoRegistered) = Some demoConnection"
    "cc_input demoConnection = []" "\<not> cc_close_after_write demoConnection" "ev_mod demoServerEnv (sv_tick demoRegistered)"
    by (simp_all add: demoRegistered_def demoConnection_def demoServerEnv_def omap_ok_def)
  have pieces: "concat [take 10 request, drop 10 request] = request"
    "\<forall>p \<in> set [take 10 request, drop 10 request]. p \<noteq> [] \<and> length p \<le> kReadBufferSize"
    using request(2) by (auto simp: kReadBufferSize_def)
  have "\<exists>t reply. readLoop demoServerEnv 7 (map RecvData [take 10 request, drop 10 request]) demoRegistered = Inr t \<and>
      sv_state t = state \<and> map_option cc_output (omap_find 7 (sv_clients t)) = Some reply"
    using remote_advertise [OF server payload(1) request(1) _ _ pieces, of r state] r(1)
    by (fastforce simp: demoConnection_def)
  then show ?thesis using payload(1) request(1) r(2) by (metis option.sel)
qed

end
