(* ===== verification/MW_Text.thy ===== *)
theory MW_Text
  imports MW_Prelude
begin

text \<open>
  Decimal numbers as text: \<open>std::to_string\<close> on unsigned values and the digits that the command line
  tools read.
\<close>

definition digit :: "nat \<Rightarrow> char" where
  "digit d = char_of (48 + d)"

definition digitValue :: "char \<Rightarrow> nat option" where
  "digitValue c = (if 48 \<le> (of_char c :: nat) \<and> (of_char c :: nat) \<le> 57 then Some (of_char c - 48) else None)"

fun to_string :: "nat \<Rightarrow> string" where
  "to_string n = (if n < 10 then [digit n] else to_string (n div 10) @ [digit (n mod 10)])"

declare to_string.simps [simp del]

text \<open>The value of a sequence of digits, and \<open>None\<close> if there is another character.\<close>

fun digitsValue :: "nat \<Rightarrow> string \<Rightarrow> nat option" where
  "digitsValue acc [] = Some acc"
| "digitsValue acc (c # cs) =
     (case digitValue c of None \<Rightarrow> None | Some d \<Rightarrow> digitsValue (10 * acc + d) cs)"

lemma digitValue_digit [simp]: "d < 10 \<Longrightarrow> digitValue (digit d) = Some d"
  by (simp add: digitValue_def digit_def)

lemma digitsValue_append:
  "digitsValue acc (xs @ ys) = (case digitsValue acc xs of None \<Rightarrow> None | Some acc \<Rightarrow> digitsValue acc ys)"
  by (induction acc xs rule: digitsValue.induct) (auto split: option.splits)

lemma digitsValue_to_string: "digitsValue 0 (to_string n) = Some n"
proof (induction n rule: to_string.induct)
  case (1 n)
  then show ?case
    by (subst to_string.simps) (simp add: digitsValue_append)
qed

lemma to_string_inj [simp]: "to_string m = to_string n \<longleftrightarrow> m = n"
  by (metis digitsValue_to_string option.inject)

lemma to_string_not_Nil [simp]: "to_string n \<noteq> []"
  by (subst to_string.simps) simp

end
