(* ===== verification/MW_Nonblocking.thy ===== *)
theory MW_Nonblocking
  imports MW_Unix_Socket
begin

text \<open>
  Reading from a socket with \<open>MSG_DONTWAIT\<close> into a buffer that survives between calls, as the
  publisher does for releases and the subscriber for frames and wake-ups
  (\<open>receiveOneRelease\<close>, \<open>receiveUdsAvailable\<close>, \<open>receiveWakeAvailable\<close>).  The list is what the socket has
  for the next calls of \<open>recv\<close>; used up, it means \<open>EAGAIN\<close>.  \<open>recv\<close> leaves in the socket what does
  not fit into the buffer.
\<close>

datatype FillStatus = Filled | PeerClosed | NoData | RecvFailed int

fun recvFill :: "nat \<Rightarrow> bytes \<Rightarrow> RecvResult list \<Rightarrow> FillStatus \<times> bytes \<times> RecvResult list" where
  "recvFill want buffer [] = (if length buffer < want then NoData else Filled, buffer, [])"
| "recvFill want buffer (r # rs) =
     (if length buffer < want
      then (case r of
          RecvData bs \<Rightarrow>
            let room = want - length buffer in
            if bs = [] then (PeerClosed, buffer, rs)
            else if length bs \<le> room then recvFill want (buffer @ bs) rs
            else (Filled, buffer @ take room bs, RecvData (drop room bs) # rs)
        | RecvErrno e \<Rightarrow>
            if e = EINTR then recvFill want buffer rs
            else if e = EAGAIN then (NoData, buffer, rs)
            else (RecvFailed e, buffer, rs))
      else (Filled, buffer, r # rs))"

section \<open>Progress\<close>

text \<open>The bytes and results that are still to be read.\<close>

fun unread :: "RecvResult list \<Rightarrow> nat" where
  "unread [] = 0"
| "unread (RecvData bs # rs) = Suc (length bs + unread rs)"
| "unread (RecvErrno e # rs) = Suc (unread rs)"

lemma recvFill_unread:
  "recvFill want buffer rs = (status, buffer', rs') \<Longrightarrow>
     unread rs' \<le> unread rs \<and> (length buffer < want \<longrightarrow> status = Filled \<longrightarrow> unread rs' < unread rs)"
  by (induction want buffer rs rule: recvFill.induct)
    (fastforce simp: Let_def split: if_splits RecvResult.splits)+

lemma recvFill_Filled:
  "recvFill want buffer rs = (Filled, buffer', rs') \<Longrightarrow> length buffer \<le> want \<Longrightarrow> length buffer' = want"
  by (induction want buffer rs rule: recvFill.induct) (auto simp: Let_def split: if_splits RecvResult.splits)

section \<open>The stream of bytes\<close>

text \<open>
  As long as the socket only delivers bytes and interrupts, what is read and what is left make up the
  stream, however \<open>recv\<close> cuts it: \<open>EAGAIN\<close> ends one call, and the next call goes on from there.
\<close>

fun quiet :: "RecvResult \<Rightarrow> bool" where
  "quiet (RecvData bs) \<longleftrightarrow> bs \<noteq> []"
| "quiet (RecvErrno e) \<longleftrightarrow> e = EINTR \<or> e = EAGAIN"

lemma EAGAIN_EINTR [simp]: "EAGAIN \<noteq> EINTR" "EINTR \<noteq> EAGAIN"
  by (simp_all add: EAGAIN_def EINTR_def)

lemma recvFill_stream:
  assumes "list_all quiet rs" "recvFill want buffer rs = (status, buffer', rs')"
  shows "buffer' @ delivered rs' = buffer @ delivered rs \<and> list_all quiet rs' \<and> (status = Filled \<or> status = NoData)"
  using assms
proof (induction want buffer rs rule: recvFill.induct)
  case (2 want buffer r rs)
  show ?case
  proof (cases r)
    case (RecvData bs)
    then show ?thesis using 2 by (cases "length buffer < want"; cases "length bs \<le> want - length buffer")
      (auto simp: Let_def)
  next
    case (RecvErrno e)
    then show ?thesis using 2 by (auto split: if_splits)
  qed
qed (auto split: if_splits)

lemma recvFill_NoData:
  "recvFill want buffer rs = (NoData, buffer', rs') \<Longrightarrow> length buffer' < want"
  by (induction want buffer rs rule: recvFill.induct) (auto simp: Let_def split: if_splits RecvResult.splits)

lemma recvFill_prefix: "recvFill want buffer rs = (status, buffer', rs') \<Longrightarrow> \<exists>bs. buffer' = buffer @ bs"
  by (induction want buffer rs rule: recvFill.induct) (auto simp: Let_def split: if_splits RecvResult.splits)

end
