(* ===== verification/MW_Publisher.thy ===== *)
theory MW_Publisher
  imports MW_Text MW_Nonblocking MW_Registry_Session MW_Memory_Pool MW_Subscriber_Queue MW_Frame_Protocol
begin

text \<open>
  The publisher (\<open>src/middleware/src/publisher.cpp\<close>): discovery of subscribers, publishing over
  sockets and through the memory pool, and the bookkeeping of the references that subscribers hold.
  The state is \<open>PublisherImpl\<close>.  Its field \<open>pi_os\<close> is what the process sees of the system: open
  descriptors, mappings, the segments of the subscriber queues by name, and what the next calls of
  \<open>recv\<close> return on each descriptor; where these are used up, \<open>recv\<close> reports \<open>EAGAIN\<close>.  The other results
  of system calls, the clock and the effects of other processes are in \<open>PublisherEnv\<close>.  A call that does
  not return for the results it is given is \<open>None\<close>.
\<close>

section \<open>Configuration\<close>

definition publisherTransportOk :: "TransportType \<Rightarrow> bool" where
  "publisherTransportOk transport \<longleftrightarrow> transport = UnixDomainSocket \<or> transport = SharedMemory"

definition validatePublisherConfig :: "PublisherConfig \<Rightarrow> bool \<Rightarrow> Exception option" where
  "validatePublisherConfig config registry_mode =
     (if \<not> registry_mode \<and> pc_socket_path config = []
      then Some (InvalidArgumentException ''publisher socket path must not be empty'')
      else if pc_max_message_size config > 0xFFFFFFFF
      then Some (InvalidArgumentException ''publisher max_message_size exceeds the data protocol'')
      else if \<not> publisherTransportOk (pc_transport config)
      then Some (InvalidArgumentException ''publisher transport is invalid'')
      else if \<not> registry_mode \<and> pc_transport config \<noteq> UnixDomainSocket
      then Some (InvalidArgumentException ''direct mode supports the UDS baseline only'')
      else if registry_mode \<and> (pc_type_name config = [] \<or> pc_type_hash config = [])
      then Some (InvalidArgumentException ''publisher type name and hash must not be empty'')
      else if pc_transport config = SharedMemory \<and> pc_shm_ack_timeout config \<le> 0
      then Some (InvalidArgumentException ''SHM release timeout must be positive'')
      else None)"

definition mapIoError :: "IoStatus \<Rightarrow> ErrorCode" where
  "mapIoError status = (if status = IoClosed then ConnectionLost else IoError)"

text \<open>Time points and durations of the steady clock are in nanoseconds.\<close>

definition kShmDiscoveryRefreshInterval :: int where "kShmDiscoveryRefreshInterval = 1000000"

definition INT_MAX :: int where "INT_MAX = 2 ^ 31 - 1"

definition publisherPollTimeout :: "int \<Rightarrow> int \<Rightarrow> int" where
  "publisherPollTimeout deadline now =
     (if now \<ge> deadline then 0
      else min ((deadline - now + 1000000 - 1) div 1000000) INT_MAX)"

text \<open>The process identifier is a 32-bit value; the result has the counter after the call.\<close>

definition nextPoolId :: "u32 \<Rightarrow> u32 \<Rightarrow> u64 \<times> u32" where
  "nextPoolId pid counter = (or (push_bit 32 (ucast pid)) (ucast counter), counter + 1)"

fun outstandingLimitFrom :: "size_t \<Rightarrow> MemoryPoolConfig \<Rightarrow> size_t" where
  "outstandingLimitFrom tally [] = tally"
| "outstandingLimitFrom tally (item # items) =
     (if ucast (cc_chunk_count item) > SIZE_MAX - tally then SIZE_MAX
      else outstandingLimitFrom (tally + ucast (cc_chunk_count item)) items)"

definition outstandingLimit :: "MemoryPoolConfig \<Rightarrow> size_t" where
  "outstandingLimit config = outstandingLimitFrom 0 config"

section \<open>State and environment\<close>

datatype ReleaseReceiveStatus = Progress | WouldBlock | Disconnected

record DataConnection =
  dc_endpoint_id :: u64
  dc_socket :: int
  dc_max_message_size :: size_t
  dc_queue :: "SharedSubscriberQueue option"
  dc_release_buffer :: bytes
  dc_outstanding :: "ChunkHandle list"

record PublisherOs =
  po_sockets :: SocketOs
  po_shm :: ShmOs
  po_queues :: "string \<Rightarrow> QueueShared"
  po_inbox :: "int \<Rightarrow> RecvResult list"

record PublisherImpl =
  pi_topic :: string
  pi_config :: PublisherConfig
  pi_connections :: "DataConnection list"
  pi_registry_session :: "RegistrySession option"
  pi_pool :: "MemoryPool option"
  pi_topic_id :: u64
  pi_endpoint_id :: u64
  pi_negotiated_max_message_size :: size_t
  pi_sequence :: u64
  pi_failed_endpoint_ids :: "u64 set"
  pi_next_discovery_refresh :: int
  pi_discovery_refresh_required :: bool
  pi_os :: PublisherOs

text \<open>
  Descriptors and endpoint identifiers select the results for one connection.  \<open>pv_others\<close> is what
  other processes have done to a queue when the publisher locks it.
\<close>

record PublisherEnv =
  pv_now :: int
  pv_refreshed :: int
  pv_timestamp :: u64
  pv_resolve :: RequestEnv
  pv_connect :: "u64 \<Rightarrow> SocketEnv"
  pv_open_lock :: "u64 \<Rightarrow> LockEnv"
  pv_open_shm :: "u64 \<Rightarrow> ShmEnv"
  pv_others :: "int \<Rightarrow> QueueShared \<Rightarrow> QueueShared"
  pv_enqueue :: "int \<Rightarrow> EnqueueEnv"
  pv_sends :: "int \<Rightarrow> SendResult list"
  pv_detach_lock :: "int \<Rightarrow> LockEnv"
  pv_unmap :: "int \<Rightarrow> ShmEnv"

abbreviation queueName :: "SharedSubscriberQueue \<Rightarrow> string" where
  "queueName queue \<equiv> qd_shm_name (sq_descriptor queue)"

text \<open>The destructor of a connection: detach from the queue and close the socket.\<close>

definition destroyConnection :: "PublisherEnv \<Rightarrow> DataConnection \<Rightarrow> PublisherOs \<Rightarrow> PublisherOs" where
  "destroyConnection env connection os =
     (let fd = dc_socket connection;
          os = (case dc_queue connection of
             None \<Rightarrow> os
           | Some queue \<Rightarrow>
               (case queue_destroy queue (pv_detach_lock env fd) (pv_detach_lock env fd) (pv_unmap env fd)
                       (po_queues os (queueName queue)) (po_shm os) of
                  (shared, shm) \<Rightarrow>
                    os\<lparr>po_queues := (po_queues os)(queueName queue := shared), po_shm := shm\<rparr>))
      in os\<lparr>po_sockets := closeFd fd (po_sockets os), po_inbox := (po_inbox os)(fd := [])\<rparr>)"

section \<open>References\<close>

definition releaseReference :: "ChunkHandle \<Rightarrow> MemoryPool option \<Rightarrow> ErrorCode \<times> MemoryPool option" where
  "releaseReference handle pool =
     (case pool of
        None \<Rightarrow> (InvalidState, None)
      | Some p \<Rightarrow>
          (case pool_release handle p of (result, p) \<Rightarrow>
             if rr_error result \<noteq> Ok then (rr_error result, Some p)
             else if rr_became_released result
             then (case pool_reclaim handle p of (error, p) \<Rightarrow> (error, Some p))
             else (Ok, Some p)))"

definition releaseAllOutstanding :: "DataConnection \<Rightarrow> MemoryPool option \<Rightarrow> DataConnection \<times> MemoryPool option" where
  "releaseAllOutstanding connection pool =
     (connection\<lparr>dc_outstanding := [], dc_release_buffer := []\<rparr>,
      fold (\<lambda>handle pool. snd (releaseReference handle pool)) (dc_outstanding connection) pool)"

definition releaseOutstanding ::
  "DataConnection \<Rightarrow> ChunkHandle \<Rightarrow> MemoryPool option \<Rightarrow> DataConnection \<times> MemoryPool option" where
  "releaseOutstanding connection handle pool =
     (if handle \<notin> set (dc_outstanding connection) then (connection, pool)
      else (connection\<lparr>dc_outstanding := remove1 handle (dc_outstanding connection)\<rparr>,
            snd (releaseReference handle pool)))"

text \<open>Erasing a connection whose references have been released.\<close>

definition dropConnection :: "PublisherEnv \<Rightarrow> DataConnection \<Rightarrow> PublisherImpl \<Rightarrow> PublisherImpl" where
  "dropConnection env connection s =
     (case releaseAllOutstanding connection (pi_pool s) of (connection, pool) \<Rightarrow>
        s\<lparr>pi_pool := pool, pi_os := destroyConnection env connection (pi_os s)\<rparr>)"

fun eraseConnections ::
  "PublisherEnv \<Rightarrow> (DataConnection \<Rightarrow> bool) \<Rightarrow> DataConnection list \<Rightarrow> PublisherImpl \<Rightarrow> DataConnection list \<times> PublisherImpl" where
  "eraseConnections env dead [] s = ([], s)"
| "eraseConnections env dead (connection # connections) s =
     (if dead connection then eraseConnections env dead connections (dropConnection env connection s)
      else (case eraseConnections env dead connections s of (connections, s) \<Rightarrow> (connection # connections, s)))"

definition removeEndpoint :: "PublisherEnv \<Rightarrow> u64 \<Rightarrow> PublisherImpl \<Rightarrow> PublisherImpl" where
  "removeEndpoint env dead_endpoint_id s =
     (case eraseConnections env (\<lambda>c. dc_endpoint_id c = dead_endpoint_id) (pi_connections s) s of
        (connections, s) \<Rightarrow>
          s\<lparr>pi_connections := connections,
            pi_failed_endpoint_ids := insert dead_endpoint_id (pi_failed_endpoint_ids s),
            pi_discovery_refresh_required := True\<rparr>)"

section \<open>Receiving releases\<close>

definition receiveOneRelease ::
  "DataConnection \<Rightarrow> MemoryPool option \<Rightarrow> RecvResult list
     \<Rightarrow> ReleaseReceiveStatus \<times> DataConnection \<times> MemoryPool option \<times> RecvResult list" where
  "receiveOneRelease connection pool inbox =
     (case recvFill kQueueReleaseSize (dc_release_buffer connection) inbox of (status, buffer, inbox) \<Rightarrow>
        (case status of
           NoData \<Rightarrow> (WouldBlock, connection\<lparr>dc_release_buffer := buffer\<rparr>, pool, inbox)
         | PeerClosed \<Rightarrow> (Disconnected, connection\<lparr>dc_release_buffer := buffer\<rparr>, pool, inbox)
         | RecvFailed _ \<Rightarrow> (Disconnected, connection\<lparr>dc_release_buffer := buffer\<rparr>, pool, inbox)
         | Filled \<Rightarrow>
             let connection = connection\<lparr>dc_release_buffer := []\<rparr> in
             (case decodeQueueRelease (Some buffer) of
                None \<Rightarrow> (Disconnected, connection, pool, inbox)
              | Some handle \<Rightarrow>
                  (case releaseOutstanding connection handle pool of (connection, pool) \<Rightarrow>
                     (Progress, connection, pool, inbox)))))"

function drainConnection ::
  "DataConnection \<Rightarrow> MemoryPool option \<Rightarrow> RecvResult list
     \<Rightarrow> bool \<times> DataConnection \<times> MemoryPool option \<times> RecvResult list" where
  "drainConnection connection pool inbox =
     (case receiveOneRelease connection pool inbox of (status, connection, pool, inbox) \<Rightarrow>
        if status = Disconnected then (True, connection, pool, inbox)
        else if status = WouldBlock then (False, connection, pool, inbox)
        else drainConnection connection pool inbox)"
  by pat_completeness auto
termination
proof (relation "measure (\<lambda>(connection, pool, inbox). 2 * unread inbox +
    (if length (dc_release_buffer connection) < kQueueReleaseSize then 0 else 1))", goal_cases)
  case 1
  show ?case by simp
next
  case (2 connection pool inbox status rest connection' rest' pool' inbox')
  then have "receiveOneRelease connection pool inbox = (Progress, connection', pool', inbox')"
    by (cases status) auto
  then obtain buffer where
    "recvFill kQueueReleaseSize (dc_release_buffer connection) inbox = (Filled, buffer, inbox')"
    and "dc_release_buffer connection' = []"
    by (auto simp: receiveOneRelease_def releaseOutstanding_def Let_def
        split: prod.splits option.splits if_splits FillStatus.splits)
  with recvFill_unread [OF this(1)] show ?case by (auto simp: kQueueReleaseSize_def)
qed

declare drainConnection.simps [simp del]

fun drainConnections ::
  "PublisherEnv \<Rightarrow> DataConnection list \<Rightarrow> PublisherImpl \<Rightarrow> DataConnection list \<times> PublisherImpl" where
  "drainConnections env [] s = ([], s)"
| "drainConnections env (connection # connections) s =
     (case drainConnection connection (pi_pool s) (po_inbox (pi_os s) (dc_socket connection)) of
        (disconnected, connection, pool, inbox) \<Rightarrow>
          let s = s\<lparr>pi_pool := pool,
                 pi_os := (pi_os s)\<lparr>po_inbox := (po_inbox (pi_os s))(dc_socket connection := inbox)\<rparr>\<rparr> in
          if disconnected
          then
            let s = dropConnection env connection s in
            drainConnections env connections (s\<lparr>pi_failed_endpoint_ids :=
                (if dc_endpoint_id connection \<noteq> 0
                 then insert (dc_endpoint_id connection) (pi_failed_endpoint_ids s)
                 else pi_failed_endpoint_ids s),
              pi_discovery_refresh_required := True\<rparr>)
          else (case drainConnections env connections s of (connections, s) \<Rightarrow> (connection # connections, s)))"

definition drainReleasesNonBlocking :: "PublisherEnv \<Rightarrow> PublisherImpl \<Rightarrow> PublisherImpl" where
  "drainReleasesNonBlocking env s =
     (if pi_pool s = None then s
      else (case drainConnections env (pi_connections s) s of (connections, s) \<Rightarrow>
              s\<lparr>pi_connections := connections\<rparr>))"

definition handlePeerEvent :: "PublisherEnv \<Rightarrow> RegistryPeerEvent \<Rightarrow> PublisherImpl \<Rightarrow> PublisherImpl" where
  "handlePeerEvent env event s =
     (if rpe_kind event = ClientSubscriberDead then removeEndpoint env (rpe_dead_endpoint_id event) s else s)"

definition publisher_processPeerEvents :: "PublisherEnv \<Rightarrow> PublisherImpl \<Rightarrow> PublisherImpl" where
  "publisher_processPeerEvents env s =
     (if pi_registry_session s = None \<or> pi_endpoint_id s = 0 then s
      else
        let s = drainReleasesNonBlocking env s in
        (case takePeerEvents (pi_endpoint_id s) (the (pi_registry_session s)) of (events, session) \<Rightarrow>
           fold (handlePeerEvent env) events (s\<lparr>pi_registry_session := Some session\<rparr>)))"

definition outstandingCount :: "PublisherImpl \<Rightarrow> nat" where
  "outstandingCount s = sum_list (map (\<lambda>connection. length (dc_outstanding connection)) (pi_connections s))"

section \<open>Discovery\<close>

text \<open>One new subscriber: the connection is kept only if its socket and its queue could be opened.\<close>

definition connectSubscriber :: "PublisherEnv \<Rightarrow> RegistrySubscriber \<Rightarrow> PublisherImpl \<Rightarrow> PublisherImpl" where
  "connectSubscriber env subscriber s =
     (let endpoint = rsu_endpoint_id subscriber;
          failed = (\<lambda>os. s\<lparr>pi_failed_endpoint_ids := insert endpoint (pi_failed_endpoint_ids s), pi_os := os\<rparr>);
          os = pi_os s in
      if (\<exists>connection \<in> set (pi_connections s). dc_endpoint_id connection = endpoint) \<or>
        endpoint \<in> pi_failed_endpoint_ids s
      then s
      else
        (case connectUnixSocket (rsu_data_socket_path subscriber) (pv_connect env endpoint) (po_sockets os) of
           (Inl _, sockets) \<Rightarrow> failed (os\<lparr>po_sockets := sockets\<rparr>)
         | (Inr fd, sockets) \<Rightarrow>
             let os = os\<lparr>po_sockets := sockets\<rparr>;
                 connection = \<lparr>dc_endpoint_id = endpoint, dc_socket = fd,
                   dc_max_message_size = rsu_max_message_size subscriber, dc_queue = None,
                   dc_release_buffer = [], dc_outstanding = []\<rparr> in
             if pc_transport (pi_config s) = SharedMemory
             then
               (case SharedSubscriberQueue_open (rsu_queue subscriber) (pv_open_lock env endpoint)
                       (pv_open_shm env endpoint) (po_queues os (qd_shm_name (rsu_queue subscriber))) (po_shm os) of
                  (opened, shared, shm) \<Rightarrow>
                    let os = os\<lparr>po_queues := (po_queues os)(qd_shm_name (rsu_queue subscriber) := shared),
                          po_shm := shm\<rparr> in
                    (case opened of
                       Inl _ \<Rightarrow> failed (destroyConnection env connection os)
                     | Inr queue \<Rightarrow>
                         s\<lparr>pi_connections := pi_connections s @ [connection\<lparr>dc_queue := Some queue\<rparr>],
                           pi_os := os\<rparr>))
             else s\<lparr>pi_connections := pi_connections s @ [connection], pi_os := os\<rparr>))"

text \<open>What is done with a discovery that fits the publisher.\<close>

definition applyDiscovery :: "PublisherEnv \<Rightarrow> RegistrySubscriber list \<Rightarrow> PublisherImpl \<Rightarrow> ErrorCode \<times> PublisherImpl" where
  "applyDiscovery env subscribers s =
     (let discovered_ids = set (map rsu_endpoint_id subscribers);
          (connections, s) = eraseConnections env (\<lambda>c. dc_endpoint_id c \<notin> discovered_ids) (pi_connections s) s;
          s = s\<lparr>pi_connections := connections,
                pi_failed_endpoint_ids := pi_failed_endpoint_ids s \<inter> discovered_ids\<rparr>;
          s = fold (connectSubscriber env) subscribers s;
          s = s\<lparr>pi_negotiated_max_message_size :=
                  fold (\<lambda>connection msg_size. min msg_size (dc_max_message_size connection)) (pi_connections s)
                    (pc_max_message_size (pi_config s)),
                pi_discovery_refresh_required := False,
                pi_next_discovery_refresh := pv_refreshed env + kShmDiscoveryRefreshInterval\<rparr> in
      (if pi_connections s = [] then ConnectionLost else Ok, s))"

definition samePool :: "PoolDescriptor \<Rightarrow> MemoryPool option \<Rightarrow> bool" where
  "samePool discovered pool \<longleftrightarrow>
     (case pool of
        None \<Rightarrow> False
      | Some p \<Rightarrow>
          pd_shm_name discovered = pd_shm_name (mp_descriptor p) \<and>
          pd_pool_id discovered = pd_pool_id (mp_descriptor p) \<and>
          pd_segment_size discovered = pd_segment_size (mp_descriptor p) \<and>
          pd_layout_version discovered = pd_layout_version (mp_descriptor p))"

definition connectDiscoveredEndpoints :: "PublisherEnv \<Rightarrow> PublisherImpl \<Rightarrow> (ErrorCode \<times> PublisherImpl) option" where
  "connectDiscoveredEndpoints env s =
     (if pi_registry_session s = None
      then Some (if pi_connections s = [] then InvalidState else Ok, s)
      else
        let s = publisher_processPeerEvents env s; transport = pc_transport (pi_config s) in
        if pi_endpoint_id s = 0 \<or> pi_topic_id s = 0 then Some (InvalidState, s)
        else if transport = UnixDomainSocket \<and> pi_connections s \<noteq> [] then Some (Ok, s)
        else if transport = SharedMemory \<and> \<not> pi_discovery_refresh_required s \<and> pi_connections s \<noteq> [] \<and>
          pv_now env < pi_next_discovery_refresh s then Some (Ok, s)
        else
          do { (r, session) \<leftarrow> session_resolve (pi_endpoint_id s) (pv_resolve env) (the (pi_registry_session s));
               let s = s\<lparr>pi_registry_session := Some session\<rparr>;
               Some (case r of
                   Inl (MiddlewareException code _) \<Rightarrow> (code, s)
                 | Inl (SystemException _ _) \<Rightarrow> (ConnectionLost, s)
                 | Inl _ \<Rightarrow> (IoError, s)
                 | Inr discovery \<Rightarrow>
                     if rdi_transport discovery \<noteq> transport \<or> rdi_topic_id discovery \<noteq> pi_topic_id s
                     then (TransportMismatch, s)
                     else if transport = SharedMemory \<and> \<not> samePool (rdi_pool discovery) (pi_pool s)
                     then (InvalidSharedMemory, s)
                     else applyDiscovery env (rdi_subscribers discovery) s) })"

section \<open>Publishing over sockets\<close>

fun udsLoop ::
  "PublisherEnv \<Rightarrow> bytes \<Rightarrow> bytes \<Rightarrow> DataConnection list \<Rightarrow> ErrorCode \<times> u32 \<times> PublisherOs
     \<Rightarrow> (DataConnection list \<times> ErrorCode \<times> u32 \<times> PublisherOs) option" where
  "udsLoop env header payload [] (first_error, enqueued, os) = Some ([], first_error, enqueued, os)"
| "udsLoop env header payload (connection # connections) (first_error, enqueued, os) =
     do { (header_result, _, sends) \<leftarrow> writeAll header (pv_sends env (dc_socket connection));
          payload_result \<leftarrow> (if io_status header_result = IoComplete
                             then map_option fst (writeAll payload sends) else Some header_result);
          if io_status payload_result \<noteq> IoComplete
          then udsLoop env header payload connections
                 (if first_error = Ok then mapIoError (io_status payload_result) else first_error, enqueued,
                  destroyConnection env connection os)
          else
            do { (connections, result) \<leftarrow> udsLoop env header payload connections (first_error, enqueued + 1, os);
                 Some (connection # connections, result) } }"

definition publishUds :: "PublisherEnv \<Rightarrow> bytes \<Rightarrow> size_t \<Rightarrow> u64 \<Rightarrow> PublisherImpl \<Rightarrow> (PublishResult \<times> PublisherImpl) option" where
  "publishUds env payload msg_size next_sequence s =
     (let header = \<lparr>fh_magic = kFrameMagic, fh_payload_size = ucast msg_size, fh_sequence = next_sequence,
            fh_timestamp_ns = pv_timestamp env\<rparr> in
      do { (connections, first_error, enqueued, os) \<leftarrow>
             udsLoop env (encodeFrameHeader header) payload (pi_connections s) (Ok, 0, pi_os s);
           let s = s\<lparr>pi_connections := connections, pi_os := os\<rparr>;
           let result = (publishResult ConnectionLost next_sequence msg_size)\<lparr>pr_enqueued := enqueued\<rparr>;
           Some (if enqueued \<noteq> 0 then (result\<lparr>pr_error := Ok\<rparr>, s\<lparr>pi_sequence := next_sequence\<rparr>)
                 else (result\<lparr>pr_payload_size := 0,
                         pr_error := (if first_error = Ok then ConnectionLost else first_error)\<rparr>, s)) })"

section \<open>Publishing through the pool\<close>

text \<open>
  The enqueue with \<open>sendWake\<close> as its notification.  The wake-up is sent only where the enqueue asks for
  it, and then the call returns only if the socket takes or refuses the whole frame.
\<close>

definition sendWake :: "IoResult \<Rightarrow> bool" where
  "sendWake result \<longleftrightarrow> io_status result = IoComplete"

definition enqueueAndWake ::
  "ChunkHandle \<Rightarrow> bytes \<Rightarrow> SendResult list \<Rightarrow> EnqueueEnv \<Rightarrow> QueueShared \<Rightarrow> (QueueEnqueueResult \<times> QueueShared) option" where
  "enqueueAndWake handle frame sends env s =
     (case writeAll frame sends of
        Some (result, _, _) \<Rightarrow> queue_enqueue handle (env\<lparr>en_notify := Some (sendWake result)\<rparr>) s
      | None \<Rightarrow>
          do { (enqueue, s) \<leftarrow> queue_enqueue handle (env\<lparr>en_notify := Some True\<rparr>) s;
               if er_notification_sent enqueue then None else Some (enqueue, s) })"

record Dispatch =
  di_result :: PublishResult
  di_first_failure :: ErrorCode
  di_failed_endpoints :: "u64 list"
  di_pool :: "MemoryPool option"
  di_queues :: "string \<Rightarrow> QueueShared"

definition failFirst :: "ErrorCode \<Rightarrow> Dispatch \<Rightarrow> Dispatch" where
  "failFirst error d = (if di_first_failure d = Ok then d\<lparr>di_first_failure := error\<rparr> else d)"

abbreviation countResult :: "(PublishResult \<Rightarrow> PublishResult) \<Rightarrow> Dispatch \<Rightarrow> Dispatch" where
  "countResult f d \<equiv> d\<lparr>di_result := f (di_result d)\<rparr>"

fun refusedEnqueue :: "QueueEnqueueStatus \<Rightarrow> u64 \<Rightarrow> Dispatch \<Rightarrow> Dispatch" where
  "refusedEnqueue DroppedNewest endpoint d =
     failFirst QueueFull (countResult (\<lambda>r. r\<lparr>pr_dropped_newest := pr_dropped_newest r + 1\<rparr>) d)"
| "refusedEnqueue TimedOut endpoint d =
     (countResult (\<lambda>r. r\<lparr>pr_block_timeouts := pr_block_timeouts r + 1\<rparr>) d)\<lparr>di_first_failure := QueueTimeout\<rparr>"
| "refusedEnqueue Closed endpoint d =
     (failFirst QueueClosed d)\<lparr>di_failed_endpoints := di_failed_endpoints d @ [endpoint]\<rparr>"
| "refusedEnqueue NotificationFailed endpoint d =
     (failFirst ConnectionLost d)\<lparr>di_failed_endpoints := di_failed_endpoints d @ [endpoint]\<rparr>"
| "refusedEnqueue SynchronizationError endpoint d = failFirst SharedMemoryError d"
| "refusedEnqueue Accepted endpoint d = d"

definition afterEnqueue ::
  "ChunkHandle \<Rightarrow> DataConnection \<Rightarrow> QueueEnqueueResult \<Rightarrow> Dispatch \<Rightarrow> DataConnection \<times> Dispatch" where
  "afterEnqueue handle connection enqueue d =
     (let d = (if er_blocked enqueue
            then countResult (\<lambda>r. r\<lparr>pr_blocked_count := pr_blocked_count r + 1,
                   pr_blocked_time_ns := pr_blocked_time_ns r + er_blocked_time_ns enqueue\<rparr>) d
            else d) in
      if er_status enqueue = Accepted
      then
        let connection = connection\<lparr>dc_outstanding := dc_outstanding connection @ [handle]\<rparr>;
            d = countResult (\<lambda>r. r\<lparr>pr_enqueued := pr_enqueued r + 1\<rparr>) d in
        (case er_dropped_oldest enqueue of
           None \<Rightarrow> (connection, d)
         | Some dropped \<Rightarrow>
             let d = countResult (\<lambda>r. r\<lparr>pr_dropped_oldest := pr_dropped_oldest r + 1\<rparr>) d in
             (case releaseOutstanding connection dropped (di_pool d) of (connection, pool) \<Rightarrow>
                (connection, d\<lparr>di_pool := pool\<rparr>)))
      else (connection, refusedEnqueue (er_status enqueue) (dc_endpoint_id connection)
              (d\<lparr>di_pool := snd (releaseReference handle (di_pool d))\<rparr>)))"

definition dispatchTo ::
  "PublisherEnv \<Rightarrow> size_t \<Rightarrow> ChunkHandle \<Rightarrow> DataConnection \<Rightarrow> Dispatch \<Rightarrow> (DataConnection \<times> Dispatch) option" where
  "dispatchTo env limit handle connection d =
     (case dc_queue connection of
        None \<Rightarrow> Some (connection, failFirst InvalidState d)
      | Some queue \<Rightarrow>
          if length (dc_outstanding connection) \<ge> unat limit then Some (connection, failFirst PoolExhausted d)
          else
            do { p \<leftarrow> di_pool d;
                 let (reference_error, p) = pool_addReference handle p;
                 let d = d\<lparr>di_pool := Some p\<rparr>;
                 if reference_error \<noteq> Ok then Some (connection, failFirst reference_error d)
                 else
                   (case encodeQueueWake \<lparr>qw_pool = mp_descriptor p,
                           qw_queue_id = qd_queue_id (sq_descriptor queue)\<rparr> of
                      None \<Rightarrow> Some (connection,
                        failFirst InvalidState (d\<lparr>di_pool := snd (releaseReference handle (di_pool d))\<rparr>))
                    | Some frame \<Rightarrow>
                        do { (enqueue, shared) \<leftarrow> enqueueAndWake handle frame (pv_sends env (dc_socket connection))
                               (pv_enqueue env (dc_socket connection))
                               (pv_others env (dc_socket connection) (di_queues d (queueName queue)));
                             Some (afterEnqueue handle connection enqueue
                               (d\<lparr>di_queues := (di_queues d)(queueName queue := shared)\<rparr>)) }) })"

fun dispatchAll ::
  "PublisherEnv \<Rightarrow> size_t \<Rightarrow> ChunkHandle \<Rightarrow> DataConnection list \<Rightarrow> Dispatch \<Rightarrow> (DataConnection list \<times> Dispatch) option" where
  "dispatchAll env limit handle [] d = Some ([], d)"
| "dispatchAll env limit handle (connection # connections) d =
     do { (connection, d) \<leftarrow> dispatchTo env limit handle connection d;
          (connections, d) \<leftarrow> dispatchAll env limit handle connections d;
          Some (connection # connections, d) }"

definition dispatchPublished ::
  "PublisherEnv \<Rightarrow> ChunkHandle \<Rightarrow> size_t \<Rightarrow> u64 \<Rightarrow> PublisherImpl \<Rightarrow> (PublishResult \<times> PublisherImpl) option" where
  "dispatchPublished env handle payload_size next_sequence s =
     do { (connections, d) \<leftarrow> dispatchAll env (outstandingLimit (pc_memory_pool (pi_config s))) handle
            (pi_connections s)
            \<lparr>di_result = publishResult ConnectionLost next_sequence payload_size, di_first_failure = Ok,
             di_failed_endpoints = [], di_pool = pi_pool s, di_queues = po_queues (pi_os s)\<rparr>;
          let s = s\<lparr>pi_connections := connections, pi_pool := snd (releaseReference handle (di_pool d)),
                 pi_os := (pi_os s)\<lparr>po_queues := di_queues d\<rparr>, pi_sequence := next_sequence\<rparr>;
          let s = fold (removeEndpoint env) (di_failed_endpoints d) s;
          Some ((di_result d)\<lparr>pr_error :=
              (if pr_enqueued (di_result d) \<noteq> 0 then Ok
               else if di_first_failure d = Ok then ConnectionLost else di_first_failure d)\<rparr>, s) }"

abbreviation cancelInPool :: "ChunkHandle \<Rightarrow> PublisherImpl \<Rightarrow> PublisherImpl" where
  "cancelInPool handle s \<equiv> s\<lparr>pi_pool := map_option (\<lambda>p. snd (pool_cancel handle p)) (pi_pool s)\<rparr>"

definition publishSharedMemoryCopy ::
  "PublisherEnv \<Rightarrow> bytes option \<Rightarrow> size_t \<Rightarrow> u64 \<Rightarrow> PublisherImpl \<Rightarrow> (PublishResult \<times> PublisherImpl) option" where
  "publishSharedMemoryCopy env data msg_size next_sequence s =
     do { p \<leftarrow> pi_pool s;
          let (allocation, p) = pool_allocate msg_size p;
          let s = s\<lparr>pi_pool := Some p\<rparr>;
          if ar_error allocation \<noteq> Ok then Some (publishResult (ar_error allocation) next_sequence 0, s)
          else
            (case pool_writeAndPublish (ar_handle allocation) data msg_size next_sequence (pv_timestamp env) 1 p of
               (publish_error, p) \<Rightarrow>
                 let s = s\<lparr>pi_pool := Some p\<rparr> in
                 if publish_error \<noteq> Ok
                 then Some (publishResult publish_error next_sequence 0, cancelInPool (ar_handle allocation) s)
                 else dispatchPublished env (ar_handle allocation) msg_size next_sequence s) }"

definition Publisher_publish ::
  "PublisherEnv \<Rightarrow> bytes option \<Rightarrow> size_t \<Rightarrow> PublisherImpl option \<Rightarrow> (PublishResult \<times> PublisherImpl option) option" where
  "Publisher_publish env data msg_size impl =
     (case impl of
        None \<Rightarrow> Some (publishResult InvalidState 0 0, None)
      | Some s \<Rightarrow>
          if data = None \<and> msg_size \<noteq> 0 then Some (publishResult InvalidArgument 0 0, Some s)
          else if msg_size > pc_max_message_size (pi_config s) \<or> msg_size > 0xFFFFFFFF
          then Some (publishResult MessageTooLarge 0 0, Some s)
          else if pi_sequence s = 0xFFFFFFFFFFFFFFFF then Some (publishResult InvalidState 0 0, Some s)
          else
            do { let s = drainReleasesNonBlocking env s;
                 (connection_result, s) \<leftarrow> connectDiscoveredEndpoints env s;
                 if connection_result \<noteq> Ok then Some (publishResult connection_result 0 0, Some s)
                 else if msg_size > pi_negotiated_max_message_size s
                 then Some (publishResult MessageTooLarge 0 0, Some s)
                 else
                   let next_sequence = pi_sequence s + 1 in
                   map_option (apsnd Some)
                     (if pc_transport (pi_config s) = SharedMemory
                      then publishSharedMemoryCopy env data msg_size next_sequence s
                      else publishUds env (case data of None \<Rightarrow> [] | Some bs \<Rightarrow> take (unat msg_size) bs) msg_size
                             next_sequence s) })"

section \<open>Loans\<close>

record LoanAllocation =
  la_allocation :: AllocationResult
  la_payload :: "u64 option"

definition allocateLoan :: "PublisherEnv \<Rightarrow> size_t \<Rightarrow> PublisherImpl \<Rightarrow> LoanAllocation \<times> PublisherImpl" where
  "allocateLoan env msg_size s =
     (let failed = (\<lambda>error. \<lparr>la_allocation = \<lparr>ar_error = error, ar_handle = nullHandle, ar_capacity = 0\<rparr>,
            la_payload = None\<rparr>) in
      if pc_transport (pi_config s) \<noteq> SharedMemory \<or> pi_pool s = None then (failed UnsupportedTransport, s)
      else if msg_size > pc_max_message_size (pi_config s) \<or> msg_size > 0xFFFFFFFF then (failed MessageTooLarge, s)
      else
        let s = publisher_processPeerEvents env s;
            s = drainReleasesNonBlocking env s in
        (case pi_pool s of
           None \<Rightarrow> (failed UnsupportedTransport, s)
         | Some p \<Rightarrow>
             let (allocation, p) = pool_allocate msg_size p; s = s\<lparr>pi_pool := Some p\<rparr> in
             if ar_error allocation \<noteq> Ok then (\<lparr>la_allocation = allocation, la_payload = None\<rparr>, s)
             else
               let writable = writablePayload (ar_handle allocation) p in
               if wr_error writable \<noteq> Ok
               then (\<lparr>la_allocation = allocation\<lparr>ar_error := wr_error writable\<rparr>, la_payload = None\<rparr>,
                     cancelInPool (ar_handle allocation) s)
               else (\<lparr>la_allocation = allocation, la_payload = wr_payload writable\<rparr>, s)))"

definition publishLoanedSample ::
  "PublisherEnv \<Rightarrow> ChunkHandle \<Rightarrow> size_t \<Rightarrow> PublisherImpl \<Rightarrow> (PublishResult \<times> PublisherImpl) option" where
  "publishLoanedSample env handle payload_size s =
     (if pi_pool s = None \<or> pc_transport (pi_config s) \<noteq> SharedMemory
      then Some (publishResult UnsupportedTransport 0 0, s)
      else if pi_sequence s = 0xFFFFFFFFFFFFFFFF
      then Some (publishResult InvalidState 0 0, cancelInPool handle s)
      else
        do { let s = drainReleasesNonBlocking env s;
             (connection_error, s) \<leftarrow> connectDiscoveredEndpoints env s;
             if connection_error \<noteq> Ok then Some (publishResult connection_error 0 0, cancelInPool handle s)
             else if payload_size > pi_negotiated_max_message_size s
             then Some (publishResult MessageTooLarge 0 0, cancelInPool handle s)
             else
               do { p \<leftarrow> pi_pool s;
                    let next_sequence = pi_sequence s + 1;
                    let (publish_error, p) = pool_publishLoaned handle payload_size next_sequence
                          (pv_timestamp env) 1 p;
                    let s = s\<lparr>pi_pool := Some p\<rparr>;
                    if publish_error \<noteq> Ok
                    then Some (publishResult publish_error next_sequence 0, cancelInPool handle s)
                    else dispatchPublished env handle payload_size next_sequence s } })"

definition cancelLoanedSample :: "ChunkHandle \<Rightarrow> PublisherImpl \<Rightarrow> ErrorCode \<times> PublisherImpl" where
  "cancelLoanedSample handle s =
     (case pi_pool s of
        None \<Rightarrow> (InvalidState, s)
      | Some p \<Rightarrow> (fst (pool_cancel handle p), cancelInPool handle s))"

section \<open>Construction\<close>

definition shmException :: "ShmError \<Rightarrow> Exception" where
  "shmException error =
     (case error of
        ShmInvalidArgument message \<Rightarrow> InvalidArgumentException message
      | ShmSystemError errno \<Rightarrow> SystemException errno [])"

definition poolException :: "PoolError \<Rightarrow> Exception" where
  "poolException error =
     (case error of
        PoolInvalidArgument message \<Rightarrow> InvalidArgumentException message
      | PoolOverflow message \<Rightarrow> OtherException message
      | PoolMiddlewareError code message \<Rightarrow> MiddlewareException code message
      | PoolShmError error \<Rightarrow> shmException error)"

definition newPublisher ::
  "string \<Rightarrow> PublisherConfig \<Rightarrow> RegistrySession option \<Rightarrow> PublisherOs \<Rightarrow> PublisherImpl" where
  "newPublisher topic config session os =
     \<lparr>pi_topic = topic, pi_config = config, pi_connections = [], pi_registry_session = session,
      pi_pool = None, pi_topic_id = 0, pi_endpoint_id = 0,
      pi_negotiated_max_message_size = pc_max_message_size config, pi_sequence = 0,
      pi_failed_endpoint_ids = {}, pi_next_discovery_refresh = 0, pi_discovery_refresh_required = True,
      pi_os = os\<rparr>"

definition Publisher_direct ::
  "string \<Rightarrow> PublisherConfig \<Rightarrow> SocketEnv \<Rightarrow> PublisherOs \<Rightarrow> (Exception + PublisherImpl) \<times> PublisherOs" where
  "Publisher_direct topic config env os =
     (case validatePublisherConfig config False of
        Some e \<Rightarrow> (Inl e, os)
      | None \<Rightarrow>
          (case connectUnixSocket (pc_socket_path config) env (po_sockets os) of
             (connected, sockets) \<Rightarrow>
               let os = os\<lparr>po_sockets := sockets\<rparr> in
               (case connected of
                  Inl e \<Rightarrow> (Inl e, os)
                | Inr fd \<Rightarrow>
                    (Inr ((newPublisher topic config None os)\<lparr>pi_connections :=
                       [\<lparr>dc_endpoint_id = 0, dc_socket = fd, dc_max_message_size = pc_max_message_size config,
                         dc_queue = None, dc_release_buffer = [], dc_outstanding = []\<rparr>]\<rparr>), os))))"

text \<open>
  The process identifier and the counter of pool identifiers belong to the process.
\<close>

record PublisherCreateEnv =
  px_pid :: u32
  px_counter :: u32
  px_advertise :: RequestEnv
  px_create :: ShmEnv
  px_unadvertise :: RequestEnv

definition advertisedPool :: "PublisherConfig \<Rightarrow> PublisherCreateEnv \<Rightarrow> (PoolError + PoolDescriptor) \<times> u32" where
  "advertisedPool config env =
     (if pc_transport config = SharedMemory
      then
        let (pool_id, counter) = nextPoolId (px_pid env) (px_counter env) in
        (case requiredSegmentSize (pc_memory_pool config) (ucast (px_pid env)) of
           Inl e \<Rightarrow> Inl e
         | Inr segment_size \<Rightarrow>
             Inr \<lparr>pd_shm_name = ''/mw_pool_'' @ to_string (unat (px_pid env)) @ ''_'' @ to_string (unat pool_id),
                  pd_pool_id = pool_id, pd_segment_size = segment_size, pd_topic_id = 0,
                  pd_layout_version = kPoolLayoutVersion\<rparr>, counter)
      else (Inr emptyPoolDescriptor, px_counter env))"

definition Publisher_registry ::
  "string \<Rightarrow> PublisherConfig \<Rightarrow> RegistrySession \<Rightarrow> PublisherCreateEnv \<Rightarrow> PublisherOs
     \<Rightarrow> ((Exception + PublisherImpl) \<times> RegistrySession \<times> u32 \<times> PublisherOs) option" where
  "Publisher_registry topic config session env os =
     (case validatePublisherConfig config True of
        Some e \<Rightarrow> Some (Inl e, session, px_counter env, os)
      | None \<Rightarrow>
          (case advertisedPool config env of
             (Inl e, counter) \<Rightarrow> Some (Inl (poolException e), session, counter, os)
           | (Inr advertised_pool, counter) \<Rightarrow>
               do { (advertised, session) \<leftarrow> session_advertise topic config advertised_pool (px_advertise env) session;
                    (case advertised of
                       Inl e \<Rightarrow> Some (Inl e, session, counter, os)
                     | Inr endpoint \<Rightarrow>
                         let s = (newPublisher topic config (Some session) os)\<lparr>
                               pi_topic_id := rep_topic_id endpoint, pi_endpoint_id := rep_endpoint_id endpoint\<rparr> in
                         if pc_transport config = SharedMemory
                         then
                           (case MemoryPool_create (advertised_pool\<lparr>pd_topic_id := rep_topic_id endpoint\<rparr>)
                                   (pc_memory_pool config) (ucast (px_pid env)) (px_create env) (po_shm os) of
                              (created, shm) \<Rightarrow>
                                let os = os\<lparr>po_shm := shm\<rparr> in
                                (case created of
                                   Inl e \<Rightarrow>
                                     do { session \<leftarrow> session_unadvertise (rep_endpoint_id endpoint)
                                            (px_unadvertise env) session;
                                          Some (Inl (poolException e), session, counter, os) }
                                 | Inr p \<Rightarrow>
                                     Some (Inr (s\<lparr>pi_pool := Some p, pi_os := os\<rparr>), session, counter, os)))
                         else Some (Inr s, session, counter, os)) }))"

section \<open>Destruction\<close>

text \<open>
  One iteration of the wait: the clock, the result of \<open>poll\<close> for the timeout it is given, and the input
  that has arrived since.  When the iterations are used up, \<open>poll\<close> reports that the time is over.
\<close>

record PollStep =
  ps_now :: int
  ps_result :: "int \<Rightarrow> int"
  ps_arrived :: "int \<Rightarrow> RecvResult list"

definition arrive :: "(int \<Rightarrow> RecvResult list) \<Rightarrow> PublisherImpl \<Rightarrow> PublisherImpl" where
  "arrive input s =
     s\<lparr>pi_os := (pi_os s)\<lparr>po_inbox := (\<lambda>fd. po_inbox (pi_os s) fd @ input fd)\<rparr>\<rparr>"

fun waitForReleases :: "PublisherEnv \<Rightarrow> int \<Rightarrow> PollStep list \<Rightarrow> PublisherImpl \<Rightarrow> PublisherImpl" where
  "waitForReleases env deadline [] s = s"
| "waitForReleases env deadline (step # steps) s =
     (if outstandingCount s = 0 then s
      else if ps_result step (publisherPollTimeout deadline (ps_now step)) \<le> 0 then s
      else waitForReleases env deadline steps (drainReleasesNonBlocking env (arrive (ps_arrived step) s)))"

definition waitForOutstandingReleases :: "PublisherEnv \<Rightarrow> PollStep list \<Rightarrow> PublisherImpl \<Rightarrow> PublisherImpl" where
  "waitForOutstandingReleases env steps s =
     waitForReleases env (pv_now env + pc_shm_ack_timeout (pi_config s) * 1000000) steps s"

text \<open>The lock of each queue is taken once more to drain it.\<close>

definition drainQueue ::
  "PublisherEnv \<Rightarrow> DataConnection \<Rightarrow> PublisherImpl \<Rightarrow> DataConnection \<times> PublisherImpl" where
  "drainQueue env connection s =
     (case dc_queue connection of
        None \<Rightarrow> (connection, s)
      | Some queue \<Rightarrow>
          (case queue_drain (en_lock (pv_enqueue env (dc_socket connection)))
                  (pv_others env (dc_socket connection) (po_queues (pi_os s) (queueName queue))) of
             (drained, shared) \<Rightarrow>
               let s = s\<lparr>pi_os := (pi_os s)\<lparr>po_queues := (po_queues (pi_os s))(queueName queue := shared)\<rparr>\<rparr> in
               (case drained of
                  Inl _ \<Rightarrow> (connection, s)
                | Inr handles \<Rightarrow>
                    (case fold (\<lambda>handle (connection, pool). releaseOutstanding connection handle pool)
                            handles (connection, pi_pool s) of
                       (connection, pool) \<Rightarrow> (connection, s\<lparr>pi_pool := pool\<rparr>)))))"

fun drainQueues ::
  "PublisherEnv \<Rightarrow> DataConnection list \<Rightarrow> PublisherImpl \<Rightarrow> DataConnection list \<times> PublisherImpl" where
  "drainQueues env [] s = ([], s)"
| "drainQueues env (connection # connections) s =
     (case drainQueue env connection s of (connection, s) \<Rightarrow>
      case drainQueues env connections s of (connections, s) \<Rightarrow> (connection # connections, s))"

definition drainQueuedReferences :: "PublisherEnv \<Rightarrow> PublisherImpl \<Rightarrow> PublisherImpl" where
  "drainQueuedReferences env s =
     (case drainQueues env (pi_connections s) s of (connections, s) \<Rightarrow> s\<lparr>pi_connections := connections\<rparr>)"

text \<open>Destroying the pool unmaps its segment and removes its name.\<close>

definition Publisher_destroy ::
  "PublisherEnv \<Rightarrow> PollStep list \<Rightarrow> ShmEnv \<Rightarrow> RequestEnv \<Rightarrow> PublisherImpl
     \<Rightarrow> (RegistrySession option \<times> PublisherOs) option" where
  "Publisher_destroy env steps unmap unadvertise s =
     (let s = (if pi_pool s = None then s
            else drainQueuedReferences env (waitForOutstandingReleases env steps (publisher_processPeerEvents env s)));
          os = fold (destroyConnection env) (pi_connections s) (pi_os s);
          os = (case pi_pool s of
              None \<Rightarrow> os
            | Some p \<Rightarrow> os\<lparr>po_shm := snd (SharedMemoryRegion_cleanup (mp_region p) unmap (po_shm os))\<rparr>) in
      (case pi_registry_session s of
         None \<Rightarrow> Some (None, os)
       | Some session \<Rightarrow>
           if pi_endpoint_id s \<noteq> 0
           then do { session \<leftarrow> session_unadvertise (pi_endpoint_id s) unadvertise session;
                     Some (Some session, os) }
           else Some (Some session, os)))"

end
