(* ===== verification/MW_References.thy ===== *)
theory MW_References
  imports MW_Publisher MW_Pool_Lifecycle "HOL-Library.Multiset"
begin

text \<open>
  Who holds references to the chunks of a memory pool.  \<open>refs_ok M p\<close> says that the multiset \<open>M\<close> of
  handles accounts for every reference: each handle in it is current, and each chunk counts exactly
  the occurrences of its handle.  The operations of the pool that the publisher
  (\<open>src/middleware/src/publisher.cpp\<close>) uses change \<open>M\<close> the way the publisher's own lists change.
\<close>

section \<open>The handle of a chunk\<close>

definition handle_of :: "MemoryPool \<Rightarrow> u32 \<Rightarrow> ChunkHandle" where
  "handle_of p i = \<lparr>ch_pool_id = pd_pool_id (mp_descriptor p), ch_chunk_index = i,
     ch_generation = ck_generation (chunkHeader p i),
     ch_payload_offset = de_payload_offset (mp_directory p ! unat i)\<rparr>"

lemma handle_of_index [simp]: "ch_chunk_index (handle_of p i) = i"
  by (simp add: handle_of_def)

lemma handle_valid_iff:
  "handle_valid p h \<longleftrightarrow> unat (ch_chunk_index h) < length (mp_directory p) \<and> h = handle_of p (ch_chunk_index h)"
  by (cases h) (auto simp: handle_valid_def handleMatches_def handle_of_def)

definition refs_ok :: "ChunkHandle multiset \<Rightarrow> MemoryPool \<Rightarrow> bool" where
  "refs_ok M p \<longleftrightarrow> pool_inv p \<and> (\<forall>h \<in># M. handle_valid p h) \<and>
     (\<forall>i. unat i < length (mp_directory p) \<longrightarrow> ck_state (chunkHeader p i) \<noteq> Released \<and>
        unat (ck_ref_count (chunkHeader p i)) = count M (handle_of p i))"

lemma refs_ok_inv: "refs_ok M p \<Longrightarrow> pool_inv p"
  by (simp add: refs_ok_def)

lemma refs_ok_valid: "refs_ok M p \<Longrightarrow> h \<in># M \<Longrightarrow> handle_valid p h"
  by (simp add: refs_ok_def)

lemma refs_ok_count:
  "refs_ok M p \<Longrightarrow> handle_valid p h \<Longrightarrow> unat (handle_refs p h) = count M h"
  unfolding refs_ok_def handle_valid_iff by metis

lemma refs_ok_state:
  assumes "refs_ok M p" "handle_valid p h"
  shows "handle_state p h = Published \<longleftrightarrow> h \<in># M"
proof -
  have "handle_state p h = Published \<longleftrightarrow> handle_refs p h \<noteq> 0"
    using assms pool_inv_headers(2) [OF refs_ok_inv [OF assms(1)] handle_valid_lt [OF assms(2)]]
    unfolding refs_ok_def chunk_state_ok_def by (cases "handle_state p h") auto
  then show ?thesis
    using refs_ok_count [OF assms] by (metis count_eq_zero_iff unat_eq_zero)
qed

lemma refs_ok_published: "refs_ok M p \<Longrightarrow> h \<in># M \<Longrightarrow> handle_state p h = Published"
  using refs_ok_state refs_ok_valid by blast

text \<open>No handle of a chunk without references is in \<open>M\<close>, whatever its generation.\<close>

lemma refs_ok_unreferenced:
  assumes "refs_ok M p" "unat i < length (mp_directory p)" "ck_ref_count (chunkHeader p i) = 0" "h \<in># M"
  shows "ch_chunk_index h \<noteq> i"
proof
  assume "ch_chunk_index h = i"
  then have "h = handle_of p i" using refs_ok_valid [OF assms(1,4)] by (simp add: handle_valid_iff)
  then have "count M (handle_of p i) \<noteq> 0" using assms(4) by simp
  then show False using assms(1,2,3) by (metis refs_ok_def unat_0)
qed

text \<open>A change of one header, with or without a new generation.\<close>

lemma refs_ok_update:
  assumes refs: "refs_ok M p" and i: "unat i < length (mp_directory p)" and inv: "pool_inv p'"
    and same: "mp_directory p' = mp_directory p" "mp_descriptor p' = mp_descriptor p"
    and hdr: "\<And>j. unat j < length (mp_directory p) \<Longrightarrow> chunkHeader p' j = (if j = i then hdr else chunkHeader p j)"
    and gen: "ck_generation hdr = ck_generation (chunkHeader p i)"
    and state: "ck_state hdr \<noteq> Released" and refs': "unat (ck_ref_count hdr) = count M' (handle_of p i)"
    and others: "\<And>h. h \<noteq> handle_of p i \<Longrightarrow> count M' h = count M h"
  shows "refs_ok M' p'"
proof -
  have handle: "handle_of p' j = handle_of p j" if "unat j < length (mp_directory p)" for j
    using that hdr gen by (simp add: handle_of_def same)
  have valid: "handle_valid p' h \<longleftrightarrow> handle_valid p h" for h
    using handle by (auto simp: handle_valid_iff same)
  have "handle_valid p h" if "h \<in># M'" for h
  proof (cases "h = handle_of p i")
    case True
    then show ?thesis using i by (simp add: handle_valid_iff)
  next
    case False
    then have "h \<in># M" using that others by (metis count_eq_zero_iff)
    then show ?thesis by (rule refs_ok_valid [OF refs])
  qed
  moreover have "handle_of p j \<noteq> handle_of p i" if "j \<noteq> i" for j
    using that by (metis handle_of_index)
  ultimately show ?thesis
    using refs inv hdr state refs' others by (auto simp: refs_ok_def valid handle same)
qed

lemma refs_ok_regenerate:
  assumes refs: "refs_ok M p" and i: "unat i < length (mp_directory p)" "ck_ref_count (chunkHeader p i) = 0"
    and inv: "pool_inv p'"
    and same: "mp_directory p' = mp_directory p" "mp_descriptor p' = mp_descriptor p"
    and hdr: "\<And>j. unat j < length (mp_directory p) \<Longrightarrow> chunkHeader p' j = (if j = i then hdr else chunkHeader p j)"
    and new: "ck_state hdr \<noteq> Released" "ck_ref_count hdr = 0"
  shows "refs_ok M p'"
proof -
  note none = refs_ok_unreferenced [OF refs i]
  have handle: "handle_of p' j = handle_of p j" if "unat j < length (mp_directory p)" "j \<noteq> i" for j
    using that hdr by (simp add: handle_of_def same)
  have "count M (handle_of p' i) = 0" using none by (metis count_eq_zero_iff handle_of_index)
  then have "unat (ck_ref_count (chunkHeader p' j)) = count M (handle_of p' j)"
    if "unat j < length (mp_directory p)" for j
    using that refs hdr new(2) handle by (cases "j = i") (auto simp: refs_ok_def)
  moreover have "handle_valid p' h" if "h \<in># M" for h
    using that refs_ok_valid [OF refs that] none [OF that] handle by (simp add: handle_valid_iff same)
  ultimately show ?thesis
    using refs inv hdr new(1) by (auto simp: refs_ok_def same)
qed

section \<open>The operations\<close>

text \<open>What no operation on another chunk touches: the identity of the pool and the chunks on loan outside \<open>X\<close>.\<close>

definition loans_kept :: "u32 set \<Rightarrow> MemoryPool \<Rightarrow> MemoryPool \<Rightarrow> bool" where
  "loans_kept X p p' \<longleftrightarrow> mp_directory p' = mp_directory p \<and> mp_descriptor p' = mp_descriptor p \<and>
     mp_region p' = mp_region p \<and> mp_size_classes p' = mp_size_classes p \<and>
     (\<forall>i. i \<notin> X \<longrightarrow> unat i < length (mp_directory p) \<longrightarrow> ck_state (chunkHeader p i) = Loaned \<longrightarrow>
        chunkHeader p' i = chunkHeader p i)"

lemma loans_kept_refl [simp]: "loans_kept X p p"
  by (simp add: loans_kept_def)

lemma loans_kept_trans [trans]: "loans_kept X p q \<Longrightarrow> loans_kept X q r \<Longrightarrow> loans_kept X p r"
  by (simp add: loans_kept_def)

lemma chunkHeader_set_count:
  assumes "pool_inv p" "unat i < length (mp_directory p)" "unat j < length (mp_directory p)"
  shows "chunkHeader (countRelease (setChunkHeader p i hdr)) j = (if j = i then hdr else chunkHeader p j)"
    "chunkHeader (countReclaim (pushFree (setChunkHeader p i hdr) c k)) j = (if j = i then hdr else chunkHeader p j)"
    "chunkHeader (setChunkHeader p i hdr) j = (if j = i then hdr else chunkHeader p j)"
  using chunkHeader_set [OF pool_inv_wf [OF assms(1)] assms(2,3), of hdr] by (auto simp: count_defs)

lemma pool_parts [simp]:
  "mp_directory (countReclaim p) = mp_directory p" "mp_descriptor (countReclaim p) = mp_descriptor p"
  "mp_region (countReclaim p) = mp_region p" "mp_size_classes (countReclaim p) = mp_size_classes p"
  "mp_directory (countRelease p) = mp_directory p" "mp_descriptor (countRelease p) = mp_descriptor p"
  "mp_region (countRelease p) = mp_region p" "mp_size_classes (countRelease p) = mp_size_classes p"
  "mp_directory (pushFree p c k) = mp_directory p" "mp_descriptor (pushFree p c k) = mp_descriptor p"
  "mp_region (pushFree p c k) = mp_region p" "mp_size_classes (pushFree p c k) = mp_size_classes p"
  by (simp_all add: count_defs pushFree_def)

text \<open>Giving back the last reference frees the chunk, giving back another one only counts down.\<close>

lemma release_last:
  assumes refs: "refs_ok (add_mset h M) p" and one: "handle_refs p h = 1"
  shows "\<exists>p'. releaseReference h (Some p) = (Ok, Some p') \<and> refs_ok M p' \<and> loans_kept X p p'"
proof -
  define i where "i = ch_chunk_index h"
  note inv = refs_ok_inv [OF refs]
  have v: "handle_valid p h" "handle_state p h = Published"
    using refs_ok_valid [OF refs] refs_ok_published [OF refs] by simp_all
  note i = handle_valid_lt [OF v(1), folded i_def]
  define p1 where "p1 = snd (pool_release h p)"
  define free where "free = (chunkHeader p1 i)\<lparr>ck_payload_size := 0, ck_sequence := 0, ck_publish_timestamp_ns := 0, ck_state := Free\<rparr>"
  define p2 where "p2 = snd (pool_reclaim h p1)"
  have inv1: "pool_inv p1" using pool_inv_release [OF inv] by (simp add: p1_def)
  note r = release_published [OF inv v, folded p1_def i_def]
  have p1: "p1 = countRelease (setChunkHeader p i ((chunkHeader p i)\<lparr>ck_ref_count := 0, ck_state := Released\<rparr>))"
    using v one by (simp add: p1_def pool_release_eq [OF inv] i_def)
  have p2: "pool_reclaim h p1 = (Ok, p2)"
    "p2 = countReclaim (pushFree (setChunkHeader p1 i free) (unat (de_size_class_index (mp_directory p1 ! unat i))) i)"
    using r(4,6) one by (simp_all add: p2_def pool_reclaim_eq [OF inv1] i_def free_def)
  have parts: "mp_directory p2 = mp_directory p" "mp_descriptor p2 = mp_descriptor p"
    "mp_region p2 = mp_region p" "mp_size_classes p2 = mp_size_classes p"
    by (simp_all add: p2(2) p1)
  have hdr1: "chunkHeader p1 j = (if j = i then (chunkHeader p i)\<lparr>ck_ref_count := 0, ck_state := Released\<rparr> else chunkHeader p j)"
    if "unat j < length (mp_directory p)" for j
    unfolding p1 by (rule chunkHeader_set_count(1) [OF inv i that])
  have hdr: "chunkHeader p2 j = (if j = i then free else chunkHeader p j)" if "unat j < length (mp_directory p)" for j
    unfolding p2(2) using chunkHeader_set_count(2) [OF inv1, of i j free] i that hdr1 [OF that] by (simp add: p1)
  have h: "h = handle_of p i" using v(1) by (simp add: handle_valid_iff i_def)
  have "count M h = 0" using refs_ok_count [OF refs v(1)] one by simp
  then have "refs_ok M p2"
    using hdr1 [OF i] pool_inv_reclaim [OF inv1, of h, folded p2_def]
    by (intro refs_ok_update [OF refs i _ parts(1,2) hdr]) (auto simp: free_def h)
  moreover have "loans_kept X p p2" using hdr v(2) by (auto simp: loans_kept_def parts i_def)
  moreover have "releaseReference h (Some p) = (Ok, Some p2)"
    using r(1,3) one p2(1) by (simp add: releaseReference_def p1_def split_def i_def)
  ultimately show ?thesis by blast
qed

lemma release_counts_down:
  assumes refs: "refs_ok (add_mset h M) p" and more: "handle_refs p h \<noteq> 1"
  shows "\<exists>p'. releaseReference h (Some p) = (Ok, Some p') \<and> refs_ok M p' \<and> loans_kept X p p'"
proof -
  define i where "i = ch_chunk_index h"
  note inv = refs_ok_inv [OF refs]
  have v: "handle_valid p h" "handle_state p h = Published"
    using refs_ok_valid [OF refs] refs_ok_published [OF refs] by simp_all
  note i = handle_valid_lt [OF v(1), folded i_def]
  define p1 where "p1 = snd (pool_release h p)"
  have p1: "p1 = countRelease (setChunkHeader p i ((chunkHeader p i)\<lparr>ck_ref_count := handle_refs p h - 1\<rparr>))"
    using v more by (simp add: p1_def pool_release_eq [OF inv] i_def)
  have hdr: "chunkHeader p1 j = (if j = i then (chunkHeader p i)\<lparr>ck_ref_count := handle_refs p h - 1\<rparr> else chunkHeader p j)"
    if "unat j < length (mp_directory p)" for j
    unfolding p1 by (rule chunkHeader_set_count(1) [OF inv i that])
  have h: "handle_of p i = h" using v(1) by (simp add: handle_valid_iff i_def)
  have "unat (handle_refs p h) = Suc (count M h)" using refs_ok_count [OF refs v(1)] by simp
  then have "unat (handle_refs p h - 1) = count M h"
    using unat_minus_one [of "handle_refs p h"] by (metis diff_Suc_1 nat.distinct(1) unat_eq_zero)
  then have "refs_ok M p1"
    using v(2) pool_inv_release [OF inv, of h, folded p1_def]
    by (intro refs_ok_update [OF refs i _ _ _ hdr]) (auto simp: p1 h [unfolded i_def] i_def)
  moreover have "loans_kept X p p1" using hdr v(2) by (auto simp: loans_kept_def p1 i_def)
  moreover have "releaseReference h (Some p) = (Ok, Some p1)"
    using release_published(1,3) [OF inv v] more by (simp add: releaseReference_def p1_def split_def)
  ultimately show ?thesis by blast
qed

lemma refs_ok_release:
  assumes "refs_ok (add_mset h M) p"
  obtains p' where "releaseReference h (Some p) = (Ok, Some p')" "refs_ok M p'" "loans_kept X p p'"
  using release_last [OF assms] release_counts_down [OF assms] by blast

lemma refs_ok_addReference:
  assumes refs: "refs_ok M p" and h: "h \<in># M"
  shows "loans_kept X p (snd (pool_addReference h p))"
    "refs_ok (if fst (pool_addReference h p) = Ok then add_mset h M else M) (snd (pool_addReference h p))"
proof -
  define i where "i = ch_chunk_index h"
  note inv = refs_ok_inv [OF refs]
  have v: "handle_valid p h" "handle_state p h = Published"
    using refs_ok_valid [OF refs h] refs_ok_published [OF refs h] by simp_all
  note i = handle_valid_lt [OF v(1), folded i_def]
  let ?p = "setChunkHeader p i ((chunkHeader p i)\<lparr>ck_ref_count := handle_refs p h + 1\<rparr>)"
  have add: "pool_addReference h p = (if handle_refs p h = - 1 then (InvalidState, p) else (Ok, ?p))"
    using v by (simp add: pool_addReference_eq [OF inv] i_def)
  have hdr: "chunkHeader ?p j = (if j = i then (chunkHeader p i)\<lparr>ck_ref_count := handle_refs p h + 1\<rparr> else chunkHeader p j)"
    if "unat j < length (mp_directory p)" for j
    by (rule chunkHeader_set_count(3) [OF inv i that])
  show "loans_kept X p (snd (pool_addReference h p))"
    using hdr v(2) by (auto simp: loans_kept_def add i_def)
  have handle: "handle_of p i = h" using v(1) by (simp add: handle_valid_iff i_def)
  have "refs_ok (add_mset h M) ?p" if "handle_refs p h \<noteq> - 1"
  proof -
    have "unat (handle_refs p h + 1) = Suc (count M h)"
      using that refs_ok_count [OF refs v(1)] by (simp add: unat_Suc_no_wrap)
    then show ?thesis
      using v(2) that pool_inv_addReference [OF inv, of h]
      by (intro refs_ok_update [OF refs i _ _ _ hdr]) (auto simp: add handle [unfolded i_def] i_def)
  qed
  then show "refs_ok (if fst (pool_addReference h p) = Ok then add_mset h M else M) (snd (pool_addReference h p))"
    using refs by (auto simp: add)
qed

lemma refs_ok_allocate:
  fixes n :: size_t
  assumes refs: "refs_ok M p"
  defines "r \<equiv> fst (pool_allocate n p)" and "p' \<equiv> snd (pool_allocate n p)"
  shows "refs_ok M p' \<and> loans_kept X p p' \<and>
    (ar_error r = Ok \<longrightarrow> handle_valid p' (ar_handle r) \<and> handle_state p' (ar_handle r) = Loaned \<and>
       handle_state p (ar_handle r) = Free \<and> unat (ck_payload_size (chunkHeader p' (ch_chunk_index (ar_handle r)))) = unat n)"
  using refs_ok_inv [OF refs]
proof (cases rule: pool_allocate_cases [of p n])
  case (loaned c i)
  note inv = refs_ok_inv [OF refs]
  have c: "c < length (mp_size_classes p)" using findSizeClass_Some [OF loaned(1)] by simp
  note i = last_free [OF inv c loaned(2), folded loaned(3)]
  let ?hdr = "loanedHeader n (chunkHeader p i)"
  have hdr: "chunkHeader p' j = (if j = i then ?hdr else chunkHeader p j)" if "unat j < length (mp_directory p)" for j
    using chunkHeader_set_count(3) [OF inv i(1) that, of ?hdr] by (simp add: p'_def loaned(4) countAllocation_def)
  have parts: "mp_directory p' = mp_directory p" "mp_descriptor p' = mp_descriptor p"
    "mp_region p' = mp_region p" "mp_size_classes p' = mp_size_classes p"
    by (simp_all add: p'_def loaned(4) countAllocation_def)
  have "refs_ok M p'"
    using pool_inv_allocate [OF inv, of n, folded p'_def] i(4)
    by (intro refs_ok_regenerate [OF refs i(1,4) _ parts(1,2) hdr]) (simp_all add: loanedHeader_def)
  moreover have "loans_kept X p p'" using hdr i(3) by (auto simp: loans_kept_def parts)
  moreover have "handle_valid p' (ar_handle r)" "handle_state p' (ar_handle r) = Loaned"
    using i(1) hdr [OF i(1)] by (simp_all add: r_def loaned(4) handle_valid_def handleMatches_def parts loanedHeader_def)
  moreover have "handle_state p (ar_handle r) = Free" using i(3) by (simp add: r_def loaned(4))
  moreover have "unat (ck_payload_size (chunkHeader p' (ch_chunk_index (ar_handle r)))) = unat n"
    using loanedHeader_ok(3) [OF inv loaned(1,2), folded loaned(3)] hdr [OF i(1)] by (simp add: r_def loaned(4))
  ultimately show ?thesis by simp
qed (use refs in \<open>auto simp: r_def p'_def countAllocationFailure_def refs_ok_def loans_kept_def handle_valid_def
    handle_of_def handleMatches_def\<close>)

lemma refs_ok_cong:
  assumes "refs_ok M p" "pm_chunks (mp_memory p') = pm_chunks (mp_memory p)" "mp_directory p' = mp_directory p"
    "mp_descriptor p' = mp_descriptor p" "mp_size_classes p' = mp_size_classes p" "mp_free_lists p' = mp_free_lists p"
  shows "refs_ok M p'"
proof -
  have hdr: "chunkHeader p' = chunkHeader p" by (rule ext) (simp add: chunkHeader_def assms)
  have "pool_inv p' = pool_inv p" by (rule pool_inv_cong) (simp_all add: assms)
  then show ?thesis
    using assms(1) by (simp add: refs_ok_def hdr assms handle_of_def handle_valid_def handleMatches_def)
qed

lemma refs_ok_markPublished:
  assumes refs: "refs_ok M p" and ok: "publishLocked h n sequence 1 p = Ok"
  shows "refs_ok (add_mset h M) (markPublished h sequence ts 1 p)"
    "loans_kept {ch_chunk_index h} p (markPublished h sequence ts 1 p)"
proof -
  define i where "i = ch_chunk_index h"
  note inv = refs_ok_inv [OF refs]
  have v: "handle_valid p h" "handle_state p h = Loaned" using ok by (simp_all add: publishLocked_Ok)
  note i = handle_valid_lt [OF v(1), folded i_def]
  let ?hdr = "(chunkHeader p i)\<lparr>ck_sequence := sequence, ck_publish_timestamp_ns := ts, ck_ref_count := 1,
    ck_state := Published\<rparr>"
  have p': "markPublished h sequence ts 1 p = setChunkHeader p i ?hdr" by (simp add: markPublished_def i_def)
  have hdr: "chunkHeader (setChunkHeader p i ?hdr) j = (if j = i then ?hdr else chunkHeader p j)"
    if "unat j < length (mp_directory p)" for j
    by (rule chunkHeader_set_count(3) [OF inv i that])
  have h: "handle_of p i = h" using v(1) by (simp add: handle_valid_iff i_def)
  have "h \<notin># M" using refs_ok_state [OF refs v(1)] v(2) by simp
  then have none: "count M h = 0" by (simp add: count_eq_zero_iff)
  show "refs_ok (add_mset h M) (markPublished h sequence ts 1 p)"
    using none markPublished_inv [OF inv ok, of ts] unfolding p'
    by (intro refs_ok_update [OF refs i _ _ _ hdr]) (auto simp: h)
  show "loans_kept {ch_chunk_index h} p (markPublished h sequence ts 1 p)"
    unfolding p' using hdr by (auto simp: loans_kept_def i_def)
qed

lemma refs_ok_writeAndPublish:
  fixes h data n sequence ts
  assumes refs: "refs_ok M p"
  defines "e \<equiv> fst (pool_writeAndPublish h data n sequence ts 1 p)"
    and "p' \<equiv> snd (pool_writeAndPublish h data n sequence ts 1 p)"
  shows "refs_ok (if e = Ok then add_mset h M else M) p' \<and> loans_kept {ch_chunk_index h} p p'"
proof (cases "e = Ok")
  case True
  let ?q = "if n \<noteq> 0 then p\<lparr>mp_memory := (mp_memory p)\<lparr>pm_bytes :=
    mem_write (unat (ch_payload_offset h)) (take (unat n) (the data)) (pm_bytes (mp_memory p))\<rparr>\<rparr> else p"
  have ok: "publishLocked h n sequence 1 p = Ok"
    using True by (auto simp: e_def pool_writeAndPublish_def Let_def split: if_splits)
  have p': "p' = countCopy (markPublished h sequence ts 1 ?q)"
    using True ok by (auto simp: e_def p'_def pool_writeAndPublish_def Let_def split: if_splits)
  have q: "refs_ok M ?q" by (rule refs_ok_cong [OF refs]) simp_all
  have ok': "publishLocked h n sequence 1 ?q = Ok" using ok by auto
  note m = refs_ok_markPublished [OF q ok', of ts]
  have "refs_ok (add_mset h M) p'" unfolding p' by (rule refs_ok_cong [OF m(1)]) (simp_all add: countCopy_def)
  moreover have "loans_kept {ch_chunk_index h} p p'"
    using m(2) by (simp add: p' loans_kept_def countCopy_def split: if_splits)
  ultimately show ?thesis using True by simp
next
  case False
  then have "p' = p" by (auto simp: e_def p'_def pool_writeAndPublish_def Let_def split: if_splits)
  then show ?thesis using refs False by simp
qed

lemma refs_ok_publishLoaned:
  assumes "refs_ok M p"
  shows "refs_ok (if fst (pool_publishLoaned h n sequence ts 1 p) = Ok then add_mset h M else M)
      (snd (pool_publishLoaned h n sequence ts 1 p)) \<and>
    loans_kept {ch_chunk_index h} p (snd (pool_publishLoaned h n sequence ts 1 p))"
  using assms refs_ok_markPublished [OF assms, of h n sequence ts] by (simp add: pool_publishLoaned_def Let_def)

lemma refs_ok_cancel:
  assumes refs: "refs_ok M p"
  shows "refs_ok M (snd (pool_cancel h p)) \<and> loans_kept {ch_chunk_index h} p (snd (pool_cancel h p))"
proof (cases "handle_valid p h \<and> handle_state p h = Loaned")
  case True
  define i where "i = ch_chunk_index h"
  note inv = refs_ok_inv [OF refs]
  note i = handle_valid_lt [OF conjunct1 [OF True], folded i_def]
  let ?hdr = "(chunkHeader p i)\<lparr>ck_payload_size := 0, ck_state := Free\<rparr>"
  let ?p = "countReclaim (pushFree (setChunkHeader p i ?hdr) (unat (de_size_class_index (mp_directory p ! unat i))) i)"
  have p': "snd (pool_cancel h p) = ?p" using True by (simp add: pool_cancel_eq [OF inv] i_def)
  have hdr: "chunkHeader ?p j = (if j = i then ?hdr else chunkHeader p j)" if "unat j < length (mp_directory p)" for j
    by (rule chunkHeader_set_count(2) [OF inv i that])
  have zero: "ck_ref_count (chunkHeader p i) = 0"
    using True pool_inv_headers(2) [OF inv i] by (simp add: chunk_state_ok_def i_def)
  have "refs_ok M ?p"
    using pool_inv_cancel [OF inv, of h] zero unfolding p'
    by (intro refs_ok_regenerate [OF refs i zero _ _ _ hdr]) simp_all
  moreover have "loans_kept {ch_chunk_index h} p ?p" using hdr by (auto simp: loans_kept_def i_def)
  ultimately show ?thesis by (simp add: p')
qed (use refs in \<open>auto simp: pool_cancel_eq [OF refs_ok_inv [OF refs]]\<close>)

text \<open>A pool that has just been created has no references.\<close>

lemma refs_ok_create:
  assumes "MemoryPool_create descriptor config pid env os = (Inr p, os')"
  shows "refs_ok {#} p"
proof -
  have "ck_state (chunkHeader p i) = Free" "ck_ref_count (chunkHeader p i) = 0"
    if "unat i < length (mp_directory p)" for i
    using created_chunk [OF assms that] by (simp_all add: chunk_state_ok_def)
  then show ?thesis using pool_inv_create [OF assms] by (auto simp: refs_ok_def)
qed

end
