(* ===== verification/MW_Publisher_Invariant.thy ===== *)
theory MW_Publisher_Invariant
  imports MW_References
begin

text \<open>
  The bookkeeping of the publisher (\<open>src/middleware/src/publisher.cpp\<close>): the lists of outstanding
  handles of its connections account for all references to the chunks of its pool, after every
  operation and whatever subscribers, the registry and the system calls do.
\<close>

section \<open>Interface of the pool\<close>

text \<open>
  The publisher relies on one law: giving back a handle that is accounted for takes it out of the
  account.
\<close>

locale reference_pool =
  fixes holds :: "'h multiset \<Rightarrow> 'p \<Rightarrow> bool" and give_back :: "'h \<Rightarrow> 'p \<Rightarrow> 'p"
  assumes give_back: "holds (add_mset h M) p \<Longrightarrow> holds M (give_back h p)"
begin

lemma give_back_all: "holds (mset hs + M) p \<Longrightarrow> holds M (fold give_back hs p)"
  by (induction hs arbitrary: p) (auto intro: give_back)

lemma give_back_one:
  assumes "h \<in> set hs" "holds (mset hs + M) p"
  shows "holds (mset (remove1 h hs) + M) (give_back h p)"
proof -
  have "add_mset h (mset (remove1 h hs) + M) = mset hs + M" using assms(1) by simp
  then show ?thesis using assms(2) by (intro give_back) (simp only:)
qed

end

text \<open>
  \<open>accounts X q0 M q\<close>: the handles \<open>M\<close> account for the references in pool \<open>q\<close>, which came from \<open>q0\<close>
  without touching chunks on loan other than \<open>X\<close>.
\<close>

definition pool_kept :: "u32 set \<Rightarrow> MemoryPool option \<Rightarrow> MemoryPool option \<Rightarrow> bool" where
  "pool_kept X q q' \<longleftrightarrow>
     (case q of None \<Rightarrow> q' = None | Some p \<Rightarrow> (case q' of None \<Rightarrow> False | Some p' \<Rightarrow> loans_kept X p p'))"

definition accounts :: "u32 set \<Rightarrow> MemoryPool option \<Rightarrow> ChunkHandle multiset \<Rightarrow> MemoryPool option \<Rightarrow> bool" where
  "accounts X q0 M q \<longleftrightarrow> pool_kept X q0 q \<and> (case q of None \<Rightarrow> M = {#} | Some p \<Rightarrow> refs_ok M p)"

lemma accounts_Some: "accounts X q0 M (Some p) \<longleftrightarrow> refs_ok M p \<and> (\<exists>p0. q0 = Some p0 \<and> loans_kept X p0 p)"
  by (auto simp: accounts_def pool_kept_def split: option.splits)

lemma accounts_None: "accounts X q0 M None \<longleftrightarrow> M = {#} \<and> q0 = None"
  by (auto simp: accounts_def pool_kept_def split: option.splits)

lemma accounts_release:
  assumes "accounts X q0 (add_mset h M) q"
  shows "accounts X q0 M (snd (releaseReference h q))"
proof (cases q)
  case (Some p)
  then obtain p0 where p: "refs_ok (add_mset h M) p" "q0 = Some p0" "loans_kept X p0 p"
    using assms by (auto simp: accounts_Some)
  obtain p' where "releaseReference h (Some p) = (Ok, Some p')" "refs_ok M p'" "loans_kept X p p'"
    by (rule refs_ok_release [OF p(1)])
  then show ?thesis using p loans_kept_trans by (auto simp: accounts_Some Some)
qed (use assms in \<open>simp add: accounts_None\<close>)

interpretation pool_account:
  reference_pool "accounts X q0" "\<lambda>handle pool. snd (releaseReference handle pool)" for X q0
  by unfold_locales (rule accounts_release)

section \<open>Connections\<close>

lemma fold_keeps: "(\<And>x s. P s \<Longrightarrow> P (f x s)) \<Longrightarrow> P s \<Longrightarrow> P (fold f xs s)"
  by (induction xs arbitrary: s) auto

definition outstandingOf :: "DataConnection list \<Rightarrow> ChunkHandle multiset" where
  "outstandingOf cs = (\<Sum>c \<leftarrow> cs. mset (dc_outstanding c))"

lemma outstandingOf_simps [simp]:
  "outstandingOf [] = {#}" "outstandingOf (c # cs) = mset (dc_outstanding c) + outstandingOf cs"
  "outstandingOf (cs @ ds) = outstandingOf cs + outstandingOf ds"
  by (simp_all add: outstandingOf_def)

abbreviation outstanding :: "PublisherImpl \<Rightarrow> ChunkHandle multiset" where
  "outstanding s \<equiv> outstandingOf (pi_connections s)"

text \<open>\<open>accounted X q0 M s\<close>: the outstanding handles of \<open>s\<close> together with \<open>M\<close> account for its pool.\<close>

abbreviation accounted :: "u32 set \<Rightarrow> MemoryPool option \<Rightarrow> ChunkHandle multiset \<Rightarrow> PublisherImpl \<Rightarrow> bool" where
  "accounted X q0 M s \<equiv> accounts X q0 (outstanding s + M) (pi_pool s)"

lemma releaseOutstanding_accounts:
  assumes "accounts X q0 (mset (dc_outstanding c) + M) q" "releaseOutstanding c h q = (c', q')"
  shows "accounts X q0 (mset (dc_outstanding c') + M) q'"
  using assms pool_account.give_back_one [of h "dc_outstanding c" X q0 M q]
  by (auto simp: releaseOutstanding_def split: if_splits)

lemma dropConnection_accounts:
  "accounts X q0 (mset (dc_outstanding c) + M) (pi_pool s) \<Longrightarrow> accounts X q0 M (pi_pool (dropConnection env c s))"
  using pool_account.give_back_all [of X q0 "dc_outstanding c" M "pi_pool s"]
  by (simp add: dropConnection_def releaseAllOutstanding_def)

lemma dropConnection_frame [simp]:
  "pi_connections (dropConnection env c s) = pi_connections s"
  "pi_config (dropConnection env c s) = pi_config s"
  "pi_sequence (dropConnection env c s) = pi_sequence s"
  by (simp_all add: dropConnection_def releaseAllOutstanding_def)

lemma eraseConnections_accounts:
  "eraseConnections env dead cs s = (cs', s') \<Longrightarrow> accounts X q0 (outstandingOf cs + M) (pi_pool s) \<Longrightarrow>
     accounts X q0 (outstandingOf cs' + M) (pi_pool s')"
proof (induction cs arbitrary: s cs' M)
  case (Cons c cs)
  show ?case
  proof (cases "dead c")
    case True
    have "accounts X q0 (outstandingOf cs + M) (pi_pool (dropConnection env c s))"
      using Cons.prems(2) by (intro dropConnection_accounts) (simp add: union_assoc)
    then show ?thesis using Cons.IH Cons.prems(1) True by simp
  next
    case False
    obtain ds where ds: "eraseConnections env dead cs s = (ds, s')" "cs' = c # ds"
      using Cons.prems(1) False by (auto split: prod.splits)
    have "accounts X q0 (outstandingOf cs + (mset (dc_outstanding c) + M)) (pi_pool s)"
      using Cons.prems(2) by (simp add: ac_simps)
    from Cons.IH [OF ds(1) this] show ?thesis by (simp add: ds(2) ac_simps)
  qed
qed simp

lemma eraseConnections_frame:
  "eraseConnections env dead cs s = (cs', s') \<Longrightarrow> cs' = filter (\<lambda>c. \<not> dead c) cs \<and>
     pi_config s' = pi_config s \<and> pi_sequence s' = pi_sequence s"
  by (induction cs arbitrary: s cs') (auto split: if_splits prod.splits)

lemma removeEndpoint_accounted: "accounted X q0 M s \<Longrightarrow> accounted X q0 M (removeEndpoint env e s)"
  unfolding removeEndpoint_def by (auto split: prod.splits dest: eraseConnections_accounts)

lemma removeEndpoint_frame [simp]:
  "pi_connections (removeEndpoint env e s) = filter (\<lambda>c. dc_endpoint_id c \<noteq> e) (pi_connections s)"
  "pi_config (removeEndpoint env e s) = pi_config s"
  "pi_sequence (removeEndpoint env e s) = pi_sequence s"
  unfolding removeEndpoint_def by (auto split: prod.splits dest: eraseConnections_frame)

section \<open>Receiving releases\<close>

lemma receiveOneRelease_accounts:
  assumes "accounts X q0 (mset (dc_outstanding c) + M) q" "receiveOneRelease c q rs = (status, c', q', rs')"
  shows "accounts X q0 (mset (dc_outstanding c') + M) q' \<and> dc_endpoint_id c' = dc_endpoint_id c \<and> dc_socket c' = dc_socket c"
  using assms releaseOutstanding_accounts
  by (fastforce simp: receiveOneRelease_def releaseOutstanding_def Let_def
      split: prod.splits option.splits if_splits FillStatus.splits)

lemma drainConnection_accounts:
  "drainConnection c q rs = (gone, c', q', rs') \<Longrightarrow> accounts X q0 (mset (dc_outstanding c) + M) q \<Longrightarrow>
     accounts X q0 (mset (dc_outstanding c') + M) q' \<and> dc_endpoint_id c' = dc_endpoint_id c \<and> dc_socket c' = dc_socket c"
proof (induction c q rs rule: drainConnection.induct)
  case (1 c q rs)
  obtain status c1 q1 rs1 where r: "receiveOneRelease c q rs = (status, c1, q1, rs1)"
    by (metis prod_cases4)
  note step = receiveOneRelease_accounts [OF 1(3) r]
  show ?case
  proof (cases status)
    case Progress
    then have "drainConnection c1 q1 rs1 = (gone, c', q', rs')"
      using 1(2) r by (subst (asm) drainConnection.simps) simp
    then show ?thesis using 1(1) [OF r [symmetric]] Progress step by simp
  qed (use 1(2) r step in \<open>subst (asm) drainConnection.simps, auto\<close>)+
qed

lemma drainConnections_accounts:
  "drainConnections env cs s = (cs', s') \<Longrightarrow> accounts X q0 (outstandingOf cs + M) (pi_pool s) \<Longrightarrow>
     accounts X q0 (outstandingOf cs' + M) (pi_pool s') \<and> pi_config s' = pi_config s \<and> pi_sequence s' = pi_sequence s"
proof (induction cs arbitrary: s cs' M)
  case (Cons c cs)
  obtain gone c1 q1 rs1 where d:
    "drainConnection c (pi_pool s) (po_inbox (pi_os s) (dc_socket c)) = (gone, c1, q1, rs1)"
    by (metis prod_cases4)
  let ?s = "s\<lparr>pi_pool := q1, pi_os := (pi_os s)\<lparr>po_inbox := (po_inbox (pi_os s))(dc_socket c1 := rs1)\<rparr>\<rparr>"
  have acc: "accounts X q0 (mset (dc_outstanding c1) + (outstandingOf cs + M)) q1"
    using drainConnection_accounts [OF d] Cons.prems(2) by (auto simp: union_assoc)
  show ?case
  proof (cases gone)
    case True
    have "accounts X q0 (outstandingOf cs + M) (pi_pool (dropConnection env c1 ?s))"
      using acc by (intro dropConnection_accounts) simp
    then show ?thesis using Cons.prems(1) True d Cons.IH by (fastforce simp: Let_def)
  next
    case False
    obtain ds where ds: "drainConnections env cs ?s = (ds, s')" "cs' = c1 # ds"
      using Cons.prems(1) d False by (auto simp: Let_def split: prod.splits)
    have "accounts X q0 (outstandingOf cs + (mset (dc_outstanding c1) + M)) (pi_pool ?s)"
      using acc by (simp add: ac_simps)
    from Cons.IH [OF ds(1) this] show ?thesis by (simp add: ds(2) ac_simps)
  qed
qed simp

lemma drainReleases_accounted:
  assumes "accounted X q0 M s"
  shows "accounted X q0 M (drainReleasesNonBlocking env s)"
    "pi_config (drainReleasesNonBlocking env s) = pi_config s"
    "pi_sequence (drainReleasesNonBlocking env s) = pi_sequence s"
  using assms unfolding drainReleasesNonBlocking_def
  by (auto split: prod.splits dest: drainConnections_accounts)

lemma processPeerEvents_forms:
  obtains "publisher_processPeerEvents env s = s"
  | events session where "publisher_processPeerEvents env s = fold (handlePeerEvent env) events
      ((drainReleasesNonBlocking env s)\<lparr>pi_registry_session := Some session\<rparr>)"
proof (cases "pi_registry_session s = None \<or> pi_endpoint_id s = 0")
  case True
  then show ?thesis using that(1) by (auto simp: publisher_processPeerEvents_def)
next
  case False
  obtain events session where "takePeerEvents (pi_endpoint_id (drainReleasesNonBlocking env s))
      (the (pi_registry_session (drainReleasesNonBlocking env s))) = (events, session)"
    by fastforce
  then show ?thesis using that(2) False unfolding publisher_processPeerEvents_def Let_def by auto
qed

lemma processPeerEvents_accounted:
  assumes "accounted X q0 M s"
  shows "accounted X q0 M (publisher_processPeerEvents env s)"
    "pi_config (publisher_processPeerEvents env s) = pi_config s"
    "pi_sequence (publisher_processPeerEvents env s) = pi_sequence s"
proof -
  let ?P = "\<lambda>s'. accounted X q0 M s' \<and> pi_config s' = pi_config s \<and> pi_sequence s' = pi_sequence s"
  have step: "?P (handlePeerEvent env event s')" if "?P s'" for event s'
    using that removeEndpoint_accounted by (simp add: handlePeerEvent_def)
  have "?P (publisher_processPeerEvents env s)"
  proof (cases rule: processPeerEvents_forms [of env s])
    case 1
    then show ?thesis using assms by simp
  next
    case (2 events session)
    show ?thesis unfolding 2
      by (rule fold_keeps [where P = ?P, OF step]) (simp_all add: drainReleases_accounted [OF assms])
  qed
  then show "accounted X q0 M (publisher_processPeerEvents env s)"
    "pi_config (publisher_processPeerEvents env s) = pi_config s"
    "pi_sequence (publisher_processPeerEvents env s) = pi_sequence s"
    by blast+
qed

section \<open>Discovery\<close>

lemma connectSubscriber_frame:
  "outstanding (connectSubscriber env subscriber s) = outstanding s \<and>
   pi_pool (connectSubscriber env subscriber s) = pi_pool s \<and>
   pi_config (connectSubscriber env subscriber s) = pi_config s \<and>
   pi_sequence (connectSubscriber env subscriber s) = pi_sequence s"
  by (auto simp: connectSubscriber_def Let_def split: prod.splits sum.splits)

lemma applyDiscovery_accounted:
  assumes "accounted X q0 M s" "applyDiscovery env subscribers s = (e, s')"
  shows "accounted X q0 M s' \<and> pi_config s' = pi_config s \<and> pi_sequence s' = pi_sequence s"
proof -
  define ids where "ids = set (map rsu_endpoint_id subscribers)"
  obtain cs s1 where e: "eraseConnections env (\<lambda>c. dc_endpoint_id c \<notin> ids) (pi_connections s) s = (cs, s1)"
    by fastforce
  define s2 where "s2 = fold (connectSubscriber env) subscribers
    (s1\<lparr>pi_connections := cs, pi_failed_endpoint_ids := pi_failed_endpoint_ids s1 \<inter> ids\<rparr>)"
  let ?P = "\<lambda>t. accounted X q0 M t \<and> pi_config t = pi_config s \<and> pi_sequence t = pi_sequence s"
  have step: "?P (connectSubscriber env subscriber t)" if "?P t" for subscriber t
    using that connectSubscriber_frame [of env subscriber t] by simp
  have "?P s2" unfolding s2_def
    using eraseConnections_accounts [OF e assms(1)] eraseConnections_frame [OF e]
    by (intro fold_keeps [where P = ?P, OF step]) simp_all
  moreover have "pi_pool s' = pi_pool s2 \<and> pi_connections s' = pi_connections s2 \<and>
      pi_config s' = pi_config s2 \<and> pi_sequence s' = pi_sequence s2"
    using assms(2) e by (auto simp: applyDiscovery_def s2_def ids_def Let_def)
  ultimately show ?thesis by simp
qed

lemma connectDiscoveredEndpoints_accounted:
  assumes "accounted X q0 M s" "connectDiscoveredEndpoints env s = Some (e, s')"
  shows "accounted X q0 M s' \<and> pi_config s' = pi_config s \<and> pi_sequence s' = pi_sequence s"
proof (cases "pi_registry_session s = None")
  case True
  then show ?thesis using assms by (simp add: connectDiscoveredEndpoints_def)
next
  case False
  define s1 where "s1 = publisher_processPeerEvents env s"
  note s1 = processPeerEvents_accounted [OF assms(1), of env, folded s1_def]
  consider "s' = s1" | session where "s' = s1\<lparr>pi_registry_session := session\<rparr>"
    | session subscribers where "applyDiscovery env subscribers (s1\<lparr>pi_registry_session := session\<rparr>) = (e, s')"
    using assms(2) False unfolding connectDiscoveredEndpoints_def
    by (simp add: Let_def s1_def [symmetric] split: if_splits bind_splits prod.splits sum.splits Exception.splits)
      blast+
  then show ?thesis
  proof cases
    case 3
    show ?thesis using applyDiscovery_accounted [OF _ 3] s1 by simp
  qed (use s1 in simp_all)
qed

section \<open>Dispatch\<close>

lemma failFirst_pool [simp]: "di_pool (failFirst e d) = di_pool d"
  by (simp add: failFirst_def)

lemma refusedEnqueue_pool [simp]: "di_pool (refusedEnqueue status endpoint d) = di_pool d"
  by (cases status) simp_all

lemma afterEnqueue_accounts:
  assumes "accounts X q0 (add_mset h (mset (dc_outstanding c) + M)) (di_pool d)"
    "afterEnqueue h c enqueue d = (c', d')"
  shows "accounts X q0 (mset (dc_outstanding c') + M) (di_pool d')"
proof (cases "er_status enqueue = Accepted")
  case True
  then show ?thesis
    using assms releaseOutstanding_accounts [of X q0 "c\<lparr>dc_outstanding := dc_outstanding c @ [h]\<rparr>" M "di_pool d"]
    by (auto simp: afterEnqueue_def Let_def split: option.splits prod.splits if_splits)
next
  case False
  then show ?thesis
    using assms accounts_release [OF assms(1)] by (auto simp: afterEnqueue_def Let_def split: if_splits)
qed

lemma dispatchTo_accounts:
  assumes acc: "accounts X q0 (mset (dc_outstanding c) + M) (di_pool d)" and h: "h \<in># M"
    and result: "dispatchTo env limit h c d = Some (c', d')"
  shows "accounts X q0 (mset (dc_outstanding c') + M) (di_pool d')"
proof -
  consider "c' = c" "di_pool d' = di_pool d" | p queue where "di_pool d = Some p" "dc_queue c = Some queue"
    "dispatchTo env limit h c d = Some (c', d')" "length (dc_outstanding c) < unat limit"
    using result by (auto simp: dispatchTo_def split: option.splits if_splits bind_splits)
  then show ?thesis
  proof cases
    case 1
    then show ?thesis using acc by simp
  next
    case (2 p queue)
    obtain p0 where refs: "refs_ok (mset (dc_outstanding c) + M) p" "q0 = Some p0" "loans_kept X p0 p"
      using acc 2(1) by (auto simp: accounts_Some)
    let ?d = "d\<lparr>di_pool := Some (snd (pool_addReference h p))\<rparr>"
    have add: "accounts X q0 (if fst (pool_addReference h p) = Ok then add_mset h (mset (dc_outstanding c) + M)
        else mset (dc_outstanding c) + M) (di_pool ?d)"
      using refs_ok_addReference [OF refs(1), of h] h refs(2,3) loans_kept_trans by (auto simp: accounts_Some)
    show ?thesis
    proof (cases "fst (pool_addReference h p) = Ok")
      case False
      then show ?thesis using 2 add by (auto simp: dispatchTo_def split_def Let_def)
    next
      case True
      then have add': "accounts X q0 (add_mset h (mset (dc_outstanding c) + M)) (di_pool ?d)" using add by simp
      consider "c' = c" "di_pool d' = snd (releaseReference h (di_pool ?d))"
        | enqueue queues where "afterEnqueue h c enqueue (?d\<lparr>di_queues := queues\<rparr>) = (c', d')"
        using 2 True by (auto simp: dispatchTo_def split_def Let_def split: option.splits bind_splits)
      then show ?thesis
      proof cases
        case 1
        then show ?thesis using accounts_release [OF add'] by simp
      next
        case (2 enqueue queues)
        show ?thesis by (rule afterEnqueue_accounts [OF _ 2]) (use add' in simp)
      qed
    qed
  qed
qed

lemma dispatchAll_accounts:
  "dispatchAll env limit h cs d = Some (cs', d') \<Longrightarrow> h \<in># M \<Longrightarrow>
     accounts X q0 (outstandingOf cs + M) (di_pool d) \<Longrightarrow> accounts X q0 (outstandingOf cs' + M) (di_pool d')"
proof (induction cs arbitrary: d cs' M)
  case (Cons c cs)
  obtain c1 d1 ds where step: "dispatchTo env limit h c d = Some (c1, d1)"
    "dispatchAll env limit h cs d1 = Some (ds, d')" "cs' = c1 # ds"
    using Cons.prems(1) by (auto split: bind_splits)
  have "accounts X q0 (mset (dc_outstanding c1) + (outstandingOf cs + M)) (di_pool d1)"
    using Cons.prems(2,3) by (intro dispatchTo_accounts [OF _ _ step(1)]) (simp_all add: ac_simps)
  then have "accounts X q0 (outstandingOf ds + (mset (dc_outstanding c1) + M)) (di_pool d')"
    using Cons.prems(2) by (intro Cons.IH [OF step(2)]) (simp_all add: ac_simps)
  then show ?case by (simp add: step(3) ac_simps)
qed simp

lemma dispatchPublished_accounted:
  assumes acc: "accounted X q0 {#h#} s" and result: "dispatchPublished env h n sequence s = Some (r, s')"
  shows "accounted X q0 {#} s' \<and> pi_config s' = pi_config s \<and> pi_sequence s' = sequence"
proof -
  define d0 where "d0 = \<lparr>di_result = publishResult ConnectionLost sequence n, di_first_failure = Ok,
    di_failed_endpoints = [], di_pool = pi_pool s, di_queues = po_queues (pi_os s)\<rparr>"
  obtain cs d where all: "dispatchAll env (outstandingLimit (pc_memory_pool (pi_config s))) h (pi_connections s) d0 = Some (cs, d)"
    and s': "s' = fold (removeEndpoint env) (di_failed_endpoints d)
      (s\<lparr>pi_connections := cs, pi_pool := snd (releaseReference h (di_pool d)),
         pi_os := (pi_os s)\<lparr>po_queues := di_queues d\<rparr>, pi_sequence := sequence\<rparr>)"
    using result by (auto simp: dispatchPublished_def d0_def split: bind_splits)
  have "accounts X q0 (outstandingOf cs + {#h#}) (di_pool d)"
    by (rule dispatchAll_accounts [OF all]) (use acc in \<open>simp_all add: d0_def\<close>)
  then have released: "accounts X q0 (outstandingOf cs) (snd (releaseReference h (di_pool d)))"
    by (intro accounts_release) simp
  let ?P = "\<lambda>t. accounted X q0 {#} t \<and> pi_config t = pi_config s \<and> pi_sequence t = sequence"
  have step: "?P (removeEndpoint env e t)" if "?P t" for e t
    using that removeEndpoint_accounted [of X q0 t "{#}"] by simp
  show ?thesis unfolding s' by (rule fold_keeps [where P = ?P, OF step]) (simp_all add: released)
qed

section \<open>Publishing and loans\<close>

lemma loans_kept_mono: "loans_kept Y p p' \<Longrightarrow> Y \<subseteq> X \<Longrightarrow> loans_kept X p p'"
  unfolding loans_kept_def by blast

lemma loans_kept_insert:
  "loans_kept (insert i X) p p' \<Longrightarrow> ck_state (chunkHeader p i) \<noteq> Loaned \<or> i \<in> X \<Longrightarrow> loans_kept X p p'"
  unfolding loans_kept_def by (metis insertE)

lemma loans_kept_step:
  assumes "loans_kept X p q" "loans_kept {i} q r" "ck_state (chunkHeader q i) \<noteq> Loaned \<or> i \<in> X"
  shows "loans_kept X p r"
  using assms unfolding loans_kept_def by (metis singletonD)

lemma accounts_cancel:
  assumes "accounts X q0 M q" "ch_chunk_index h \<in> X"
  shows "accounts X q0 M (map_option (\<lambda>p. snd (pool_cancel h p)) q)"
proof (cases q)
  case (Some p)
  then obtain p0 where p: "refs_ok M p" "q0 = Some p0" "loans_kept X p0 p"
    using assms by (auto simp: accounts_Some)
  have "loans_kept X p (snd (pool_cancel h p))"
    using refs_ok_cancel [OF p(1), of h] assms(2) by (auto elim: loans_kept_mono)
  then show ?thesis using p refs_ok_cancel [OF p(1)] loans_kept_trans by (auto simp: accounts_Some Some)
qed (use assms in simp)

text \<open>Chunks that were not on loan in the beginning may be allocated, published and given back.\<close>

lemma accounts_other:
  assumes "accounts X q0 M (Some p)" "loans_kept {i} p p'" "refs_ok M' p'"
    "ck_state (chunkHeader p i) \<noteq> Loaned \<or> i \<in> X"
  shows "accounts X q0 M' (Some p')"
proof -
  obtain p0 where p: "q0 = Some p0" "loans_kept X p0 p" using assms(1) by (auto simp: accounts_Some)
  have "loans_kept X p0 p'" by (rule loans_kept_step [OF p(2) assms(2,4)])
  then show ?thesis using assms(3) p(1) by (simp add: accounts_Some)
qed

lemma pool_allocate_account:
  assumes acc: "accounts X q0 M (Some p)" and alloc: "pool_allocate n p = (r, p1)"
  shows "accounts X q0 M (Some p1)"
    and "ar_error r = Ok \<Longrightarrow> handle_valid p1 (ar_handle r) \<and> handle_state p1 (ar_handle r) = Loaned \<and>
      accounts (insert (ch_chunk_index (ar_handle r)) X) q0 M (Some p1)"
    and "ar_error r = Ok \<Longrightarrow> accounts (insert (ch_chunk_index (ar_handle r)) X) q0 M' (Some p2) \<Longrightarrow>
      accounts X q0 M' (Some p2)"
proof -
  obtain p0 where p: "refs_ok M p" "q0 = Some p0" "loans_kept X p0 p" using acc by (auto simp: accounts_Some)
  note a = refs_ok_allocate [OF p(1), of n X, unfolded alloc fst_conv snd_conv]
  have kept: "loans_kept X p0 p1" using p(3) a loans_kept_trans by blast
  then show "accounts X q0 M (Some p1)" using a p(2) by (simp add: accounts_Some)
  show "handle_valid p1 (ar_handle r) \<and> handle_state p1 (ar_handle r) = Loaned \<and>
      accounts (insert (ch_chunk_index (ar_handle r)) X) q0 M (Some p1)" if "ar_error r = Ok"
    using a that p(2) loans_kept_mono [OF kept subset_insertI] by (simp add: accounts_Some)
  show "accounts X q0 M' (Some p2)" if ok: "ar_error r = Ok"
    and later: "accounts (insert (ch_chunk_index (ar_handle r)) X) q0 M' (Some p2)"
  proof -
    have "unat (ch_chunk_index (ar_handle r)) < length (mp_directory p1)"
      using a ok by (auto simp: handle_valid_def)
    moreover have "mp_directory p1 = mp_directory p0" using kept by (simp add: loans_kept_def)
    ultimately have "ck_state (chunkHeader p0 (ch_chunk_index (ar_handle r))) \<noteq> Loaned \<or> ch_chunk_index (ar_handle r) \<in> X"
      using a ok p(3) by (auto simp: loans_kept_def)
    then show ?thesis using later p(2) loans_kept_insert by (auto simp: accounts_Some)
  qed
qed

lemma publishSharedMemoryCopy_accounted:
  assumes acc: "accounted X q0 {#} s" and result: "publishSharedMemoryCopy env data n sequence s = Some (r, s')"
  shows "accounted X q0 {#} s' \<and> pi_config s' = pi_config s"
proof -
  obtain p where p: "pi_pool s = Some p" using result by (auto simp: publishSharedMemoryCopy_def split: bind_splits)
  obtain a p1 where a: "pool_allocate n p = (a, p1)" by fastforce
  have acc': "accounts X q0 (outstanding s) (Some p)" using acc p by simp
  note alloc = pool_allocate_account [OF acc' a]
  show ?thesis
  proof (cases "ar_error a = Ok")
    case False
    then show ?thesis using result p a alloc(1) by (auto simp: publishSharedMemoryCopy_def)
  next
    case True
    define h where "h = ar_handle a"
    define Y where "Y = insert (ch_chunk_index h) X"
    obtain e p2 where w: "pool_writeAndPublish h data n sequence (pv_timestamp env) 1 p1 = (e, p2)" by fastforce
    have one: "handle_valid p1 h" "accounts Y q0 (outstanding s) (Some p1)"
      using alloc(2) [OF True] by (simp_all add: h_def Y_def)
    have refs: "refs_ok (outstanding s) p1" using one(2) by (simp add: accounts_Some)
    have two: "accounts Y q0 (if e = Ok then add_mset h (outstanding s) else outstanding s) (Some p2)"
      using refs_ok_writeAndPublish [OF refs, of h data n sequence "pv_timestamp env"] one handle_valid_lt
      unfolding w by (intro accounts_other [OF one(2)]) (auto simp: Y_def)
    have "accounted Y q0 {#} s' \<and> pi_config s' = pi_config s"
    proof (cases "e = Ok")
      case True
      then have d: "dispatchPublished env h n sequence (s\<lparr>pi_pool := Some p2\<rparr>) = Some (r, s')"
        using result p a w \<open>ar_error a = Ok\<close> by (auto simp: publishSharedMemoryCopy_def h_def Let_def)
      show ?thesis using dispatchPublished_accounted [OF _ d] two True by simp
    next
      case False
      then have s': "s' = s\<lparr>pi_pool := Some (snd (pool_cancel h p2))\<rparr>"
        using result p a w \<open>ar_error a = Ok\<close> by (auto simp: publishSharedMemoryCopy_def h_def Let_def)
      show ?thesis using accounts_cancel [OF two, of h] False by (simp add: s' Y_def)
    qed
    then have Y: "accounts Y q0 (outstanding s') (pi_pool s')" "pi_config s' = pi_config s" by simp_all
    then obtain p3 where "pi_pool s' = Some p3"
      using one(2) by (auto simp: accounts_Some) (metis accounts_None not_None_eq option.distinct(1))
    then show ?thesis using Y alloc(3) [OF True] by (simp add: Y_def h_def)
  qed
qed

lemma udsLoop_outstanding:
  "udsLoop env header payload cs (e, n, os) = Some (cs', e', n', os') \<Longrightarrow> outstandingOf cs' \<subseteq># outstandingOf cs"
proof (induction cs arbitrary: e n os cs')
  case (Cons c cs)
  obtain header_result sent sends where w: "writeAll header (pv_sends env (dc_socket c)) = Some (header_result, sent, sends)"
    using Cons.prems by (auto split: bind_splits)
  obtain payload_result where payload_result: "(if io_status header_result = IoComplete
      then map_option fst (writeAll payload sends) else Some header_result) = Some payload_result"
    using Cons.prems w by (auto split: bind_splits)
  show ?case
  proof (cases "io_status payload_result = IoComplete")
    case True
    then obtain ds where ds: "udsLoop env header payload cs (e, n + 1, os) = Some (ds, e', n', os')" "cs' = c # ds"
      using Cons.prems w payload_result by (auto split: bind_splits)
    show ?thesis using Cons.IH [OF ds(1)] by (simp add: ds(2))
  next
    case False
    have "outstandingOf cs' \<subseteq># outstandingOf cs"
      using Cons.prems w payload_result False by (auto intro: Cons.IH)
    then show ?thesis by (simp add: subset_mset.add_increasing)
  qed
qed simp

text \<open>Only a publisher of the shared memory transport has a pool.\<close>

definition pool_transport :: "PublisherImpl \<Rightarrow> bool" where
  "pool_transport s \<longleftrightarrow> (pi_pool s \<noteq> None \<longrightarrow> pc_transport (pi_config s) = SharedMemory)"

abbreviation impl_ok :: "u32 set \<Rightarrow> MemoryPool option \<Rightarrow> PublisherImpl \<Rightarrow> bool" where
  "impl_ok X q0 s \<equiv> accounted X q0 {#} s \<and> pool_transport s"

lemma accounts_presence: "accounts X q0 M q \<Longrightarrow> q = None \<longleftrightarrow> q0 = None"
  by (cases q) (auto simp: accounts_Some accounts_None)

lemma pool_transport_keep:
  assumes "impl_ok X q0 s" "accounted X q0 M s'" "pi_config s' = pi_config s"
  shows "pool_transport s'"
  using assms accounts_presence [OF assms(2)] accounts_presence [OF conjunct1 [OF assms(1)]]
  by (auto simp: pool_transport_def)

lemma publishUds_accounted:
  assumes ok: "impl_ok X q0 s" and uds: "pc_transport (pi_config s) \<noteq> SharedMemory"
    and result: "publishUds env payload n sequence s = Some (r, s')"
  shows "accounted X q0 {#} s' \<and> pi_config s' = pi_config s"
proof -
  have none: "pi_pool s = None" "outstanding s = {#}" "q0 = None"
    using ok uds by (auto simp: pool_transport_def accounts_None)
  obtain header cs e m os where loop: "udsLoop env header payload (pi_connections s) (Ok, 0, pi_os s) = Some (cs, e, m, os)"
    and s': "pi_connections s' = cs" "pi_pool s' = pi_pool s" "pi_config s' = pi_config s"
    using result by (auto simp: publishUds_def Let_def split: bind_splits if_splits)
  have "outstandingOf cs = {#}" using udsLoop_outstanding [OF loop] none(2) by simp
  then show ?thesis by (simp add: s' none accounts_None)
qed

lemma Publisher_publish_ok:
  assumes ok: "impl_ok X q0 s" and result: "Publisher_publish env data n (Some s) = Some (r, s')"
  shows "\<exists>t. s' = Some t \<and> impl_ok X q0 t \<and> pi_config t = pi_config s"
proof -
  define s1 where "s1 = drainReleasesNonBlocking env s"
  note drained = drainReleases_accounted [of X q0 s "{#}" env, folded s1_def]
  consider "s' = Some s" | e s2 where "connectDiscoveredEndpoints env s1 = Some (e, s2)" "s' = Some s2"
    | s2 t where "connectDiscoveredEndpoints env s1 = Some (Ok, s2)" "s' = Some t"
      "(if pc_transport (pi_config s2) = SharedMemory
        then publishSharedMemoryCopy env data n (pi_sequence s2 + 1) s2
        else publishUds env (case data of None \<Rightarrow> [] | Some bs \<Rightarrow> take (unat n) bs) n (pi_sequence s2 + 1) s2) = Some (r, t)"
    using result unfolding Publisher_publish_def
    by (auto simp: Let_def s1_def [symmetric] split: if_splits bind_splits)
  then show ?thesis
  proof cases
    case 1
    then show ?thesis using ok by simp
  next
    case (2 e s2)
    have "accounted X q0 {#} s2 \<and> pi_config s2 = pi_config s"
      using connectDiscoveredEndpoints_accounted [OF _ 2(1), of X q0 "{#}"] drained ok by simp
    then show ?thesis using 2(2) pool_transport_keep [OF ok] by blast
  next
    case (3 s2 t)
    have s2: "accounted X q0 {#} s2" "pi_config s2 = pi_config s"
      using connectDiscoveredEndpoints_accounted [OF _ 3(1), of X q0 "{#}"] drained ok by simp_all
    have ok2: "impl_ok X q0 s2" using s2 pool_transport_keep [OF ok] by blast
    have "accounted X q0 {#} t \<and> pi_config t = pi_config s2"
      using 3(3) publishSharedMemoryCopy_accounted [OF s2(1)] publishUds_accounted [OF ok2]
      by (auto split: if_splits)
    then show ?thesis using 3(2) s2(2) pool_transport_keep [OF ok, of t "{#}"] by auto
  qed
qed

lemma allocateLoan_ok:
  assumes ok: "impl_ok X q0 s" and result: "allocateLoan env n s = (r, s')"
  shows "impl_ok X q0 s' \<and> pi_config s' = pi_config s"
    and "ar_error (la_allocation r) = Ok \<Longrightarrow> \<exists>p. pi_pool s' = Some p \<and> handle_valid p (ar_handle (la_allocation r)) \<and>
      handle_state p (ar_handle (la_allocation r)) = Loaned"
proof -
  define s1 where "s1 = drainReleasesNonBlocking env (publisher_processPeerEvents env s)"
  have s1: "accounted X q0 {#} s1" "pi_config s1 = pi_config s"
    using drainReleases_accounted [of X q0 "publisher_processPeerEvents env s" "{#}" env]
      processPeerEvents_accounted [of X q0 s "{#}" env] ok by (simp_all add: s1_def)
  consider (failed) "s' = s \<or> s' = s1" "ar_error (la_allocation r) \<noteq> Ok"
    | (alloc) p a p1 where "pi_pool s1 = Some p" "pool_allocate n p = (a, p1)" "ar_error a \<noteq> Ok"
      "s' = s1\<lparr>pi_pool := Some p1\<rparr>" "r = \<lparr>la_allocation = a, la_payload = None\<rparr>"
    | (loan) p a p1 where "pi_pool s1 = Some p" "pool_allocate n p = (a, p1)" "ar_error a = Ok"
      "wr_error (writablePayload (ar_handle a) p1) \<noteq> Ok \<or> s' = s1\<lparr>pi_pool := Some p1\<rparr> \<and> la_allocation r = a"
    using result unfolding allocateLoan_def
    by (auto simp: Let_def s1_def [symmetric] split: if_splits option.splits prod.splits)
  then have "(impl_ok X q0 s' \<and> pi_config s' = pi_config s) \<and> (ar_error (la_allocation r) = Ok \<longrightarrow>
      (\<exists>p. pi_pool s' = Some p \<and> handle_valid p (ar_handle (la_allocation r)) \<and>
        handle_state p (ar_handle (la_allocation r)) = Loaned))"
  proof cases
    case failed
    then show ?thesis using ok s1 pool_transport_keep [OF ok s1] by auto
  next
    case alloc
    have "accounted X q0 {#} s'" using pool_allocate_account(1) [OF _ alloc(2)] s1(1) alloc(1,4) by simp
    then show ?thesis using pool_transport_keep [OF ok, of s' "{#}"] s1(2) alloc by simp
  next
    case loan
    note a = pool_allocate_account [OF _ loan(2), of X q0 "outstanding s1"]
    have acc: "accounts X q0 (outstanding s1) (Some p)" using s1(1) loan(1) by simp
    have valid: "handle_valid p1 (ar_handle a)" "handle_state p1 (ar_handle a) = Loaned"
      using a(2) [OF acc loan(3)] by simp_all
    then have "wr_error (writablePayload (ar_handle a) p1) = Ok"
      by (auto simp: writablePayload_def handle_valid_def Let_def)
    then have s': "s' = s1\<lparr>pi_pool := Some p1\<rparr>" "la_allocation r = a" using loan(4) by simp_all
    have "accounted X q0 {#} s'" using a(1) [OF acc] by (simp add: s')
    then show ?thesis using pool_transport_keep [OF ok, of s' "{#}"] s1(2) valid by (simp add: s')
  qed
  then show "impl_ok X q0 s' \<and> pi_config s' = pi_config s"
    and "ar_error (la_allocation r) = Ok \<Longrightarrow> \<exists>p. pi_pool s' = Some p \<and> handle_valid p (ar_handle (la_allocation r)) \<and>
      handle_state p (ar_handle (la_allocation r)) = Loaned"
    by blast+
qed

lemma publishLoanedSample_ok:
  assumes ok: "impl_ok X q0 s" and h: "ch_chunk_index h \<in> X"
    and result: "publishLoanedSample env h n s = Some (r, s')"
  shows "impl_ok X q0 s' \<and> pi_config s' = pi_config s"
proof -
  define s1 where "s1 = drainReleasesNonBlocking env s"
  note drained = drainReleases_accounted [of X q0 s "{#}" env, folded s1_def]
  let ?cancelled = "\<lambda>s. s\<lparr>pi_pool := map_option (\<lambda>p. snd (pool_cancel h p)) (pi_pool s)\<rparr>"
  have cancel: "accounted X q0 {#} (?cancelled t)" if "accounted X q0 {#} t" for t
    using that accounts_cancel [OF _ h, of q0 "outstanding t" "pi_pool t"] by simp
  consider "s' = s" | "s' = ?cancelled s"
    | e s2 where "connectDiscoveredEndpoints env s1 = Some (e, s2)" "s' = ?cancelled s2"
    | s2 p e p1 where "connectDiscoveredEndpoints env s1 = Some (Ok, s2)" "pi_pool s2 = Some p"
      "pool_publishLoaned h n (pi_sequence s2 + 1) (pv_timestamp env) 1 p = (e, p1)"
      "if e \<noteq> Ok then s' = ?cancelled (s2\<lparr>pi_pool := Some p1\<rparr>)
       else dispatchPublished env h n (pi_sequence s2 + 1) (s2\<lparr>pi_pool := Some p1\<rparr>) = Some (r, s')"
    using result unfolding publishLoanedSample_def
    by (auto simp: Let_def s1_def [symmetric] split: if_splits bind_splits prod.splits)
  then have "accounted X q0 {#} s' \<and> pi_config s' = pi_config s"
  proof cases
    case (3 e s2)
    have "accounted X q0 {#} s2 \<and> pi_config s2 = pi_config s"
      using connectDiscoveredEndpoints_accounted [OF _ 3(1), of X q0 "{#}"] drained ok by simp
    then show ?thesis using cancel [of s2] by (simp add: 3(2))
  next
    case (4 s2 p e p1)
    have s2: "accounted X q0 {#} s2" "pi_config s2 = pi_config s"
      using connectDiscoveredEndpoints_accounted [OF _ 4(1), of X q0 "{#}"] drained ok by simp_all
    have acc: "accounts X q0 (outstanding s2) (Some p)" using s2(1) 4(2) by simp
    have refs: "refs_ok (outstanding s2) p" using acc by (simp add: accounts_Some)
    have published: "accounts X q0 (if e = Ok then add_mset h (outstanding s2) else outstanding s2) (Some p1)"
      using refs_ok_publishLoaned [OF refs, of h n "pi_sequence s2 + 1" "pv_timestamp env"] h
      unfolding 4(3) by (intro accounts_other [OF acc]) auto
    show ?thesis
    proof (cases "e = Ok")
      case True
      then show ?thesis
        using dispatchPublished_accounted [of X q0 "s2\<lparr>pi_pool := Some p1\<rparr>" h] published 4(4) s2(2) by simp
    next
      case False
      then show ?thesis using cancel [of "s2\<lparr>pi_pool := Some p1\<rparr>"] published 4(4) s2(2) by simp
    qed
  qed (use ok cancel in simp_all)
  then show ?thesis using pool_transport_keep [OF ok, of s' "{#}"] by simp
qed

section \<open>Sequences of operations\<close>

text \<open>
  The calls of the application, including its writes through the pointer of a loan, and what happens
  around them: input arrives, the heartbeat thread and other endpoints change the session, and other
  processes change the queues.
\<close>

datatype PublisherStep =
  PublishMessage PublisherEnv "bytes option" size_t
| LoanChunk PublisherEnv size_t
| PublishLoan PublisherEnv ChunkHandle size_t
| CancelLoan ChunkHandle
| WriteLoan ChunkHandle nat bytes
| InputArrives "int \<Rightarrow> RecvResult list"
| SessionChanges RegistrySession
| QueuesChange "string \<Rightarrow> QueueShared"

fun publisher_step :: "PublisherStep \<Rightarrow> PublisherImpl \<Rightarrow> PublisherImpl option" where
  "publisher_step (PublishMessage env data n) s = Option.bind (Publisher_publish env data n (Some s)) snd"
| "publisher_step (LoanChunk env n) s = Some (snd (allocateLoan env n s))"
| "publisher_step (PublishLoan env h n) s = map_option snd (publishLoanedSample env h n s)"
| "publisher_step (CancelLoan h) s = Some (snd (cancelLoanedSample h s))"
| "publisher_step (WriteLoan h off bs) s = Some (s\<lparr>pi_pool := map_option (userWrite h off bs) (pi_pool s)\<rparr>)"
| "publisher_step (InputArrives input) s = Some (arrive input s)"
| "publisher_step (SessionChanges session) s =
     Some (s\<lparr>pi_registry_session := map_option (\<lambda>_. session) (pi_registry_session s)\<rparr>)"
| "publisher_step (QueuesChange queues) s = Some (s\<lparr>pi_os := (pi_os s)\<lparr>po_queues := queues\<rparr>\<rparr>)"

fun publisher_run :: "PublisherStep list \<Rightarrow> PublisherImpl \<Rightarrow> PublisherImpl option" where
  "publisher_run [] s = Some s"
| "publisher_run (step # steps) s = Option.bind (publisher_step step s) (publisher_run steps)"

text \<open>The chunks whose loan a step ends.\<close>

fun ends_loan :: "PublisherStep \<Rightarrow> u32 set" where
  "ends_loan (PublishLoan env h n) = {ch_chunk_index h}"
| "ends_loan (CancelLoan h) = {ch_chunk_index h}"
| "ends_loan _ = {}"

lemma accounts_userWrite:
  assumes "accounts X q0 M q"
  shows "accounts X q0 M (map_option (userWrite h off bs) q)"
proof (cases q)
  case (Some p)
  have refs: "refs_ok M p" using assms Some by (simp add: accounts_Some)
  have "refs_ok M (userWrite h off bs p)"
    by (rule refs_ok_cong [OF refs]) (simp_all add: userWrite_def split: option.splits)
  moreover have "loans_kept X p0 (userWrite h off bs p)" if "loans_kept X p0 p" for p0
    using that by (auto simp: loans_kept_def userWrite_def split: option.splits)
  ultimately show ?thesis using assms by (auto simp: Some accounts_Some)
qed (use assms in simp)

lemma publisher_step_ok:
  assumes ok: "impl_ok X q0 s" and "publisher_step step s = Some s'" "ends_loan step \<subseteq> X"
  shows "impl_ok X q0 s' \<and> pi_config s' = pi_config s"
proof (cases step)
  case (PublishMessage env data n)
  then obtain r where "Publisher_publish env data n (Some s) = Some (r, Some s')"
    using assms(2) by (auto split: bind_splits)
  then show ?thesis using Publisher_publish_ok [OF ok] by fastforce
next
  case (LoanChunk env n)
  then show ?thesis using assms(2) allocateLoan_ok(1) [OF ok, of env n] by (metis option.inject prod.collapse publisher_step.simps(2))
next
  case (PublishLoan env h n)
  then show ?thesis using assms(2,3) publishLoanedSample_ok [OF ok] by fastforce
next
  case (CancelLoan h)
  then have "accounts X q0 (outstanding s) (map_option (\<lambda>p. snd (pool_cancel h p)) (pi_pool s))"
    using ok assms(3) by (intro accounts_cancel) simp_all
  then show ?thesis using CancelLoan assms(2) ok
    by (auto simp: cancelLoanedSample_def pool_transport_def split: option.splits)
next
  case (WriteLoan h off bs)
  then show ?thesis using assms(2) ok accounts_userWrite [of X q0 "outstanding s" "pi_pool s"]
    by (auto simp: pool_transport_def)
qed (use assms in \<open>auto simp: arrive_def pool_transport_def\<close>)

lemma publisher_run_ok:
  "publisher_run steps s = Some s' \<Longrightarrow> impl_ok X q0 s \<Longrightarrow> \<Union> (set (map ends_loan steps)) \<subseteq> X \<Longrightarrow>
     impl_ok X q0 s' \<and> pi_config s' = pi_config s"
proof (induction steps arbitrary: s)
  case (Cons step steps)
  obtain t where t: "publisher_step step s = Some t" "publisher_run steps t = Some s'"
    using Cons.prems(1) by (auto split: bind_splits)
  have "impl_ok X q0 t \<and> pi_config t = pi_config s"
    using Cons.prems(2,3) by (intro publisher_step_ok [OF _ t(1)]) auto
  then show ?case using Cons.IH [OF t(2)] Cons.prems(3) by auto
qed simp

lemma impl_ok_new:
  assumes "Publisher_registry topic config session env os = Some (Inr s, rest)"
  shows "impl_ok X (pi_pool s) s"
proof (cases "pi_pool s")
  case None
  then show ?thesis using assms
    by (auto simp: Publisher_registry_def newPublisher_def accounts_None pool_transport_def Let_def
        split: option.splits prod.splits sum.splits if_splits bind_splits)
next
  case (Some p)
  obtain d shm shm' where "MemoryPool_create d (pc_memory_pool config) (ucast (px_pid env)) (px_create env) shm = (Inr p, shm')"
    and s: "pi_connections s = []" "pc_transport (pi_config s) = SharedMemory"
    using assms Some by (auto simp: Publisher_registry_def newPublisher_def Let_def
        split: option.splits prod.splits sum.splits if_splits bind_splits)
  then have "refs_ok {#} p" by (intro refs_ok_create)
  then show ?thesis using Some s by (simp add: accounts_Some pool_transport_def)
qed

end
