(* ===== verification/MW_Publisher_Properties.thy ===== *)
theory MW_Publisher_Properties
  imports MW_Publisher_Invariant MW_Rpc
begin

text \<open>
  Properties of the publisher (\<open>src/middleware/src/publisher.cpp\<close>) over every sequence of its operations,
  and the example of a publisher with one subscriber at which they are applied.
\<close>

section \<open>An example\<close>

text \<open>What a request of the given size receives: the frame of a response with the given body, header first.\<close>

definition demoReply :: "u32 \<Rightarrow> nat \<Rightarrow> bytes \<Rightarrow> RequestEnv" where
  "demoReply request_id sent body =
     (let frame = the (responseFrame request_id Ok body);
          step = (\<lambda>bs. \<lparr>dl_now = 0, dl_poll = (\<lambda>_. PollReady False), dl_recv = RecvData bs\<rparr>) in
      \<lparr>rq_sends = [SendCount sent], rq_header_now = 0, rq_payload_now = 0,
       rq_steps = [step (take 16 frame), step (drop 16 frame)]\<rparr>)"

definition demoSession :: RegistrySession where
  "demoSession = \<lparr>rse_client = \<lparr>rcl_socket = Some 4, rcl_request_timeout = 2000, rcl_next_request_id = 3\<rparr>,
     rse_config = defaultRegistryConfig, rse_node_id = 1, rse_session_id = 1, rse_heartbeat_client = None,
     rse_stop_heartbeat = False, rse_peer_events = []\<rparr>"

definition demoPublisherConfig :: PublisherConfig where
  "demoPublisherConfig = defaultPublisherConfig\<lparr>pc_transport := SharedMemory, pc_type_name := ''t'',
     pc_type_hash := ''h'', pc_max_message_size := 16,
     pc_memory_pool := [\<lparr>cc_chunk_size = 16, cc_chunk_count = 2\<rparr>]\<rparr>"

definition demoPoolMetadata :: SharedPoolMetadata where
  "demoPoolMetadata = \<lparr>spm_shm_name = ''/mw_pool_2_8589934593'', spm_pool_id = 8589934593, spm_segment_size = 448,
     spm_layout_version = kPoolLayoutVersion\<rparr>"

definition demoMapping :: "int \<Rightarrow> ShmEnv" where
  "demoMapping fd = \<lparr>env_open = Inr fd, env_ftruncate = None, env_fstat = None, env_mmap = Inr (4096 * fd),
     env_unlink = None\<rparr>"

definition demoPublisherCreate :: PublisherCreateEnv where
  "demoPublisherCreate = \<lparr>px_pid = 2, px_counter = 1,
     px_advertise = demoReply 3 92 (the (endpointBody \<lparr>epr_error = Ok, epr_topic_id = 3, epr_endpoint_id = 5,
       epr_pool = demoPoolMetadata\<rparr>)),
     px_create = demoMapping 6, px_unadvertise = demoReply 4 32 []\<rparr>"

definition demoQueueDescriptor :: QueueDescriptor where
  "demoQueueDescriptor = \<lparr>qd_shm_name = ''/mw_queue'', qd_queue_id = 9, qd_segment_size = 304, qd_capacity = 2,
     qd_layout_version = kQueueLayoutVersion, qd_overflow_policy = DropOldest, qd_block_timeout_ms = 100\<rparr>"

text \<open>The subscriber has created its queue, which is empty.\<close>

definition demoPublisherOs :: PublisherOs where
  "demoPublisherOs = \<lparr>po_sockets = \<lparr>so_fds = {4}, so_paths = {''/s''}\<rparr>,
     po_shm = \<lparr>os_objects = [''/mw_queue'' \<mapsto> 304], os_fds = {}, os_maps = {}\<rparr>,
     po_queues = (\<lambda>_. \<lparr>qs_header = newQueueHeader demoQueueDescriptor,
       qs_slots = replicate 2 nullChunkHandle, qs_wakes = [], qs_alive = True\<rparr>),
     po_inbox = (\<lambda>_. [])\<rparr>"

definition demoDiscovery :: DiscoveryResult where
  "demoDiscovery = \<lparr>dr_error = Ok, dr_topic_id = 3, dr_transport = SharedMemory, dr_pool = demoPoolMetadata,
     dr_subscribers = [\<lparr>ds_endpoint_id = 8, ds_data_socket_path = ''/s'', ds_max_message_size = 16,
       ds_queue = \<lparr>sqm_shm_name = ''/mw_queue'', sqm_queue_id = 9, sqm_segment_size = 304, sqm_capacity = 2,
         sqm_layout_version = kQueueLayoutVersion, sqm_overflow_policy = overflowPolicyValue DropOldest,
         sqm_block_timeout_ms = 100\<rparr>\<rparr>]\<rparr>"

definition demoEnqueue :: EnqueueEnv where
  "demoEnqueue = \<lparr>en_lock = \<lparr>le_lock = 0, le_consistent = 0\<rparr>, en_notify = None, en_clock = None,
     en_blocked_start = \<lparr>tv_sec = 0, tv_nsec = 0\<rparr>, en_blocked_end = \<lparr>tv_sec = 1, tv_nsec = 0\<rparr>,
     en_waits = (\<lambda>_. [])\<rparr>"

definition demoPublisherEnv :: PublisherEnv where
  "demoPublisherEnv = \<lparr>pv_now = 0, pv_refreshed = 1, pv_timestamp = 77,
     pv_resolve = demoReply 4 32 (the (discoveryBody demoDiscovery)),
     pv_connect = (\<lambda>_. \<lparr>sk_socket = Inr 10, sk_bind = None, sk_listen = None, sk_connect = None\<rparr>),
     pv_open_lock = (\<lambda>_. \<lparr>le_lock = 0, le_consistent = 0\<rparr>), pv_open_shm = (\<lambda>_. demoMapping 11),
     pv_others = (\<lambda>_. id), pv_enqueue = (\<lambda>_. demoEnqueue), pv_sends = (\<lambda>_. [SendCount kQueueWakeSize]),
     pv_detach_lock = (\<lambda>_. \<lparr>le_lock = 0, le_consistent = 0\<rparr>), pv_unmap = (\<lambda>_. demoMapping 11)\<rparr>"

text \<open>The answers of the registry.\<close>

lemma demo_call:
  assumes c: "rcl_socket c \<noteq> None" "rcl_next_request_id c = request_id" "request_id \<noteq> 0"
    and request: "encodeControlFrame opcode request_id payload = Some request" "length request = sent"
    and body: "length body \<le> 65000"
  shows "client_call opcode (Some payload) timeout parse (demoReply request_id sent body) c =
    Some (parse body, c\<lparr>rcl_next_request_id := request_id + 1\<rparr>)"
proof -
  obtain frame where frame: "responseFrame request_id Ok body = Some frame"
    using responseFrame_small [OF _ body, of Ok] by auto
  then have "16 < length frame"
    by (auto simp: responseFrame_def encodeResponsePayload_def writeString_eq encodeControlFrame_def write_fields
        writeBytes_def stringField_def split: if_splits bind_splits)
  then have "take 16 frame \<noteq> []" "drop 16 frame \<noteq> []" by auto
  moreover have one: "delivers bs [\<lparr>dl_now = 0, dl_poll = (\<lambda>_. PollReady False), dl_recv = RecvData bs\<rparr>]"
    if "bs \<noteq> []" for bs
    using delivers.piece [OF _ _ that delivers.delivered] by simp
  moreover have "rq_steps (demoReply request_id sent body) =
      [\<lparr>dl_now = 0, dl_poll = (\<lambda>_. PollReady False), dl_recv = RecvData (take 16 frame)\<rparr>] @
      [\<lparr>dl_now = 0, dl_poll = (\<lambda>_. PollReady False), dl_recv = RecvData (drop 16 frame)\<rparr>] @ []"
    by (simp add: demoReply_def Let_def frame)
  ultimately have r: "replies frame (demoReply request_id sent body)"
    unfolding replies_def by blast
  have "length request = 16 + length payload"
    using request(1) by (auto simp: encodeControlFrame_def split: if_splits)
  then have w: "writeAll request (rq_sends (demoReply request_id sent body)) =
      Some (ioResult IoComplete (length request) 0, request, [])"
    using request(2) by (auto simp: demoReply_def Let_def writeAll_def closeOnDisconnect_def ioResult_def)
  show ?thesis
    using client_call_replies [OF c request(1) w _ frame _ r] by (simp add: ioResult_def)
qed

definition demoPoolDescriptor :: PoolDescriptor where
  "demoPoolDescriptor = \<lparr>pd_shm_name = ''/mw_pool_2_8589934593'', pd_pool_id = 8589934593, pd_segment_size = 448,
     pd_topic_id = 0, pd_layout_version = kPoolLayoutVersion\<rparr>"

definition demoSessionAt :: "u32 \<Rightarrow> RegistrySession" where
  "demoSessionAt n = demoSession\<lparr>rse_client := (rse_client demoSession)\<lparr>rcl_next_request_id := n\<rparr>\<rparr>"

lemmas demo_wire = writeString_eq write_fields stringField_def encodeControlFrame_def kMaxControlPayloadSize_def

lemma demo_advertised:
  "session_advertise ''t'' demoPublisherConfig demoPoolDescriptor (px_advertise demoPublisherCreate) demoSession =
     Some (Inr \<lparr>rep_topic_id = 3, rep_endpoint_id = 5, rep_pool = demoPoolDescriptor\<lparr>pd_topic_id := 3\<rparr>\<rparr>, demoSessionAt 4)"
proof -
  obtain payload request where payload: "advertisePayload 1 ''t'' ''t'' ''h'' 16 SharedMemory demoPoolDescriptor = Some payload"
    "encodeControlFrame OpAdvertiseTopic 3 payload = Some request" "length request = 92"
    by (simp add: advertisePayload_def demoPoolDescriptor_def demo_wire)
  define result where "result = \<lparr>epr_error = Ok, epr_topic_id = 3, epr_endpoint_id = 5, epr_pool = demoPoolMetadata\<rparr>"
  obtain body where body: "endpointBody result = Some body" "length body \<le> 65000"
    by (simp add: endpointBody_def result_def demoPoolMetadata_def demo_wire)
  show ?thesis
    using demo_call [OF _ _ _ payload(2,3) body(2), of "rse_client demoSession" 2000 readEndpoint]
      readEndpoint_endpointBody [OF body(1)] body(1) payload(1)
    by (simp add: session_advertise_def client_advertise_def demoSession_def demoSessionAt_def demoPublisherCreate_def
        demoPublisherConfig_def defaultPublisherConfig_def result_def poolDescriptor_def demoPoolMetadata_def
        demoPoolDescriptor_def)
qed

lemma demo_resolved:
  "session_resolve 5 (pv_resolve demoPublisherEnv) (demoSessionAt 4) =
     Some (Inr \<lparr>rdi_topic_id = 3, rdi_transport = SharedMemory, rdi_pool = demoPoolDescriptor\<lparr>pd_topic_id := 3\<rparr>,
       rdi_subscribers = [\<lparr>rsu_endpoint_id = 8, rsu_data_socket_path = ''/s'', rsu_max_message_size = 16,
         rsu_queue = demoQueueDescriptor\<rparr>]\<rparr>, demoSessionAt 5)"
proof -
  obtain request where request: "encodeControlFrame OpResolveEndpoint 4 (pairPayload 1 5) = Some request" "length request = 32"
    by (simp add: pairPayload_def demo_wire)
  obtain body where body: "discoveryBody demoDiscovery = Some body" "length body \<le> 65000"
    by (simp add: discoveryBody_def demoDiscovery_def demoPoolMetadata_def demo_wire)
  have "readDiscovery body = Inr \<lparr>rdi_topic_id = 3, rdi_transport = SharedMemory,
      rdi_pool = demoPoolDescriptor\<lparr>pd_topic_id := 3\<rparr>,
      rdi_subscribers = [\<lparr>rsu_endpoint_id = 8, rsu_data_socket_path = ''/s'', rsu_max_message_size = 16,
        rsu_queue = demoQueueDescriptor\<rparr>]\<rparr>"
    using readDiscovery_discoveryBody [OF body(1)]
    by (simp add: demoDiscovery_def poolDescriptor_def demoPoolMetadata_def demoPoolDescriptor_def clientSubscriber_def
        queueDescriptor_def demoQueueDescriptor_def overflowPolicyCastOf_def)
  then show ?thesis
    using demo_call [OF _ _ _ request body(2), of "rse_client (demoSessionAt 4)" "- 1" readDiscovery] body(1)
    by (simp add: session_resolve_def client_resolve_def demoSession_def demoSessionAt_def demoPublisherEnv_def)
qed

definition demoLayout :: PoolLayout where
  "demoLayout = \<lparr>pl_header = \<lparr>ph_magic = kMemoryPoolMagic, ph_version = kPoolLayoutVersion, ph_header_size = 80,
       ph_segment_size = 448, ph_pool_id = 8589934593, ph_topic_id = 3, ph_owner_pid = 2, ph_size_class_count = 1,
       ph_chunk_count = 2, ph_size_class_offset = 80, ph_chunk_directory_offset = 104, ph_chunk_storage_offset = 192\<rparr>,
     pl_size_classes = [\<lparr>scm_capacity = 16, scm_first_chunk_index = 0, scm_chunk_count = 2\<rparr>],
     pl_directory =
       [\<lparr>de_header_offset = 192, de_payload_offset = 256, de_capacity = 16, de_size_class_index = 0\<rparr>,
        \<lparr>de_header_offset = 320, de_payload_offset = 384, de_capacity = 16, de_size_class_index = 0\<rparr>]\<rparr>"

lemma layoutChunks_numeral:
  "layoutChunks (numeral k) = layoutChunks (Suc (pred_numeral k))"
  by (simp add: numeral_eq_Suc)

lemma demo_layout:
  "makeLayout [\<lparr>cc_chunk_size = 16, cc_chunk_count = 2\<rparr>] 8589934593 3 2 = Inr demoLayout"
  "requiredSegmentSize [\<lparr>cc_chunk_size = 16, cc_chunk_count = 2\<rparr>] 2 = Inr 448"
  by (simp_all add: requiredSegmentSize_def makeLayout_def layoutOffsets_def checkedAdd_def checkedMultiply_def
      checkedAlign_def layoutChunks_numeral SIZE_MAX_def kPoolHeaderSize_def kSizeClassMetadataSize_def
      kChunkDirectoryEntrySize_def kChunkAlignment_def sizeofChunkHeader_def Let_def demoLayout_def)

definition demoCreatedPool :: MemoryPool where
  "demoCreatedPool = newMemoryPool (demoPoolDescriptor\<lparr>pd_topic_id := 3\<rparr>)
     \<lparr>r_fd = Some 6, r_address = Some 24576, r_size = 448, r_name = ''/mw_pool_2_8589934593'', r_owns_name = True\<rparr>
     (initialMemory (demoPoolDescriptor\<lparr>pd_topic_id := 3\<rparr>) demoLayout) (pl_size_classes demoLayout) (pl_directory demoLayout)"

definition demoShm :: ShmOs where
  "demoShm = \<lparr>os_objects = [''/mw_queue'' \<mapsto> 304, ''/mw_pool_2_8589934593'' \<mapsto> 448], os_fds = {6}, os_maps = {24576}\<rparr>"

definition demoPublisher :: PublisherImpl where
  "demoPublisher = (newPublisher ''t'' demoPublisherConfig (Some (demoSessionAt 4)) (demoPublisherOs\<lparr>po_shm := demoShm\<rparr>))
     \<lparr>pi_topic_id := 3, pi_endpoint_id := 5, pi_pool := Some demoCreatedPool\<rparr>"

lemma demo_pool_created:
  "MemoryPool_create (demoPoolDescriptor\<lparr>pd_topic_id := 3\<rparr>) [\<lparr>cc_chunk_size = 16, cc_chunk_count = 2\<rparr>] 2 (demoMapping 6)
     (po_shm demoPublisherOs) = (Inr demoCreatedPool, demoShm)"
  using demo_layout(1)
  by (simp add: MemoryPool_create_def demoPoolDescriptor_def kPoolLayoutVersion_def demoMapping_def demoPublisherOs_def
      SharedMemoryRegion_create_def validateArguments_def shm_open_excl_def isValidSharedMemoryName_def demoCreatedPool_def
      demoShm_def) (simp add: demoLayout_def)

lemma demo_advertisedPool: "advertisedPool demoPublisherConfig demoPublisherCreate = (Inr demoPoolDescriptor, 2)"
  by (simp add: advertisedPool_def demoPublisherConfig_def demoPublisherCreate_def nextPoolId_def to_string.simps
      digit_def char_of_def bit_0 defaultPublisherConfig_def demo_layout demoPoolDescriptor_def)

lemma demo_created:
  "Publisher_registry ''t'' demoPublisherConfig demoSession demoPublisherCreate demoPublisherOs =
     Some (Inr demoPublisher, demoSessionAt 4, 2, demoPublisherOs\<lparr>po_shm := demoShm\<rparr>)"
proof -
  have "validatePublisherConfig demoPublisherConfig True = None"
    by (simp add: validatePublisherConfig_def demoPublisherConfig_def defaultPublisherConfig_def publisherTransportOk_def)
  moreover have "pc_transport demoPublisherConfig = SharedMemory"
    "pc_memory_pool demoPublisherConfig = [\<lparr>cc_chunk_size = 16, cc_chunk_count = 2\<rparr>]"
    "px_create demoPublisherCreate = demoMapping 6" "px_pid demoPublisherCreate = 2"
    by (simp_all add: demoPublisherConfig_def demoPublisherCreate_def)
  ultimately show ?thesis
    using demo_pool_created
    by (simp add: Publisher_registry_def demo_advertisedPool demo_advertised Let_def demoPublisher_def newPublisher_def)
qed

definition demoOpenedQueue :: SharedSubscriberQueue where
  "demoOpenedQueue = \<lparr>sq_descriptor = demoQueueDescriptor, sq_region = \<lparr>r_fd = Some 11, r_address = Some 45056, r_size = 304,
     r_name = ''/mw_queue'', r_owns_name = False\<rparr>, sq_owner = False, sq_attached = True\<rparr>"

definition demoQueueShared :: QueueShared where
  "demoQueueShared = \<lparr>qs_header = (newQueueHeader demoQueueDescriptor)\<lparr>qh_attachment_count := 2\<rparr>,
     qs_slots = replicate 2 nullChunkHandle, qs_wakes = [], qs_alive = True\<rparr>"

definition demoShmOpened :: ShmOs where
  "demoShmOpened = demoShm\<lparr>os_fds := {6, 11}, os_maps := {24576, 45056}\<rparr>"

lemma demo_queue_opened:
  "SharedSubscriberQueue_open demoQueueDescriptor \<lparr>le_lock = 0, le_consistent = 0\<rparr> (demoMapping 11)
     (po_queues demoPublisherOs name) demoShm = (Inr demoOpenedQueue, demoQueueShared, demoShmOpened)"
proof -
  have "validateDescriptor demoQueueDescriptor = None"
    by (simp add: validateDescriptor_def demoQueueDescriptor_def isValidSharedMemoryName_def kQueueLayoutVersion_def
        kMaxSubscriberQueueDepth_def validOverflowPolicy_def queue_requiredSegmentSize_def sizeofChunkHandle_def
        slotsOffset_def sizeofSubscriberQueueHeader_def alignofChunkHandle_def checkedMultiply_def checkedAdd_def SIZE_MAX_def)
  moreover have "SharedMemoryRegion_openReadWrite ''/mw_queue'' 304 (demoMapping 11) demoShm =
      (Inr (sq_region demoOpenedQueue), demoShmOpened)"
    by (auto simp: SharedMemoryRegion_openReadWrite_def SharedMemoryRegion_openReadOnly_def validateArguments_def
        isValidSharedMemoryName_def shm_open_existing_def demoMapping_def demoShm_def demoShmOpened_def demoOpenedQueue_def)
  moreover have "immutableHeaderMatches (newQueueHeader demoQueueDescriptor) demoQueueDescriptor"
    "ringInvariantsHold (newQueueHeader demoQueueDescriptor)"
    by (simp_all add: immutableHeaderMatches_def ringInvariantsHold_def newQueueHeader_def demoQueueDescriptor_def
        sizeofSubscriberQueueHeader_def zeroQueueHeader_def)
  moreover have "qd_shm_name demoQueueDescriptor = ''/mw_queue''" "qd_segment_size demoQueueDescriptor = 304"
    by (simp_all add: demoQueueDescriptor_def)
  ultimately show ?thesis
    by (simp add: SharedSubscriberQueue_open_def PthreadLock_def demoPublisherOs_def Let_def demoQueueShared_def)
      (simp add: newQueueHeader_def zeroQueueHeader_def demoOpenedQueue_def)
qed

definition demoConnected :: PublisherImpl where
  "demoConnected = demoPublisher\<lparr>pi_connections := [\<lparr>dc_endpoint_id = 8, dc_socket = 10, dc_max_message_size = 16,
       dc_queue = Some demoOpenedQueue, dc_release_buffer = [], dc_outstanding = []\<rparr>],
     pi_registry_session := Some (demoSessionAt 5), pi_discovery_refresh_required := False,
     pi_next_discovery_refresh := 1000001,
     pi_os := \<lparr>po_sockets = \<lparr>so_fds = {4, 10}, so_paths = {''/s''}\<rparr>, po_shm = demoShmOpened,
       po_queues = (po_queues demoPublisherOs)(''/mw_queue'' := demoQueueShared), po_inbox = (\<lambda>_. [])\<rparr>\<rparr>"

lemma demo_publisher_fields [simp]:
  "pi_topic_id demoPublisher = 3" "pi_endpoint_id demoPublisher = 5" "pi_pool demoPublisher = Some demoCreatedPool"
  "pi_connections demoPublisher = []" "pi_registry_session demoPublisher = Some (demoSessionAt 4)"
  "pi_failed_endpoint_ids demoPublisher = {}" "pi_config demoPublisher = demoPublisherConfig"
  "pi_os demoPublisher = demoPublisherOs\<lparr>po_shm := demoShm\<rparr>" "pi_sequence demoPublisher = 0"
  "pi_negotiated_max_message_size demoPublisher = 16" "pi_discovery_refresh_required demoPublisher"
  "pc_transport demoPublisherConfig = SharedMemory" "pc_max_message_size demoPublisherConfig = 16"
  "pc_memory_pool demoPublisherConfig = [\<lparr>cc_chunk_size = 16, cc_chunk_count = 2\<rparr>]"
  "mp_descriptor demoCreatedPool = demoPoolDescriptor\<lparr>pd_topic_id := 3\<rparr>"
  by (simp_all add: demoPublisher_def newPublisher_def demoPublisherConfig_def demoCreatedPool_def newMemoryPool_def)

lemma demo_idle:
  "drainReleasesNonBlocking demoPublisherEnv demoPublisher = demoPublisher"
  "publisher_processPeerEvents demoPublisherEnv demoPublisher = demoPublisher"
proof -
  show drain: "drainReleasesNonBlocking demoPublisherEnv demoPublisher = demoPublisher"
    by (simp add: drainReleasesNonBlocking_def)
  have "takePeerEvents 5 (demoSessionAt 4) = ([], demoSessionAt 4)"
    by (simp add: takePeerEvents_def demoSessionAt_def demoSession_def)
  then show "publisher_processPeerEvents demoPublisherEnv demoPublisher = demoPublisher"
    by (simp add: publisher_processPeerEvents_def drain)
qed

lemma demo_socket:
  "connectUnixSocket ''/s'' \<lparr>sk_socket = Inr 10, sk_bind = None, sk_listen = None, sk_connect = None\<rparr> \<lparr>so_fds = {4}, so_paths = {''/s''}\<rparr> =
     (Inr 10, \<lparr>so_fds = {4, 10}, so_paths = {''/s''}\<rparr>)"
  by (auto simp: connectUnixSocket_def createSocket_def makeAddress_def sunPathSize_def)

lemma demo_connected: "connectDiscoveredEndpoints demoPublisherEnv demoPublisher = Some (Ok, demoConnected)"
proof -
  have env: "pv_connect demoPublisherEnv e = \<lparr>sk_socket = Inr 10, sk_bind = None, sk_listen = None, sk_connect = None\<rparr>"
    "pv_open_lock demoPublisherEnv e = \<lparr>le_lock = 0, le_consistent = 0\<rparr>" "pv_open_shm demoPublisherEnv e = demoMapping 11"
    "pv_refreshed demoPublisherEnv = 1" for e
    by (simp_all add: demoPublisherEnv_def)
  have os: "po_sockets demoPublisherOs = \<lparr>so_fds = {4}, so_paths = {''/s''}\<rparr>" "po_inbox demoPublisherOs = (\<lambda>_. [])"
    by (simp_all add: demoPublisherOs_def)
  have name: "qd_shm_name demoQueueDescriptor = ''/mw_queue''" by (simp add: demoQueueDescriptor_def)
  have same: "samePool (demoPoolDescriptor\<lparr>pd_topic_id := 3\<rparr>) (Some demoCreatedPool)"
    by (simp add: samePool_def)
  show ?thesis
    using demo_resolved demo_socket demo_queue_opened [of "''/mw_queue''"] same
    by (simp add: connectDiscoveredEndpoints_def demo_idle applyDiscovery_def connectSubscriber_def env os name
        kShmDiscoveryRefreshInterval_def Let_def demoConnected_def)
qed

definition demoMessageHandle :: ChunkHandle where
  "demoMessageHandle = \<lparr>ch_pool_id = 8589934593, ch_chunk_index = 0, ch_generation = 1, ch_payload_offset = 256\<rparr>"

text \<open>The message in the pool, with the given number of references.\<close>

definition demoChunk :: "u32 \<Rightarrow> ChunkHeader" where
  "demoChunk n = newChunkHeader\<lparr>ck_ref_count := n, ck_state := Published, ck_payload_size := 3, ck_capacity := 16,
     ck_size_class_index := 0, ck_generation := 1, ck_sequence := 1, ck_publish_timestamp_ns := 77, ck_topic_id := 3,
     ck_pool_id := 8589934593\<rparr>"

definition demoPoolWith :: "u32 \<Rightarrow> u64 \<Rightarrow> MemoryPool" where
  "demoPoolWith n releases = \<lparr>mp_descriptor = demoPoolDescriptor\<lparr>pd_topic_id := 3\<rparr>, mp_region = mp_region demoCreatedPool,
     mp_memory = \<lparr>pm_bytes = mem_write 256 [1, 2, 3] (pm_bytes (mp_memory demoCreatedPool)),
       pm_chunks = (pm_chunks (mp_memory demoCreatedPool))(192 := demoChunk n)\<rparr>,
     mp_size_classes = pl_size_classes demoLayout, mp_directory = pl_directory demoLayout, mp_free_lists = [[1]],
     mp_instrumentation = (mp_instrumentation demoCreatedPool)\<lparr>pi_allocations := 1, pi_payload_copies := 1,
       pi_releases := releases\<rparr>\<rparr>"

lemma demo_pool_fields:
  "mp_directory demoCreatedPool = pl_directory demoLayout" "mp_size_classes demoCreatedPool = pl_size_classes demoLayout"
  "mp_free_lists demoCreatedPool = [[1, 0]]" "pm_chunks (mp_memory demoCreatedPool) 192 = newChunkHeader\<lparr>ck_capacity := 16,
     ck_size_class_index := 0, ck_topic_id := 3, ck_pool_id := 8589934593\<rparr>"
  "mp_instrumentation demoCreatedPool = \<lparr>pi_shm_create_calls = 1, pi_truncate_calls = 1, pi_writable_map_calls = 1,
     pi_allocations = 0, pi_payload_copies = 0, pi_releases = 0, pi_reclaims = 0, pi_allocation_failures = 0\<rparr>"
  by (simp_all add: demoCreatedPool_def newMemoryPool_def initialMemory_def demoLayout_def demoPoolDescriptor_def)

lemma demo_allocate_publish:
  "pool_allocate 3 demoCreatedPool = (\<lparr>ar_error = Ok, ar_handle = demoMessageHandle, ar_capacity = 16\<rparr>, p) \<Longrightarrow>
     pool_writeAndPublish demoMessageHandle (Some [1, 2, 3]) 3 1 77 1 p = (Ok, demoPoolWith 1 0)"
  "fst (pool_allocate 3 demoCreatedPool) = \<lparr>ar_error = Ok, ar_handle = demoMessageHandle, ar_capacity = 16\<rparr>"
  by (auto simp: pool_allocate_def pool_writeAndPublish_def publishLocked_def markPublished_def demo_pool_fields
      chunkHeader_def setChunkHeader_def handleMatches_def demoMessageHandle_def demoLayout_def nextGeneration_def
      count_defs newChunkHeader_def Let_def demoPoolWith_def demoChunk_def demoPoolDescriptor_def)

lemma demo_references:
  "pool_addReference demoMessageHandle (demoPoolWith 1 n) = (Ok, demoPoolWith 2 n)"
  "releaseReference demoMessageHandle (Some (demoPoolWith 2 n)) = (Ok, Some (demoPoolWith 1 (n + 1)))"
  by (auto simp: pool_addReference_def releaseReference_def pool_release_def demo_pool_fields chunkHeader_def
      setChunkHeader_def handleMatches_def demoMessageHandle_def demoLayout_def count_defs Let_def demoPoolWith_def demoChunk_def
      demoPoolDescriptor_def newChunkHeader_def)

lemma demo_wake_frame:
  obtains frame where "encodeQueueWake \<lparr>qw_pool = demoPoolDescriptor\<lparr>pd_topic_id := 3\<rparr>, qw_queue_id = 9\<rparr> = Some frame"
    "writeAll frame [SendCount kQueueWakeSize] = Some (ioResult IoComplete kQueueWakeSize 0, frame, [])"
proof -
  define w where "w = \<lparr>qw_pool = demoPoolDescriptor\<lparr>pd_topic_id := 3\<rparr>, qw_queue_id = 9\<rparr>"
  have "isValidSharedMemoryName (pd_shm_name (qw_pool w))" "qw_queue_id w \<noteq> 0"
    by (simp_all add: w_def demoPoolDescriptor_def isValidSharedMemoryName_def queue_constants)
  then obtain frame where frame: "encodeQueueWake w = Some frame" "length frame = 272"
    using decode_encodeQueueWake [of w] by blast
  then have "writeAll frame [SendCount kQueueWakeSize] = Some (ioResult IoComplete kQueueWakeSize 0, frame, [])"
    by (auto simp: writeAll_def closeOnDisconnect_def ioResult_def queue_constants)
  then show thesis using that frame(1) unfolding w_def by blast
qed

lemma demo_enqueued:
  obtains shared where "queue_enqueue demoMessageHandle (demoEnqueue\<lparr>en_notify := Some True\<rparr>) demoQueueShared =
    Some (enqueueResult Accepted None True False 0, shared)"
  by (simp add: queue_enqueue_def demoEnqueue_def PthreadLock_def demoQueueShared_def newQueueHeader_def zeroQueueHeader_def
      demoQueueDescriptor_def finishEnqueue_def Let_def)

lemma demo_message_published:
  obtains r s where "Publisher_publish demoPublisherEnv (Some [1, 2, 3]) 3 (Some demoPublisher) = Some (r, Some s)"
    "pr_error r = Ok" "map dc_outstanding (pi_connections s) = [[demoMessageHandle]]" "pi_pool s = Some (demoPoolWith 1 1)"
    "map dc_release_buffer (pi_connections s) = [[]]"
proof -
  obtain frame where frame: "encodeQueueWake \<lparr>qw_pool = demoPoolDescriptor\<lparr>pd_topic_id := 3\<rparr>, qw_queue_id = 9\<rparr> = Some frame"
    "writeAll frame [SendCount kQueueWakeSize] = Some (ioResult IoComplete kQueueWakeSize 0, frame, [])"
    by (rule demo_wake_frame)
  obtain shared where shared: "queue_enqueue demoMessageHandle (demoEnqueue\<lparr>en_notify := Some True\<rparr>) demoQueueShared =
      Some (enqueueResult Accepted None True False 0, shared)"
    by (rule demo_enqueued)
  obtain p where p: "pool_allocate 3 demoCreatedPool = (\<lparr>ar_error = Ok, ar_handle = demoMessageHandle, ar_capacity = 16\<rparr>, p)"
    using demo_allocate_publish(2) by (metis prod.collapse)
  have env: "pv_sends demoPublisherEnv fd = [SendCount kQueueWakeSize]" "pv_enqueue demoPublisherEnv fd = demoEnqueue"
    "pv_others demoPublisherEnv fd = id" "pv_timestamp demoPublisherEnv = 77" for fd
    by (simp_all add: demoPublisherEnv_def)
  have queue: "sq_descriptor demoOpenedQueue = demoQueueDescriptor" "qd_shm_name demoQueueDescriptor = ''/mw_queue''"
    "qd_queue_id demoQueueDescriptor = 9" by (simp_all add: demoOpenedQueue_def demoQueueDescriptor_def)
  have limit: "outstandingLimit [\<lparr>cc_chunk_size = 16, cc_chunk_count = 2\<rparr>] = 2"
    by (simp add: outstandingLimit_def SIZE_MAX_def)
  have pool: "mp_descriptor (demoPoolWith n m) = demoPoolDescriptor\<lparr>pd_topic_id := 3\<rparr>" for n m
    by (simp add: demoPoolWith_def)
  have "\<exists>r s. publishSharedMemoryCopy demoPublisherEnv (Some [1, 2, 3]) 3 1 demoConnected = Some (r, s) \<and> pr_error r = Ok \<and>
      map dc_outstanding (pi_connections s) = [[demoMessageHandle]] \<and> pi_pool s = Some (demoPoolWith 1 1) \<and>
      map dc_release_buffer (pi_connections s) = [[]]"
    using p demo_allocate_publish(1) [OF p] demo_references [of 0] frame shared
    by (simp add: publishSharedMemoryCopy_def demoConnected_def env queue limit pool dispatchPublished_def dispatchTo_def
        enqueueAndWake_def sendWake_def ioResult_def afterEnqueue_def enqueueResult_def publishResult_def Let_def)
  then show thesis
    using that by (auto simp: Publisher_publish_def demo_idle demo_connected) (auto simp: demoConnected_def)
qed

section \<open>References\<close>

lemma count_outstandingOf:
  "count (outstandingOf cs) h = (\<Sum>c \<leftarrow> cs. count_list (dc_outstanding c) h)"
proof -
  have "count (mset hs) h = count_list hs h" for hs :: "ChunkHandle list" by (induction hs) auto
  then show ?thesis by (induction cs) auto
qed

lemma outstandingOf_member: "c \<in> set cs \<Longrightarrow> h \<in> set (dc_outstanding c) \<Longrightarrow> h \<in># outstandingOf cs"
  by (induction cs) auto

text \<open>
  (C34) The publisher accounts for every reference: after any sequence of publishing, loans,
  cancellations and writes, whatever subscribers send, enqueue and close, whatever the registry reports
  and whichever system calls fail, the reference count of each chunk of the pool is exactly the number
  of times its handle is outstanding at the connected subscribers; every outstanding handle is current
  and its chunk published, and no chunk stays behind in the state between release and reclamation.
\<close>

theorem publisher_references_exact:
  assumes "Publisher_registry topic config session env os = Some (Inr s0, rest)"
    "publisher_run steps s0 = Some s" "pi_pool s = Some p"
  shows "pool_inv p \<and>
    (\<forall>i. unat i < length (mp_directory p) \<longrightarrow> ck_state (chunkHeader p i) \<noteq> Released \<and>
       unat (ck_ref_count (chunkHeader p i)) =
         (\<Sum>c \<leftarrow> pi_connections s. count_list (dc_outstanding c) (handle_of p i))) \<and>
    (\<forall>c \<in> set (pi_connections s). \<forall>h \<in> set (dc_outstanding c). handle_valid p h \<and> handle_state p h = Published)"
proof -
  have "impl_ok UNIV (pi_pool s0) s"
    using publisher_run_ok [OF assms(2) impl_ok_new [OF assms(1)]] by blast
  then have refs: "refs_ok (outstanding s) p" using assms(3) by (simp add: accounts_Some)
  moreover have "h \<in># outstanding s" if "c \<in> set (pi_connections s)" "h \<in> set (dc_outstanding c)" for c h
    using that outstandingOf_member by blast
  ultimately show ?thesis
    using refs_ok_valid [OF refs] refs_ok_published [OF refs]
    unfolding refs_ok_def count_outstandingOf by blast
qed

theorem publisher_references_exact_witness:
  "\<exists>s p. publisher_run [PublishMessage demoPublisherEnv (Some [1, 2, 3]) 3] demoPublisher = Some s \<and>
     pi_pool s = Some p \<and> map dc_outstanding (pi_connections s) = [[demoMessageHandle]] \<and>
     handle_valid p demoMessageHandle \<and> handle_state p demoMessageHandle = Published"
proof -
  obtain r s where s: "Publisher_publish demoPublisherEnv (Some [1, 2, 3]) 3 (Some demoPublisher) = Some (r, Some s)"
    "map dc_outstanding (pi_connections s) = [[demoMessageHandle]]" "pi_pool s = Some (demoPoolWith 1 1)"
    by (rule demo_message_published)
  then have run: "publisher_run [PublishMessage demoPublisherEnv (Some [1, 2, 3]) 3] demoPublisher = Some s" by simp
  obtain c where "pi_connections s = [c]" "dc_outstanding c = [demoMessageHandle]" using s(2) by auto
  then show ?thesis
    using publisher_references_exact [OF demo_created run s(3)] run s by auto
qed


lemma demo_loaned:
  obtains r s where "allocateLoan demoPublisherEnv 8 demoPublisher = (r, s)" "ar_error (la_allocation r) = Ok"
    "ar_handle (la_allocation r) = demoMessageHandle"
proof -
  obtain p where p: "pool_allocate 8 demoCreatedPool = (\<lparr>ar_error = Ok, ar_handle = demoMessageHandle, ar_capacity = 16\<rparr>, p)"
    by (auto simp: pool_allocate_def demo_pool_fields chunkHeader_def setChunkHeader_def demoMessageHandle_def demoLayout_def
        nextGeneration_def count_defs newChunkHeader_def Let_def demoPoolDescriptor_def)
  have "accounts UNIV (Some demoCreatedPool) {#} (Some demoCreatedPool)"
    using impl_ok_new [OF demo_created, of UNIV] by simp
  then have "handle_valid p demoMessageHandle" "handle_state p demoMessageHandle = Loaned"
    using pool_allocate_account(2) [OF _ p] by simp_all
  then have "wr_error (writablePayload demoMessageHandle p) = Ok"
    by (auto simp: writablePayload_def handle_valid_def Let_def)
  then show thesis using that by (simp add: allocateLoan_def demo_idle p)
qed


end
