(* ===== verification/MW_Subscriber.thy ===== *)
theory MW_Subscriber
  imports MW_Publisher MW_Pool_View
begin

text \<open>
  The subscriber (\<open>src/middleware/src/subscriber.cpp\<close>): accepting a publisher, receiving frames and
  wake-ups, taking messages from the queue, and the destruction of a publisher's state.  As for the
  publisher, \<open>si_os\<close> is what the process sees of the system: descriptors, mappings, the segments of
  queues and pools by name, the input and output of each socket, and the owners of the objects that
  samples share with the subscriber.  A call that does not return for the results it is given is
  \<open>None\<close>.
\<close>

section \<open>Configuration\<close>

definition subscriberTransportOk :: "TransportType \<Rightarrow> bool" where
  "subscriberTransportOk transport \<longleftrightarrow> transport = UnixDomainSocket \<or> transport = SharedMemory"

definition validateSubscriberConfig :: "SubscriberConfig \<Rightarrow> bool \<Rightarrow> Exception option" where
  "validateSubscriberConfig config registry_mode =
     (if sc_socket_path config = []
      then Some (InvalidArgumentException ''subscriber socket path must not be empty'')
      else if sc_max_message_size config > 0xFFFFFFFF
      then Some (InvalidArgumentException ''subscriber max_message_size exceeds the data protocol'')
      else if \<not> subscriberTransportOk (sc_transport config)
      then Some (InvalidArgumentException ''subscriber transport is invalid'')
      else if \<not> registry_mode \<and> sc_transport config \<noteq> UnixDomainSocket
      then Some (InvalidArgumentException ''direct mode supports the UDS baseline only'')
      else if registry_mode \<and> (sc_type_name config = [] \<or> sc_type_hash config = [])
      then Some (InvalidArgumentException ''subscriber type name and hash must not be empty'')
      else if sc_queue_depth config = 0 \<or> sc_queue_depth config > kMaxSubscriberQueueDepth
      then Some (InvalidArgumentException ''subscriber queue depth is outside the supported range'')
      else if \<not> validOverflowPolicy (sc_overflow_policy config)
      then Some (InvalidArgumentException ''subscriber overflow policy is invalid'')
      else if sc_block_timeout config \<le> 0
      then Some (InvalidArgumentException ''subscriber block timeout must be positive'')
      else None)"

definition pollTimeout :: "int \<Rightarrow> int \<Rightarrow> int \<Rightarrow> int" where
  "pollTimeout deadline requested_timeout now =
     (if requested_timeout \<le> 0 then 0
      else if now \<ge> deadline then 0
      else min ((deadline - now + 1000000 - 1) div 1000000) INT_MAX)"

definition nextQueueId :: "u32 \<Rightarrow> u32 \<Rightarrow> u64 \<times> u32" where
  "nextQueueId pid counter = (or (push_bit 32 (ucast pid)) (ucast counter), counter + 1)"

section \<open>State\<close>

record ReceivedMessage =
  rm_payload :: bytes
  rm_sequence :: u64
  rm_publish_timestamp_ns :: u64
  rm_pool_id :: u64
  rm_chunk_index :: u32
  rm_chunk_generation :: u32
  rm_payload_offset :: u64

datatype UdsReceiveStatus =
  UdsNeedMore | UdsMessageReady | UdsDisconnected | UdsTruncated | UdsInvalidFrame
| UdsMessageTooLarge | UdsTransportMismatch | UdsIoError

record SubscriberOs =
  sb_sockets :: SocketOs
  sb_shm :: ShmOs
  sb_queues :: "string \<Rightarrow> QueueShared"
  sb_pools :: "string \<Rightarrow> PoolMemory"
  sb_inbox :: "int \<Rightarrow> RecvResult list"
  sb_sends :: "int \<Rightarrow> SendResult list"
  sb_outbox :: "int \<Rightarrow> bytes"
  sb_contexts :: "int \<Rightarrow> nat"
  sb_views :: "int option \<Rightarrow> nat"

record SubscriberImpl =
  si_topic :: string
  si_config :: SubscriberConfig
  si_listener :: UnixListener
  si_release_context :: "int option"
  si_header_buffer :: bytes
  si_decoded_header :: "FrameHeader option"
  si_payload :: bytes
  si_last_error :: ErrorCode
  si_registry_session :: "RegistrySession option"
  si_topic_id :: u64
  si_endpoint_id :: u64
  si_discovered_pool :: PoolDescriptor
  si_queue :: "SharedSubscriberQueue option"
  si_pool_view :: "MemoryPoolView option"
  si_os :: SubscriberOs

section \<open>Shared ownership\<close>

text \<open>
  \<open>std::shared_ptr\<close> to the release context of a socket and to a mapped pool: the last owner closes the
  descriptor, or unmaps the pool.
\<close>

definition shareContext :: "int \<Rightarrow> SubscriberOs \<Rightarrow> SubscriberOs" where
  "shareContext fd os = os\<lparr>sb_contexts := (sb_contexts os)(fd := sb_contexts os fd + 1)\<rparr>"

definition dropContext :: "int \<Rightarrow> SubscriberOs \<Rightarrow> SubscriberOs" where
  "dropContext fd os =
     (let owners = sb_contexts os fd - 1;
          os = os\<lparr>sb_contexts := (sb_contexts os)(fd := owners)\<rparr> in
      if owners = 0
      then os\<lparr>sb_sockets := closeFd fd (sb_sockets os), sb_inbox := (sb_inbox os)(fd := [])\<rparr>
      else os)"

definition shareView :: "MemoryPoolView \<Rightarrow> SubscriberOs \<Rightarrow> SubscriberOs" where
  "shareView view os =
     (let address = r_address (mv_region view) in
      os\<lparr>sb_views := (sb_views os)(address := sb_views os address + 1)\<rparr>)"

definition dropView :: "ShmEnv \<Rightarrow> MemoryPoolView \<Rightarrow> SubscriberOs \<Rightarrow> SubscriberOs" where
  "dropView unmap view os =
     (let address = r_address (mv_region view);
          owners = sb_views os address - 1;
          os = os\<lparr>sb_views := (sb_views os)(address := owners)\<rparr> in
      if owners = 0
      then os\<lparr>sb_shm := snd (SharedMemoryRegion_cleanup (mv_region view) unmap (sb_shm os))\<rparr>
      else os)"

text \<open>\<open>SocketReleaseContext::release\<close> writes one frame; its result is ignored.\<close>

definition context_release :: "ChunkHandle \<Rightarrow> int \<Rightarrow> SubscriberOs \<Rightarrow> SubscriberOs option" where
  "context_release handle fd os =
     do { (_, sent, sends) \<leftarrow> writeAll (encodeQueueRelease handle) (sb_sends os fd);
          Some (os\<lparr>sb_sends := (sb_sends os)(fd := sends), sb_outbox := (sb_outbox os)(fd := sb_outbox os fd @ sent)\<rparr>) }"

fun context_releaseAll :: "ChunkHandle list \<Rightarrow> int \<Rightarrow> SubscriberOs \<Rightarrow> SubscriberOs option" where
  "context_releaseAll [] fd os = Some os"
| "context_releaseAll (handle # handles) fd os =
     do { os \<leftarrow> context_release handle fd os; context_releaseAll handles fd os }"

section \<open>Connection\<close>

definition resetFrame :: "SubscriberImpl \<Rightarrow> SubscriberImpl" where
  "resetFrame s = s\<lparr>si_header_buffer := [], si_decoded_header := None, si_payload := []\<rparr>"

definition acceptPendingConnection :: "int + int \<Rightarrow> SubscriberImpl \<Rightarrow> SubscriberImpl" where
  "acceptPendingConnection fdOrErrno s =
     (if si_release_context s \<noteq> None then s
      else
        (case UnixListener_accept fdOrErrno (sb_sockets (si_os s)) of (connection, sockets) \<Rightarrow>
           let s = s\<lparr>si_os := (si_os s)\<lparr>sb_sockets := sockets\<rparr>\<rparr> in
           (case connection of
              Inr (Some fd) \<Rightarrow>
                resetFrame (s\<lparr>si_release_context := Some fd,
                  si_os := (si_os s)\<lparr>sb_contexts := (sb_contexts (si_os s))(fd := 1)\<rparr>\<rparr>)
            | _ \<Rightarrow> s)))"

definition resetConnection :: "SubscriberImpl \<Rightarrow> SubscriberImpl" where
  "resetConnection s =
     resetFrame (case si_release_context s of
         None \<Rightarrow> s
       | Some fd \<Rightarrow> s\<lparr>si_release_context := None, si_os := dropContext fd (si_os s)\<rparr>)"

text \<open>The locks and mappings that clean-up uses.\<close>

record SubscriberEnv =
  sx_discard_lock :: LockEnv
  sx_open_view :: ShmEnv
  sx_unmap :: ShmEnv

definition modifyQueue :: "SharedSubscriberQueue \<Rightarrow> (QueueShared \<Rightarrow> QueueShared) \<Rightarrow> SubscriberImpl \<Rightarrow> SubscriberImpl" where
  "modifyQueue queue f s =
     s\<lparr>si_os := (si_os s)\<lparr>sb_queues := (sb_queues (si_os s))(queueName queue := f (sb_queues (si_os s) (queueName queue)))\<rparr>\<rparr>"

definition resetPublisherState :: "SubscriberEnv \<Rightarrow> u64 \<Rightarrow> SubscriberImpl \<Rightarrow> SubscriberImpl" where
  "resetPublisherState env dead_pool_id s =
     (let s = (case si_queue s of
             None \<Rightarrow> s
           | Some queue \<Rightarrow> modifyQueue queue (queue_discardPool dead_pool_id (sx_discard_lock env)) s) in
      if dead_pool_id \<noteq> 0 \<and> pd_pool_id (si_discovered_pool s) \<noteq> 0 \<and> pd_pool_id (si_discovered_pool s) \<noteq> dead_pool_id
      then s
      else
        let s = resetConnection s;
            s = (case si_pool_view s of
                None \<Rightarrow> s
              | Some view \<Rightarrow> s\<lparr>si_pool_view := None, si_os := dropView (sx_unmap env) view (si_os s)\<rparr>) in
        s\<lparr>si_discovered_pool := emptyPoolDescriptor\<rparr>)"

definition subscriber_processPeerEvents :: "SubscriberEnv \<Rightarrow> SubscriberImpl \<Rightarrow> SubscriberImpl" where
  "subscriber_processPeerEvents env s =
     (case si_registry_session s of
        None \<Rightarrow> s
      | Some session \<Rightarrow>
          if si_endpoint_id s = 0 then s
          else
            (case takePeerEvents (si_endpoint_id s) session of (events, session) \<Rightarrow>
               fold (\<lambda>event s. if rpe_kind event = ClientPublisherDead
                       then resetPublisherState env (rpe_resource_id event) s else s)
                 events (s\<lparr>si_registry_session := Some session\<rparr>)))"

section \<open>Receiving frames\<close>

definition inbox :: "SubscriberImpl \<Rightarrow> RecvResult list" where
  "inbox s = (case si_release_context s of None \<Rightarrow> [] | Some fd \<Rightarrow> sb_inbox (si_os s) fd)"

definition setInbox :: "RecvResult list \<Rightarrow> SubscriberImpl \<Rightarrow> SubscriberImpl" where
  "setInbox rs s =
     (case si_release_context s of
        None \<Rightarrow> s
      | Some fd \<Rightarrow> s\<lparr>si_os := (si_os s)\<lparr>sb_inbox := (sb_inbox (si_os s))(fd := rs)\<rparr>\<rparr>)"

text \<open>The part of \<open>receiveUdsAvailable\<close> after the header: the payload, of the size in the header.\<close>

definition receivePayload ::
  "FrameHeader \<Rightarrow> SubscriberImpl \<Rightarrow> UdsReceiveStatus \<times> ReceivedMessage option \<times> SubscriberImpl" where
  "receivePayload header s =
     (case recvFill (unat (fh_payload_size header)) (si_payload s) (inbox s) of (status, payload, rs) \<Rightarrow>
        let s = setInbox rs (s\<lparr>si_payload := payload\<rparr>) in
        (case status of
           NoData \<Rightarrow> (UdsNeedMore, None, s)
         | PeerClosed \<Rightarrow> (UdsTruncated, None, s)
         | RecvFailed _ \<Rightarrow> (UdsIoError, None, s)
         | Filled \<Rightarrow>
             (UdsMessageReady,
              Some \<lparr>rm_payload = payload, rm_sequence = fh_sequence header,
                 rm_publish_timestamp_ns = fh_timestamp_ns header, rm_pool_id = 0, rm_chunk_index = 0,
                 rm_chunk_generation = 0, rm_payload_offset = 0\<rparr>,
              resetFrame s)))"

definition receiveUdsAvailable ::
  "SubscriberImpl \<Rightarrow> UdsReceiveStatus \<times> ReceivedMessage option \<times> SubscriberImpl" where
  "receiveUdsAvailable s =
     (case recvFill kFrameHeaderSize (si_header_buffer s) (inbox s) of (status, buffer, rs) \<Rightarrow>
        let s = setInbox rs (s\<lparr>si_header_buffer := buffer\<rparr>) in
        (case status of
           NoData \<Rightarrow> (UdsNeedMore, None, s)
         | PeerClosed \<Rightarrow> (if buffer = [] then UdsDisconnected else UdsTruncated, None, s)
         | RecvFailed e \<Rightarrow> (if e = ECONNRESET \<or> e = ENOTCONN then UdsDisconnected else UdsIoError, None, s)
         | Filled \<Rightarrow>
             (case si_decoded_header s of
                Some header \<Rightarrow> receivePayload header s
              | None \<Rightarrow>
                  (case decodeFrameHeader (Some (take kFrameHeaderSize buffer)) of
                     None \<Rightarrow> (UdsInvalidFrame, None, s)
                   | Some header \<Rightarrow>
                       let s = s\<lparr>si_decoded_header := Some header\<rparr> in
                       (case validateFrameHeader header (sc_max_message_size (si_config s)) of
                          FrameBadMagic \<Rightarrow>
                            (if fh_magic header = kQueueProtocolMagic then UdsTransportMismatch
                             else UdsInvalidFrame, None, s)
                        | FramePayloadTooLarge \<Rightarrow> (UdsMessageTooLarge, None, s)
                        | FrameValid \<Rightarrow> receivePayload header s)))))"

section \<open>Receiving wake-ups\<close>

definition viewOpenError :: "PoolError \<Rightarrow> ErrorCode" where
  "viewOpenError error =
     (case error of
        PoolMiddlewareError code _ \<Rightarrow> code
      | PoolShmError (ShmSystemError errno) \<Rightarrow> if errno = ENOENT then SharedMemoryNotFound else SharedMemoryError
      | _ \<Rightarrow> SharedMemoryError)"

text \<open>A valid wake-up opens the pool that it names, or must name the pool that is open.\<close>

definition openWakePool :: "SubscriberEnv \<Rightarrow> PoolDescriptor \<Rightarrow> SubscriberImpl \<Rightarrow> ErrorCode \<times> SubscriberImpl" where
  "openWakePool env pool s =
     (case si_pool_view s of
        None \<Rightarrow>
          (case MemoryPoolView_open pool (si_topic_id s) (sx_open_view env) (sb_pools (si_os s) (pd_shm_name pool))
                  (sb_shm (si_os s)) of
             (opened, shm) \<Rightarrow>
               let s = s\<lparr>si_os := (si_os s)\<lparr>sb_shm := shm\<rparr>\<rparr> in
               (case opened of
                  Inl e \<Rightarrow> (viewOpenError e, s)
                | Inr view \<Rightarrow>
                    (Ok, s\<lparr>si_pool_view := Some view, si_discovered_pool := pool,
                           si_os := (si_os s)\<lparr>sb_views := (sb_views (si_os s))(r_address (mv_region view) := 1)\<rparr>\<rparr>)))
      | Some view \<Rightarrow>
          (if pd_shm_name (mv_descriptor view) \<noteq> pd_shm_name pool \<or>
             pd_pool_id (mv_descriptor view) \<noteq> pd_pool_id pool \<or>
             pd_segment_size (mv_descriptor view) \<noteq> pd_segment_size pool
           then InvalidSharedMemory else Ok, s))"

definition handleWake :: "SubscriberEnv \<Rightarrow> bytes \<Rightarrow> SubscriberImpl \<Rightarrow> ErrorCode \<times> SubscriberImpl" where
  "handleWake env frame s =
     (case (decodeQueueWake (Some frame), si_queue s) of
        (Some msg, Some queue) \<Rightarrow>
          if validateQueueWake msg (qd_queue_id (sq_descriptor queue)) (si_topic_id s) \<noteq> Ok
          then (InvalidFrame, s)
          else
            let known = si_discovered_pool s; pool = qw_pool msg in
            if pd_shm_name known \<noteq> [] \<and>
              (pd_shm_name known \<noteq> pd_shm_name pool \<or> pd_pool_id known \<noteq> pd_pool_id pool \<or>
               pd_segment_size known \<noteq> pd_segment_size pool \<or> pd_layout_version known \<noteq> pd_layout_version pool)
            then (InvalidSharedMemory, s)
            else openWakePool env pool s
      | _ \<Rightarrow> (InvalidFrame, s))"

definition receiveWakeAvailable :: "SubscriberEnv \<Rightarrow> SubscriberImpl \<Rightarrow> ErrorCode \<times> SubscriberImpl" where
  "receiveWakeAvailable env s =
     (case recvFill kQueueWakeSize (si_header_buffer s) (inbox s) of (status, buffer, rs) \<Rightarrow>
        let s = setInbox rs (s\<lparr>si_header_buffer := buffer\<rparr>) in
        (case status of
           NoData \<Rightarrow> (Timeout, s)
         | PeerClosed \<Rightarrow> (if buffer = [] then ConnectionLost else InvalidFrame, s)
         | RecvFailed e \<Rightarrow> (if e = ECONNRESET \<or> e = ENOTCONN then ConnectionLost else IoError, s)
         | Filled \<Rightarrow> handleWake env (take kQueueWakeSize buffer) (resetFrame s)))"

lemma openWakePool_frame:
  "openWakePool env pool s = (e, s') \<Longrightarrow> si_release_context s' = si_release_context s \<and>
     sb_inbox (si_os s') = sb_inbox (si_os s) \<and> si_header_buffer s' = si_header_buffer s \<and> si_queue s' = si_queue s \<and>
     sb_queues (si_os s') = sb_queues (si_os s) \<and> si_config s' = si_config s"
  by (auto simp: openWakePool_def Let_def split: option.splits prod.splits sum.splits if_splits)

lemma handleWake_frame:
  "handleWake env frame s = (e, s') \<Longrightarrow> si_release_context s' = si_release_context s \<and>
     sb_inbox (si_os s') = sb_inbox (si_os s) \<and> si_header_buffer s' = si_header_buffer s \<and> si_queue s' = si_queue s \<and>
     sb_queues (si_os s') = sb_queues (si_os s) \<and> si_config s' = si_config s"
  by (auto simp: handleWake_def Let_def split: option.splits prod.splits if_splits dest: openWakePool_frame)

lemma inbox_setInbox: "si_release_context s \<noteq> None \<Longrightarrow> inbox (setInbox rs s) = rs"
  by (auto simp: inbox_def setInbox_def split: option.splits)

lemma setInbox_frame [simp]:
  "si_release_context (setInbox rs s) = si_release_context s" "si_header_buffer (setInbox rs s) = si_header_buffer s"
  "si_queue (setInbox rs s) = si_queue s" "si_config (setInbox rs s) = si_config s"
  "sb_queues (si_os (setInbox rs s)) = sb_queues (si_os s)" "si_decoded_header (setInbox rs s) = si_decoded_header s"
  "si_payload (setInbox rs s) = si_payload s"
  by (auto simp: setInbox_def split: option.splits)

lemma resetFrame_frame [simp]:
  "si_release_context (resetFrame s) = si_release_context s" "si_os (resetFrame s) = si_os s"
  "si_header_buffer (resetFrame s) = []" "si_queue (resetFrame s) = si_queue s" "si_config (resetFrame s) = si_config s"
  by (simp_all add: resetFrame_def)

text \<open>Each wake-up that is read leaves less input.\<close>

lemma receiveWake_progress:
  assumes "receiveWakeAvailable env s = (Ok, s')" "si_release_context s \<noteq> None"
  shows "si_release_context s' = si_release_context s" "si_header_buffer s' = []"
    "unread (inbox s') \<le> unread (inbox s)"
    "length (si_header_buffer s) < kQueueWakeSize \<Longrightarrow> unread (inbox s') < unread (inbox s)"
proof -
  obtain buffer rs where fill: "recvFill kQueueWakeSize (si_header_buffer s) (inbox s) = (Filled, buffer, rs)"
    and wake: "handleWake env (take kQueueWakeSize buffer) (resetFrame (setInbox rs (s\<lparr>si_header_buffer := buffer\<rparr>))) = (Ok, s')"
    using assms(1) by (auto simp: receiveWakeAvailable_def Let_def split: prod.splits FillStatus.splits if_splits)
  note frame = handleWake_frame [OF wake]
  show "si_release_context s' = si_release_context s" "si_header_buffer s' = []" using frame by simp_all
  have "inbox s' = inbox (setInbox rs (s\<lparr>si_header_buffer := buffer\<rparr>))" using frame by (simp add: inbox_def split: option.splits)
  then have "inbox s' = rs" using inbox_setInbox assms(2) by simp
  then show "unread (inbox s') \<le> unread (inbox s)"
    "length (si_header_buffer s) < kQueueWakeSize \<Longrightarrow> unread (inbox s') < unread (inbox s)"
    using recvFill_unread [OF fill] by auto
qed

function drainWakes :: "SubscriberEnv \<Rightarrow> SubscriberImpl \<Rightarrow> ErrorCode \<times> SubscriberImpl" where
  "drainWakes env s =
     (if si_release_context s = None then (Ok, s)
      else
        (case receiveWakeAvailable env s of (error, s) \<Rightarrow>
           if error = Timeout then (Ok, s)
           else if error \<noteq> Ok then (error, s)
           else drainWakes env s))"
  by pat_completeness auto
termination
proof (relation "measure (\<lambda>(env, s). 2 * unread (inbox s) +
    (if length (si_header_buffer s) < kQueueWakeSize then 0 else 1))", goal_cases)
  case 1
  show ?case by simp
next
  case (2 env s e s')
  then have "receiveWakeAvailable env s = (Ok, s')" by auto
  from receiveWake_progress [OF this 2(1)] show ?case by (auto simp: queue_constants)
qed

declare drainWakes.simps [simp del]

definition drainWakeNotificationsNonBlocking :: "SubscriberEnv \<Rightarrow> SubscriberImpl \<Rightarrow> ErrorCode \<times> SubscriberImpl" where
  "drainWakeNotificationsNonBlocking env s =
     (if si_release_context s = None \<or> si_pool_view s = None then (Ok, s) else drainWakes env s)"

section \<open>Sample views\<close>

text \<open>
  \<open>SampleView\<close> (\<open>src/middleware/src/sample_view.cpp\<close>): a message in the pool with a share of the release
  context and of the mapping.
\<close>

record SampleView =
  vw_release_context :: "int option"
  vw_pool_view :: "MemoryPoolView option"
  vw_payload :: "u64 option"
  vw_size :: size_t
  vw_sequence :: u64
  vw_publish_timestamp_ns :: u64
  vw_pool_id :: u64
  vw_chunk_index :: u32
  vw_generation :: u32
  vw_payload_offset :: u64
  vw_active :: bool

definition emptySampleView :: SampleView where
  "emptySampleView = \<lparr>vw_release_context = None, vw_pool_view = None, vw_payload = None, vw_size = 0,
     vw_sequence = 0, vw_publish_timestamp_ns = 0, vw_pool_id = 0, vw_chunk_index = 0, vw_generation = 0,
     vw_payload_offset = 0, vw_active = False\<rparr>"

definition viewHandle :: "SampleView \<Rightarrow> ChunkHandle" where
  "viewHandle v = \<lparr>ch_pool_id = vw_pool_id v, ch_chunk_index = vw_chunk_index v,
     ch_generation = vw_generation v, ch_payload_offset = vw_payload_offset v\<rparr>"

definition SampleView_data :: "SampleView \<Rightarrow> u64 option" where
  "SampleView_data v = (if vw_active v then vw_payload v else None)"

definition SampleView_valid :: "SampleView \<Rightarrow> bool" where
  "SampleView_valid v \<longleftrightarrow> vw_active v \<and> vw_release_context v \<noteq> None \<and> vw_pool_view v \<noteq> None \<and> vw_payload v \<noteq> None"

definition SampleView_release :: "ShmEnv \<Rightarrow> SampleView \<Rightarrow> SubscriberOs \<Rightarrow> (SampleView \<times> SubscriberOs) option" where
  "SampleView_release unmap v os =
     do { os \<leftarrow> (case vw_release_context v of
             None \<Rightarrow> Some os
           | Some fd \<Rightarrow> if vw_active v then context_release (viewHandle v) fd os else Some os);
          let os = (case vw_release_context v of None \<Rightarrow> os | Some fd \<Rightarrow> dropContext fd os);
          let os = (case vw_pool_view v of None \<Rightarrow> os | Some view \<Rightarrow> dropView unmap view os);
          Some (v\<lparr>vw_active := False, vw_payload := None, vw_release_context := None, vw_pool_view := None\<rparr>, os) }"

text \<open>The move constructor: the new view and what is left of the old one.\<close>

definition SampleView_move :: "SampleView \<Rightarrow> SampleView \<times> SampleView" where
  "SampleView_move v = (v, emptySampleView)"

definition SampleView_moveAssign ::
  "ShmEnv \<Rightarrow> SampleView \<Rightarrow> SampleView \<Rightarrow> SubscriberOs \<Rightarrow> (SampleView \<times> SampleView \<times> SubscriberOs) option" where
  "SampleView_moveAssign unmap self v os =
     do { (_, os) \<leftarrow> SampleView_release unmap self os;
          let (self, v) = SampleView_move v;
          Some (self, v, os) }"

section \<open>Taking messages\<close>

text \<open>
  One iteration of a waiting loop: what other processes have done to the queue before it is looked at
  and before the handle is taken, the locks, the clock and the results of the two calls of \<open>poll\<close>
  (for the timeouts they are given), of \<open>accept\<close>, and the input that arrives.
\<close>

datatype PollResult = PollExpired | PollFailed int | PollEvents bool

record TakeStep =
  tk_peek_others :: "QueueShared \<Rightarrow> QueueShared"
  tk_peek_lock :: LockEnv
  tk_take_others :: "QueueShared \<Rightarrow> QueueShared"
  tk_take_lock :: LockEnv
  tk_listen_now :: int
  tk_listen :: "int \<Rightarrow> PollResult"
  tk_accept :: "int + int"
  tk_poll_now :: int
  tk_poll :: "int \<Rightarrow> PollResult"
  tk_arrived :: "RecvResult list"

definition queueOp ::
  "SharedSubscriberQueue \<Rightarrow> (QueueShared \<Rightarrow> 'a \<times> QueueShared) \<Rightarrow> SubscriberImpl \<Rightarrow> 'a \<times> SubscriberImpl" where
  "queueOp queue f s =
     (case f (sb_queues (si_os s) (queueName queue)) of (r, shared) \<Rightarrow> (r, modifyQueue queue (\<lambda>_. shared) s))"

definition sampleOf :: "int \<Rightarrow> MemoryPoolView \<Rightarrow> ChunkHandle \<Rightarrow> ChunkViewResult \<Rightarrow> SampleView" where
  "sampleOf fd view handle r =
     \<lparr>vw_release_context = Some fd, vw_pool_view = Some view, vw_payload = cv_payload r, vw_size = cv_payload_size r,
      vw_sequence = cv_sequence r, vw_publish_timestamp_ns = cv_publish_timestamp_ns r,
      vw_pool_id = ch_pool_id handle, vw_chunk_index = ch_chunk_index handle,
      vw_generation = ch_generation handle, vw_payload_offset = ch_payload_offset handle, vw_active = True\<rparr>"

definition tryTakeQueued :: "TakeStep \<Rightarrow> SubscriberImpl \<Rightarrow> (SampleView option \<times> SubscriberImpl) option" where
  "tryTakeQueued step s =
     (case (si_queue s, si_pool_view s, si_release_context s) of
        (Some queue, Some view, Some fd) \<Rightarrow>
          (case queueOp queue (\<lambda>q. queue_peek (tk_peek_lock step) (tk_peek_others step q)) s of (next_handle, s) \<Rightarrow>
             (case next_handle of
                None \<Rightarrow> Some (None, s)
              | Some h \<Rightarrow>
                  if ch_pool_id h \<noteq> pd_pool_id (mv_descriptor view) then Some (None, s)
                  else
                    (case queueOp queue (\<lambda>q. queue_tryDequeue (tk_take_lock step) (tk_take_others step q)) s of (taken, s) \<Rightarrow>
                       (case taken of
                          None \<Rightarrow> Some (None, s)
                        | Some handle \<Rightarrow>
                            let r = view_read handle (sc_max_message_size (si_config s)) view
                                  (sb_pools (si_os s) (pd_shm_name (mv_descriptor view))) in
                            if cv_error r \<noteq> Ok
                            then do { os \<leftarrow> context_release handle fd (si_os s);
                                      Some (None, s\<lparr>si_os := os, si_last_error := cv_error r\<rparr>) }
                            else Some (Some (sampleOf fd view handle r),
                                   s\<lparr>si_last_error := Ok, si_os := shareView view (shareContext fd (si_os s))\<rparr>)))))
      | _ \<Rightarrow> Some (None, s))"

text \<open>The two waits of both loops: for a publisher to connect, and for input from it.\<close>

datatype WaitResult = Proceed | Again | GiveUp

definition awaitConnection :: "int \<Rightarrow> int \<Rightarrow> TakeStep \<Rightarrow> SubscriberImpl \<Rightarrow> WaitResult \<times> SubscriberImpl" where
  "awaitConnection deadline timeout step s =
     (if si_release_context s \<noteq> None then (Proceed, s)
      else
        (case tk_listen step (pollTimeout deadline timeout (tk_listen_now step)) of
           PollExpired \<Rightarrow> (GiveUp, s\<lparr>si_last_error := Timeout\<rparr>)
         | PollFailed e \<Rightarrow> if e = EINTR then (Again, s) else (GiveUp, s\<lparr>si_last_error := IoError\<rparr>)
         | PollEvents _ \<Rightarrow>
             let s = acceptPendingConnection (tk_accept step) s in
             (if si_release_context s = None then Again else Proceed, s)))"

definition awaitInput :: "int \<Rightarrow> int \<Rightarrow> TakeStep \<Rightarrow> SubscriberImpl \<Rightarrow> WaitResult \<times> SubscriberImpl" where
  "awaitInput deadline timeout step s =
     (let s = setInbox (inbox s @ tk_arrived step) s in
      (case tk_poll step (pollTimeout deadline timeout (tk_poll_now step)) of
         PollExpired \<Rightarrow> (GiveUp, s\<lparr>si_last_error := Timeout\<rparr>)
       | PollFailed e \<Rightarrow> if e = EINTR then (Again, s) else (GiveUp, resetConnection (s\<lparr>si_last_error := IoError\<rparr>))
       | PollEvents ready \<Rightarrow> (if ready then Proceed else Again, s)))"

definition awaitBoth :: "int \<Rightarrow> int \<Rightarrow> TakeStep \<Rightarrow> SubscriberImpl \<Rightarrow> WaitResult \<times> SubscriberImpl" where
  "awaitBoth deadline timeout step s =
     (case awaitConnection deadline timeout step s of (r, s) \<Rightarrow>
        if r = Proceed then awaitInput deadline timeout step s else (r, s))"

definition failWake :: "SubscriberEnv \<Rightarrow> ErrorCode \<Rightarrow> SubscriberImpl \<Rightarrow> SubscriberImpl" where
  "failWake env error s =
     (let s = s\<lparr>si_last_error := error\<rparr> in
      if error = ConnectionLost then resetPublisherState env (pd_pool_id (si_discovered_pool s)) s
      else resetConnection s)"

fun viewLoop ::
  "SubscriberEnv \<Rightarrow> int \<Rightarrow> int \<Rightarrow> TakeStep list \<Rightarrow> SubscriberImpl \<Rightarrow> (SampleView option \<times> SubscriberImpl) option" where
  "viewLoop env deadline timeout [] s = None"
| "viewLoop env deadline timeout (step # steps) s =
     do { (taken, s) \<leftarrow> tryTakeQueued step s;
          (case taken of
             Some view \<Rightarrow> Some (Some view, s)
           | None \<Rightarrow>
               if si_last_error s \<noteq> Ok \<and> si_last_error s \<noteq> Timeout then Some (None, s)
               else
                 (case awaitBoth deadline timeout step s of (r, s) \<Rightarrow>
                    (case r of
                       GiveUp \<Rightarrow> Some (None, s)
                     | Again \<Rightarrow> viewLoop env deadline timeout steps s
                     | Proceed \<Rightarrow>
                         (case receiveWakeAvailable env s of (error, s) \<Rightarrow>
                            if error = Timeout then viewLoop env deadline timeout steps s
                            else if error \<noteq> Ok then Some (None, failWake env error s)
                            else viewLoop env deadline timeout steps (s\<lparr>si_last_error := Ok\<rparr>))))) }"

definition waitAndTakeView ::
  "SubscriberEnv \<Rightarrow> int \<Rightarrow> int \<Rightarrow> TakeStep list \<Rightarrow> SubscriberImpl \<Rightarrow> (SampleView option \<times> SubscriberImpl) option" where
  "waitAndTakeView env now timeout steps s =
     (if sc_transport (si_config s) \<noteq> SharedMemory
      then Some (None, s\<lparr>si_last_error := UnsupportedTransport\<rparr>)
      else
        let s = (subscriber_processPeerEvents env s)\<lparr>si_last_error := Ok\<rparr> in
        (case drainWakeNotificationsNonBlocking env s of (error, s) \<Rightarrow>
           if error \<noteq> Ok then Some (None, failWake env error s)
           else let timeout = max timeout 0 in viewLoop env (now + timeout * 1000000) timeout steps s))"

fun takeLoop :: "int \<Rightarrow> int \<Rightarrow> TakeStep list \<Rightarrow> SubscriberImpl \<Rightarrow> (ReceivedMessage option \<times> SubscriberImpl) option" where
  "takeLoop deadline timeout [] s = None"
| "takeLoop deadline timeout (step # steps) s =
     (case awaitBoth deadline timeout step s of (r, s) \<Rightarrow>
        (case r of
           GiveUp \<Rightarrow> Some (None, s)
         | Again \<Rightarrow> takeLoop deadline timeout steps s
         | Proceed \<Rightarrow>
             (case receiveUdsAvailable s of (status, message, s) \<Rightarrow>
                let failed = (\<lambda>error. Some (None, resetConnection (s\<lparr>si_last_error := error\<rparr>))) in
                (case status of
                   UdsNeedMore \<Rightarrow> takeLoop deadline timeout steps s
                 | UdsMessageReady \<Rightarrow> Some (message, s\<lparr>si_last_error := Ok\<rparr>)
                 | UdsDisconnected \<Rightarrow> failed ConnectionLost
                 | UdsTruncated \<Rightarrow> failed InvalidFrame
                 | UdsInvalidFrame \<Rightarrow> failed InvalidFrame
                 | UdsMessageTooLarge \<Rightarrow> failed MessageTooLarge
                 | UdsTransportMismatch \<Rightarrow> failed TransportMismatch
                 | UdsIoError \<Rightarrow> failed IoError))))"

text \<open>The copy of a view; the view is destroyed, and with it released, when the call returns.\<close>

definition copyView :: "SampleView \<Rightarrow> SubscriberOs \<Rightarrow> ReceivedMessage" where
  "copyView v os =
     \<lparr>rm_payload = (case (SampleView_data v, vw_pool_view v) of
          (Some offset, Some view) \<Rightarrow>
            mem_read (unat offset) (unat (vw_size v)) (pm_bytes (sb_pools os (pd_shm_name (mv_descriptor view))))
        | _ \<Rightarrow> []),
      rm_sequence = vw_sequence v, rm_publish_timestamp_ns = vw_publish_timestamp_ns v,
      rm_pool_id = vw_pool_id v, rm_chunk_index = vw_chunk_index v, rm_chunk_generation = vw_generation v,
      rm_payload_offset = vw_payload_offset v\<rparr>"

definition Subscriber_waitAndTake ::
  "SubscriberEnv \<Rightarrow> int \<Rightarrow> int \<Rightarrow> TakeStep list \<Rightarrow> SubscriberImpl option
     \<Rightarrow> (ReceivedMessage option \<times> SubscriberImpl option) option" where
  "Subscriber_waitAndTake env now timeout steps impl =
     (case impl of
        None \<Rightarrow> Some (None, None)
      | Some s \<Rightarrow>
          if sc_transport (si_config s) = SharedMemory
          then
            do { (view, s) \<leftarrow> waitAndTakeView env now timeout steps s;
                 (case view of
                    None \<Rightarrow> Some (None, Some s)
                  | Some v \<Rightarrow>
                      do { (_, os) \<leftarrow> SampleView_release (sx_unmap env) v (si_os s);
                           Some (Some (copyView v (si_os s)), Some (s\<lparr>si_os := os\<rparr>)) }) }
          else
            let s = subscriber_processPeerEvents env s; timeout = max timeout 0 in
            map_option (apsnd Some) (takeLoop (now + timeout * 1000000) timeout steps s))"

definition Subscriber_take where
  "Subscriber_take env now steps impl = Subscriber_waitAndTake env now 0 steps impl"

definition Subscriber_waitAndTakeView ::
  "SubscriberEnv \<Rightarrow> int \<Rightarrow> int \<Rightarrow> TakeStep list \<Rightarrow> SubscriberImpl option
     \<Rightarrow> (SampleView option \<times> SubscriberImpl option) option" where
  "Subscriber_waitAndTakeView env now timeout steps impl =
     (case impl of
        None \<Rightarrow> Some (None, None)
      | Some s \<Rightarrow> map_option (apsnd Some) (waitAndTakeView env now timeout steps s))"

definition Subscriber_lastError :: "SubscriberImpl option \<Rightarrow> ErrorCode" where
  "Subscriber_lastError impl = (case impl of None \<Rightarrow> InvalidState | Some s \<Rightarrow> si_last_error s)"

section \<open>Construction\<close>

definition queueException :: "QueueError \<Rightarrow> Exception" where
  "queueException error =
     (case error of
        QueueInvalidArgument message \<Rightarrow> InvalidArgumentException message
      | QueueOverflow message \<Rightarrow> OtherException message
      | QueueSystemError errno \<Rightarrow> SystemException errno []
      | QueueShmError error \<Rightarrow> shmException error
      | QueueMiddlewareError code message \<Rightarrow> MiddlewareException code message)"

definition newSubscriber ::
  "string \<Rightarrow> SubscriberConfig \<Rightarrow> UnixListener \<Rightarrow> RegistrySession option \<Rightarrow> SubscriberOs \<Rightarrow> SubscriberImpl" where
  "newSubscriber topic config listener session os =
     \<lparr>si_topic = topic, si_config = config, si_listener = listener, si_release_context = None,
      si_header_buffer = [], si_decoded_header = None, si_payload = [], si_last_error = Ok,
      si_registry_session = session, si_topic_id = 0, si_endpoint_id = 0,
      si_discovered_pool = emptyPoolDescriptor, si_queue = None, si_pool_view = None, si_os = os\<rparr>"

text \<open>The default backlog of \<open>UnixListener::create\<close> is 1.\<close>

definition Subscriber_direct ::
  "string \<Rightarrow> SubscriberConfig \<Rightarrow> SocketEnv \<Rightarrow> SubscriberOs \<Rightarrow> (Exception + SubscriberImpl) \<times> SubscriberOs" where
  "Subscriber_direct topic config env os =
     (case validateSubscriberConfig config False of
        Some e \<Rightarrow> (Inl e, os)
      | None \<Rightarrow>
          (case UnixListener_create (sc_socket_path config) 1 env (sb_sockets os) of (created, sockets) \<Rightarrow>
             let os = os\<lparr>sb_sockets := sockets\<rparr> in
             (case created of
                Inl e \<Rightarrow> (Inl e, os)
              | Inr listener \<Rightarrow> (Inr (newSubscriber topic config listener None os), os))))"

record SubscriberCreateEnv =
  sy_pid :: u32
  sy_counter :: u32
  sy_listen :: SocketEnv
  sy_init :: QueueInitEnv
  sy_create :: ShmEnv
  sy_subscribe :: RequestEnv
  sy_close_lock :: LockEnv
  sy_detach_lock :: LockEnv

definition emptyQueueDescriptor :: QueueDescriptor where
  "emptyQueueDescriptor = \<lparr>qd_shm_name = [], qd_queue_id = 0, qd_segment_size = 0, qd_capacity = 0,
     qd_layout_version = 0, qd_overflow_policy = OverflowCast 0, qd_block_timeout_ms = 0\<rparr>"

definition advertisedQueue :: "SubscriberConfig \<Rightarrow> SubscriberCreateEnv \<Rightarrow> (QueueError + QueueDescriptor) \<times> u32" where
  "advertisedQueue config env =
     (case nextQueueId (sy_pid env) (sy_counter env) of (queue_id, counter) \<Rightarrow>
        (case queue_requiredSegmentSize (sc_queue_depth config) of
           Inl e \<Rightarrow> Inl e
         | Inr segment_size \<Rightarrow>
             Inr \<lparr>qd_shm_name = ''/mw_queue_'' @ to_string (unat (sy_pid env)) @ ''_'' @ to_string (unat queue_id),
                  qd_queue_id = queue_id, qd_segment_size = segment_size, qd_capacity = sc_queue_depth config,
                  qd_layout_version = kQueueLayoutVersion, qd_overflow_policy = sc_overflow_policy config,
                  qd_block_timeout_ms = word_of_int (sc_block_timeout config)\<rparr>, counter))"

text \<open>The queue of the subscriber, if the transport has one.\<close>

definition createQueue ::
  "SubscriberConfig \<Rightarrow> SubscriberCreateEnv \<Rightarrow> SubscriberOs
     \<Rightarrow> (QueueError + QueueDescriptor \<times> SharedSubscriberQueue option) \<times> u32 \<times> SubscriberOs" where
  "createQueue config env os =
     (if sc_transport config \<noteq> SharedMemory then (Inr (emptyQueueDescriptor, None), sy_counter env, os)
      else
        (case advertisedQueue config env of
           (Inl e, counter) \<Rightarrow> (Inl e, counter, os)
         | (Inr descriptor, counter) \<Rightarrow>
             (case SharedSubscriberQueue_create descriptor (sy_init env) (sy_create env) (sb_shm os) of (created, shm) \<Rightarrow>
                let os = os\<lparr>sb_shm := shm\<rparr> in
                (case created of
                   Inl e \<Rightarrow> (Inl e, counter, os)
                 | Inr (queue, shared) \<Rightarrow>
                     (Inr (descriptor, Some queue), counter,
                      os\<lparr>sb_queues := (sb_queues os)(qd_shm_name descriptor := shared)\<rparr>)))))"

definition destroyQueue ::
  "SharedSubscriberQueue option \<Rightarrow> LockEnv \<Rightarrow> LockEnv \<Rightarrow> ShmEnv \<Rightarrow> SubscriberOs \<Rightarrow> SubscriberOs" where
  "destroyQueue queue close_lock detach_lock unmap os =
     (case queue of
        None \<Rightarrow> os
      | Some q \<Rightarrow>
          (case queue_destroy q close_lock detach_lock unmap (sb_queues os (queueName q)) (sb_shm os) of
             (shared, shm) \<Rightarrow> os\<lparr>sb_queues := (sb_queues os)(queueName q := shared), sb_shm := shm\<rparr>))"

definition closeListener :: "UnixListener \<Rightarrow> SubscriberOs \<Rightarrow> SubscriberOs" where
  "closeListener listener os = os\<lparr>sb_sockets := snd (UnixListener_cleanup listener (sb_sockets os))\<rparr>"

definition Subscriber_registry ::
  "string \<Rightarrow> SubscriberConfig \<Rightarrow> RegistrySession \<Rightarrow> SubscriberCreateEnv \<Rightarrow> SubscriberOs
     \<Rightarrow> ((Exception + SubscriberImpl) \<times> RegistrySession \<times> u32 \<times> SubscriberOs) option" where
  "Subscriber_registry topic config session env os =
     (case validateSubscriberConfig config True of
        Some e \<Rightarrow> Some (Inl e, session, sy_counter env, os)
      | None \<Rightarrow>
          (case UnixListener_create (sc_socket_path config) 1 (sy_listen env) (sb_sockets os) of (listening, sockets) \<Rightarrow>
             let os = os\<lparr>sb_sockets := sockets\<rparr> in
             (case listening of
                Inl e \<Rightarrow> Some (Inl e, session, sy_counter env, os)
              | Inr listener \<Rightarrow>
                  (case createQueue config env os of
                     (Inl e, counter, os) \<Rightarrow> Some (Inl (queueException e), session, counter, closeListener listener os)
                   | (Inr (descriptor, queue), counter, os) \<Rightarrow>
                       do { (subscribed, session) \<leftarrow> session_subscribe topic config descriptor (sy_subscribe env) session;
                            (case subscribed of
                               Inl e \<Rightarrow>
                                 Some (Inl e, session, counter, closeListener listener
                                   (destroyQueue queue (sy_close_lock env) (sy_detach_lock env) (sy_create env) os))
                             | Inr endpoint \<Rightarrow>
                                 Some (Inr ((newSubscriber topic config listener (Some session) os)\<lparr>
                                    si_topic_id := rep_topic_id endpoint, si_endpoint_id := rep_endpoint_id endpoint,
                                    si_discovered_pool := rep_pool endpoint, si_queue := queue\<rparr>),
                                   session, counter, os)) }))))"

section \<open>Destruction\<close>

text \<open>
  The handles that are still queued are given back to the publisher.  Then the members are destroyed,
  last to first.
\<close>

record SubscriberDestroyEnv =
  sz_accept :: "int + int"
  sz_drain_lock :: LockEnv
  sz_close_lock :: LockEnv
  sz_detach_lock :: LockEnv
  sz_unmap :: ShmEnv
  sz_unsubscribe :: RequestEnv

definition returnQueued :: "LockEnv \<Rightarrow> SubscriberImpl \<Rightarrow> SubscriberImpl option" where
  "returnQueued lenv s =
     (case si_queue s of
        None \<Rightarrow> Some s
      | Some queue \<Rightarrow>
          (case queueOp queue (queue_closeAndDrain lenv) s of (drained, s) \<Rightarrow>
             (case (drained, si_release_context s) of
                (Inr handles, Some fd) \<Rightarrow>
                  do { os \<leftarrow> context_releaseAll handles fd (si_os s); Some (s\<lparr>si_os := os\<rparr>) }
              | _ \<Rightarrow> Some s)))"

definition Subscriber_destroy ::
  "SubscriberDestroyEnv \<Rightarrow> SubscriberImpl \<Rightarrow> (RegistrySession option \<times> SubscriberOs) option" where
  "Subscriber_destroy env s =
     do { s \<leftarrow> returnQueued (sz_drain_lock env) (acceptPendingConnection (sz_accept env) s);
          session \<leftarrow> (case si_registry_session s of
              None \<Rightarrow> Some None
            | Some session \<Rightarrow>
                if si_endpoint_id s \<noteq> 0
                then map_option Some (session_unsubscribe (si_endpoint_id s) (sz_unsubscribe env) session)
                else Some (Some session));
          let os = (case si_pool_view s of None \<Rightarrow> si_os s | Some view \<Rightarrow> dropView (sz_unmap env) view (si_os s));
          let os = destroyQueue (si_queue s) (sz_close_lock env) (sz_detach_lock env) (sz_unmap env) os;
          let os = (case si_release_context s of None \<Rightarrow> os | Some fd \<Rightarrow> dropContext fd os);
          Some (session, closeListener (si_listener s) os) }"

end
