(* ===== verification/MW_Publisher_Calls.thy ===== *)
theory MW_Publisher_Calls
  imports MW_Publisher_Invariant MW_Pool_Properties
begin

text \<open>
  The publisher (\<open>src/middleware/src/publisher.cpp\<close>) as a client of the memory pool: each of its
  operations is a sequence of calls of the pool with at most one allocation, and hands at most the
  handle that it publishes to its connections.  The guarantees that the pool gives for sequences of
  calls then hold of the publisher.
\<close>

section \<open>Generations\<close>

text \<open>
  Without an allocation of the chunk its state moves only forward, from loan to publication to release
  to free; an allocation changes the generation, which returns only after \<open>2 ^ 32 - 1\<close> allocations.
\<close>

definition phase :: "ChunkState \<Rightarrow> nat" where
  "phase state = (if state = Loaned then 0 else if state = Published then 1 else if state = Released then 2 else 3)"

lemma header_step_phase:
  "header_step h h' \<Longrightarrow> ck_generation h' = nextGeneration (ck_generation h) \<or>
     ck_generation h' = ck_generation h \<and> phase (ck_state h) \<le> phase (ck_state h')"
  by (cases rule: header_step.cases) (auto simp: loanedHeader_def phase_def)

lemma nextGeneration_position:
  assumes "g \<noteq> 0"
  shows "unat (nextGeneration g) - 1 = (unat g - 1 + 1) mod (2 ^ 32 - 1)"
proof (cases "g = - 1")
  case True
  then show ?thesis by (simp add: nextGeneration_eq unsigned_minus_1_eq_mask mask_eq_exp_minus_1)
next
  case False
  then have "unat g \<noteq> unat (- 1 :: u32)" by (simp add: word_unat_eq_iff)
  moreover have "unat g < 2 ^ 32" using unsigned_less [where 'a = nat, of g] by simp
  ultimately have "unat g < 2 ^ 32 - 1" by (simp add: unsigned_minus_1_eq_mask mask_eq_exp_minus_1)
  moreover have "0 < unat g" using assms by (simp add: unat_gt_0)
  ultimately show ?thesis using nextGeneration_unat [OF False] by simp
qed

lemma generations_position:
  "g \<noteq> 0 \<Longrightarrow> (nextGeneration ^^ m) g \<noteq> 0 \<and>
     unat ((nextGeneration ^^ m) g) - 1 = (unat g - 1 + m) mod (2 ^ 32 - 1)"
proof (induction m)
  case 0
  have "unat g - 1 < 2 ^ 32 - 1" using unsigned_less [where 'a = nat, of g] by simp
  then show ?case using 0 by simp
next
  case (Suc m)
  then show ?case using nextGeneration_position [of "(nextGeneration ^^ m) g"]
    by (simp add: mod_Suc_eq)
qed

lemma generation_cycle:
  assumes "(nextGeneration ^^ m) g = g" "m < 2 ^ 32 - 1"
  shows "m = 0"
proof (cases "g = 0")
  case True
  then show ?thesis using assms(1) by (cases m) auto
next
  case False
  define a where "a = unat g - 1"
  have "(a + m) mod (2 ^ 32 - 1) = a"
    using generations_position [OF False, of m] assms(1) by (simp add: a_def)
  moreover from this have "a < 2 ^ 32 - 1" using mod_less_divisor [of "2 ^ 32 - 1" "a + m"] by simp
  ultimately show ?thesis using assms(2) by (cases "a + m < 2 ^ 32 - 1") (simp_all add: le_mod_geq)
qed

section \<open>Chunks that stay published\<close>

definition allocations :: "PoolCall list \<Rightarrow> nat" where
  "allocations calls = length (filter is_Allocate calls)"

lemma call_phase:
  assumes inv: "pool_inv p" and i: "unat i < length (mp_directory p)"
  shows "is_Allocate c \<and> ck_generation (chunkHeader (pool_call c p) i) = nextGeneration (ck_generation (chunkHeader p i)) \<or>
    ck_generation (chunkHeader (pool_call c p) i) = ck_generation (chunkHeader p i) \<and>
    phase (ck_state (chunkHeader p i)) \<le> phase (ck_state (chunkHeader (pool_call c p) i))"
proof (cases "chunkHeader (pool_call c p) i = chunkHeader p i")
  case False
  then have "header_step (chunkHeader p i) (chunkHeader (pool_call c p) i)"
    using life_step_chunks [OF inv life_step_call [OF inv] _ i, of c] by simp
  moreover have "ck_generation (chunkHeader (pool_call c p) i) = ck_generation (chunkHeader p i)" if "\<not> is_Allocate c"
    using pool_call_generation [OF inv i, of c] that by (cases c) simp_all
  ultimately show ?thesis
    using header_step_phase nextGeneration_changes [of "ck_generation (chunkHeader p i)"] by metis
qed simp

lemma run_phase:
  assumes "pool_inv p" "unat i < length (mp_directory p)"
  shows "\<exists>m. m \<le> allocations cs \<and>
    ck_generation (chunkHeader (pool_run cs p) i) = (nextGeneration ^^ m) (ck_generation (chunkHeader p i)) \<and>
    (m = 0 \<longrightarrow> phase (ck_state (chunkHeader p i)) \<le> phase (ck_state (chunkHeader (pool_run cs p) i)))"
  using assms
proof (induction cs arbitrary: p)
  case Nil
  then show ?case by (auto simp: pool_run_def intro: exI [of _ 0])
next
  case (Cons c cs)
  have run: "pool_run (c # cs) p = pool_run cs (pool_call c p)" by (simp add: pool_run_def)
  obtain m where m: "m \<le> allocations cs"
    "ck_generation (chunkHeader (pool_run (c # cs) p) i) =
       (nextGeneration ^^ m) (ck_generation (chunkHeader (pool_call c p) i))"
    "m = 0 \<Longrightarrow> phase (ck_state (chunkHeader (pool_call c p) i)) \<le> phase (ck_state (chunkHeader (pool_run (c # cs) p) i))"
    using Cons.IH [OF pool_inv_call [OF Cons.prems(1)], of c] Cons.prems(2) unfolding run by auto
  from call_phase [OF Cons.prems, of c] show ?case
  proof (elim disjE conjE)
    assume "is_Allocate c"
      "ck_generation (chunkHeader (pool_call c p) i) = nextGeneration (ck_generation (chunkHeader p i))"
    then show ?thesis using m by (intro exI [of _ "Suc m"]) (simp add: allocations_def funpow_swap1)
  next
    assume "ck_generation (chunkHeader (pool_call c p) i) = ck_generation (chunkHeader p i)"
      "phase (ck_state (chunkHeader p i)) \<le> phase (ck_state (chunkHeader (pool_call c p) i))"
    then show ?thesis using m by (intro exI [of _ m]) (auto simp: allocations_def)
  qed
qed

text \<open>A handle that is valid and published at both ends of a run was published throughout.\<close>

lemma published_throughout:
  assumes inv: "pool_inv p" and start: "handle_valid p h" "handle_state p h = Published"
    and finish: "handle_valid (pool_run cs p) h" "handle_state (pool_run cs p) h = Published"
    and few: "allocations cs < 2 ^ 32 - 1"
  shows "handle_state (pool_run (take k cs) p) h = Published"
proof -
  let ?i = "ch_chunk_index h"
  define r where "r = pool_run (take k cs) p"
  have end_run: "pool_run cs p = pool_run (drop k cs) r"
    unfolding r_def pool_run_def by (metis append_take_drop_id fold_append comp_apply map_append)
  note i = handle_valid_lt [OF start(1)]
  have i': "unat ?i < length (mp_directory r)" using i by (simp add: r_def)
  obtain m where m: "m \<le> allocations (take k cs)"
    "ck_generation (chunkHeader r ?i) = (nextGeneration ^^ m) (ck_generation (chunkHeader p ?i))"
    "m = 0 \<Longrightarrow> phase (ck_state (chunkHeader p ?i)) \<le> phase (ck_state (chunkHeader r ?i))"
    using run_phase [OF inv i, of "take k cs"] unfolding r_def by blast
  obtain n where n: "n \<le> allocations (drop k cs)"
    "ck_generation (chunkHeader (pool_run cs p) ?i) = (nextGeneration ^^ n) (ck_generation (chunkHeader r ?i))"
    "n = 0 \<Longrightarrow> phase (ck_state (chunkHeader r ?i)) \<le> phase (ck_state (chunkHeader (pool_run cs p) ?i))"
    using run_phase [OF pool_inv_run [OF inv] i' [unfolded r_def], of "drop k cs"] unfolding end_run r_def by blast
  have split: "allocations (take k cs) + allocations (drop k cs) = allocations cs"
    unfolding allocations_def by (metis append_take_drop_id filter_append length_append)
  have "ck_generation (chunkHeader (pool_run cs p) ?i) = ck_generation (chunkHeader p ?i)"
    using start(1) finish(1) by (simp add: handle_valid_def handleMatches_def)
  then have "(nextGeneration ^^ (n + m)) (ck_generation (chunkHeader p ?i)) = ck_generation (chunkHeader p ?i)"
    using m(2) n(2) by (simp add: funpow_add)
  then have "n + m = 0" using m(1) n(1) split few by (intro generation_cycle) simp_all
  then have "phase (ck_state (chunkHeader r ?i)) = 1"
    using m(3) n(3) start(2) finish(2) by (simp add: phase_def)
  then show ?thesis unfolding r_def [symmetric] by (simp add: phase_def split: if_splits)
qed
section \<open>The publisher as a client of the pool\<close>

text \<open>\<open>via k q q'\<close>: pool \<open>q'\<close> comes from \<open>q\<close> by calls with at most \<open>k\<close> allocations.\<close>

definition via :: "nat \<Rightarrow> MemoryPool option \<Rightarrow> MemoryPool option \<Rightarrow> bool" where
  "via k q q' \<longleftrightarrow> (case q of None \<Rightarrow> q' = None
     | Some p \<Rightarrow> \<exists>calls. q' = Some (pool_run calls p) \<and> allocations calls \<le> k)"

lemma via_Some: "via k (Some p) q \<longleftrightarrow> (\<exists>calls. q = Some (pool_run calls p) \<and> allocations calls \<le> k)"
  by (simp add: via_def)

lemma via_refl [simp]: "via k q q"
  by (auto simp: via_def pool_run_def allocations_def split: option.splits intro!: exI [of _ "[]"])

lemma via_mono: "via j q r \<Longrightarrow> j \<le> k \<Longrightarrow> via k q r"
  by (cases q) (auto simp: via_def)

lemma via_trans: "via j q r \<Longrightarrow> via k r t \<Longrightarrow> via (j + k) q t"
proof (cases q)
  case (Some p)
  assume "via j q r" "via k r t"
  then obtain cs ds where "r = Some (pool_run cs p)" "allocations cs \<le> j"
    "t = Some (pool_run ds (pool_run cs p))" "allocations ds \<le> k"
    by (auto simp: Some via_def)
  then show ?thesis
    by (auto simp: Some via_Some pool_run_def allocations_def intro!: exI [of _ "cs @ ds"])
qed (auto simp: via_def)

lemma via_trans0: "via 0 q r \<Longrightarrow> via k r t \<Longrightarrow> via k q t" "via k q r \<Longrightarrow> via 0 r t \<Longrightarrow> via k q t"
  using via_trans [of 0 q r k t] via_trans [of k q r 0 t] by simp_all

lemma via_call: "via (if is_Allocate c then 1 else 0) (Some p) (Some (pool_call c p))"
  unfolding via_Some by (intro exI [of _ "[c]"]) (simp add: pool_run_def allocations_def)

lemma via_pool_ops [simp]:
  "via 0 (Some p) (Some (snd (pool_addReference h p)))" "via 0 (Some p) (Some (snd (pool_release h p)))"
  "via 0 (Some p) (Some (snd (pool_reclaim h p)))" "via 0 (Some p) (Some (snd (pool_cancel h p)))"
  "via 0 (Some p) (Some (snd (pool_writeAndPublish h data n sequence ts refs p)))"
  "via 0 (Some p) (Some (snd (pool_publishLoaned h n sequence ts refs p)))"
  "via 0 (Some p) (Some (userWrite h off bs p))" "via 1 (Some p) (Some (snd (pool_allocate n p)))"
  using via_call [of "AddReference h" p] via_call [of "Release h" p] via_call [of "Reclaim h" p]
    via_call [of "Cancel h" p] via_call [of "WriteAndPublish h data n sequence ts refs" p]
    via_call [of "PublishLoaned h n sequence ts refs" p] via_call [of "UserWrite h off bs" p]
    via_call [of "Allocate n" p]
  by simp_all

lemma via_cancel [simp]: "via 0 q (map_option (\<lambda>p. snd (pool_cancel h p)) q)"
  by (cases q) simp_all

lemma via_release [simp]: "via 0 q (snd (releaseReference h q))"
proof (cases q)
  case (Some p)
  have "via 0 (Some (snd (pool_release h p))) (snd (releaseReference h q))"
    by (auto simp: Some releaseReference_def split: prod.splits)
      (metis snd_conv via_pool_ops(3))
  then show ?thesis using via_trans0(1) [OF via_pool_ops(2)] by (simp add: Some)
qed (simp add: via_def releaseReference_def)

lemma via_fold_release: "via 0 q (fold (\<lambda>h q. snd (releaseReference h q)) hs q)"
proof (induction hs arbitrary: q)
  case (Cons h hs)
  show ?case using via_trans0(1) [OF via_release Cons.IH] by simp
qed simp

text \<open>
  \<open>client H k s s'\<close>: an operation that makes calls of the pool with at most \<open>k\<close> allocations and hands
  out no handles but those of \<open>H\<close>.
\<close>

abbreviation handlesOf :: "DataConnection list \<Rightarrow> ChunkHandle set" where
  "handlesOf cs \<equiv> set_mset (outstandingOf cs)"

definition client :: "ChunkHandle set \<Rightarrow> nat \<Rightarrow> PublisherImpl \<Rightarrow> PublisherImpl \<Rightarrow> bool" where
  "client H k s s' \<longleftrightarrow> via k (pi_pool s) (pi_pool s') \<and>
     handlesOf (pi_connections s') \<subseteq> handlesOf (pi_connections s) \<union> H"

lemma client_refl [simp]: "client H k s s"
  by (simp add: client_def)

lemma client_same:
  "client H k s t \<Longrightarrow> pi_pool u = pi_pool t \<Longrightarrow> pi_connections u = pi_connections t \<Longrightarrow> client H k s u"
  by (simp add: client_def)

lemma client_mono: "client H j s t \<Longrightarrow> H \<subseteq> G \<Longrightarrow> j \<le> k \<Longrightarrow> client G k s t"
  using via_mono by (fastforce simp: client_def)

lemma client_trans: "client H j s t \<Longrightarrow> client G k t u \<Longrightarrow> client (H \<union> G) (j + k) s u"
  using via_trans by (fastforce simp: client_def)

lemma client_quiet: "client {} 0 s t \<Longrightarrow> client H k t u \<Longrightarrow> client H k s u"
  using client_trans [of "{}" 0 s t H k u] by simp

lemma client_fold: "(\<And>x t. client {} 0 t (f x t)) \<Longrightarrow> client {} 0 s (fold f xs s)"
  by (rule fold_keeps [where P = "client {} 0 s"]) (auto intro: client_quiet)

lemma handlesOf_filter: "handlesOf (filter P cs) \<subseteq> handlesOf cs"
  by (induction cs) auto

lemma eraseConnections_via: "eraseConnections env dead cs s = (cs', s') \<Longrightarrow> via 0 (pi_pool s) (pi_pool s')"
proof (induction cs arbitrary: s cs')
  case (Cons c cs)
  have "via 0 (pi_pool s) (pi_pool (dropConnection env c s))"
    by (simp add: dropConnection_def releaseAllOutstanding_def via_fold_release)
  then show ?case using Cons via_trans0(1) by (auto split: if_splits prod.splits)
qed simp

lemma removeEndpoint_client: "client {} 0 s (removeEndpoint env e s)"
  using eraseConnections_via [of env "\<lambda>c. dc_endpoint_id c = e" "pi_connections s" s] handlesOf_filter
  by (auto simp: client_def) (auto simp: removeEndpoint_def split: prod.splits)

lemma releaseOutstanding_via:
  "releaseOutstanding c h q = (c', q') \<Longrightarrow> via 0 q q' \<and> set (dc_outstanding c') \<subseteq> set (dc_outstanding c)"
  using set_remove1_subset by (fastforce simp: releaseOutstanding_def split: if_splits)

lemma receiveOneRelease_via:
  "receiveOneRelease c q rs = (status, c', q', rs') \<Longrightarrow> via 0 q q' \<and> set (dc_outstanding c') \<subseteq> set (dc_outstanding c)"
  using releaseOutstanding_via
  by (fastforce simp: receiveOneRelease_def Let_def split: prod.splits option.splits FillStatus.splits)

lemma drainConnection_via:
  "drainConnection c q rs = (gone, c', q', rs') \<Longrightarrow> via 0 q q' \<and> set (dc_outstanding c') \<subseteq> set (dc_outstanding c)"
proof (induction c q rs rule: drainConnection.induct)
  case (1 c q rs)
  obtain status c1 q1 rs1 where r: "receiveOneRelease c q rs = (status, c1, q1, rs1)"
    by (metis prod_cases4)
  note step = receiveOneRelease_via [OF r]
  show ?case
  proof (cases status)
    case Progress
    then have "drainConnection c1 q1 rs1 = (gone, c', q', rs')"
      using 1(2) r by (subst (asm) drainConnection.simps) simp
    then show ?thesis using 1(1) [OF r [symmetric]] Progress step via_trans0(1) [of q q1 0 q'] by auto
  qed (use 1(2) r step in \<open>subst (asm) drainConnection.simps, auto\<close>)+
qed

lemma drainConnections_via:
  "drainConnections env cs s = (cs', s') \<Longrightarrow> via 0 (pi_pool s) (pi_pool s') \<and> handlesOf cs' \<subseteq> handlesOf cs"
proof (induction cs arbitrary: s cs')
  case (Cons c cs)
  obtain gone c1 q1 rs1 where d:
    "drainConnection c (pi_pool s) (po_inbox (pi_os s) (dc_socket c)) = (gone, c1, q1, rs1)"
    by (metis prod_cases4)
  note one = drainConnection_via [OF d]
  let ?s = "s\<lparr>pi_pool := q1, pi_os := (pi_os s)\<lparr>po_inbox := (po_inbox (pi_os s))(dc_socket c1 := rs1)\<rparr>\<rparr>"
  show ?case
  proof (cases gone)
    case True
    have "via 0 q1 (pi_pool (dropConnection env c1 ?s))"
      by (simp add: dropConnection_def releaseAllOutstanding_def via_fold_release)
    moreover obtain t where "drainConnections env cs t = (cs', s')" "pi_pool t = pi_pool (dropConnection env c1 ?s)"
      using Cons.prems True d by (simp add: Let_def)
    ultimately show ?thesis using Cons.IH [of t] one via_trans0(1) by fastforce
  next
    case False
    obtain ds where ds: "drainConnections env cs ?s = (ds, s')" "cs' = c1 # ds"
      using Cons.prems d False by (auto simp: Let_def split: prod.splits)
    from Cons.IH [OF ds(1)] show ?thesis using one via_trans0(1) [of "pi_pool s" q1] by (auto simp: ds(2))
  qed
qed simp

lemma drainReleases_client: "client {} 0 s (drainReleasesNonBlocking env s)"
  by (auto simp: client_def drainReleasesNonBlocking_def split: prod.splits dest: drainConnections_via)

lemma processPeerEvents_client: "client {} 0 s (publisher_processPeerEvents env s)"
proof (cases rule: processPeerEvents_forms [of env s])
  case (2 events session)
  have "client {} 0 t (handlePeerEvent env event t)" for event t
    using removeEndpoint_client by (simp add: handlePeerEvent_def)
  note events = client_fold [where f = "handlePeerEvent env", OF this]
  show ?thesis unfolding 2
    by (rule client_quiet [OF client_same [OF drainReleases_client] events]) simp_all
qed simp
lemma applyDiscovery_client: "applyDiscovery env subscribers s = (e, s') \<Longrightarrow> client {} 0 s s'"
proof -
  assume a: "applyDiscovery env subscribers s = (e, s')"
  define ids where "ids = set (map rsu_endpoint_id subscribers)"
  obtain cs s1 where erase: "eraseConnections env (\<lambda>c. dc_endpoint_id c \<notin> ids) (pi_connections s) s = (cs, s1)"
    by fastforce
  let ?t = "s1\<lparr>pi_connections := cs, pi_failed_endpoint_ids := pi_failed_endpoint_ids s1 \<inter> ids\<rparr>"
  have "client {} 0 s ?t"
    using eraseConnections_via [OF erase] eraseConnections_frame [OF erase] handlesOf_filter
    by (auto simp: client_def)
  moreover have "client {} 0 ?t (fold (connectSubscriber env) subscribers ?t)"
    by (rule client_fold) (simp add: client_def connectSubscriber_frame)
  moreover have "pi_pool s' = pi_pool (fold (connectSubscriber env) subscribers ?t) \<and>
      pi_connections s' = pi_connections (fold (connectSubscriber env) subscribers ?t)"
    using a erase by (auto simp: applyDiscovery_def ids_def Let_def)
  ultimately show ?thesis using client_quiet client_same by blast
qed

lemma connectDiscoveredEndpoints_client: "connectDiscoveredEndpoints env s = Some (e, s') \<Longrightarrow> client {} 0 s s'"
proof (cases "pi_registry_session s = None")
  case False
  assume c: "connectDiscoveredEndpoints env s = Some (e, s')"
  define s1 where "s1 = publisher_processPeerEvents env s"
  have s1: "client {} 0 s s1" unfolding s1_def by (rule processPeerEvents_client)
  consider "s' = s1" | session where "s' = s1\<lparr>pi_registry_session := session\<rparr>"
    | session subscribers where "applyDiscovery env subscribers (s1\<lparr>pi_registry_session := session\<rparr>) = (e, s')"
    using c False unfolding connectDiscoveredEndpoints_def
    by (simp add: Let_def s1_def [symmetric] split: if_splits bind_splits prod.splits sum.splits Exception.splits)
      blast+
  then show ?thesis
  proof cases
    case (3 session subscribers)
    show ?thesis by (rule client_quiet [OF client_same [OF s1] applyDiscovery_client [OF 3]]) simp_all
  qed (use s1 in \<open>auto elim: client_same\<close>)
qed (simp add: connectDiscoveredEndpoints_def)

lemma afterEnqueue_via:
  assumes "afterEnqueue h c enqueue d = (c', d')"
  shows "via 0 (di_pool d) (di_pool d') \<and> set (dc_outstanding c') \<subseteq> insert h (set (dc_outstanding c))"
proof (cases "er_status enqueue = Accepted")
  case True
  then show ?thesis
    using assms releaseOutstanding_via [of "c\<lparr>dc_outstanding := dc_outstanding c @ [h]\<rparr>"]
    by (fastforce simp: afterEnqueue_def Let_def split: option.splits prod.splits if_splits)
next
  case False
  then show ?thesis using assms by (auto simp: afterEnqueue_def Let_def split: if_splits)
qed

lemma dispatchTo_via:
  assumes result: "dispatchTo env limit h c d = Some (c', d')"
  shows "via 0 (di_pool d) (di_pool d') \<and> set (dc_outstanding c') \<subseteq> insert h (set (dc_outstanding c))"
proof -
  consider "c' = c" "di_pool d' = di_pool d"
    | p where "di_pool d = Some p" "c' = c" "di_pool d' = Some (snd (pool_addReference h p))"
    | p where "di_pool d = Some p" "c' = c" "di_pool d' = snd (releaseReference h (Some (snd (pool_addReference h p))))"
    | p enqueue queues where "di_pool d = Some p"
      "afterEnqueue h c enqueue (d\<lparr>di_pool := Some (snd (pool_addReference h p)), di_queues := queues\<rparr>) = (c', d')"
    using result
    by (auto simp: dispatchTo_def split_def Let_def split: option.splits if_splits bind_splits)
  then show ?thesis
  proof cases
    case (3 p)
    then show ?thesis using via_trans0(1) [OF via_pool_ops(1) via_release] by auto
  next
    case (4 p enqueue queues)
    from afterEnqueue_via [OF 4(2)] show ?thesis
      using via_trans0(1) [OF via_pool_ops(1) [of p h]] by (simp add: 4(1))
  qed auto
qed

lemma dispatchAll_via:
  "dispatchAll env limit h cs d = Some (cs', d') \<Longrightarrow>
     via 0 (di_pool d) (di_pool d') \<and> handlesOf cs' \<subseteq> insert h (handlesOf cs)"
proof (induction cs arbitrary: d cs')
  case (Cons c cs)
  obtain c1 d1 ds where step: "dispatchTo env limit h c d = Some (c1, d1)"
    "dispatchAll env limit h cs d1 = Some (ds, d')" "cs' = c1 # ds"
    using Cons.prems by (auto split: bind_splits)
  show ?case using dispatchTo_via [OF step(1)] Cons.IH [OF step(2)] via_trans0(1) by (auto simp: step(3))
qed simp

lemma dispatchPublished_client:
  assumes "dispatchPublished env h n sequence s = Some (r, s')"
  shows "client {h} 0 s s'"
proof -
  obtain cs d limit d0 where all: "dispatchAll env limit h (pi_connections s) d0 = Some (cs, d)" "di_pool d0 = pi_pool s"
    and s': "s' = fold (removeEndpoint env) (di_failed_endpoints d)
      (s\<lparr>pi_connections := cs, pi_pool := snd (releaseReference h (di_pool d)),
         pi_os := (pi_os s)\<lparr>po_queues := di_queues d\<rparr>, pi_sequence := sequence\<rparr>)" (is "_ = fold _ _ ?t")
    using assms by (auto simp: dispatchPublished_def split: bind_splits)
  have "client {h} 0 s ?t"
    using dispatchAll_via [OF all(1)] via_trans0(1) [OF _ via_release] by (auto simp: client_def all(2))
  moreover have "client {} 0 ?t s'" unfolding s' by (rule client_fold) (rule removeEndpoint_client)
  ultimately show ?thesis using client_trans by fastforce
qed

text \<open>A handle that a publication hands out is the one it published.\<close>

lemma publishSharedMemoryCopy_client:
  assumes result: "publishSharedMemoryCopy env data n sequence s = Some (r, s')"
  shows "client UNIV 1 s s'"
    and "h \<in> handlesOf (pi_connections s') \<Longrightarrow> h \<notin> handlesOf (pi_connections s) \<Longrightarrow>
      \<exists>p p1 p2. pi_pool s = Some p \<and> via 1 (Some p) (Some p1) \<and>
        pool_writeAndPublish h data n sequence (pv_timestamp env) 1 p1 = (Ok, p2) \<and> via 0 (Some p2) (pi_pool s')"
proof -
  obtain p where p: "pi_pool s = Some p" using result by (auto simp: publishSharedMemoryCopy_def split: bind_splits)
  obtain a p1 where a: "pool_allocate n p = (a, p1)" by fastforce
  have via1: "via 1 (Some p) (Some p1)" using via_pool_ops(8) [of p n] a by simp
  obtain e p2 where w: "pool_writeAndPublish (ar_handle a) data n sequence (pv_timestamp env) 1 p1 = (e, p2)" by fastforce
  have via2: "via 1 (Some p) (Some p2)"
    using via_trans0(2) [OF via1] via_pool_ops(5) [of p1 "ar_handle a" data n sequence "pv_timestamp env" 1] w by simp
  consider "s' = s\<lparr>pi_pool := Some p1\<rparr>" | "s' = s\<lparr>pi_pool := Some (snd (pool_cancel (ar_handle a) p2))\<rparr>"
    | "e = Ok" "dispatchPublished env (ar_handle a) n sequence (s\<lparr>pi_pool := Some p2\<rparr>) = Some (r, s')"
    using result p a w by (auto simp: publishSharedMemoryCopy_def Let_def split: if_splits)
  then have "client UNIV 1 s s' \<and> (h \<in> handlesOf (pi_connections s') \<longrightarrow> h \<notin> handlesOf (pi_connections s) \<longrightarrow>
      h = ar_handle a \<and> e = Ok \<and> via 0 (Some p2) (pi_pool s'))"
  proof cases
    case 3
    from dispatchPublished_client [OF 3(2)] show ?thesis
      using via_trans0(2) [OF via2] 3(1) by (auto simp: client_def p)
  qed (use via1 via_trans0(2) [OF via2] in \<open>auto simp: client_def p\<close>)
  then show "client UNIV 1 s s'"
    "h \<in> handlesOf (pi_connections s') \<Longrightarrow> h \<notin> handlesOf (pi_connections s) \<Longrightarrow>
      \<exists>p p1 p2. pi_pool s = Some p \<and> via 1 (Some p) (Some p1) \<and>
        pool_writeAndPublish h data n sequence (pv_timestamp env) 1 p1 = (Ok, p2) \<and> via 0 (Some p2) (pi_pool s')"
    using p via1 w by blast+
qed
lemma publishUds_client:
  assumes "publishUds env payload n sequence s = Some (r, s')"
  shows "client {} 0 s s'"
proof -
  obtain header cs e m os where loop: "udsLoop env header payload (pi_connections s) (Ok, 0, pi_os s) = Some (cs, e, m, os)"
    and s': "pi_connections s' = cs" "pi_pool s' = pi_pool s"
    using assms by (auto simp: publishUds_def Let_def split: bind_splits if_splits)
  show ?thesis using set_mset_mono [OF udsLoop_outstanding [OF loop]] by (simp add: client_def s')
qed

text \<open>What comes before the publication of a message.\<close>

lemma prepare_client:
  "connectDiscoveredEndpoints env (drainReleasesNonBlocking env s) = Some (e, s') \<Longrightarrow> client {} 0 s s'"
  by (rule client_quiet [OF drainReleases_client connectDiscoveredEndpoints_client])

lemma Publisher_publish_forms:
  assumes "Publisher_publish env data n (Some s) = Some (r, Some s')"
  obtains "client {} 0 s s'"
  | s1 where "client {} 0 s s1" "connectDiscoveredEndpoints env (drainReleasesNonBlocking env s) = Some (Ok, s1)"
      "publishSharedMemoryCopy env data n (pi_sequence s1 + 1) s1 = Some (r, s')"
proof -
  define s0 where "s0 = drainReleasesNonBlocking env s"
  consider "s' = s" | e where "connectDiscoveredEndpoints env s0 = Some (e, s')"
    | s1 where "connectDiscoveredEndpoints env s0 = Some (Ok, s1)"
      "publishSharedMemoryCopy env data n (pi_sequence s1 + 1) s1 = Some (r, s')"
    | s1 payload where "connectDiscoveredEndpoints env s0 = Some (Ok, s1)"
      "publishUds env payload n (pi_sequence s1 + 1) s1 = Some (r, s')"
    using assms unfolding Publisher_publish_def
    by (auto simp: Let_def s0_def [symmetric] split: if_splits bind_splits)
  then show thesis
  proof cases
    case (2 e)
    then show thesis using that(1) prepare_client by (simp add: s0_def)
  next
    case (3 s1)
    then show thesis using that(2) prepare_client by (simp add: s0_def)
  next
    case (4 s1 payload)
    then show thesis using that(1) client_quiet [OF prepare_client publishUds_client] by (simp add: s0_def)
  qed (use that in simp)
qed

lemma Publisher_publish_client:
  assumes "Publisher_publish env data n (Some s) = Some (r, Some s')"
  shows "client UNIV 1 s s'"
  using assms
proof (cases rule: Publisher_publish_forms)
  case 1
  then show ?thesis by (rule client_mono) simp_all
next
  case (2 s1)
  show ?thesis by (rule client_quiet [OF 2(1) publishSharedMemoryCopy_client(1) [OF 2(3)]])
qed

lemma allocateLoan_client:
  assumes "allocateLoan env n s = (r, s')"
  shows "client UNIV 1 s s'"
proof -
  define s1 where "s1 = drainReleasesNonBlocking env (publisher_processPeerEvents env s)"
  have s1: "client {} 0 s s1"
    unfolding s1_def by (rule client_quiet [OF processPeerEvents_client drainReleases_client])
  consider "s' = s" | "s' = s1" | p a p1 where "pi_pool s1 = Some p" "pool_allocate n p = (a, p1)"
      "s' = s1\<lparr>pi_pool := Some p1\<rparr> \<or> (\<exists>h. s' = s1\<lparr>pi_pool := Some (snd (pool_cancel h p1))\<rparr>)"
    using assms unfolding allocateLoan_def
    by (auto simp: Let_def s1_def [symmetric] split: if_splits option.splits prod.splits)
  then show ?thesis
  proof cases
    case (3 p a p1)
    have "via 1 (pi_pool s1) (Some p1)" using via_pool_ops(8) [of p n] by (simp add: 3(1,2))
    then have "client UNIV 1 s1 s'"
      using 3(3) via_trans0(2) [OF _ via_pool_ops(4)] by (auto simp: client_def)
    then show ?thesis by (rule client_quiet [OF s1])
  qed (use client_mono [OF s1, of UNIV 1] in simp_all)
qed

lemma publishLoanedSample_client:
  assumes "publishLoanedSample env h n s = Some (r, s')"
  shows "client UNIV 0 s s'"
proof -
  let ?cancelled = "\<lambda>s. s\<lparr>pi_pool := map_option (\<lambda>p. snd (pool_cancel h p)) (pi_pool s)\<rparr>"
  define s1 where "s1 = drainReleasesNonBlocking env s"
  have cancel: "client H 0 t (?cancelled t)" for H t by (simp add: client_def)
  consider "s' = s" | "s' = ?cancelled s"
    | e s2 where "connectDiscoveredEndpoints env s1 = Some (e, s2)" "s' = ?cancelled s2"
    | s2 p e p1 where "connectDiscoveredEndpoints env s1 = Some (Ok, s2)" "pi_pool s2 = Some p"
      "pool_publishLoaned h n (pi_sequence s2 + 1) (pv_timestamp env) 1 p = (e, p1)"
      "s' = ?cancelled (s2\<lparr>pi_pool := Some p1\<rparr>) \<or>
       dispatchPublished env h n (pi_sequence s2 + 1) (s2\<lparr>pi_pool := Some p1\<rparr>) = Some (r, s')"
    using assms unfolding publishLoanedSample_def
    by (auto simp: Let_def s1_def [symmetric] split: if_splits bind_splits prod.splits)
  then show ?thesis
  proof cases
    case (3 e s2)
    then show ?thesis using client_quiet [OF prepare_client cancel] by (simp add: s1_def)
  next
    case (4 s2 p e p1)
    have "client {} 0 s2 (s2\<lparr>pi_pool := Some p1\<rparr>)"
      using via_pool_ops(6) [of p h n "pi_sequence s2 + 1" "pv_timestamp env" 1] 4(3) by (simp add: client_def 4(2))
    moreover have "client UNIV 0 (s2\<lparr>pi_pool := Some p1\<rparr>) s'"
      using 4(4) cancel dispatchPublished_client client_mono by blast
    ultimately show ?thesis using prepare_client [OF 4(1) [unfolded s1_def]] client_quiet by blast
  qed (use cancel in simp_all)
qed

lemma publisher_step_client:
  assumes "publisher_step step s = Some s'"
  shows "client UNIV 1 s s'"
proof (cases step)
  case (PublishMessage env data n)
  then show ?thesis using assms Publisher_publish_client by (fastforce split: bind_splits)
next
  case (LoanChunk env n)
  then show ?thesis using assms allocateLoan_client [of env n s] by (metis option.inject prod.collapse publisher_step.simps(2))
next
  case (PublishLoan env h n)
  then show ?thesis using assms publishLoanedSample_client client_mono by fastforce
next
  case (CancelLoan h)
  then show ?thesis
    using assms via_mono [OF via_pool_ops(4)] by (auto simp: cancelLoanedSample_def client_def split: option.splits)
next
  case (WriteLoan h off bs)
  then show ?thesis using assms via_mono [OF via_pool_ops(7)] by (cases "pi_pool s") (auto simp: client_def)
qed (use assms in \<open>auto simp: arrive_def client_def\<close>)

lemma publisher_run_client: "publisher_run steps s = Some s' \<Longrightarrow> client UNIV (length steps) s s'"
proof (induction steps arbitrary: s)
  case (Cons step steps)
  obtain t where t: "publisher_step step s = Some t" "publisher_run steps t = Some s'"
    using Cons.prems by (auto split: bind_splits)
  show ?case using client_trans [OF publisher_step_client [OF t(1)] Cons.IH [OF t(2)]] by simp
qed simp
section \<open>Messages of outstanding handles\<close>

lemma via_inv: "via k (Some p) (Some p') \<Longrightarrow> pool_inv p \<Longrightarrow> pool_inv p'"
  by (auto simp: via_Some pool_inv_run)

lemma via_view: "via k (Some p) (Some p') \<Longrightarrow> view_of region p' = view_of region p"
  by (auto simp: via_Some view_of_def)

lemma registry_pool:
  assumes "Publisher_registry topic config session env os = Some (Inr s, rest)" "pi_pool s = Some p"
  obtains d pid shm shm' where "MemoryPool_create d (pc_memory_pool config) pid (px_create env) shm = (Inr p, shm')"
  using assms by (auto simp: Publisher_registry_def newPublisher_def Let_def
      split: option.splits prod.splits sum.splits if_splits bind_splits)

lemma registry_run_pool:
  assumes "Publisher_registry topic config session env os = Some (Inr s0, rest)"
    "publisher_run steps s0 = Some s" "pi_pool s = Some p"
  obtains p0 where "pi_pool s0 = Some p0" "via (length steps) (Some p0) (Some p)" "pool_inv p0"
proof -
  have "via (length steps) (pi_pool s0) (Some p)"
    using publisher_run_client [OF assms(2)] assms(3) by (simp add: client_def)
  then obtain p0 where "pi_pool s0 = Some p0" "via (length steps) (Some p0) (Some p)"
    by (cases "pi_pool s0") (auto simp: via_def)
  then show thesis using that registry_pool [OF assms(1)] pool_inv_create by metis
qed

text \<open>
  The message of a handle can be read, unchanged, for as long as the handle is outstanding.
\<close>

lemma outstanding_message:
  assumes created: "Publisher_registry topic config session env os = Some (Inr s0, rest)"
    and before: "publisher_run before s0 = Some s1"
    and publish: "Publisher_publish penv (Some data) n (Some s1) = Some (r, Some s2)"
    and fresh: "h \<in># outstanding s2" "h \<notin># outstanding s1"
    and later: "publisher_run later s2 = Some s3" "length later < 2 ^ 32 - 1"
    and held: "h \<in># outstanding s3" and size: "length data = unat n" "n \<le> m"
  obtains p3 where "pi_pool s3 = Some p3"
    "\<And>region :: SharedMemoryRegion. cv_error (view_read h m (view_of region p3) (mp_memory p3)) = Ok \<and>
       read_bytes (view_read h m (view_of region p3) (mp_memory p3)) (mp_memory p3) = data \<and>
       cv_sequence (view_read h m (view_of region p3) (mp_memory p3)) = pi_sequence s1 + 1 \<and>
       cv_publish_timestamp_ns (view_read h m (view_of region p3) (mp_memory p3)) = pv_timestamp penv"
proof -
  have ok1: "impl_ok UNIV (pi_pool s0) s1" using publisher_run_ok [OF before impl_ok_new [OF created]] by blast
  have ok2: "impl_ok UNIV (pi_pool s0) s2" using Publisher_publish_ok [OF ok1 publish] by blast
  have ok3: "impl_ok UNIV (pi_pool s0) s3" using publisher_run_ok [OF later(1) ok2] by blast
  obtain s where s: "client {} 0 s1 s" "connectDiscoveredEndpoints penv (drainReleasesNonBlocking penv s1) = Some (Ok, s)"
    "publishSharedMemoryCopy penv (Some data) n (pi_sequence s + 1) s = Some (r, s2)"
    using fresh by (cases rule: Publisher_publish_forms [OF publish]) (auto simp: client_def)
  have sequence: "pi_sequence s = pi_sequence s1"
    using connectDiscoveredEndpoints_accounted [OF _ s(2), of UNIV "pi_pool s0" "{#}"]
      drainReleases_accounted [of UNIV "pi_pool s0" s1 "{#}" penv] ok1 by simp
  have "h \<notin># outstanding s" using fresh(2) s(1) by (auto simp: client_def)
  then obtain p p1 p2 where p: "pi_pool s = Some p" "via 1 (Some p) (Some p1)"
    "pool_writeAndPublish h (Some data) n (pi_sequence s1 + 1) (pv_timestamp penv) 1 p1 = (Ok, p2)"
    "via 0 (Some p2) (pi_pool s2)"
    using publishSharedMemoryCopy_client(2) [OF s(3) fresh(1)] by (auto simp: sequence)
  obtain q1 where q1: "pi_pool s1 = Some q1" using s(1) p(1) by (cases "pi_pool s1") (auto simp: client_def via_def)
  obtain p0 where p0: "pool_inv p0" "via (length before) (Some p0) (pi_pool s1)"
    by (rule registry_run_pool [OF created before q1]) (use q1 in simp)
  have "via (length before + 1) (Some p0) (Some p1)"
    using via_trans [OF via_trans0(2) [OF p0(2)] p(2)] s(1) p(1) by (simp add: client_def)
  then have inv: "pool_inv p1" using p0(1) via_inv by blast
  have "via (length later) (Some p2) (pi_pool s3)"
    using via_trans0(1) [OF p(4)] publisher_run_client [OF later(1)] by (simp add: client_def)
  then obtain cs where cs: "pi_pool s3 = Some (pool_run cs p2)" "allocations cs \<le> length later"
    by (auto simp: via_Some)
  have refs: "refs_ok (outstanding s3) (pool_run cs p2)" using ok3 cs(1) by (simp add: accounts_Some)
  note start = published_read(5,6) [OF inv p(3) size]
  have inv2: "pool_inv p2" using via_inv [OF _ inv] via_pool_ops(5) p(3) by (metis snd_conv)
  have published: "\<forall>k \<le> length cs. handle_state (pool_run (take k cs) p2) h = Published"
    using published_throughout [OF inv2 start refs_ok_valid [OF refs held] refs_ok_published [OF refs held]]
      cs(2) later(2) by simp
  have "via 0 (Some p1) (Some p2)" using via_pool_ops(5) p(3) by (metis snd_conv)
  moreover have "via (length later) (Some p2) (Some (pool_run cs p2))" using cs(2) by (auto simp: via_Some)
  ultimately have view: "view_of region (pool_run cs p2) = view_of region p1" for region :: SharedMemoryRegion
    using via_view by metis
  show thesis
    by (rule that [OF cs(1)]) (simp add: view published_read_later [OF inv p(3) size published])
qed


end
