(* ===== verification/MW_Delivery_Properties.thy ===== *)
theory MW_Delivery_Properties
  imports MW_Subscriber MW_Publisher_Calls MW_Publisher_Properties MW_Queue_Properties
begin

text \<open>
  Messages on their way from the publisher to the application of a subscriber and back: the model of
  \<open>src/middleware/src/publisher.cpp\<close> meets that of \<open>src/middleware/src/subscriber.cpp\<close> in the pool, the
  queue and the socket between them.
\<close>

section \<open>Taking a message\<close>

lemma dequeue_head:
  assumes "ring_ok q" "queue_list q = h # hs"
  obtains q' where "queue_tryDequeue lockOk q = (Some h, q')" "ring_ok q'" "queue_list q' = hs"
proof -
  obtain r q' where d: "queue_tryDequeue lockOk q = (r, q')" by fastforce
  have "r \<noteq> None"
    using d assms(2) queue_list_empty [of q] by (auto simp: queue_tryDequeue_def PthreadLock_def Let_def split: if_splits)
  moreover have "queue_list q = (case r of None \<Rightarrow> [] | Some h \<Rightarrow> [h]) @ queue_list q'"
    by (rule ring_fifo.get_front [OF assms(1) d])
  ultimately have "r = Some h" "queue_list q' = hs" using assms(2) by (cases r; simp)+
  then show thesis using that d ring_fifo.get_inv [OF assms(1) d] by simp
qed

lemma view_read_payload: "cv_error (view_read h m view mem) = Ok \<Longrightarrow> cv_payload (view_read h m view mem) \<noteq> None"
  by (auto simp: view_read_def Let_def split: if_splits option.splits)

text \<open>
  A subscriber that is ready to take a message: its queue, mapping and connection exist, and the handle
  at the front of the queue belongs to the mapped pool, also after other processes have changed the queue
  between the two looks at it.
\<close>

definition ready_to_take ::
  "TakeStep \<Rightarrow> SharedSubscriberQueue \<Rightarrow> MemoryPoolView \<Rightarrow> int \<Rightarrow> ChunkHandle \<Rightarrow> ChunkHandle list \<Rightarrow> SubscriberImpl \<Rightarrow> bool" where
  "ready_to_take step queue view fd h hs s \<longleftrightarrow>
     si_queue s = Some queue \<and> si_pool_view s = Some view \<and> si_release_context s = Some fd \<and>
     (case queue_peek (tk_peek_lock step) (tk_peek_others step (sb_queues (si_os s) (queueName queue))) of
        (None, _) \<Rightarrow> False
      | (Some first, q) \<Rightarrow> ch_pool_id first = pd_pool_id (mv_descriptor view) \<and>
          ring_ok (tk_take_others step q) \<and> queue_list (tk_take_others step q) = h # hs) \<and>
     tk_take_lock step = lockOk"

lemma tryTakeQueued_ready:
  assumes ready: "ready_to_take step queue view fd h hs s"
  defines "r \<equiv> view_read h (sc_max_message_size (si_config s)) view (sb_pools (si_os s) (pd_shm_name (mv_descriptor view)))"
  assumes ok: "cv_error r = Ok"
  obtains s' where "tryTakeQueued step s = Some (Some (sampleOf fd view h r), s')"
    "queue_list (sb_queues (si_os s') (queueName queue)) = hs" "sb_outbox (si_os s') = sb_outbox (si_os s)"
    "sb_sends (si_os s') = sb_sends (si_os s)" "sb_pools (si_os s') = sb_pools (si_os s)" "si_last_error s' = Ok"
proof -
  obtain first q where peek: "queue_peek (tk_peek_lock step) (tk_peek_others step (sb_queues (si_os s) (queueName queue))) = (Some first, q)"
    and q: "ch_pool_id first = pd_pool_id (mv_descriptor view)" "ring_ok (tk_take_others step q)"
      "queue_list (tk_take_others step q) = h # hs"
    using ready by (auto simp: ready_to_take_def split: prod.splits option.splits)
  obtain q' where take: "queue_tryDequeue lockOk (tk_take_others step q) = (Some h, q')" "queue_list q' = hs"
    using q(2,3) by (rule dequeue_head)
  have s: "si_queue s = Some queue" "si_pool_view s = Some view" "si_release_context s = Some fd" "tk_take_lock step = lockOk"
    using ready by (simp_all add: ready_to_take_def)
  let ?s = "modifyQueue queue (\<lambda>_. q') (modifyQueue queue (\<lambda>_. q) s)"
  have "tryTakeQueued step s = Some (Some (sampleOf fd view h r),
      ?s\<lparr>si_last_error := Ok, si_os := shareView view (shareContext fd (si_os ?s))\<rparr>)"
    using ok by (simp add: tryTakeQueued_def s queueOp_def peek q(1) modifyQueue_def take(1) r_def Let_def)
  then show thesis
    using that take(2) by (simp add: modifyQueue_def shareView_def shareContext_def Let_def)
qed

lemma release_frame:
  assumes "writeAll (encodeQueueRelease (viewHandle v)) (sb_sends os fd) = Some (io, sent, sends)" "io_status io = IoComplete"
    "vw_release_context v = Some fd" "vw_active v"
  obtains v' os' where "SampleView_release unmap v os = Some (v', os')"
    "sb_outbox os' fd = sb_outbox os fd @ encodeQueueRelease (viewHandle v)" "sb_queues os' = sb_queues os"
proof -
  have sent: "sent = encodeQueueRelease (viewHandle v)" using writeAll_prefix [OF assms(1)] assms(2) by blast
  show thesis
    using that assms
    by (auto simp: SampleView_release_def context_release_def dropContext_def dropView_def Let_def sent split: option.splits)
qed

text \<open>What \<open>waitAndTake\<close> returns for a sample: a copy of the payload and of the handle.\<close>

lemma waitAndTake_ready:
  assumes shm: "sc_transport (si_config t) = SharedMemory"
    and drained: "drainWakeNotificationsNonBlocking env ((subscriber_processPeerEvents env t)\<lparr>si_last_error := Ok\<rparr>) = (Ok, s)"
    and ready: "ready_to_take step queue view fd h hs s"
  defines "mem \<equiv> sb_pools (si_os s) (pd_shm_name (mv_descriptor view))"
  defines "r \<equiv> view_read h (sc_max_message_size (si_config s)) view mem"
  assumes ok: "cv_error r = Ok"
    and sent: "writeAll (encodeQueueRelease h) (sb_sends (si_os s) fd) = Some (io, written, sends)" "io_status io = IoComplete"
  obtains t' where "Subscriber_waitAndTake env now timeout (step # steps) (Some t) =
      Some (Some \<lparr>rm_payload = read_bytes r mem, rm_sequence = cv_sequence r, rm_publish_timestamp_ns = cv_publish_timestamp_ns r,
        rm_pool_id = ch_pool_id h, rm_chunk_index = ch_chunk_index h, rm_chunk_generation = ch_generation h,
        rm_payload_offset = ch_payload_offset h\<rparr>, Some t')"
    "queue_list (sb_queues (si_os t') (queueName queue)) = hs"
    "sb_outbox (si_os t') fd = sb_outbox (si_os s) fd @ encodeQueueRelease h" "si_last_error t' = Ok"
proof -
  obtain s1 where s1: "tryTakeQueued step s = Some (Some (sampleOf fd view h r), s1)"
    "queue_list (sb_queues (si_os s1) (queueName queue)) = hs" "sb_outbox (si_os s1) = sb_outbox (si_os s)"
    "sb_sends (si_os s1) = sb_sends (si_os s)" "sb_pools (si_os s1) = sb_pools (si_os s)" "si_last_error s1 = Ok"
    using tryTakeQueued_ready [OF ready] ok unfolding r_def mem_def by blast
  have v: "viewHandle (sampleOf fd view h r) = h" "vw_release_context (sampleOf fd view h r) = Some fd"
    "vw_active (sampleOf fd view h r)"
    by (simp_all add: viewHandle_def sampleOf_def)
  obtain v' os where os: "SampleView_release (sx_unmap env) (sampleOf fd view h r) (si_os s1) = Some (v', os)"
    "sb_outbox os fd = sb_outbox (si_os s) fd @ encodeQueueRelease h" "sb_queues os = sb_queues (si_os s1)"
    using release_frame [of "sampleOf fd view h r" "si_os s1" fd] v sent s1(3,4) by metis
  obtain off where off: "cv_payload r = Some off" using view_read_payload ok unfolding r_def by fastforce
  have copy: "copyView (sampleOf fd view h r) (si_os s1) =
      \<lparr>rm_payload = read_bytes r mem, rm_sequence = cv_sequence r, rm_publish_timestamp_ns = cv_publish_timestamp_ns r,
        rm_pool_id = ch_pool_id h, rm_chunk_index = ch_chunk_index h, rm_chunk_generation = ch_generation h,
        rm_payload_offset = ch_payload_offset h\<rparr>"
    using off s1(5) by (simp add: copyView_def sampleOf_def SampleView_data_def read_bytes_def mem_def)
  have "waitAndTakeView env now timeout (step # steps) t = Some (Some (sampleOf fd view h r), s1)"
    using shm drained s1(1) by (simp add: waitAndTakeView_def Let_def)
  then have "Subscriber_waitAndTake env now timeout (step # steps) (Some t) =
      Some (Some (copyView (sampleOf fd view h r) (si_os s1)), Some (s1\<lparr>si_os := os\<rparr>))"
    using shm os(1) by (simp add: Subscriber_waitAndTake_def)
  then show thesis using that s1(2,6) os(2,3) unfolding copy by simp
qed

section \<open>From the publisher to the subscriber\<close>

lemma publisher_view:
  assumes created: "Publisher_registry topic config session cenv os = Some (Inr s0, rest)"
    and run: "publisher_run before s0 = Some s1" "Publisher_publish penv data n (Some s1) = Some (result, Some s2)"
      "publisher_run later s2 = Some s3" "pi_pool s3 = Some p"
    and opened: "publisher_run opened s0 = Some so" "pi_pool so = Some po"
      "MemoryPoolView_open (mp_descriptor po) (pd_topic_id (mp_descriptor po)) venv (mp_memory po) vos = (Inr view, vos')"
  obtains region where "view = view_of region p"
proof -
  obtain p0 where p0: "pi_pool s0 = Some p0" "via (length opened) (Some p0) (Some po)"
    by (rule registry_run_pool [OF created opened(1,2)])
  obtain d pid shm shm' where create: "MemoryPool_create d (pc_memory_pool config) pid (px_create cenv) shm = (Inr p0, shm')"
    by (rule registry_pool [OF created p0(1)])
  obtain cs where po: "po = pool_run cs p0" using p0(2) by (auto simp: via_Some)
  have d: "mp_descriptor po = d" using created_descriptor(1) [OF create] by (simp add: po)
  obtain region os4 where region: "SharedMemoryRegion_openReadOnly (pd_shm_name d) (pd_segment_size d)
      venv vos = (Inr region, os4)"
    using opened(3) d by (auto simp: MemoryPoolView_open_def split: if_splits sum.splits prod.splits)
  have "view = view_of region p0" using view_open_run [OF create region, of cs] opened(3) [unfolded d] by (simp add: po)
  moreover have "via (length before + 1 + length later) (Some p0) (Some p)"
    using via_trans [OF via_trans] publisher_run_client [OF run(1)] Publisher_publish_client [OF run(2)]
      publisher_run_client [OF run(3)] run(4) p0(1) unfolding client_def by metis
  ultimately show thesis using that via_view by metis
qed

text \<open>
  (C36) A message arrives as it was sent, without a copy on the way: after a publisher that was created
  through the registry has published a message, a handle that the call left with a subscriber stands for
  exactly that message until it is given back.  Whatever the publisher does in the meantime (less than
  \<open>2 ^ 32 - 1\<close> further operations), the subscriber that finds the handle at the front of its queue and maps the
  pool gets from \<open>waitAndTake\<close> the bytes, the sequence number and the time stamp of the publication; the handle
  leaves the queue, and its release is written to the publisher.
\<close>

theorem message_delivered:
  assumes created: "Publisher_registry topic config session cenv os = Some (Inr s0, rest)"
    and before: "publisher_run before s0 = Some s1"
    and publish: "Publisher_publish penv (Some data) n (Some s1) = Some (result, Some s2)" "length data = unat n"
    and handle: "h \<in># outstanding s2" "h \<notin># outstanding s1"
    and later: "publisher_run later s2 = Some s3" "length later < 2 ^ 32 - 1" "h \<in># outstanding s3"
    and mapped: "publisher_run opened s0 = Some so" "pi_pool so = Some po"
      "MemoryPoolView_open (mp_descriptor po) (pd_topic_id (mp_descriptor po)) venv (mp_memory po) vos = (Inr view, vos')"
    and subscriber: "sc_transport (si_config t) = SharedMemory"
      "drainWakeNotificationsNonBlocking env ((subscriber_processPeerEvents env t)\<lparr>si_last_error := Ok\<rparr>) = (Ok, s)"
      "ready_to_take step queue view fd h hs s" "n \<le> sc_max_message_size (si_config s)"
      "pi_pool s3 = Some p" "sb_pools (si_os s) (pd_shm_name (mv_descriptor view)) = mp_memory p"
    and sent: "writeAll (encodeQueueRelease h) (sb_sends (si_os s) fd) = Some (io, written, sends)" "io_status io = IoComplete"
  shows "\<exists>t'. Subscriber_waitAndTake env now timeout (step # steps) (Some t) =
      Some (Some \<lparr>rm_payload = data, rm_sequence = pi_sequence s1 + 1, rm_publish_timestamp_ns = pv_timestamp penv,
        rm_pool_id = ch_pool_id h, rm_chunk_index = ch_chunk_index h, rm_chunk_generation = ch_generation h,
        rm_payload_offset = ch_payload_offset h\<rparr>, Some t') \<and>
    queue_list (sb_queues (si_os t') (queueName queue)) = hs \<and>
    sb_outbox (si_os t') fd = sb_outbox (si_os s) fd @ encodeQueueRelease h \<and> si_last_error t' = Ok"
proof -
  obtain region :: SharedMemoryRegion where view: "view = view_of region p"
    by (rule publisher_view [OF created before publish(1) later(1) subscriber(5) mapped])
  define r where "r = view_read h (sc_max_message_size (si_config s)) view (mp_memory p)"
  have r: "cv_error r = Ok" "read_bytes r (mp_memory p) = data" "cv_sequence r = pi_sequence s1 + 1"
    "cv_publish_timestamp_ns r = pv_timestamp penv"
    using outstanding_message [OF created before publish(1) handle later publish(2) subscriber(4)] subscriber(5)
    unfolding r_def view by fastforce+
  show ?thesis
    using waitAndTake_ready [OF subscriber(1-3), unfolded subscriber(6), folded r_def, OF r(1) sent, of now timeout steps]
    unfolding r by blast
qed
text \<open>A subscriber that has connected to the publisher of the example and mapped its pool.\<close>

definition demoView :: MemoryPoolView where
  "demoView = view_of \<lparr>r_fd = Some 13, r_address = Some 53248, r_size = 448, r_name = ''/mw_pool_2_8589934593'',
     r_owns_name = False\<rparr> demoCreatedPool"

definition demoFilledQueue :: QueueShared where
  "demoFilledQueue = demoQueueShared\<lparr>qs_header := (qs_header demoQueueShared)\<lparr>qh_tail := 1, qh_size := 1, qh_max_size := 1\<rparr>,
     qs_slots := [demoMessageHandle, nullChunkHandle]\<rparr>"

definition demoTake :: TakeStep where
  "demoTake = \<lparr>tk_peek_others = id, tk_peek_lock = lockOk, tk_take_others = id, tk_take_lock = lockOk, tk_listen_now = 0,
     tk_listen = (\<lambda>_. PollExpired), tk_accept = Inr 0, tk_poll_now = 0, tk_poll = (\<lambda>_. PollExpired), tk_arrived = []\<rparr>"

definition demoSubscriberEnv :: SubscriberEnv where
  "demoSubscriberEnv = \<lparr>sx_discard_lock = lockOk, sx_open_view = demoMapping 13, sx_unmap = demoMapping 13\<rparr>"

definition demoSubscriberOs :: SubscriberOs where
  "demoSubscriberOs = \<lparr>sb_sockets = \<lparr>so_fds = {12}, so_paths = {''/s''}\<rparr>, sb_shm = demoShm, sb_queues = (\<lambda>_. demoFilledQueue),
     sb_pools = (\<lambda>_. mp_memory (demoPoolWith 1 1)), sb_inbox = (\<lambda>_. []), sb_sends = (\<lambda>_. [SendCount kQueueReleaseSize]),
     sb_outbox = (\<lambda>_. []), sb_contexts = (\<lambda>_. 1), sb_views = (\<lambda>_. 1)\<rparr>"

definition demoSubscriber :: SubscriberImpl where
  "demoSubscriber = (newSubscriber ''t'' (defaultSubscriberConfig\<lparr>sc_transport := SharedMemory, sc_max_message_size := 16\<rparr>)
     \<lparr>ul_fd = Some 9, ul_socket_path = ''/s'', ul_owns_path = True\<rparr> None demoSubscriberOs)
     \<lparr>si_release_context := Some 12, si_queue := Some demoOpenedQueue, si_pool_view := Some demoView\<rparr>"

lemma demo_subscriber_fields [simp]:
  "si_queue demoSubscriber = Some demoOpenedQueue" "si_pool_view demoSubscriber = Some demoView"
  "si_release_context demoSubscriber = Some 12" "si_header_buffer demoSubscriber = []" "si_registry_session demoSubscriber = None"
  "sc_transport (si_config demoSubscriber) = SharedMemory" "sc_max_message_size (si_config demoSubscriber) = 16"
  "si_os demoSubscriber = demoSubscriberOs" "si_last_error demoSubscriber = Ok"
  by (simp_all add: demoSubscriber_def newSubscriber_def)

lemma demo_drained:
  "drainWakeNotificationsNonBlocking demoSubscriberEnv
     ((subscriber_processPeerEvents demoSubscriberEnv demoSubscriber)\<lparr>si_last_error := Ok\<rparr>) = (Ok, demoSubscriber)"
proof -
  have same: "demoSubscriber\<lparr>si_last_error := Ok\<rparr> = demoSubscriber" "demoSubscriber\<lparr>si_header_buffer := []\<rparr> = demoSubscriber"
    "demoSubscriber\<lparr>si_os := demoSubscriberOs\<lparr>sb_inbox := \<lambda>_. []\<rparr>\<rparr> = demoSubscriber"
    by (simp_all add: demoSubscriber_def newSubscriber_def demoSubscriberOs_def)
  have "receiveWakeAvailable demoSubscriberEnv demoSubscriber = (Timeout, demoSubscriber)"
    using same by (simp add: receiveWakeAvailable_def inbox_def setInbox_def demoSubscriberOs_def queue_constants fun_upd_idem)
  then show ?thesis
    by (simp add: subscriber_processPeerEvents_def same(1) drainWakeNotificationsNonBlocking_def drainWakes.simps)
qed

lemma demo_ready: "ready_to_take demoTake demoOpenedQueue demoView 12 demoMessageHandle [] demoSubscriber"
proof -
  have ring: "ring_ok demoFilledQueue" "queue_list demoFilledQueue = [demoMessageHandle]"
    by (simp_all add: ring_ok_def header_ok_def queue_list_def ring_slice_def demoFilledQueue_def demoQueueShared_def
        newQueueHeader_def zeroQueueHeader_def demoQueueDescriptor_def kMaxSubscriberQueueDepth_def)
  have peek: "queue_peek lockOk demoFilledQueue = (Some demoMessageHandle, demoFilledQueue)"
    by (simp add: queue_peek_def PthreadLock_def demoFilledQueue_def demoQueueShared_def newQueueHeader_def zeroQueueHeader_def)
  show ?thesis
    by (simp add: ready_to_take_def demoTake_def demoSubscriberOs_def peek ring)
      (simp add: demoMessageHandle_def demoView_def view_of_def demoPoolDescriptor_def)
qed

lemma demo_view_opened:
  "\<exists>os. MemoryPoolView_open (mp_descriptor demoCreatedPool) (pd_topic_id (mp_descriptor demoCreatedPool)) (demoMapping 13)
     (mp_memory demoCreatedPool) demoShm = (Inr demoView, os)"
proof -
  have "\<exists>os. SharedMemoryRegion_openReadOnly ''/mw_pool_2_8589934593'' 448 (demoMapping 13) demoShm =
      (Inr (mv_region demoView), os)"
    by (simp add: SharedMemoryRegion_openReadOnly_def validateArguments_def isValidSharedMemoryName_def
        shm_open_existing_def demoMapping_def demoShm_def demoView_def view_of_def)
  then obtain os where "SharedMemoryRegion_openReadOnly (pd_shm_name (demoPoolDescriptor\<lparr>pd_topic_id := 3\<rparr>))
      (pd_segment_size (demoPoolDescriptor\<lparr>pd_topic_id := 3\<rparr>)) (demoMapping 13) demoShm = (Inr (mv_region demoView), os)"
    by (auto simp: demoPoolDescriptor_def)
  from view_open_run [OF demo_pool_created this, of "[]"] show ?thesis
    by (auto simp: pool_run_def demoView_def view_of_def)
qed

lemma demo_release_sent:
  "writeAll (encodeQueueRelease h) [SendCount kQueueReleaseSize] =
     Some (ioResult IoComplete kQueueReleaseSize 0, encodeQueueRelease h, [])"
proof -
  have "length (encodeQueueRelease h) = 32" by (simp add: encodeQueueRelease_def queue_constants Let_def)
  then show ?thesis by (auto simp: writeAll_def closeOnDisconnect_def ioResult_def queue_constants)
qed

theorem message_delivered_witness:
  "\<exists>t'. Subscriber_waitAndTake demoSubscriberEnv 0 0 [demoTake] (Some demoSubscriber) =
      Some (Some \<lparr>rm_payload = [1, 2, 3], rm_sequence = 1, rm_publish_timestamp_ns = 77, rm_pool_id = 8589934593,
        rm_chunk_index = 0, rm_chunk_generation = 1, rm_payload_offset = 256\<rparr>, Some t') \<and>
    sb_outbox (si_os t') 12 = encodeQueueRelease demoMessageHandle"
proof -
  obtain r s where s: "Publisher_publish demoPublisherEnv (Some [1, 2, 3]) 3 (Some demoPublisher) = Some (r, Some s)"
    "map dc_outstanding (pi_connections s) = [[demoMessageHandle]]" "pi_pool s = Some (demoPoolWith 1 1)"
    by (rule demo_message_published)
  then obtain c where c: "pi_connections s = [c]" "dc_outstanding c = [demoMessageHandle]" by auto
  obtain os where opened: "MemoryPoolView_open (mp_descriptor demoCreatedPool) (pd_topic_id (mp_descriptor demoCreatedPool))
      (demoMapping 13) (mp_memory demoCreatedPool) demoShm = (Inr demoView, os)"
    using demo_view_opened by blast
  have "pv_timestamp demoPublisherEnv = 77" by (simp add: demoPublisherEnv_def)
  moreover have "sb_sends demoSubscriberOs 12 = [SendCount kQueueReleaseSize]" "sb_outbox demoSubscriberOs 12 = []"
    "sb_pools demoSubscriberOs name = mp_memory (demoPoolWith 1 1)" for name
    by (simp_all add: demoSubscriberOs_def)
  ultimately show ?thesis
    using message_delivered [OF demo_created, of "[]" demoPublisher demoPublisherEnv "[1, 2, 3]" 3 r s demoMessageHandle "[]" s
        "[]" demoPublisher demoCreatedPool "demoMapping 13" demoShm demoView os demoSubscriber demoSubscriberEnv
        demoSubscriber demoTake demoOpenedQueue 12 "[]" "demoPoolWith 1 1"
        "ioResult IoComplete kQueueReleaseSize 0" "encodeQueueRelease demoMessageHandle" "[]" 0 0 "[]"]
      s c opened demo_drained demo_ready demo_release_sent [of demoMessageHandle]
    by (auto simp: ioResult_def demoMessageHandle_def)
qed
section \<open>Releases on their way back\<close>

lemma recvFill_benign:
  assumes "list_all benign rs" "recvFill want buffer rs = (status, buffer', rs')" "length buffer \<le> want"
  shows "buffer' @ delivered rs' = buffer @ delivered rs" "list_all benign rs'"
    "status = (if want \<le> length (buffer @ delivered rs) then Filled else NoData)"
    "status = Filled \<Longrightarrow> length buffer' = want" "status = NoData \<Longrightarrow> rs' = []"
proof -
  have "buffer' @ delivered rs' = buffer @ delivered rs \<and> list_all benign rs' \<and>
    status = (if want \<le> length (buffer @ delivered rs) then Filled else NoData) \<and>
    (status = Filled \<longrightarrow> length buffer' = want) \<and> (status = NoData \<longrightarrow> rs' = [])"
    using assms
  proof (induction want buffer rs rule: recvFill.induct)
    case (2 want buffer r rs)
    consider "length buffer = want" | "length buffer < want" "r = RecvErrno EINTR"
      | bs where "length buffer < want" "r = RecvData bs" "bs \<noteq> []" "length bs \<le> want - length buffer"
      | bs where "length buffer < want" "r = RecvData bs" "want - length buffer < length bs"
      using "2.prems"(1,3) by (cases r) (simp_all, fastforce+)
    then show ?case
    proof cases
      case 2
      then show ?thesis using "2.IH"(2) "2.prems" by simp
    next
      case (3 bs)
      then show ?thesis using "2.IH"(1) [of bs] "2.prems" by simp
    next
      case (4 bs)
      then show ?thesis using "2.prems" by (auto simp: Let_def)
    qed (use "2.prems" in auto)
  qed (auto split: if_splits)
  then show "buffer' @ delivered rs' = buffer @ delivered rs" "list_all benign rs'"
    "status = (if want \<le> length (buffer @ delivered rs) then Filled else NoData)"
    "status = Filled \<Longrightarrow> length buffer' = want" "status = NoData \<Longrightarrow> rs' = []"
    by blast+
qed

lemma length_encodeQueueRelease [simp]: "length (encodeQueueRelease h) = 32"
  by (simp add: encodeQueueRelease_def queue_constants Let_def)

text \<open>The frames of releases are applied one by one, however the stream is cut.\<close>

lemma drainConnection_stream:
  assumes "list_all benign rs" "length (dc_release_buffer c) < 32"
    "dc_release_buffer c @ delivered rs = concat (map encodeQueueRelease hs) @ rest" "length rest < 32"
    "\<forall>h \<in> set hs. ch_pool_id h \<noteq> 0 \<and> ch_generation h \<noteq> 0" "mset hs \<subseteq># mset (dc_outstanding c)"
  shows "\<exists>c' q'. drainConnection c q rs = (False, c', q', []) \<and> dc_release_buffer c' = rest \<and>
    mset (dc_outstanding c') = mset (dc_outstanding c) - mset hs"
  using assms
proof (induction hs arbitrary: c q rs)
  case Nil
  obtain status buffer rs' where f: "recvFill kQueueReleaseSize (dc_release_buffer c) rs = (status, buffer, rs')"
    by (metis prod_cases3)
  have "length (dc_release_buffer c) < kQueueReleaseSize" using Nil.prems(2) by (simp add: queue_constants)
  note r = recvFill_benign [OF Nil.prems(1) f less_imp_le [OF this]]
  have "length (dc_release_buffer c @ delivered rs) < kQueueReleaseSize"
    using Nil.prems(3,4) by (simp add: queue_constants)
  then have "status = NoData" using r(3) by simp
  then have "receiveOneRelease c q rs = (WouldBlock, c\<lparr>dc_release_buffer := rest\<rparr>, q, [])"
    using f r(1) r(5) Nil.prems(3) by (simp add: receiveOneRelease_def)
  then show ?case by (subst drainConnection.simps) simp
next
  case (Cons h hs)
  obtain status buffer rs' where f: "recvFill kQueueReleaseSize (dc_release_buffer c) rs = (status, buffer, rs')"
    by (metis prod_cases3)
  have short: "length (dc_release_buffer c) < kQueueReleaseSize" using Cons.prems(2) by (simp add: queue_constants)
  note r = recvFill_benign [OF Cons.prems(1) f less_imp_le [OF short]]
  have "kQueueReleaseSize \<le> length (dc_release_buffer c @ delivered rs)"
    unfolding Cons.prems(3) by (simp add: queue_constants)
  then have filled: "status = Filled" using r(3) by simp
  then have "length buffer = length (encodeQueueRelease h)" using r(4) by (simp add: queue_constants)
  then have split: "buffer = encodeQueueRelease h" "delivered rs' = concat (map encodeQueueRelease hs) @ rest"
    using r(1) Cons.prems(3) by simp_all
  have h: "h \<in> set (dc_outstanding c)" using Cons.prems(6) by (metis insert_subset_eq_iff mset.simps(2) set_mset_mset)
  let ?c = "c\<lparr>dc_release_buffer := [], dc_outstanding := remove1 h (dc_outstanding c)\<rparr>"
  have one: "receiveOneRelease c q rs = (Progress, ?c, snd (releaseReference h q), rs')"
    using f filled split(1) h Cons.prems(5) by (simp add: receiveOneRelease_def decode_encodeQueueRelease releaseOutstanding_def)
  have "\<exists>c' q'. drainConnection ?c (snd (releaseReference h q)) rs' = (False, c', q', []) \<and>
      dc_release_buffer c' = rest \<and> mset (dc_outstanding c') = mset (dc_outstanding ?c) - mset hs"
    by (rule Cons.IH [OF r(2)]) (use split Cons.prems h in \<open>auto simp: insert_subset_eq_iff\<close>)
  moreover have "drainConnection c q rs = drainConnection ?c (snd (releaseReference h q)) rs'"
    by (subst drainConnection.simps) (simp add: one)
  ultimately show ?case by (simp add: diff_diff_add_mset)
qed
lemma outstandingOf_member_le: "c \<in> set cs \<Longrightarrow> mset (dc_outstanding c) \<subseteq># outstandingOf cs"
  by (induction cs) (auto simp: subset_mset.add_increasing)

lemma via_generation:
  assumes "via 0 (Some p) (Some p')" "pool_inv p" "unat i < length (mp_directory p)"
  shows "handle_of p' i = handle_of p i" "mp_directory p' = mp_directory p"
proof -
  obtain cs where cs: "p' = pool_run cs p" "allocations cs = 0" using assms(1) by (auto simp: via_Some)
  have "ck_generation (chunkHeader p' i) = ck_generation (chunkHeader p i)"
    using run_phase [OF assms(2,3), of cs] by (auto simp: cs)
  then show "handle_of p' i = handle_of p i" "mp_directory p' = mp_directory p"
    by (simp_all add: handle_of_def cs(1))
qed

lemma outstanding_handle:
  assumes created: "Publisher_registry topic config session cenv os = Some (Inr s0, rest)"
    and run: "publisher_run steps s0 = Some s" "pi_pool s = Some p" and refs: "refs_ok (outstanding s) p"
    and h: "h \<in># outstanding s"
  shows "ch_pool_id h \<noteq> 0" "ch_generation h \<noteq> 0"
proof -
  obtain p0 where p0: "pi_pool s0 = Some p0" "via (length steps) (Some p0) (Some p)"
    by (rule registry_run_pool [OF created run])
  obtain d pid shm shm' where create: "MemoryPool_create d (pc_memory_pool config) pid (px_create cenv) shm = (Inr p0, shm')"
    by (rule registry_pool [OF created p0(1)])
  have "mp_descriptor p = d" using p0(2) created_descriptor(1) [OF create] by (auto simp: via_Some)
  then show "ch_pool_id h \<noteq> 0"
    using created_descriptor(3) [OF create] refs_ok_valid [OF refs h] by (simp add: handle_valid_def handleMatches_def)
  show "ch_generation h \<noteq> 0"
    using pool_inv_headers(2) [OF refs_ok_inv [OF refs]] refs_ok_valid [OF refs h] refs_ok_published [OF refs h]
    by (fastforce simp: handle_valid_def handleMatches_def chunk_state_ok_def)
qed

text \<open>
  (C37) Releases are never lost or counted twice: if a subscriber has written releases of handles that it
  holds to its socket, then however the stream is cut into pieces and whatever part of a frame was read
  before, draining the connection takes exactly these handles out of the list of outstanding handles, keeps
  an incomplete frame for the next time, and lowers the reference count of each chunk by exactly the number
  of its releases.
\<close>

theorem releases_given_back:
  assumes created: "Publisher_registry topic config session cenv os = Some (Inr s0, rest0)"
    and run: "publisher_run steps s0 = Some s" "pi_pool s = Some p" and c: "c \<in> set (pi_connections s)"
    and stream: "list_all benign rs" "length (dc_release_buffer c) < kQueueReleaseSize"
      "dc_release_buffer c @ delivered rs = concat (map encodeQueueRelease hs) @ rest" "length rest < kQueueReleaseSize"
    and held: "mset hs \<subseteq># mset (dc_outstanding c)"
  shows "\<exists>c' p'. drainConnection c (Some p) rs = (False, c', Some p', []) \<and> dc_release_buffer c' = rest \<and>
    mset (dc_outstanding c') = mset (dc_outstanding c) - mset hs \<and>
    (\<forall>i. unat i < length (mp_directory p) \<longrightarrow> ck_state (chunkHeader p' i) \<noteq> Released \<and>
       unat (ck_ref_count (chunkHeader p' i)) = unat (ck_ref_count (chunkHeader p i)) - count_list hs (handle_of p i))"
proof -
  have "impl_ok UNIV (pi_pool s0) s" using publisher_run_ok [OF run(1) impl_ok_new [OF created]] by blast
  then have acc: "accounts UNIV (pi_pool s0) (outstanding s) (Some p)" using run(2) by simp
  then have refs: "refs_ok (outstanding s) p" by (simp add: accounts_Some)
  obtain M where M: "outstanding s = mset (dc_outstanding c) + M"
    using outstandingOf_member_le [OF c] by (metis mset_subset_eq_exists_conv)
  have "\<forall>h \<in> set hs. ch_pool_id h \<noteq> 0 \<and> ch_generation h \<noteq> 0"
    using outstanding_handle [OF created run refs] mset_subset_eqD [OF held] M by simp
  then obtain c' q' where d: "drainConnection c (Some p) rs = (False, c', q', [])" "dc_release_buffer c' = rest"
    "mset (dc_outstanding c') = mset (dc_outstanding c) - mset hs"
    using drainConnection_stream [OF stream(1) _ stream(3) _ _ held, of "Some p"] stream(2,4) by (auto simp: queue_constants)
  have acc': "accounts UNIV (pi_pool s0) (mset (dc_outstanding c') + M) q'"
    using drainConnection_accounts [OF d(1)] acc by (simp add: M)
  have via: "via 0 (Some p) q'" using drainConnection_via [OF d(1)] by simp
  then obtain p' where p': "q' = Some p'" by (auto simp: via_Some)
  then have refs': "refs_ok (mset (dc_outstanding c') + M) p'" using acc' by (simp add: accounts_Some)
  have "count (mset hs) h \<le> count (mset (dc_outstanding c)) h" for h using held by (rule mset_subset_eq_count)
  then have "unat (ck_ref_count (chunkHeader p' i)) = unat (ck_ref_count (chunkHeader p i)) - count_list hs (handle_of p i) \<and>
      ck_state (chunkHeader p' i) \<noteq> Released" if i: "unat i < length (mp_directory p)" for i
    using refs refs' i via_generation [OF via [unfolded p'] refs_ok_inv [OF refs] i] d(3)
    by (simp add: refs_ok_def M count_mset)
  then show ?thesis using d p' by blast
qed

theorem releases_given_back_witness:
  "\<exists>r s c c' p'. Publisher_publish demoPublisherEnv (Some [1, 2, 3]) 3 (Some demoPublisher) = Some (r, Some s) \<and>
     pi_connections s = [c] \<and>
     drainConnection c (Some (demoPoolWith 1 1))
       [RecvData (take 5 (encodeQueueRelease demoMessageHandle)), RecvErrno EINTR,
        RecvData (drop 5 (encodeQueueRelease demoMessageHandle) @ [9])] = (False, c', Some p', []) \<and>
     dc_outstanding c' = [] \<and> dc_release_buffer c' = [9] \<and> ck_ref_count (chunkHeader p' 0) = 0"
proof -
  obtain r s where s: "Publisher_publish demoPublisherEnv (Some [1, 2, 3]) 3 (Some demoPublisher) = Some (r, Some s)"
    "map dc_outstanding (pi_connections s) = [[demoMessageHandle]]" "pi_pool s = Some (demoPoolWith 1 1)"
    "map dc_release_buffer (pi_connections s) = [[]]"
    by (rule demo_message_published)
  then have run: "publisher_run [PublishMessage demoPublisherEnv (Some [1, 2, 3]) 3] demoPublisher = Some s" by simp
  obtain c where c: "pi_connections s = [c]" "dc_outstanding c = [demoMessageHandle]" using s(2) by auto
  let ?rs = "[RecvData (take 5 (encodeQueueRelease demoMessageHandle)), RecvErrno EINTR,
        RecvData (drop 5 (encodeQueueRelease demoMessageHandle) @ [9])]"
  have "\<exists>c' p'. drainConnection c (Some (demoPoolWith 1 1)) ?rs = (False, c', Some p', []) \<and> dc_release_buffer c' = [9] \<and>
    mset (dc_outstanding c') = mset (dc_outstanding c) - mset [demoMessageHandle] \<and>
    (\<forall>i. unat i < length (mp_directory (demoPoolWith 1 1)) \<longrightarrow> ck_state (chunkHeader p' i) \<noteq> Released \<and>
       unat (ck_ref_count (chunkHeader p' i)) = unat (ck_ref_count (chunkHeader (demoPoolWith 1 1) i)) -
         count_list [demoMessageHandle] (handle_of (demoPoolWith 1 1) i))"
    using s(4) c
    by (intro releases_given_back [OF demo_created run s(3)]) (auto simp: queue_constants simp flip: length_greater_0_conv)
  then obtain c' p' where d: "drainConnection c (Some (demoPoolWith 1 1)) ?rs = (False, c', Some p', [])"
    "dc_release_buffer c' = [9]" "mset (dc_outstanding c') = {#}"
    "unat (ck_ref_count (chunkHeader p' 0)) = unat (ck_ref_count (chunkHeader (demoPoolWith 1 1) 0)) -
         count_list [demoMessageHandle] (handle_of (demoPoolWith 1 1) 0)"
    by (auto simp: c demoPoolWith_def demoLayout_def)
  have "ck_ref_count (chunkHeader p' 0) = 0"
    using d(4) by (simp add: demoPoolWith_def demoLayout_def demoChunk_def chunkHeader_def handle_of_def demoMessageHandle_def
        demoPoolDescriptor_def unsigned_eq_0_iff)
  then show ?thesis using s(1) c(1) d by auto
qed
section \<open>The stream of messages over a socket\<close>

text \<open>What has been read of the current frame; the header is decoded once it is complete.\<close>

definition frame_read :: "SubscriberImpl \<Rightarrow> bytes" where
  "frame_read s = si_header_buffer s @ si_payload s"

definition frame_state :: "FrameHeader \<Rightarrow> SubscriberImpl \<Rightarrow> bool" where
  "frame_state header s \<longleftrightarrow>
     (case si_decoded_header s of
        None \<Rightarrow> length (si_header_buffer s) < kFrameHeaderSize \<and> si_payload s = []
      | Some h \<Rightarrow> h = header \<and> si_header_buffer s = encodeFrameHeader header \<and>
          length (si_payload s) < unat (fh_payload_size header))"

lemma recvFill_full: "want \<le> length buffer \<Longrightarrow> recvFill want buffer rs = (Filled, buffer, rs)"
  by (cases rs) auto

lemma receivePayload_stream:
  fixes s :: SubscriberImpl
  assumes rs: "list_all benign (inbox s)" and connected: "si_release_context s \<noteq> None"
    and header: "si_decoded_header s = Some header" "si_header_buffer s = encodeFrameHeader header"
    and stream: "si_payload s @ delivered (inbox s) = bs" and room: "length (si_payload s) \<le> unat (fh_payload_size header)"
  shows "if unat (fh_payload_size header) \<le> length bs
    then \<exists>s'. receivePayload header s = (UdsMessageReady,
        Some \<lparr>rm_payload = take (unat (fh_payload_size header)) bs, rm_sequence = fh_sequence header,
          rm_publish_timestamp_ns = fh_timestamp_ns header, rm_pool_id = 0, rm_chunk_index = 0,
          rm_chunk_generation = 0, rm_payload_offset = 0\<rparr>, s') \<and>
      si_header_buffer s' = [] \<and> si_decoded_header s' = None \<and> si_payload s' = [] \<and> si_release_context s' = si_release_context s \<and>
      list_all benign (inbox s') \<and> delivered (inbox s') = drop (unat (fh_payload_size header)) bs \<and> si_config s' = si_config s
    else \<exists>s'. receivePayload header s = (UdsNeedMore, None, s') \<and> frame_state header s' \<and> inbox s' = [] \<and>
      frame_read s' = encodeFrameHeader header @ bs \<and> si_release_context s' = si_release_context s \<and> si_config s' = si_config s"
proof -
  obtain fd where fd: "si_release_context s = Some fd" using connected by blast
  obtain status payload rs' where f: "recvFill (unat (fh_payload_size header)) (si_payload s) (inbox s) = (status, payload, rs')"
    by (metis prod_cases3)
  note r = recvFill_benign [OF rs f room, unfolded stream]
  show ?thesis
  proof (cases "unat (fh_payload_size header) \<le> length bs")
    case True
    then have filled: "status = Filled" using r(3) by simp
    have "payload = take (unat (fh_payload_size header)) bs" "delivered rs' = drop (unat (fh_payload_size header)) bs"
      using r(4) [OF filled] arg_cong [OF r(1), of "take (length payload)"] arg_cong [OF r(1), of "drop (length payload)"]
      by simp_all
    then show ?thesis
      using True filled r(2) f fd by (simp add: receivePayload_def Let_def setInbox_def resetFrame_def inbox_def)
  next
    case False
    then have status: "status = NoData" using r(3) by simp
    have "rs' = []" using r(5) [OF status] .
    moreover have "payload = bs" using r(1) calculation by simp
    ultimately show ?thesis
      using False status f fd header by (simp add: receivePayload_def Let_def setInbox_def inbox_def frame_state_def frame_read_def)
  qed
qed

text \<open>One call makes the message of the frame at the front of the stream, or takes all there is of it.\<close>

definition udsMessage :: "FrameHeader \<Rightarrow> bytes \<Rightarrow> ReceivedMessage" where
  "udsMessage header payload = \<lparr>rm_payload = payload, rm_sequence = fh_sequence header,
     rm_publish_timestamp_ns = fh_timestamp_ns header, rm_pool_id = 0, rm_chunk_index = 0,
     rm_chunk_generation = 0, rm_payload_offset = 0\<rparr>"

definition frame_done :: "SubscriberImpl \<Rightarrow> bool" where
  "frame_done s \<longleftrightarrow> si_header_buffer s = [] \<and> si_decoded_header s = None \<and> si_payload s = []"

definition uds_outcome ::
  "FrameHeader \<Rightarrow> bytes \<Rightarrow> SubscriberImpl \<Rightarrow> bytes \<Rightarrow> bytes \<Rightarrow> UdsReceiveStatus \<times> ReceivedMessage option \<times> SubscriberImpl \<Rightarrow> bool" where
  "uds_outcome header payload s later tail_bytes r \<longleftrightarrow>
     (\<exists>s'. si_release_context s' = si_release_context s \<and> si_config s' = si_config s \<and>
        (r = (UdsMessageReady, Some (udsMessage header payload), s') \<and> frame_done s' \<and>
           list_all benign (inbox s') \<and> delivered (inbox s') @ later = tail_bytes \<or>
         r = (UdsNeedMore, None, s') \<and> frame_state header s' \<and> inbox s' = [] \<and>
           frame_read s' @ later = encodeFrameHeader header @ payload @ tail_bytes))"

lemma frame_read_short: "frame_state header s \<Longrightarrow> length (frame_read s) < kFrameHeaderSize + unat (fh_payload_size header)"
  by (auto simp: frame_state_def frame_read_def kFrameHeaderSize_def split: option.splits)

lemma receivePayload_outcome:
  assumes "list_all benign (inbox s)" "si_release_context s \<noteq> None"
    "si_decoded_header s = Some header" "si_header_buffer s = encodeFrameHeader header"
    and size: "length (si_payload s) \<le> unat (fh_payload_size header)" "length payload = unat (fh_payload_size header)"
    and stream: "si_payload s @ delivered (inbox s) @ later = payload @ tail_bytes"
  shows "uds_outcome header payload s later tail_bytes (receivePayload header s)"
proof -
  define bs where "bs = si_payload s @ delivered (inbox s)"
  have bs: "bs @ later = payload @ tail_bytes" using stream by (simp add: bs_def)
  note p = receivePayload_stream [OF assms(1-4) bs_def [symmetric] size(1)]
  show ?thesis
  proof (cases "length payload \<le> length bs")
    case True
    then have "take (length payload) bs = payload" "drop (length payload) bs @ later = tail_bytes"
      using arg_cong [OF bs, of "take (length payload)"] arg_cong [OF bs, of "drop (length payload)"] by simp_all
    then show ?thesis using p True size(2) unfolding uds_outcome_def udsMessage_def frame_done_def by auto
  next
    case False
    then show ?thesis using p size(2) bs unfolding uds_outcome_def by auto
  qed
qed

lemma receiveUds_stream:
  assumes state: "frame_state header s" "si_release_context s \<noteq> None" "list_all benign (inbox s)"
    and header: "validateFrameHeader header (sc_max_message_size (si_config s)) = FrameValid"
      "length payload = unat (fh_payload_size header)"
    and stream: "frame_read s @ delivered (inbox s) @ later = encodeFrameHeader header @ payload @ tail_bytes"
  shows "uds_outcome header payload s later tail_bytes (receiveUdsAvailable s)"
proof (cases "si_decoded_header s")
  case (Some h)
  then have s: "h = header" "si_header_buffer s = encodeFrameHeader header" "length (si_payload s) < length payload"
    using state(1) header(2) by (simp_all add: frame_state_def)
  obtain fd where fd: "si_release_context s = Some fd" using state(2) by blast
  have same: "s\<lparr>si_header_buffer := encodeFrameHeader header\<rparr> = s" by (simp flip: s(2))
  have "receiveUdsAvailable s = receivePayload header (s\<lparr>si_header_buffer := encodeFrameHeader header\<rparr>)"
    using Some s fd by (simp add: receiveUdsAvailable_def recvFill_full kFrameHeaderSize_def setInbox_def inbox_def)
  then have "receiveUdsAvailable s = receivePayload header s" by (simp only: same)
  then show ?thesis
    using receivePayload_outcome [OF state(3,2) Some [unfolded s(1)] s(2)] s(2,3) header(2) stream
    by (simp add: frame_read_def)
next
  case None
  then have short: "length (si_header_buffer s) < kFrameHeaderSize" "si_payload s = []"
    using state(1) by (simp_all add: frame_state_def)
  obtain fd where fd: "si_release_context s = Some fd" using state(2) by blast
  obtain status buffer rs where f: "recvFill kFrameHeaderSize (si_header_buffer s) (inbox s) = (status, buffer, rs)"
    by (metis prod_cases3)
  note r = recvFill_benign [OF state(3) f less_imp_le [OF short(1)]]
  have joined: "(buffer @ delivered rs) @ later = encodeFrameHeader header @ payload @ tail_bytes"
    unfolding r(1) using stream short(2) by (simp add: frame_read_def)
  show ?thesis
  proof (cases "status = Filled")
    case True
    then have "length buffer = length (encodeFrameHeader header)" using r(4) by (simp add: kFrameHeaderSize_def)
    then have b: "buffer = encodeFrameHeader header" "delivered rs @ later = payload @ tail_bytes"
      using joined by simp_all
    let ?s = "(setInbox rs (s\<lparr>si_header_buffer := buffer\<rparr>))\<lparr>si_decoded_header := Some header\<rparr>"
    have same: "inbox ?s = rs" "si_release_context ?s = si_release_context s" "si_config ?s = si_config s"
      using fd by (simp_all add: inbox_def setInbox_def)
    have call: "receiveUdsAvailable s = receivePayload header ?s"
      using f True b(1) None header(1)
      by (simp add: receiveUdsAvailable_def Let_def decode_encodeFrameHeader kFrameHeaderSize_def)
    have "uds_outcome header payload ?s later tail_bytes (receivePayload header ?s)"
      by (rule receivePayload_outcome) (use same r(2) b state(2) header(2) short(2) in simp_all)
    then show ?thesis unfolding call uds_outcome_def same .
  next
    case False
    then have status: "status = NoData" using r(3) by (simp split: if_splits)
    let ?s = "setInbox [] (s\<lparr>si_header_buffer := buffer\<rparr>)"
    have few: "rs = []" "length buffer < kFrameHeaderSize"
      using r(5) [OF status] r(1,3) status by (auto split: if_splits)
    have "receiveUdsAvailable s = (UdsNeedMore, None, ?s)"
      using f status few(1) by (simp add: receiveUdsAvailable_def Let_def)
    moreover have "frame_state header ?s" "inbox ?s = []" "frame_read ?s @ later = encodeFrameHeader header @ payload @ tail_bytes"
      using few None short(2) fd joined by (simp_all add: frame_state_def inbox_def setInbox_def frame_read_def)
    ultimately show ?thesis unfolding uds_outcome_def by (intro exI [of _ ?s]) simp
  qed
qed
lemma frame_done_state: "frame_done s \<Longrightarrow> frame_state header s" "frame_done s \<Longrightarrow> frame_read s = []"
  by (simp_all add: frame_done_def frame_state_def frame_read_def kFrameHeaderSize_def)

text \<open>A step of a waiting loop in which the socket is readable and delivers some bytes.\<close>

definition input_step :: "TakeStep \<Rightarrow> bool" where
  "input_step step \<longleftrightarrow> tk_poll step = (\<lambda>_. PollEvents True) \<and> list_all benign (tk_arrived step)"

abbreviation arriving :: "TakeStep list \<Rightarrow> bytes" where
  "arriving steps \<equiv> concat (map (\<lambda>step. delivered (tk_arrived step)) steps)"

lemma delivered_append [simp]: "delivered (rs @ rs') = delivered rs @ delivered rs'"
  by (induction rs rule: delivered.induct) auto

lemma awaitBoth_input:
  assumes "si_release_context s = Some fd" "input_step step"
  shows "awaitBoth deadline timeout step s = (Proceed, setInbox (inbox s @ tk_arrived step) s)"
  using assms by (simp add: awaitBoth_def awaitConnection_def awaitInput_def input_step_def)


end
