(* ===== verification/MW_Context.thy ===== *)
theory MW_Context
  imports MW_Subscriber
begin

text \<open>
  Loaned samples (\<open>src/middleware/src/loaned_sample.cpp\<close> and \<open>Publisher::loan\<close>) and contexts
  (\<open>src/middleware/src/context.cpp\<close>).
\<close>

section \<open>Loaned samples\<close>

text \<open>
  \<open>ls_owner\<close> says whether the sample still has its pointer to the publisher, whose state is passed to
  the operations.
\<close>

record LoanedSample =
  ls_owner :: bool
  ls_payload :: "u64 option"
  ls_size :: size_t
  ls_capacity :: size_t
  ls_pool_id :: u64
  ls_chunk_index :: u32
  ls_generation :: u32
  ls_payload_offset :: u64
  ls_error :: ErrorCode
  ls_active :: bool

text \<open>The default of \<open>error_\<close> is \<open>InvalidState\<close>.\<close>

definition emptyLoanedSample :: LoanedSample where
  "emptyLoanedSample = \<lparr>ls_owner = False, ls_payload = None, ls_size = 0, ls_capacity = 0, ls_pool_id = 0,
     ls_chunk_index = 0, ls_generation = 0, ls_payload_offset = 0, ls_error = InvalidState, ls_active = False\<rparr>"

definition failedLoan :: "ErrorCode \<Rightarrow> LoanedSample" where
  "failedLoan error = emptyLoanedSample\<lparr>ls_error := error\<rparr>"

definition loanHandle :: "LoanedSample \<Rightarrow> ChunkHandle" where
  "loanHandle l = \<lparr>ch_pool_id = ls_pool_id l, ch_chunk_index = ls_chunk_index l,
     ch_generation = ls_generation l, ch_payload_offset = ls_payload_offset l\<rparr>"

definition LoanedSample_data :: "LoanedSample \<Rightarrow> u64 option" where
  "LoanedSample_data l = (if ls_active l then ls_payload l else None)"

definition LoanedSample_valid :: "LoanedSample \<Rightarrow> bool" where
  "LoanedSample_valid l \<longleftrightarrow> ls_active l \<and> ls_owner l \<and> ls_error l = Ok"

definition Publisher_loan ::
  "PublisherEnv \<Rightarrow> size_t \<Rightarrow> PublisherImpl option \<Rightarrow> LoanedSample \<times> PublisherImpl option" where
  "Publisher_loan env n impl =
     (case impl of
        None \<Rightarrow> (failedLoan InvalidState, None)
      | Some s \<Rightarrow>
          (case allocateLoan env n s of (loan, s) \<Rightarrow>
             let allocation = la_allocation loan; handle = ar_handle allocation in
             if ar_error allocation \<noteq> Ok then (failedLoan (ar_error allocation), Some s)
             else (\<lparr>ls_owner = True, ls_payload = la_payload loan, ls_size = n,
                    ls_capacity = ucast (ar_capacity allocation), ls_pool_id = ch_pool_id handle,
                    ls_chunk_index = ch_chunk_index handle, ls_generation = ch_generation handle,
                    ls_payload_offset = ch_payload_offset handle, ls_error = Ok, ls_active = True\<rparr>, Some s)))"

definition LoanedSample_publish ::
  "PublisherEnv \<Rightarrow> LoanedSample \<Rightarrow> PublisherImpl \<Rightarrow> (PublishResult \<times> LoanedSample \<times> PublisherImpl) option" where
  "LoanedSample_publish env l s =
     (if \<not> LoanedSample_valid l then Some (publishResult InvalidState 0 0, l, s)
      else
        do { (result, s) \<leftarrow> publishLoanedSample env (loanHandle l) (ls_size l) s;
             Some (result, l\<lparr>ls_active := False, ls_payload := None, ls_error := pr_error result, ls_owner := False\<rparr>, s) })"

definition LoanedSample_cancel :: "LoanedSample \<Rightarrow> PublisherImpl \<Rightarrow> LoanedSample \<times> PublisherImpl" where
  "LoanedSample_cancel l s =
     (case (if ls_active l \<and> ls_owner l
            then (case cancelLoanedSample (loanHandle l) s of (error, s) \<Rightarrow> (l\<lparr>ls_error := error\<rparr>, s))
            else (l, s)) of
        (l, s) \<Rightarrow> (l\<lparr>ls_active := False, ls_payload := None, ls_owner := False\<rparr>, s))"

definition LoanedSample_move :: "LoanedSample \<Rightarrow> LoanedSample \<times> LoanedSample" where
  "LoanedSample_move l = (l, emptyLoanedSample)"

definition LoanedSample_moveAssign ::
  "LoanedSample \<Rightarrow> LoanedSample \<Rightarrow> PublisherImpl \<Rightarrow> LoanedSample \<times> LoanedSample \<times> PublisherImpl" where
  "LoanedSample_moveAssign self l s =
     (case LoanedSample_cancel self s of (_, s) \<Rightarrow>
      case LoanedSample_move l of (self, l) \<Rightarrow> (self, l, s))"

section \<open>Contexts\<close>

record Context =
  cx_node_name :: string
  cx_registry_session :: "RegistrySession option"

definition Context_new :: "string \<Rightarrow> Exception + Context" where
  "Context_new node_name =
     (if node_name = [] then Inl (InvalidArgumentException ''node name must not be empty'')
      else Inr \<lparr>cx_node_name = node_name, cx_registry_session = None\<rparr>)"

definition Context_registry ::
  "string \<Rightarrow> RegistryConfig \<Rightarrow> SessionEnv \<Rightarrow> SocketOs \<Rightarrow> ((Exception + Context) \<times> SocketOs) option" where
  "Context_registry node_name config env os =
     (if node_name = [] then Some (Inl (InvalidArgumentException ''node name must not be empty''), os)
      else
        do { (session, os) \<leftarrow> RegistrySession_new node_name config env os;
             Some (case session of
                 Inl e \<Rightarrow> (Inl e, os)
               | Inr s \<Rightarrow> (Inr \<lparr>cx_node_name = node_name, cx_registry_session = Some s\<rparr>, os)) })"

definition contextChecks :: "Context option \<Rightarrow> string \<Rightarrow> Exception + Context" where
  "contextChecks context topic =
     (case context of
        None \<Rightarrow> Inl (OtherException ''context is not initialized'')
      | Some c \<Rightarrow>
          if topic = [] then Inl (InvalidArgumentException ''topic must not be empty'') else Inr c)"

definition createPublisher ::
  "string \<Rightarrow> PublisherConfig \<Rightarrow> SocketEnv \<Rightarrow> PublisherCreateEnv \<Rightarrow> Context option \<Rightarrow> PublisherOs
     \<Rightarrow> ((Exception + PublisherImpl) \<times> Context option \<times> PublisherOs) option" where
  "createPublisher topic config connect env context os =
     (case contextChecks context topic of
        Inl e \<Rightarrow> Some (Inl e, context, os)
      | Inr c \<Rightarrow>
          (case cx_registry_session c of
             None \<Rightarrow> (case Publisher_direct topic config connect os of (r, os) \<Rightarrow> Some (r, context, os))
           | Some session \<Rightarrow>
               do { (r, session, _, os) \<leftarrow> Publisher_registry topic config session env os;
                    Some (r, Some (c\<lparr>cx_registry_session := Some session\<rparr>), os) }))"

definition createSubscriber ::
  "string \<Rightarrow> SubscriberConfig \<Rightarrow> SocketEnv \<Rightarrow> SubscriberCreateEnv \<Rightarrow> Context option \<Rightarrow> SubscriberOs
     \<Rightarrow> ((Exception + SubscriberImpl) \<times> Context option \<times> SubscriberOs) option" where
  "createSubscriber topic config listen env context os =
     (case contextChecks context topic of
        Inl e \<Rightarrow> Some (Inl e, context, os)
      | Inr c \<Rightarrow>
          (case cx_registry_session c of
             None \<Rightarrow> (case Subscriber_direct topic config listen os of (r, os) \<Rightarrow> Some (r, context, os))
           | Some session \<Rightarrow>
               do { (r, session, _, os) \<leftarrow> Subscriber_registry topic config session env os;
                    Some (r, Some (c\<lparr>cx_registry_session := Some session\<rparr>), os) }))"

definition Context_nodeName :: "Context option \<Rightarrow> string" where
  "Context_nodeName context = (case context of None \<Rightarrow> [] | Some c \<Rightarrow> cx_node_name c)"

end
