(* ===== verification/Spec2Isabelle.thy ===== *)
theory Spec2Isabelle
  imports MW_Pool_Properties MW_Wire_Properties MW_Queue_Properties MW_Registry_Properties
    MW_Server_Properties MW_Publisher_Properties MW_Delivery_Properties MW_Context
begin

text \<open>
  Verification of a shared memory publish/subscribe middleware.
\<close>

end
